(* ===== verification/Prelude.thy ===== *)
theory Prelude
  imports Main "HOL-Library.Word" "HOL-Library.Monad_Syntax"
begin

text \<open>
  Shared layer of the development: the fixed-width integer types of the C sources, the
  configuration switches the build sets, checked memory access, the byte-order accessors of
  \<open>utils/common.h\<close>, the byte-string primitives of \<open>utils/os_internal.c\<close>, and the generic
  lemmas on words, lists and options that the component theories use.
\<close>

unbundle bit_operations_syntax

section \<open>Types and collections\<close>

type_synonym u8 = "8 word"
type_synonym u16 = "16 word"
type_synonym u32 = "32 word"
type_synonym u64 = "64 word"
type_synonym bytes = "u8 list"

named_theorems mem_simps "checked memory access"
named_theorems wire_simps "byte order accessors"
named_theorems xor_simps "byte-wise exclusive or"

section \<open>Build configuration\<close>

text \<open>
  The compile-time switches (\<open>-DCONFIG_...\<close>) that the modelled lines test. The build of
  the repository (\<open>hostapd/defconfig\<close>, \<open>wpa_supplicant/defconfig\<close>) sets
  \<open>CONFIG_TENDONIN\<close> and \<open>CONFIG_PEERKEY\<close> and leaves the other switches off; it is
  \<open>pc2drc_config\<close>. \<open>stock_config\<close> is the same build without the gamepad patches.
\<close>

record build_config =
  CONFIG_TENDONIN :: bool
  CONFIG_IEEE80211W :: bool
  CONFIG_IEEE80211R :: bool
  CONFIG_SAE :: bool
  CONFIG_FIPS :: bool
  CONFIG_PEERKEY :: bool

definition pc2drc_config :: build_config where
  "pc2drc_config = \<lparr>CONFIG_TENDONIN = True, CONFIG_IEEE80211W = False,
     CONFIG_IEEE80211R = False, CONFIG_SAE = False, CONFIG_FIPS = False,
     CONFIG_PEERKEY = True\<rparr>"

definition stock_config :: build_config where
  "stock_config = pc2drc_config\<lparr>CONFIG_TENDONIN := False\<rparr>"

section \<open>Checked memory access\<close>

text \<open>
  A C object is the list of its bytes. A read or a slice outside it is undefined behaviour,
  written \<open>None\<close>; a function that touches memory through these operations therefore
  returns \<open>Some\<close> exactly when all its accesses are inside the objects it was given.
\<close>

definition c_read :: "'a list \<Rightarrow> nat \<Rightarrow> 'a option" where
  "c_read xs i = (if i < length xs then Some (xs ! i) else None)"

definition c_slice :: "'a list \<Rightarrow> nat \<Rightarrow> nat \<Rightarrow> 'a list option" where
  "c_slice xs i n = (if i + n \<le> length xs then Some (take n (drop i xs)) else None)"

definition c_write :: "'a list \<Rightarrow> nat \<Rightarrow> 'a \<Rightarrow> 'a list option" where
  "c_write xs i v = (if i < length xs then Some (xs[i := v]) else None)"

lemma c_read_Some [mem_simps, simp]: "i < length xs \<Longrightarrow> c_read xs i = Some (xs ! i)"
  by (simp add: c_read_def)

lemma c_read_None [mem_simps, simp]: "length xs \<le> i \<Longrightarrow> c_read xs i = None"
  by (simp add: c_read_def)

lemma c_slice_Some [mem_simps, simp]:
  "i + n \<le> length xs \<Longrightarrow> c_slice xs i n = Some (take n (drop i xs))"
  by (simp add: c_slice_def)

lemma c_slice_length: "c_slice xs i n = Some ys \<Longrightarrow> length ys = n"
  by (auto simp: c_slice_def split: if_splits)

lemma c_slice_None [mem_simps, simp]: "length xs < i + n \<Longrightarrow> c_slice xs i n = None"
  by (simp add: c_slice_def)

lemma c_write_Some [mem_simps, simp]: "i < length xs \<Longrightarrow> c_write xs i v = Some (xs[i := v])"
  by (simp add: c_write_def)

lemma bind_eq_Some_iff: "(m \<bind> f = Some y) \<longleftrightarrow> (\<exists>x. m = Some x \<and> f x = Some y)"
  by (cases m) auto

section \<open>Byte order (\<open>utils/common.h\<close>)\<close>

text \<open>
  \<open>WPA_GET_*\<close> read from the head of the object and \<open>WPA_PUT_*\<close> give the bytes written.
\<close>

definition WPA_GET_BE16 :: "bytes \<Rightarrow> u16" where
  "WPA_GET_BE16 a = push_bit 8 (ucast (a ! 0)) OR ucast (a ! 1)"

definition WPA_PUT_BE16 :: "u16 \<Rightarrow> bytes" where
  "WPA_PUT_BE16 v = [ucast (drop_bit 8 v), ucast (v AND 0xff)]"

definition WPA_GET_LE16 :: "bytes \<Rightarrow> u16" where
  "WPA_GET_LE16 a = push_bit 8 (ucast (a ! 1)) OR ucast (a ! 0)"

definition WPA_PUT_LE16 :: "u16 \<Rightarrow> bytes" where
  "WPA_PUT_LE16 v = [ucast (v AND 0xff), ucast (drop_bit 8 v)]"

definition WPA_GET_BE32 :: "bytes \<Rightarrow> u32" where
  "WPA_GET_BE32 a = push_bit 24 (ucast (a ! 0)) OR push_bit 16 (ucast (a ! 1)) OR
     push_bit 8 (ucast (a ! 2)) OR ucast (a ! 3)"

definition WPA_PUT_BE32 :: "u32 \<Rightarrow> bytes" where
  "WPA_PUT_BE32 v = [ucast (drop_bit 24 v AND 0xff), ucast (drop_bit 16 v AND 0xff),
     ucast (drop_bit 8 v AND 0xff), ucast (v AND 0xff)]"

definition WPA_GET_LE32 :: "bytes \<Rightarrow> u32" where
  "WPA_GET_LE32 a = push_bit 24 (ucast (a ! 3)) OR push_bit 16 (ucast (a ! 2)) OR
     push_bit 8 (ucast (a ! 1)) OR ucast (a ! 0)"

definition WPA_PUT_LE32 :: "u32 \<Rightarrow> bytes" where
  "WPA_PUT_LE32 v = [ucast (v AND 0xff), ucast (drop_bit 8 v AND 0xff),
     ucast (drop_bit 16 v AND 0xff), ucast (drop_bit 24 v AND 0xff)]"

definition WPA_PUT_BE64 :: "u64 \<Rightarrow> bytes" where
  "WPA_PUT_BE64 v = [ucast (drop_bit 56 v), ucast (drop_bit 48 v), ucast (drop_bit 40 v),
     ucast (drop_bit 32 v), ucast (drop_bit 24 v), ucast (drop_bit 16 v),
     ucast (drop_bit 8 v), ucast (v AND 0xff)]"

text \<open>Bit-level equality of words, reduced to the finitely many bit positions.\<close>

lemma all_less_Suc_iff: "(\<forall>n < Suc k. P n) \<longleftrightarrow> (\<forall>n < k. P n) \<and> P k"
  by (auto simp: less_Suc_eq)

lemma word_eq_iff_bits: "(a :: 'a::len word) = b \<longleftrightarrow> (\<forall>n < LENGTH('a). bit a n = bit b n)"
  by (auto intro: bit_word_eqI)

lemma word8_eq_iff: "(a :: u8) = b \<longleftrightarrow>
  bit a 0 = bit b 0 \<and> bit a 1 = bit b 1 \<and> bit a 2 = bit b 2 \<and> bit a 3 = bit b 3 \<and>
  bit a 4 = bit b 4 \<and> bit a 5 = bit b 5 \<and> bit a 6 = bit b 6 \<and> bit a 7 = bit b 7"
  by (simp add: word_eq_iff_bits eval_nat_numeral all_less_Suc_iff)

lemma word16_eq_iff: "(a :: u16) = b \<longleftrightarrow>
  bit a 0 = bit b 0 \<and> bit a 1 = bit b 1 \<and> bit a 2 = bit b 2 \<and> bit a 3 = bit b 3 \<and>
  bit a 4 = bit b 4 \<and> bit a 5 = bit b 5 \<and> bit a 6 = bit b 6 \<and> bit a 7 = bit b 7 \<and>
  bit a 8 = bit b 8 \<and> bit a 9 = bit b 9 \<and> bit a 10 = bit b 10 \<and> bit a 11 = bit b 11 \<and>
  bit a 12 = bit b 12 \<and> bit a 13 = bit b 13 \<and> bit a 14 = bit b 14 \<and> bit a 15 = bit b 15"
  by (simp add: word_eq_iff_bits eval_nat_numeral all_less_Suc_iff)

lemma word32_eq_iff: "(a :: u32) = b \<longleftrightarrow>
  bit a 0 = bit b 0 \<and> bit a 1 = bit b 1 \<and> bit a 2 = bit b 2 \<and> bit a 3 = bit b 3 \<and>
  bit a 4 = bit b 4 \<and> bit a 5 = bit b 5 \<and> bit a 6 = bit b 6 \<and> bit a 7 = bit b 7 \<and>
  bit a 8 = bit b 8 \<and> bit a 9 = bit b 9 \<and> bit a 10 = bit b 10 \<and> bit a 11 = bit b 11 \<and>
  bit a 12 = bit b 12 \<and> bit a 13 = bit b 13 \<and> bit a 14 = bit b 14 \<and> bit a 15 = bit b 15 \<and>
  bit a 16 = bit b 16 \<and> bit a 17 = bit b 17 \<and> bit a 18 = bit b 18 \<and> bit a 19 = bit b 19 \<and>
  bit a 20 = bit b 20 \<and> bit a 21 = bit b 21 \<and> bit a 22 = bit b 22 \<and> bit a 23 = bit b 23 \<and>
  bit a 24 = bit b 24 \<and> bit a 25 = bit b 25 \<and> bit a 26 = bit b 26 \<and> bit a 27 = bit b 27 \<and>
  bit a 28 = bit b 28 \<and> bit a 29 = bit b 29 \<and> bit a 30 = bit b 30 \<and> bit a 31 = bit b 31"
  by (simp add: word_eq_iff_bits eval_nat_numeral all_less_Suc_iff)

lemma bit_word_ge [simp]:
  "8 \<le> n \<Longrightarrow> \<not> bit (x :: u8) n" "16 \<le> n \<Longrightarrow> \<not> bit (y :: u16) n"
  "32 \<le> n \<Longrightarrow> \<not> bit (z :: u32) n"
  by (auto dest: bit_imp_le_length)

lemma put_lengths [wire_simps, simp]:
  "length (WPA_PUT_BE16 v) = 2" "length (WPA_PUT_LE16 v) = 2"
  "length (WPA_PUT_BE32 w) = 4" "length (WPA_PUT_LE32 w) = 4" "length (WPA_PUT_BE64 x) = 8"
  by (simp_all add: WPA_PUT_BE16_def WPA_PUT_LE16_def WPA_PUT_BE32_def WPA_PUT_LE32_def
      WPA_PUT_BE64_def)

lemma bit_255_int [simp]: "bit (255 :: int) n \<longleftrightarrow> n < 8"
proof -
  have "(255 :: int) = mask 8" by (simp add: mask_eq_exp_minus_1)
  then show ?thesis by (simp only: bit_mask_iff) simp
qed

lemma get_put_be16 [wire_simps, simp]: "WPA_GET_BE16 (WPA_PUT_BE16 v @ r) = v"
  by (rule bit_word_eqI) (auto simp: WPA_GET_BE16_def WPA_PUT_BE16_def bit_simps)

lemma get_put_le16 [wire_simps, simp]: "WPA_GET_LE16 (WPA_PUT_LE16 v @ r) = v"
  by (rule bit_word_eqI) (auto simp: WPA_GET_LE16_def WPA_PUT_LE16_def bit_simps)

lemma get_put_be32 [wire_simps, simp]: "WPA_GET_BE32 (WPA_PUT_BE32 v @ r) = v"
  by (simp add: word32_eq_iff WPA_GET_BE32_def WPA_PUT_BE32_def bit_simps)

lemma get_put_le32 [wire_simps, simp]: "WPA_GET_LE32 (WPA_PUT_LE32 v @ r) = v"
  by (simp add: word32_eq_iff WPA_GET_LE32_def WPA_PUT_LE32_def bit_simps)

lemma put_get_be32:
  assumes "length a = 4" shows "WPA_PUT_BE32 (WPA_GET_BE32 a) = a"
proof -
  from assms obtain b0 b1 b2 b3 where a: "a = [b0, b1, b2, b3]"
    by (auto simp: numeral_eq_Suc length_Suc_conv)
  show ?thesis
    unfolding a WPA_PUT_BE32_def WPA_GET_BE32_def
    by (simp add: word8_eq_iff bit_simps)
qed

lemma unat_u8_less: "unat (v :: u8) < 256"
  using unsigned_less [of v, where 'a = nat] by simp

section \<open>Byte-wise exclusive or\<close>


definition xor_bytes :: "bytes \<Rightarrow> bytes \<Rightarrow> bytes" where
  "xor_bytes xs ys = map2 (XOR) xs ys"

lemma length_xor_bytes [xor_simps, simp]: "length (xor_bytes xs ys) = min (length xs) (length ys)"
  by (simp add: xor_bytes_def)

lemma nth_xor_bytes [xor_simps, simp]:
  "i < length xs \<Longrightarrow> i < length ys \<Longrightarrow> xor_bytes xs ys ! i = xs ! i XOR ys ! i"
  by (simp add: xor_bytes_def)

lemma xor_bytes_cancel [xor_simps, simp]: "length xs \<le> length ys \<Longrightarrow> xor_bytes (xor_bytes xs ys) ys = xs"
  by (rule nth_equalityI) (simp_all add: xor.assoc)

lemma xor_bytes_cancel' [xor_simps, simp]: "length xs \<le> length ys \<Longrightarrow> xor_bytes ys (xor_bytes ys xs) = xs"
  by (rule nth_equalityI) (simp_all flip: xor.assoc)

lemma xor_bytes_commute: "xor_bytes xs ys = xor_bytes ys xs"
  by (rule nth_equalityI) (simp_all add: xor.commute)

section \<open>Passes that undo each other\<close>

lemma fold_rev_inverse:
  assumes "\<And>x s. x \<in> set xs \<Longrightarrow> P s \<Longrightarrow> P (f x s) \<and> g x (f x s) = s" "P s"
  shows "P (fold f xs s) \<and> fold g (rev xs) (fold f xs s) = s"
  using assms by (induction xs arbitrary: s) simp_all

end
