(* ===== verification/Os_Internal.thy ===== *)
theory Os_Internal
  imports Prelude
begin

text \<open>
  The byte and string primitives of \<open>utils/os_internal.c\<close>. A writable object is the list of
  its bytes and a position in it; a read-only pointer is the rest of its object, so that
  dereferencing past the end is a match on the empty list and yields \<open>None\<close>.
\<close>

section \<open>Memory blocks\<close>

text \<open>
  \<open>os_memcpy\<close> and the backward loop of \<open>os_memmove\<close> inside one object: \<open>d\<close> and \<open>s\<close> are
  the offsets of \<open>dest\<close> and \<open>src\<close>.
\<close>

fun os_memcpy :: "bytes \<Rightarrow> nat \<Rightarrow> nat \<Rightarrow> nat \<Rightarrow> bytes option" where
  "os_memcpy m d s 0 = Some m"
| "os_memcpy m d s (Suc n) = do {
     v \<leftarrow> c_read m s;
     m' \<leftarrow> c_write m d v;
     os_memcpy m' (Suc d) (Suc s) n }"

fun os_memmove_down :: "bytes \<Rightarrow> nat \<Rightarrow> nat \<Rightarrow> nat \<Rightarrow> bytes option" where
  "os_memmove_down m d s 0 = Some m"
| "os_memmove_down m d s (Suc n) = do {
     v \<leftarrow> c_read m (s + n);
     m' \<leftarrow> c_write m (d + n) v;
     os_memmove_down m' d s n }"

definition os_memmove :: "bytes \<Rightarrow> nat \<Rightarrow> nat \<Rightarrow> nat \<Rightarrow> bytes option" where
  "os_memmove m d s n = (if d < s then os_memcpy m d s n else os_memmove_down m d s n)"

fun os_memset :: "bytes \<Rightarrow> nat \<Rightarrow> u8 \<Rightarrow> nat \<Rightarrow> bytes option" where
  "os_memset m p c 0 = Some m"
| "os_memset m p c (Suc n) = do { m' \<leftarrow> c_write m p c; os_memset m' (Suc p) c n }"

text \<open>The loop compares while the bytes agree; the result is the difference of the first two
  bytes that do not.\<close>

fun os_memcmp :: "bytes \<Rightarrow> bytes \<Rightarrow> nat \<Rightarrow> int option" where
  "os_memcmp p1 p2 0 = Some 0"
| "os_memcmp (x # p1) (y # p2) (Suc n) =
     (if x = y then os_memcmp p1 p2 n else Some (uint x - uint y))"
| "os_memcmp _ _ (Suc n) = None"

section \<open>Strings\<close>

fun os_strlen :: "bytes \<Rightarrow> nat option" where
  "os_strlen [] = None"
| "os_strlen (c # s) = (if c = 0 then Some 0 else map_option Suc (os_strlen s))"

text \<open>A found pointer is the rest of the string from the match on; \<open>Some None\<close> is NULL.\<close>

fun os_strchr :: "bytes \<Rightarrow> u8 \<Rightarrow> bytes option option" where
  "os_strchr [] c = None"
| "os_strchr (x # s) c =
     (if x = 0 then Some None else if x = c then Some (Some (x # s)) else os_strchr s c)"

text \<open>\<open>char\<close> is signed on the build target, so the result is a signed difference.\<close>

fun os_strcmp :: "bytes \<Rightarrow> bytes \<Rightarrow> int option" where
  "os_strcmp (x # s1) (y # s2) =
     (if x = y then (if x = 0 then Some 0 else os_strcmp s1 s2) else Some (sint x - sint y))"
| "os_strcmp _ _ = None"

fun os_strncmp :: "bytes \<Rightarrow> bytes \<Rightarrow> nat \<Rightarrow> int option" where
  "os_strncmp s1 s2 0 = Some 0"
| "os_strncmp (x # s1) (y # s2) (Suc n) =
     (if x = y then (if x = 0 then Some 0 else os_strncmp s1 s2 n)
      else Some (sint x - sint y))"
| "os_strncmp _ _ (Suc n) = None"

text \<open>
  \<open>os_strlcpy\<close>: the copy loop runs with \<open>left\<close> counted down before each byte; it returns the
  destination, the position in it, the rest of the source and the number of source bytes
  consumed, and whether \<open>left\<close> reached 0.
\<close>

fun os_strlcpy_copy :: "bytes \<Rightarrow> nat \<Rightarrow> bytes \<Rightarrow> nat \<Rightarrow> nat \<Rightarrow>
    (bytes \<times> nat \<times> bytes \<times> nat \<times> bool) option" where
  "os_strlcpy_copy dest d s k 0 = Some (dest, d, s, k, True)"
| "os_strlcpy_copy dest d s k (Suc left) =
     (if left = 0 then Some (dest, d, s, k, True)
      else (case s of
          [] \<Rightarrow> None
        | c # s' \<Rightarrow> do {
            dest' \<leftarrow> c_write dest d c;
            if c = 0 then Some (dest', Suc d, s', Suc k, False)
            else os_strlcpy_copy dest' (Suc d) s' (Suc k) left }))"

definition os_strlcpy :: "bytes \<Rightarrow> bytes \<Rightarrow> nat \<Rightarrow> (bytes \<times> nat) option" where
  "os_strlcpy dest src siz = do {
     (dest, d, s, k, full) \<leftarrow> os_strlcpy_copy dest 0 src 0 siz;
     if full then do {
       dest \<leftarrow> (if siz \<noteq> 0 then c_write dest d 0 else Some dest);
       rest \<leftarrow> os_strlen s;
       Some (dest, k + rest) }
     else Some (dest, k - 1) }"

fun os_strstr :: "bytes \<Rightarrow> bytes \<Rightarrow> bytes option option" where
  "os_strstr [] needle = None"
| "os_strstr (x # haystack) needle = do {
     len \<leftarrow> os_strlen needle;
     if x = 0 then Some None else do {
       c \<leftarrow> os_strncmp (x # haystack) needle len;
       if c = 0 then Some (Some (x # haystack)) else os_strstr haystack needle } }"

section \<open>Correctness\<close>

text \<open>What a block copy means, whatever the overlap: the bytes of \<open>src\<close> as they were before
  the copy.\<close>

definition copied :: "bytes \<Rightarrow> nat \<Rightarrow> nat \<Rightarrow> nat \<Rightarrow> bytes" where
  "copied m d s n = take d m @ take n (drop s m) @ drop (d + n) m"

lemma length_copied: "\<lbrakk>s + n \<le> length m; d + n \<le> length m\<rbrakk> \<Longrightarrow> length (copied m d s n) = length m"
  by (simp add: copied_def)

lemma nth_copied:
  assumes "s + n \<le> length m" "d + n \<le> length m" "i < length m"
  shows "copied m d s n ! i = (if d \<le> i \<and> i < d + n then m ! (s + (i - d)) else m ! i)"
  using assms by (auto simp: copied_def nth_append)

lemma copied_cong:
  assumes "s + n \<le> length m" "d + n \<le> length m" "length r = length m"
    and "\<And>i. i < length m \<Longrightarrow> r ! i = (if d \<le> i \<and> i < d + n then m ! (s + (i - d)) else m ! i)"
  shows "r = copied m d s n"
  using assms by (intro nth_equalityI) (simp_all add: length_copied nth_copied)

lemma copied_0 [simp]: "copied m d s 0 = m"
  by (simp add: copied_def)

lemma os_memcpy_forward:
  "\<lbrakk>d \<le> s; s + n \<le> length m\<rbrakk> \<Longrightarrow> os_memcpy m d s n = Some (copied m d s n)"
proof (induction n arbitrary: m d s)
  case (Suc n)
  let ?m = "m[d := m ! s]"
  have "os_memcpy m d s (Suc n) = Some (copied ?m (Suc d) (Suc s) n)"
    using Suc by simp
  also have "copied ?m (Suc d) (Suc s) n = copied m d s (Suc n)"
    using Suc.prems
    by (intro copied_cong)
      (auto simp: length_copied nth_copied nth_list_update Suc_diff_Suc simp flip: Suc_diff_le)
  finally show ?case .
qed simp

lemma os_memmove_down_correct:
  "\<lbrakk>s \<le> d; d + n \<le> length m\<rbrakk> \<Longrightarrow> os_memmove_down m d s n = Some (copied m d s n)"
proof (induction n arbitrary: m)
  case (Suc n)
  let ?m = "m[d + n := m ! (s + n)]"
  have "os_memmove_down m d s (Suc n) = Some (copied ?m d s n)"
    using Suc by simp
  also have "copied ?m d s n = copied m d s (Suc n)"
    using Suc.prems by (intro copied_cong) (auto simp: length_copied nth_copied nth_list_update)
  finally show ?case .
qed simp

lemma os_memmove_copied:
  "\<lbrakk>s + n \<le> length m; d + n \<le> length m\<rbrakk> \<Longrightarrow> os_memmove m d s n = Some (copied m d s n)"
  by (simp add: os_memmove_def os_memcpy_forward os_memmove_down_correct)

lemma os_memset_correct:
  "p + n \<le> length m \<Longrightarrow> os_memset m p c n = Some (take p m @ replicate n c @ drop (p + n) m)"
proof (induction n arbitrary: m p)
  case (Suc n)
  then have "os_memset m p c (Suc n) =
    Some (take (Suc p) (m[p := c]) @ replicate n c @ drop (Suc p + n) (m[p := c]))" by simp
  also have "take (Suc p) (m[p := c]) = take p m @ [c]"
    using Suc.prems by (simp add: take_Suc_conv_app_nth)
  finally show ?case by simp
qed simp

lemma os_memcmp_correct:
  "\<lbrakk>n \<le> length p1; n \<le> length p2\<rbrakk> \<Longrightarrow>
     \<exists>r. os_memcmp p1 p2 n = Some r \<and> (r = 0 \<longleftrightarrow> take n p1 = take n p2)"
  by (induction p1 p2 n rule: os_memcmp.induct) (auto simp flip: word_uint_eq_iff)

lemma os_memcmp_0_iff:
  "\<lbrakk>n \<le> length p1; n \<le> length p2\<rbrakk> \<Longrightarrow> os_memcmp p1 p2 n = Some 0 \<longleftrightarrow> take n p1 = take n p2"
  using os_memcmp_correct by fastforce

text \<open>Swapping the operands negates the result: the order that key derivation relies on.\<close>

lemma os_memcmp_swap:
  "\<lbrakk>n \<le> length p1; n \<le> length p2\<rbrakk> \<Longrightarrow>
     os_memcmp p2 p1 n = map_option uminus (os_memcmp p1 p2 n)"
  by (induction p1 p2 n rule: os_memcmp.induct) auto

text \<open>The string in an object: the bytes before the first NUL.\<close>

definition c_str :: "bytes \<Rightarrow> bytes" where
  "c_str s = takeWhile (\<lambda>c. c \<noteq> 0) s"

lemma c_str_simps [simp]: "c_str [] = []" "c_str (c # s) = (if c = 0 then [] else c # c_str s)"
  by (simp_all add: c_str_def)

lemma os_strlen_correct:
  "os_strlen s = (if 0 \<in> set s then Some (length (c_str s)) else None)"
  by (induction s) auto

lemma os_strchr_correct:
  "0 \<in> set s \<Longrightarrow> c \<noteq> 0 \<Longrightarrow> os_strchr s c =
     Some (if c \<in> set (c_str s) then Some (dropWhile (\<lambda>x. x \<noteq> c) s) else None)"
  by (induction s) auto

lemma os_strcmp_correct:
  "\<lbrakk>0 \<in> set s1; 0 \<in> set s2\<rbrakk> \<Longrightarrow>
     \<exists>r. os_strcmp s1 s2 = Some r \<and> (r = 0 \<longleftrightarrow> c_str s1 = c_str s2)"
proof (induction s1 s2 rule: os_strcmp.induct)
  case (1 x s1 y s2)
  have "sint x - sint y = 0 \<longleftrightarrow> x = y"
    by (simp add: signed_word_eqI) (metis signed_word_eqI)
  with 1 show ?case by auto
qed auto

lemma os_strlcpy_copy_correct:
  assumes "0 \<in> set s" "siz \<noteq> 0" "d + siz \<le> length dest"
  shows "os_strlcpy_copy dest d s k siz =
    (let str = c_str s; n = length str in
     if n < siz - 1
     then Some (take d dest @ str @ 0 # drop (d + n + 1) dest, d + n + 1,
            drop (n + 1) s, k + n + 1, False)
     else Some (take d dest @ take (siz - 1) str @ drop (d + siz - 1) dest, d + siz - 1,
            drop (siz - 1) s, k + siz - 1, True))"
  using assms
proof (induction siz arbitrary: dest d s k)
  case (Suc left)
  show ?case
  proof (cases "left = 0")
    case False
    then obtain c s' where s: "s = c # s'" using Suc.prems by (cases s) auto
    have w: "c_write dest d c = Some (dest[d := c])" using Suc.prems by simp
    have t: "take (Suc d) (dest[d := c]) = take d dest @ [c]"
      using Suc.prems by (simp add: take_Suc_conv_app_nth)
    show ?thesis
    proof (cases "c = 0")
      case True
      have "dest[d := 0] = take d dest @ 0 # drop (d + 1) dest"
        using Suc.prems by (simp add: upd_conv_take_nth_drop)
      with True False s w show ?thesis by simp
    next
      case c: False
      have "os_strlcpy_copy dest d s k (Suc left) =
        os_strlcpy_copy (dest[d := c]) (Suc d) s' (Suc k) left"
        using False s w c by simp
      also have "\<dots> = (let str = c_str s'; n = length str in
         if n < left - 1
         then Some (take (Suc d) (dest[d := c]) @ str @ 0 # drop (Suc d + n + 1) (dest[d := c]),
                Suc d + n + 1, drop (n + 1) s', Suc k + n + 1, False)
         else Some (take (Suc d) (dest[d := c]) @ take (left - 1) str @
                drop (Suc d + left - 1) (dest[d := c]), Suc d + left - 1,
                drop (left - 1) s', Suc k + left - 1, True))"
        using Suc.prems False s c by (intro Suc.IH) auto
      finally show ?thesis
        using False s c t by (cases left) (auto simp: Let_def)
    qed
  qed simp
qed simp

lemma c_str_split: "0 \<in> set s \<Longrightarrow> s = c_str s @ 0 # drop (length (c_str s) + 1) s"
  by (induction s) auto

lemma os_strlen_drop:
  "0 \<in> set s \<Longrightarrow> k \<le> length (c_str s) \<Longrightarrow> os_strlen (drop k s) = Some (length (c_str s) - k)"
proof (induction s arbitrary: k)
  case (Cons c s)
  show ?case
  proof (cases k)
    case 0
    with Cons.prems show ?thesis by (simp add: os_strlen_correct)
  next
    case (Suc j)
    with Cons show ?thesis by (simp split: if_splits)
  qed
qed simp

section \<open>Properties\<close>

text \<open>
  \<open>os_memmove\<close> inside one object is a correct move for every overlap of the two areas: when
  both areas lie in the object it succeeds and the destination holds the bytes the source held
  before the call, everything else unchanged.
\<close>

theorem os_memmove_correct:
  assumes "s + n \<le> length m" "d + n \<le> length m"
  shows "os_memmove m d s n = Some (take d m @ take n (drop s m) @ drop (d + n) m)"
  using os_memmove_copied [OF assms] by (simp add: copied_def)

theorem os_memmove_correct_witness:
  "os_memmove [1, 2, 3, 4, 5] 1 0 3 = Some [1, 1, 2, 3, 5]"
  using os_memmove_correct [of 0 3 "[1, 2, 3, 4, 5]" 1] by simp

text \<open>
  \<open>os_strlcpy\<close> never overruns the destination and always terminates it: for a terminated
  source and a destination of at least \<open>siz\<close> bytes it copies the longest prefix of the source
  string that fits in \<open>siz - 1\<close> bytes, writes one NUL after it, leaves the other bytes
  alone, writes nothing when \<open>siz\<close> is 0, and returns the length of the source string.
\<close>

theorem os_strlcpy_correct:
  assumes "0 \<in> set src" "siz \<le> length dest"
  shows "os_strlcpy dest src siz =
    Some (if siz = 0 then dest
          else (let str = take (siz - 1) (c_str src)
                in str @ 0 # drop (length str + 1) dest), length (c_str src))"
proof (cases "siz = 0")
  case True
  with assms show ?thesis by (simp add: os_strlcpy_def os_strlen_correct)
next
  case siz: False
  let ?n = "length (c_str src)"
  note copy = os_strlcpy_copy_correct [OF assms(1) siz, of 0 dest 0, simplified, OF assms(2)]
  show ?thesis
  proof (cases "?n < siz - 1")
    case True
    then show ?thesis using siz by (simp add: os_strlcpy_def copy Let_def)
  next
    case False
    with assms siz have "os_strlen (drop (siz - 1) src) = Some (?n - (siz - 1))"
      by (intro os_strlen_drop) auto
    moreover have "c_write (take (siz - 1) (c_str src) @ drop (siz - 1) dest) (siz - 1) 0 =
        Some (take (siz - 1) (c_str src) @ 0 # drop siz dest)"
      using False siz assms(2)
      by (simp add: list_update_append upd_conv_take_nth_drop Suc_diff_Suc)
    ultimately show ?thesis
      using False siz by (simp add: os_strlcpy_def copy Let_def)
  qed
qed

theorem os_strlcpy_correct_witness:
  "os_strlcpy [9, 9, 9, 9] [65, 66, 67, 68, 0] 3 = Some ([65, 66, 0, 9], 4)"
  using os_strlcpy_correct [of "[65, 66, 67, 68, 0]" 3 "[9, 9, 9, 9]"] by simp

end
