(* ===== verification/Base64.thy ===== *)
theory Base64
  imports Prelude
begin

text \<open>
  \<open>utils/base64.c\<close>: encoding with a line feed after every 72 characters and at the end,
  decoding that skips every character outside the alphabet. \<open>mem n\<close> says whether
  \<open>os_malloc(n)\<close> returns memory. The theory proves that the encoder stays inside its buffer
  and that decoding inverts encoding.
\<close>

definition base64_table :: bytes where
  "base64_table =
     map of_char ''ABCDEFGHIJKLMNOPQRSTUVWXYZabcdefghijklmnopqrstuvwxyz0123456789+/''"

section \<open>Encoding\<close>

text \<open>The table indices of one block: the four sextets of three bytes, and the last sextets of
  a short block.\<close>

definition sextet0 :: "u8 \<Rightarrow> u8" where
  "sextet0 i0 = drop_bit 2 i0"

definition sextet1 :: "u8 \<Rightarrow> u8 \<Rightarrow> u8" where
  "sextet1 i0 i1 = push_bit 4 (i0 AND 0x03) OR drop_bit 4 i1"

definition sextet2 :: "u8 \<Rightarrow> u8 \<Rightarrow> u8" where
  "sextet2 i1 i2 = push_bit 2 (i1 AND 0x0f) OR drop_bit 6 i2"

definition sextet3 :: "u8 \<Rightarrow> u8" where
  "sextet3 i2 = i2 AND 0x3f"

definition last_sextet1 :: "u8 \<Rightarrow> u8" where
  "last_sextet1 i0 = push_bit 4 (i0 AND 0x03)"

definition last_sextet2 :: "u8 \<Rightarrow> u8" where
  "last_sextet2 i1 = push_bit 2 (i1 AND 0x0f)"

lemmas sextet_defs = sextet0_def sextet1_def sextet2_def sextet3_def last_sextet1_def
  last_sextet2_def

text \<open>The main loop on blocks of three bytes; it returns the characters written, the rest of
  the input and \<open>line_len\<close>.\<close>

fun base64_encode_blocks :: "bytes \<Rightarrow> nat \<Rightarrow> bytes \<times> bytes \<times> nat" where
  "base64_encode_blocks (i0 # i1 # i2 # ins) line_len =
     (let chars = [base64_table ! unat (sextet0 i0),
                   base64_table ! unat (sextet1 i0 i1),
                   base64_table ! unat (sextet2 i1 i2),
                   base64_table ! unat (sextet3 i2)];
          line_len = line_len + 4;
          (nl, line_len) = (if line_len \<ge> 72 then ([10], 0) else ([], line_len));
          (out, rest, line_len) = base64_encode_blocks ins line_len
      in (chars @ nl @ out, rest, line_len))"
| "base64_encode_blocks ins line_len = ([], ins, line_len)"

definition base64_encode_tail :: "bytes \<Rightarrow> nat \<Rightarrow> bytes \<times> nat" where
  "base64_encode_tail ins line_len =
     (case ins of
        [] \<Rightarrow> ([], line_len)
      | [i0] \<Rightarrow> ([base64_table ! unat (sextet0 i0),
                 base64_table ! unat (last_sextet1 i0), 61, 61], line_len + 4)
      | i0 # i1 # _ \<Rightarrow> ([base64_table ! unat (sextet0 i0),
                 base64_table ! unat (sextet1 i0 i1),
                 base64_table ! unat (last_sextet2 i1), 61], line_len + 4))"

text \<open>The buffer size is computed in \<open>size_t\<close>.\<close>

definition base64_encode_olen :: "u64 \<Rightarrow> u64" where
  "base64_encode_olen len =
     (let olen = len * 4 div 3 + 4;
          olen = olen + olen div 72
      in olen + 1)"

definition base64_encode :: "(u64 \<Rightarrow> bool) \<Rightarrow> bytes \<Rightarrow> bytes option" where
  "base64_encode mem src =
     (let len = of_nat (length src); olen = base64_encode_olen len
      in if olen < len then None
      else if \<not> mem olen then None
      else let (blocks, ins, line_len) = base64_encode_blocks src 0;
               (tail, line_len) = base64_encode_tail ins line_len
           in Some (blocks @ tail @ (if line_len \<noteq> 0 then [10] else [])))"

section \<open>Decoding\<close>

definition dtable :: bytes where
  "dtable = (fold (\<lambda>i d. d[unat (base64_table ! i) := of_nat i]) [0..<64] (replicate 256 0x80))
     [61 := 0]"

fun base64_decode_loop :: "bytes \<Rightarrow> bytes \<Rightarrow> nat \<Rightarrow> bytes \<Rightarrow> bytes option" where
  "base64_decode_loop [] block pad out = Some out"
| "base64_decode_loop (c # src) block pad out =
     (let tmp = dtable ! unat c
      in if tmp = 0x80 then base64_decode_loop src block pad out
      else let pad = (if c = 61 then pad + 1 else pad);
               block = block @ [tmp]
           in if length block = 4
              then let out = out @ [push_bit 2 (block ! 0) OR drop_bit 4 (block ! 1),
                                    push_bit 4 (block ! 1) OR drop_bit 2 (block ! 2),
                                    push_bit 6 (block ! 2) OR block ! 3]
                   in if pad \<noteq> 0
                      then if pad = 1 then Some (take (length out - 1) out)
                           else if pad = 2 then Some (take (length out - 2) out)
                           else None
                      else base64_decode_loop src [] pad out
              else base64_decode_loop src block pad out)"

definition base64_decode :: "(u64 \<Rightarrow> bool) \<Rightarrow> bytes \<Rightarrow> bytes option" where
  "base64_decode mem src =
     (let count = length (filter (\<lambda>c. dtable ! unat c \<noteq> 0x80) src)
      in if count = 0 \<or> count mod 4 \<noteq> 0 then None
      else if \<not> mem (of_nat (count div 4 * 3)) then None
      else base64_decode_loop src [] 0 [])"

section \<open>The tables\<close>

lemma length_base64_table: "length base64_table = 64"
  by (simp add: base64_table_def)

lemma fold_list_update_other:
  "k \<notin> f ` set xs \<Longrightarrow> fold (\<lambda>i d. d[f i := g i]) xs d ! k = d ! k"
  by (induction xs arbitrary: d) auto

lemma length_fold_list_update [simp]: "length (fold (\<lambda>i d. d[f i := g i]) xs d) = length d"
  by (induction xs arbitrary: d) auto

lemma fold_list_update_nth:
  "\<lbrakk>distinct (map f xs); i \<in> set xs; f i < length d\<rbrakk> \<Longrightarrow>
     fold (\<lambda>i d. d[f i := g i]) xs d ! f i = g i"
proof (induction xs arbitrary: d)
  case (Cons x xs)
  show ?case
  proof (cases "i = x")
    case True
    with Cons.prems show ?thesis by (simp add: fold_list_update_other)
  next
    case False
    with Cons show ?thesis by simp
  qed
qed simp

lemma base64_table_distinct: "distinct (map unat base64_table)"
  by code_simp

lemma base64_table_clean:
  "\<forall>c \<in> set (map unat base64_table). c \<noteq> 61 \<and> c \<noteq> 10 \<and> c < 256"
  by code_simp

lemma unat_base64_table_nth: "map (\<lambda>i. unat (base64_table ! i)) [0..<64] = map unat base64_table"
  by (rule nth_equalityI) (simp_all add: length_base64_table)

lemma base64_table_nth_clean:
  assumes "i < 64"
  shows "unat (base64_table ! i) \<noteq> 61" "unat (base64_table ! i) \<noteq> 10" "unat (base64_table ! i) < 256"
proof -
  have "unat (base64_table ! i) \<in> set (map unat base64_table)"
    using assms by (simp add: length_base64_table)
  then show "unat (base64_table ! i) \<noteq> 61" "unat (base64_table ! i) \<noteq> 10"
    "unat (base64_table ! i) < 256"
    using base64_table_clean by blast+
qed

lemma dtable_table: "i < 64 \<Longrightarrow> dtable ! unat (base64_table ! i) = of_nat i"
proof -
  assume i: "i < 64"
  have "fold (\<lambda>i d. d[unat (base64_table ! i) := of_nat i :: u8]) [0..<64] (replicate 256 0x80) !
      unat (base64_table ! i) = of_nat i"
    using i base64_table_nth_clean(3) [OF i]
    by (intro fold_list_update_nth [where f = "\<lambda>i. unat (base64_table ! i)"])
      (simp_all add: unat_base64_table_nth base64_table_distinct)
  then show ?thesis
    using base64_table_nth_clean(1) [OF i] by (simp add: dtable_def)
qed

lemma base64_table_neq_pad: "i < 64 \<Longrightarrow> base64_table ! i \<noteq> 61"
  using base64_table_nth_clean(1) [of i] by auto

lemma dtable_pad [simp]: "dtable ! 61 = 0"
  by (simp add: dtable_def)

lemma dtable_newline [simp]: "dtable ! 10 = 0x80"
proof -
  have "10 \<notin> (\<lambda>i. unat (base64_table ! i)) ` set [0..<64]"
    using base64_table_nth_clean(2) by fastforce
  then show ?thesis by (simp add: dtable_def fold_list_update_other)
qed

text \<open>A sextet is looked up and found again.\<close>

lemma dtable_sextet:
  assumes "unat t < 64"
  shows "dtable ! unat (base64_table ! unat t) = t" "t \<noteq> 0x80" "base64_table ! unat t \<noteq> 61"
  using assms dtable_table [of "unat t"] base64_table_neq_pad [of "unat t"] by auto

lemma sextet_bounds:
  "unat (sextet0 a) < 64" "unat (sextet1 a b) < 64" "unat (sextet2 a b) < 64"
  "unat (sextet3 a) < 64" "unat (last_sextet1 a) < 64" "unat (last_sextet2 a) < 64"
proof -
  have *: "unat x < 64" if "take_bit 6 x = x" for x :: u8
  proof -
    have "unat (take_bit 6 x) < 2 ^ 6"
      by (simp only: unsigned_take_bit_eq take_bit_nat_less_exp)
    with that show ?thesis by simp
  qed
  show "unat (sextet0 a) < 64" "unat (sextet1 a b) < 64" "unat (sextet2 a b) < 64"
    "unat (sextet3 a) < 64" "unat (last_sextet1 a) < 64" "unat (last_sextet2 a) < 64"
    by (rule *, simp add: sextet_defs word8_eq_iff bit_simps)+
qed

text \<open>Four sextets give the three bytes back.\<close>

lemma sextets_join:
  "push_bit 2 (sextet0 a) OR drop_bit 4 (sextet1 a b) = a"
  "push_bit 4 (sextet1 a b) OR drop_bit 2 (sextet2 b c) = b"
  "push_bit 6 (sextet2 b c) OR sextet3 c = c"
  "push_bit 2 (sextet0 a) OR drop_bit 4 (last_sextet1 a) = a"
  "push_bit 4 (sextet1 a b) OR drop_bit 2 (last_sextet2 b) = b"
  by (simp_all add: sextet_defs word8_eq_iff bit_simps)

section \<open>Decoding what was encoded\<close>

abbreviation b64_char :: "u8 \<Rightarrow> u8" where
  "b64_char t \<equiv> base64_table ! unat t"

abbreviation b64_counted :: "bytes \<Rightarrow> nat" where
  "b64_counted s \<equiv> length (filter (\<lambda>c. dtable ! unat c \<noteq> 0x80) s)"

lemma decode_newline [simp]:
  "base64_decode_loop (10 # src) block pad out = base64_decode_loop src block pad out"
  by simp

lemma decode_block:
  assumes "unat t0 < 64" "unat t1 < 64" "unat t2 < 64" "unat t3 < 64"
  shows "base64_decode_loop (b64_char t0 # b64_char t1 # b64_char t2 # b64_char t3 # src) [] 0 out =
    base64_decode_loop src [] 0 (out @ [push_bit 2 t0 OR drop_bit 4 t1,
      push_bit 4 t1 OR drop_bit 2 t2, push_bit 6 t2 OR t3])"
  by (simp add: dtable_sextet [OF assms(1)] dtable_sextet [OF assms(2)] dtable_sextet [OF assms(3)]
      dtable_sextet [OF assms(4)])

lemma decode_pad1:
  assumes "unat t0 < 64" "unat t1 < 64" "unat t2 < 64"
  shows "base64_decode_loop (b64_char t0 # b64_char t1 # b64_char t2 # 61 # src) [] 0 out =
    Some (out @ [push_bit 2 t0 OR drop_bit 4 t1, push_bit 4 t1 OR drop_bit 2 t2])"
  by (simp add: dtable_sextet [OF assms(1)] dtable_sextet [OF assms(2)] dtable_sextet [OF assms(3)])

lemma decode_pad2:
  assumes "unat t0 < 64" "unat t1 < 64"
  shows "base64_decode_loop (b64_char t0 # b64_char t1 # 61 # 61 # src) [] 0 out =
    Some (out @ [push_bit 2 t0 OR drop_bit 4 t1])"
  by (simp add: dtable_sextet [OF assms(1)] dtable_sextet [OF assms(2)])

lemmas sextets = decode_block [OF sextet_bounds(1,2,3,4)] decode_pad1 [OF sextet_bounds(1,2,6)]
  decode_pad2 [OF sextet_bounds(1,5)] sextets_join

declare base64_decode_loop.simps(2) [simp del]

lemma decode_encode_blocks:
  "base64_encode_blocks src ll = (out, rest, ll') \<Longrightarrow>
     \<exists>front. src = front @ rest \<and> length rest < 3 \<and> 4 dvd b64_counted out \<and>
        (front \<noteq> [] \<longrightarrow> b64_counted out \<noteq> 0) \<and>
        (\<forall>s acc. base64_decode_loop (out @ s) [] 0 acc = base64_decode_loop s [] 0 (acc @ front))"
proof (induction src ll arbitrary: out rest ll' rule: base64_encode_blocks.induct)
  case (1 i0 i1 i2 ins ll)
  define nl where "nl = (if ll + 4 \<ge> 72 then [10 :: u8] else [])"
  define l2 where "l2 = (if ll + 4 \<ge> 72 then 0 else ll + 4)"
  obtain o2 r2 l3 where rec: "base64_encode_blocks ins l2 = (o2, r2, l3)"
    by (metis prod_cases3)
  from "1.prems" rec have out: "out = [b64_char (sextet0 i0),
      b64_char (sextet1 i0 i1),
      b64_char (sextet2 i1 i2), b64_char (sextet3 i2)] @ nl @ o2"
    and rest: "rest = r2"
    by (auto simp: Let_def nl_def l2_def split: if_splits)
  have "\<exists>front. ins = front @ r2 \<and> length r2 < 3 \<and> 4 dvd b64_counted o2 \<and>
      (front \<noteq> [] \<longrightarrow> b64_counted o2 \<noteq> 0) \<and>
      (\<forall>s acc. base64_decode_loop (o2 @ s) [] 0 acc = base64_decode_loop s [] 0 (acc @ front))"
    by (rule "1.IH" [where xaa = nl, OF refl refl _ refl rec]) (simp add: nl_def l2_def)
  then obtain front where f: "ins = front @ r2" "length r2 < 3" "4 dvd b64_counted o2"
    "\<And>s acc. base64_decode_loop (o2 @ s) [] 0 acc = base64_decode_loop s [] 0 (acc @ front)"
    by blast
  have nl: "base64_decode_loop (nl @ s) [] 0 acc = base64_decode_loop s [] 0 acc"
    "b64_counted nl = 0" for s acc
    by (auto simp: nl_def base64_decode_loop.simps)
  have "b64_counted out = 4 + b64_counted o2"
    unfolding out using nl(2)
    by (simp add: dtable_sextet sextet_bounds)
  moreover have "base64_decode_loop (out @ s) [] 0 acc =
      base64_decode_loop s [] 0 (acc @ (i0 # i1 # i2 # front))" for s acc
    unfolding out by (simp add: sextets nl f)
  ultimately show ?case
    using f rest by (intro exI [of _ "i0 # i1 # i2 # front"]) auto
qed auto

lemma short_list_cases: "length xs < 3 \<Longrightarrow> xs = [] \<or> (\<exists>a. xs = [a]) \<or> (\<exists>a b. xs = [a, b])"
  by (cases xs rule: remdups_adj.cases) auto

lemma decode_encode_tail:
  assumes "length rest < 3" "base64_encode_tail rest ll = (tail, ll')"
  shows "base64_decode_loop (tail @ s) [] 0 acc =
      (if rest = [] then base64_decode_loop s [] 0 acc else Some (acc @ rest))"
  using short_list_cases [OF assms(1)] assms(2)
  by (elim disjE exE) (simp_all add: base64_encode_tail_def, auto simp: sextets)

lemma counted_encode_tail:
  assumes "length rest < 3" "base64_encode_tail rest ll = (tail, ll')"
  shows "b64_counted tail = (if rest = [] then 0 else 4)"
  using short_list_cases [OF assms(1)] assms(2)
  by (elim disjE exE)
    (simp_all add: base64_encode_tail_def, auto simp: dtable_sextet sextet_bounds)

text \<open>
  C36. Decoding the encoded form of any non-empty byte string returns it, whatever line feeds the
  encoder inserted: whenever the encoder succeeds and the decoder's allocation succeeds.
\<close>

theorem base64_roundtrip:
  assumes "src \<noteq> []" "base64_encode mem src = Some enc"
    and "\<And>n. mem' n"
  shows "base64_decode mem' enc = Some src"
proof -
  obtain blk rest ll where blk: "base64_encode_blocks src 0 = (blk, rest, ll)"
    by (metis prod_cases3)
  obtain tail ll' where tail: "base64_encode_tail rest ll = (tail, ll')" by fastforce
  define nl where "nl = (if ll' \<noteq> 0 then [10 :: u8] else [])"
  have enc: "enc = blk @ tail @ nl"
    using assms(2) blk tail by (auto simp: base64_encode_def Let_def nl_def split: if_splits)
  obtain front where f: "src = front @ rest" "length rest < 3" "4 dvd b64_counted blk"
    "front \<noteq> [] \<longrightarrow> b64_counted blk \<noteq> 0"
    "\<And>s acc. base64_decode_loop (blk @ s) [] 0 acc = base64_decode_loop s [] 0 (acc @ front)"
    using decode_encode_blocks [OF blk] by blast
  note t = decode_encode_tail [OF f(2) tail] counted_encode_tail [OF f(2) tail]
  have "b64_counted nl = 0" by (simp add: nl_def)
  then have "b64_counted enc = b64_counted blk + (if rest = [] then 0 else 4)"
    using t(2) by (simp add: enc)
  moreover have "base64_decode_loop enc [] 0 [] = Some src"
  proof -
    have "base64_decode_loop nl [] 0 front = Some front" by (simp add: nl_def)
    then show ?thesis by (simp add: enc f(1,5) t(1) del: decode_newline)
  qed
  ultimately show ?thesis
    using assms(1,3) f by (auto simp: base64_decode_def Let_def)
qed

theorem base64_roundtrip_witness:
  "base64_decode (\<lambda>_. True) (the (base64_encode (\<lambda>_. True) [87, 105, 105, 85])) =
     Some [87, 105, 105, 85]"
proof -
  have "base64_encode (\<lambda>_. True) [87, 105, 105, 85] =
      Some (the (base64_encode (\<lambda>_. True) [87, 105, 105, 85]))"
    by (simp add: base64_encode_def base64_encode_olen_def base64_encode_tail_def Let_def)
  from base64_roundtrip [OF _ this, of "\<lambda>_. True"] show ?thesis by simp
qed

section \<open>The encoder's buffer\<close>

lemma length_encode_blocks:
  "\<lbrakk>base64_encode_blocks src ll = (out, rest, ll'); ll < 72; 4 dvd ll\<rbrakk> \<Longrightarrow>
     \<exists>k. length out = 4 * (length src div 3) + k \<and> 72 * k + ll' = ll + 4 * (length src div 3) \<and>
       length rest = length src mod 3"
proof (induction src ll arbitrary: out rest ll' rule: base64_encode_blocks.induct)
  case (1 i0 i1 i2 ins ll)
  define nl where "nl = (if ll + 4 \<ge> 72 then [10 :: u8] else [])"
  define l2 where "l2 = (if ll + 4 \<ge> 72 then 0 else ll + 4)"
  obtain o2 r2 l3 where rec: "base64_encode_blocks ins l2 = (o2, r2, l3)"
    by (metis prod_cases3)
  from "1.prems" rec have out: "length out = 4 + length nl + length o2" "rest = r2" "ll' = l3"
    by (auto simp: Let_def nl_def l2_def split: if_splits)
  have "l2 < 72" "4 dvd l2" using "1.prems" by (auto simp: l2_def)
  then have "\<exists>k. length o2 = 4 * (length ins div 3) + k \<and> 72 * k + l3 = l2 + 4 * (length ins div 3) \<and>
      length r2 = length ins mod 3"
    by (intro "1.IH" [where xaa = nl, OF refl refl _ refl rec]) (simp_all add: nl_def l2_def)
  then obtain k where k: "length o2 = 4 * (length ins div 3) + k"
    "72 * k + l3 = l2 + 4 * (length ins div 3)" "length r2 = length ins mod 3" by blast
  have "l2 + 72 * length nl = ll + 4"
    using "1.prems" by (auto simp: l2_def nl_def elim!: dvdE)
  moreover have "length (i0 # i1 # i2 # ins) div 3 = length ins div 3 + 1"
    "length (i0 # i1 # i2 # ins) mod 3 = length ins mod 3"
    using le_mod_geq [of 3 "length ins + 3"] by simp_all
  ultimately show ?case
    using k out by (intro exI [of _ "k + length nl"]) (simp add: algebra_simps)
qed auto

lemma unat_olen:
  assumes "n < 2 ^ 61"
  shows "unat (base64_encode_olen (of_nat n)) =
    4 * n div 3 + 4 + (4 * n div 3 + 4) div 72 + 1"
proof -
  have n: "unat (of_nat n :: u64) = n" using assms by (simp add: unat_of_nat)
  have n4: "unat (of_nat n * 4 :: u64) = 4 * n"
    using assms n by (subst unat_mult_lem [THEN iffD1]) (auto simp: mult.commute)
  have o: "unat (of_nat n * 4 div 3 + 4 :: u64) = 4 * n div 3 + 4" (is "unat ?o = _")
    using assms n4 by (subst unat_add_lem [THEN iffD1]) (auto simp: unat_div)
  have "unat (?o + ?o div 72) = 4 * n div 3 + 4 + (4 * n div 3 + 4) div 72"
    using assms o by (subst unat_add_lem [THEN iffD1]) (auto simp: unat_div)
  then show ?thesis
    using assms unfolding base64_encode_olen_def Let_def
    by (subst unat_add_lem [THEN iffD1]) auto
qed

text \<open>
  The encoder never writes past the buffer it allocates: the characters, line feeds and the
  terminating NUL it writes fit in \<open>olen\<close> bytes, for every input below 2^61 bytes (no
  wrap-around in the size computation).
\<close>

theorem base64_encode_in_bounds:
  assumes "length src < 2 ^ 61" "base64_encode mem src = Some enc"
  shows "length enc + 1 \<le> unat (base64_encode_olen (of_nat (length src)))"
proof -
  obtain blk rest ll where blk: "base64_encode_blocks src 0 = (blk, rest, ll)"
    by (metis prod_cases3)
  obtain k where k: "length blk = 4 * (length src div 3) + k" "72 * k + ll = 4 * (length src div 3)"
    "length rest = length src mod 3"
    using length_encode_blocks [OF blk] by auto
  have tail: "length (fst (base64_encode_tail rest ll)) = (if rest = [] then 0 else 4)"
    by (auto simp: base64_encode_tail_def split: list.splits)
  have "length enc \<le> length blk + (if rest = [] then 0 else 4) + 1"
    using assms(2) blk tail
    by (auto simp: base64_encode_def Let_def split: if_splits prod.splits)
  moreover have "rest = [] \<longleftrightarrow> length src mod 3 = 0" using k(3) by auto
  moreover have "k \<le> (4 * length src div 3 + 4) div 72"
    using k(2) by (simp add: less_eq_div_iff_mult_less_eq)
  moreover have "4 * (length src div 3) + length src mod 3 \<le> 4 * length src div 3" by presburger
  ultimately have "length enc + 1 \<le> 4 * length src div 3 + 4 + (4 * length src div 3 + 4) div 72 + 1"
    using k(1) by (cases "rest = []") auto
  then show ?thesis using unat_olen [OF assms(1)] by simp
qed

theorem base64_encode_in_bounds_witness:
  "length (the (base64_encode (\<lambda>_. True) [87, 105, 105, 85])) + 1
     \<le> unat (base64_encode_olen (of_nat (length [87 :: u8, 105, 105, 85])))"
proof -
  have "base64_encode (\<lambda>_. True) [87, 105, 105, 85] =
      Some (the (base64_encode (\<lambda>_. True) [87, 105, 105, 85]))"
    by (simp add: base64_encode_def base64_encode_olen_def base64_encode_tail_def Let_def)
  from base64_encode_in_bounds [OF _ this] show ?thesis by simp
qed

end
