(* ===== verification/Wpabuf.thy ===== *)
theory Wpabuf
  imports Prelude
begin

text \<open>
  The dynamic buffer of \<open>utils/wpabuf.c\<close> and the inline writers of \<open>utils/wpabuf.h\<close>, in the
  build without \<open>WPA_TRACE\<close>. Sizes are \<open>size_t\<close> words, so the additions wrap as in C;
  \<open>abort()\<close> and an access outside the allocation are error values. \<open>mem n\<close> says whether
  an allocation of \<open>n\<close> bytes succeeds. The interface the attribute builders rely on is the
  locale \<open>append_buffer\<close>.
\<close>

section \<open>State and operations\<close>

datatype c_fault = C_Abort | C_OutOfBounds

record wpabuf =
  wb_size :: u64
  wb_used :: u64
  wb_buf :: bytes
  wb_flags :: bool \<comment> \<open>\<open>WPABUF_FLAG_EXT_DATA\<close>\<close>

type_synonym 'a cres = "c_fault + 'a"

definition cbind :: "'a cres \<Rightarrow> ('a \<Rightarrow> 'b cres) \<Rightarrow> 'b cres" where
  "cbind m f = (case m of Inl e \<Rightarrow> Inl e | Inr x \<Rightarrow> f x)"

lemma cbind_simps [simp]: "cbind (Inl e) f = Inl e" "cbind (Inr x) f = f x"
  by (simp_all add: cbind_def)

lemma cbind_assoc: "cbind (cbind m f) g = cbind m (\<lambda>x. cbind (f x) g)"
  by (cases m) simp_all

lemma cbind_eq_Inr: "cbind m f = Inr y \<longleftrightarrow> (\<exists>x. m = Inr x \<and> f x = Inr y)"
  by (cases m) auto

text \<open>\<open>sizeof(struct wpabuf)\<close> on the 64-bit target.\<close>

definition sizeof_wpabuf :: u64 where
  "sizeof_wpabuf = 32"

text \<open>\<open>wpabuf_alloc\<close>: header and data are one zeroed block; writing the header of a block
  whose size wrapped around is outside it.\<close>

definition wpabuf_alloc :: "(u64 \<Rightarrow> bool) \<Rightarrow> u64 \<Rightarrow> wpabuf option cres" where
  "wpabuf_alloc mem len =
     (let n = sizeof_wpabuf + len in
      if \<not> mem n then Inr None
      else if n < sizeof_wpabuf then Inl C_OutOfBounds
      else Inr (Some \<lparr>wb_size = len, wb_used = 0, wb_buf = replicate (unat len) 0, wb_flags = False\<rparr>))"

definition wpabuf_alloc_ext_data :: "(u64 \<Rightarrow> bool) \<Rightarrow> bytes \<Rightarrow> u64 \<Rightarrow> wpabuf option" where
  "wpabuf_alloc_ext_data mem data len =
     (if \<not> mem sizeof_wpabuf then None
      else Some \<lparr>wb_size = len, wb_used = len, wb_buf = data, wb_flags = True\<rparr>)"

text \<open>\<open>wpabuf_put\<close> returns the offset of the reserved area.\<close>

definition wpabuf_put :: "wpabuf \<Rightarrow> u64 \<Rightarrow> (wpabuf \<times> nat) cres" where
  "wpabuf_put b len =
     (let tmp = unat (wb_used b);
          b = b\<lparr>wb_used := wb_used b + len\<rparr>
      in if wb_used b > wb_size b then Inl C_Abort else Inr (b, tmp))"

text \<open>\<open>os_memcpy\<close> of \<open>data\<close> to an offset of the buffer.\<close>

definition buf_write :: "wpabuf \<Rightarrow> nat \<Rightarrow> bytes \<Rightarrow> wpabuf cres" where
  "buf_write b pos data =
     (if pos + length data \<le> length (wb_buf b)
      then Inr (b\<lparr>wb_buf := take pos (wb_buf b) @ data @ drop (pos + length data) (wb_buf b)\<rparr>)
      else Inl C_OutOfBounds)"

definition wpabuf_put_data :: "wpabuf \<Rightarrow> bytes option \<Rightarrow> u64 \<Rightarrow> wpabuf cres" where
  "wpabuf_put_data b data len =
     (case data of
        None \<Rightarrow> Inr b
      | Some d \<Rightarrow> cbind (wpabuf_put b len) (\<lambda>(b, pos).
          if unat len \<le> length d then buf_write b pos (take (unat len) d)
          else Inl C_OutOfBounds))"

definition wpabuf_put_u8 :: "wpabuf \<Rightarrow> u8 \<Rightarrow> wpabuf cres" where
  "wpabuf_put_u8 b v = cbind (wpabuf_put b 1) (\<lambda>(b, pos). buf_write b pos [v])"

definition wpabuf_put_le16 :: "wpabuf \<Rightarrow> u16 \<Rightarrow> wpabuf cres" where
  "wpabuf_put_le16 b v = cbind (wpabuf_put b 2) (\<lambda>(b, pos). buf_write b pos (WPA_PUT_LE16 v))"

definition wpabuf_put_le32 :: "wpabuf \<Rightarrow> u32 \<Rightarrow> wpabuf cres" where
  "wpabuf_put_le32 b v = cbind (wpabuf_put b 4) (\<lambda>(b, pos). buf_write b pos (WPA_PUT_LE32 v))"

definition wpabuf_put_be16 :: "wpabuf \<Rightarrow> u16 \<Rightarrow> wpabuf cres" where
  "wpabuf_put_be16 b v = cbind (wpabuf_put b 2) (\<lambda>(b, pos). buf_write b pos (WPA_PUT_BE16 v))"

definition wpabuf_put_be32 :: "wpabuf \<Rightarrow> u32 \<Rightarrow> wpabuf cres" where
  "wpabuf_put_be32 b v = cbind (wpabuf_put b 4) (\<lambda>(b, pos). buf_write b pos (WPA_PUT_BE32 v))"

definition wpabuf_put_buf :: "wpabuf \<Rightarrow> wpabuf \<Rightarrow> wpabuf cres" where
  "wpabuf_put_buf dst src = wpabuf_put_data dst (Some (wb_buf src)) (wb_used src)"

definition wpabuf_alloc_copy :: "(u64 \<Rightarrow> bool) \<Rightarrow> bytes option \<Rightarrow> u64 \<Rightarrow> wpabuf option cres" where
  "wpabuf_alloc_copy mem data len = cbind (wpabuf_alloc mem len) (\<lambda>b.
     case b of None \<Rightarrow> Inr None
     | Some b \<Rightarrow> cbind (wpabuf_put_data b data len) (\<lambda>b. Inr (Some b)))"

definition wpabuf_dup :: "(u64 \<Rightarrow> bool) \<Rightarrow> wpabuf \<Rightarrow> wpabuf option cres" where
  "wpabuf_dup mem src = cbind (wpabuf_alloc mem (wb_used src)) (\<lambda>b.
     case b of None \<Rightarrow> Inr None
     | Some b \<Rightarrow> cbind (wpabuf_put_data b (Some (wb_buf src)) (wb_used src)) (\<lambda>b. Inr (Some b)))"

text \<open>
  \<open>wpabuf_resize\<close> on the pointer behind \<open>_buf\<close>: the new pointer and the return code. A block of
  external data is reallocated alone, otherwise header and data together.
\<close>

definition wpabuf_resize :: "(u64 \<Rightarrow> bool) \<Rightarrow> wpabuf option \<Rightarrow> u64 \<Rightarrow> (wpabuf option \<times> int) cres"
  where
  "wpabuf_resize mem bp add_len =
     (case bp of
        None \<Rightarrow> cbind (wpabuf_alloc mem add_len)
                  (\<lambda>b. Inr (b, if b = None then -1 else 0))
      | Some b \<Rightarrow>
          if wb_used b + add_len > wb_size b
          then let n = (if wb_flags b then wb_used b + add_len
                        else sizeof_wpabuf + wb_used b + add_len);
                   room = (if wb_flags b then unat n else unat n - unat sizeof_wpabuf)
               in if \<not> mem n then Inr (Some b, -1)
               else if room < unat (wb_used b) + unat add_len then Inl C_OutOfBounds
               else Inr (Some (b\<lparr>wb_buf := take (unat (wb_used b)) (wb_buf b) @ replicate (unat add_len) 0,
                                 wb_size := wb_used b + add_len\<rparr>), 0)
          else Inr (Some b, 0))"

definition wpabuf_concat :: "(u64 \<Rightarrow> bool) \<Rightarrow> wpabuf option \<Rightarrow> wpabuf option \<Rightarrow> wpabuf option cres"
  where
  "wpabuf_concat mem a b =
     (case b of
        None \<Rightarrow> Inr a
      | Some b \<Rightarrow>
          let len = (case a of None \<Rightarrow> 0 | Some a \<Rightarrow> wb_used a) + wb_used b
          in cbind (wpabuf_alloc mem len) (\<lambda>n. case n of
               None \<Rightarrow> Inr None
             | Some n \<Rightarrow>
                 cbind (case a of None \<Rightarrow> Inr n | Some a \<Rightarrow> wpabuf_put_buf n a) (\<lambda>n.
                 cbind (wpabuf_put_buf n b) (\<lambda>n. Inr (Some n)))))"

definition wpabuf_zeropad :: "(u64 \<Rightarrow> bool) \<Rightarrow> wpabuf option \<Rightarrow> u64 \<Rightarrow> wpabuf option cres" where
  "wpabuf_zeropad mem bp len =
     (case bp of
        None \<Rightarrow> Inr None
      | Some b \<Rightarrow>
          let blen = wb_used b
          in if blen \<ge> len then Inr (Some b)
             else cbind (wpabuf_alloc mem len) (\<lambda>r. case r of
                    None \<Rightarrow> Inr None
                  | Some r \<Rightarrow>
                      cbind (wpabuf_put r (len - blen)) (\<lambda>(r, pos).
                      cbind (buf_write r pos (replicate (unat (len - blen)) 0)) (\<lambda>r.
                      cbind (wpabuf_put_buf r b) (\<lambda>r. Inr (Some r))))))"

text \<open>\<open>wpabuf_printf\<close> with \<open>out\<close> the formatted text: \<open>vsnprintf\<close> stores what fits and a NUL
  and returns the full length.\<close>

definition wpabuf_printf :: "wpabuf \<Rightarrow> bytes \<Rightarrow> wpabuf cres" where
  "wpabuf_printf b out =
     (let room = wb_size b - wb_used b; res = length out in
      cbind (if room = 0 then Inr b
             else buf_write b (unat (wb_used b)) (take (unat room - 1) out @ [0])) (\<lambda>b.
      if res \<ge> unat room then Inl C_Abort
      else Inr (b\<lparr>wb_used := wb_used b + of_nat res\<rparr>)))"

section \<open>Invariant and contents\<close>

definition wpabuf_ok :: "wpabuf \<Rightarrow> bool" where
  "wpabuf_ok b \<longleftrightarrow> wb_used b \<le> wb_size b \<and> length (wb_buf b) = unat (wb_size b)"

definition contents :: "wpabuf \<Rightarrow> bytes" where
  "contents b = take (unat (wb_used b)) (wb_buf b)"

definition tailroom :: "wpabuf \<Rightarrow> nat" where
  "tailroom b = unat (wb_size b - wb_used b)"

lemma length_contents: "wpabuf_ok b \<Longrightarrow> length (contents b) = unat (wb_used b)"
  by (simp add: wpabuf_ok_def contents_def word_le_nat_alt)

lemma tailroom_nat: "wpabuf_ok b \<Longrightarrow> tailroom b = unat (wb_size b) - unat (wb_used b)"
  by (simp add: wpabuf_ok_def tailroom_def unat_sub)

lemma put_fits:
  assumes "wpabuf_ok b" "unat n \<le> tailroom b"
  shows "unat (wb_used b + n) = unat (wb_used b) + unat n" "wb_used b + n \<le> wb_size b"
proof -
  have le: "unat (wb_used b) + unat n \<le> unat (wb_size b)"
    using assms by (auto simp: tailroom_nat wpabuf_ok_def word_le_nat_alt)
  moreover have "unat (wb_size b) < 2 ^ LENGTH(64)" by (rule unsigned_less)
  ultimately have "unat (wb_used b) + unat n < 2 ^ LENGTH(64)" by linarith
  then show *: "unat (wb_used b + n) = unat (wb_used b) + unat n"
    by (rule unat_add_lem [THEN iffD1])
  show "wb_used b + n \<le> wb_size b" using le by (simp add: word_le_nat_alt *)
qed

text \<open>Every writer is a put of its bytes.\<close>

definition put_bytes :: "wpabuf \<Rightarrow> bytes \<Rightarrow> wpabuf cres" where
  "put_bytes b d = cbind (wpabuf_put b (of_nat (length d))) (\<lambda>(b, pos). buf_write b pos d)"

lemma put_bytes_ok:
  assumes "wpabuf_ok b" "length d \<le> tailroom b"
  shows "\<exists>b'. put_bytes b d = Inr b' \<and> wpabuf_ok b' \<and> contents b' = contents b @ d \<and>
    wb_size b' = wb_size b \<and> tailroom b' = tailroom b - length d"
proof -
  have "tailroom b < 2 ^ LENGTH(64)" by (simp only: tailroom_def unsigned_less)
  then have n: "unat (of_nat (length d) :: u64) = length d"
    using assms(2) by (simp add: unat_of_nat)
  note p = put_fits [OF assms(1), of "of_nat (length d)", unfolded n, OF assms(2)]
  have le: "unat (wb_used b) + length d \<le> length (wb_buf b)"
    using p(2) assms(1) by (simp add: word_le_nat_alt p(1) wpabuf_ok_def)
  then show ?thesis
    using p assms(1)
    by (auto simp: put_bytes_def wpabuf_put_def buf_write_def Let_def wpabuf_ok_def contents_def
        tailroom_def unat_sub min_def) (cases d; simp)
qed

lemma put_bytes_overflow:
  assumes "wpabuf_ok b" "tailroom b < length d" "unat (wb_used b) + length d < 2 ^ 64"
  shows "put_bytes b d = Inl C_Abort"
proof -
  have n: "unat (of_nat (length d) :: u64) = length d"
    using assms(3) by (simp add: unat_of_nat)
  have "unat (wb_used b + of_nat (length d)) = unat (wb_used b) + length d"
    using assms(3) n by (simp add: unat_add_lem [THEN iffD1])
  moreover have "unat (wb_size b) < unat (wb_used b) + length d"
    using assms(1,2) by (auto simp: tailroom_nat wpabuf_ok_def word_le_nat_alt)
  ultimately show ?thesis
    by (simp add: put_bytes_def wpabuf_put_def Let_def word_less_nat_alt)
qed

lemma put_bytes_cases:
  "wpabuf_put_u8 b v = put_bytes b [v]"
  "wpabuf_put_le16 b w = put_bytes b (WPA_PUT_LE16 w)"
  "wpabuf_put_be16 b w = put_bytes b (WPA_PUT_BE16 w)"
  "wpabuf_put_le32 b x = put_bytes b (WPA_PUT_LE32 x)"
  "wpabuf_put_be32 b x = put_bytes b (WPA_PUT_BE32 x)"
  by (simp_all add: put_bytes_def wpabuf_put_u8_def wpabuf_put_le16_def wpabuf_put_be16_def
      wpabuf_put_le32_def wpabuf_put_be32_def)

lemma put_data_bytes:
  "unat n = length d \<Longrightarrow> wpabuf_put_data b (Some d) n = put_bytes b d"
proof -
  assume n: "unat n = length d"
  have "of_nat (length d) = n" by (simp flip: n)
  with n show ?thesis by (simp add: wpabuf_put_data_def put_bytes_def split_def)
qed

section \<open>The append interface\<close>

text \<open>
  What a client that builds a message relies on: a put of bytes that fit succeeds, keeps the
  invariant and appends exactly those bytes. Sequences of puts then append the concatenation.
\<close>

locale append_buffer =
  fixes put :: "'b \<Rightarrow> bytes \<Rightarrow> 'b cres"
    and invar :: "'b \<Rightarrow> bool"
    and data :: "'b \<Rightarrow> bytes"
    and room :: "'b \<Rightarrow> nat"
  assumes put_ok: "\<lbrakk>invar b; length d \<le> room b\<rbrakk> \<Longrightarrow>
    \<exists>b'. put b d = Inr b' \<and> invar b' \<and> data b' = data b @ d \<and> room b' = room b - length d"
begin

definition put_all :: "bytes list \<Rightarrow> 'b \<Rightarrow> 'b cres" where
  "put_all ds b = fold (\<lambda>d r. cbind r (\<lambda>b. put b d)) ds (Inr b)"

lemma put_all_Cons: "put_all (d # ds) b = cbind (put b d) (put_all ds)"
proof -
  have "fold (\<lambda>d r. cbind r (\<lambda>b. put b d)) ds (Inl e) = Inl e" for e
    by (induction ds) auto
  then show ?thesis by (cases "put b d") (simp_all add: put_all_def)
qed

lemma put_all_ok:
  "\<lbrakk>invar b; length (concat ds) \<le> room b\<rbrakk> \<Longrightarrow>
     \<exists>b'. put_all ds b = Inr b' \<and> invar b' \<and> data b' = data b @ concat ds \<and>
       room b' = room b - length (concat ds)"
proof (induction ds arbitrary: b)
  case Nil
  then show ?case by (simp add: put_all_def)
next
  case (Cons d ds)
  obtain b1 where b1: "put b d = Inr b1" "invar b1" "data b1 = data b @ d" "room b1 = room b - length d"
    using put_ok [of b d] Cons.prems by auto
  moreover obtain b2 where "put_all ds b1 = Inr b2" "invar b2" "data b2 = data b1 @ concat ds"
    "room b2 = room b1 - length (concat ds)"
    using Cons.IH [of b1] Cons.prems b1 by (metis add_diff_cancel_left' concat.simps(2) diff_le_mono
        length_append)
  ultimately show ?case by (simp add: put_all_Cons)
qed

end

interpretation wb: append_buffer put_bytes wpabuf_ok contents tailroom
  by unfold_locales (use put_bytes_ok in blast)

section \<open>Properties\<close>

text \<open>
  C35. Appending to a well-formed buffer, on both branches: data that fits in the tail room is
  appended after the current contents, the invariant (used at most size, data area of exactly
  size bytes) and the capacity are kept; data that does not fit makes the process abort and
  never writes outside the buffer.
\<close>

theorem wpabuf_put_data_correct:
  assumes "wpabuf_ok b" "unat (wb_used b) + length d < 2 ^ 64"
  shows "if length d \<le> tailroom b
    then \<exists>b'. wpabuf_put_data b (Some d) (of_nat (length d)) = Inr b' \<and> wpabuf_ok b' \<and>
           contents b' = contents b @ d \<and> wb_size b' = wb_size b
    else wpabuf_put_data b (Some d) (of_nat (length d)) = Inl C_Abort"
proof -
  have "unat (of_nat (length d) :: u64) = length d"
    using assms(2) by (simp add: unat_of_nat)
  then have "wpabuf_put_data b (Some d) (of_nat (length d)) = put_bytes b d"
    by (rule put_data_bytes)
  then show ?thesis
    using put_bytes_ok [OF assms(1), of d] put_bytes_overflow [OF assms(1) _ assms(2)] by auto
qed

theorem wpabuf_put_data_correct_witness:
  "\<exists>b'. wpabuf_put_data \<lparr>wb_size = 4, wb_used = 1, wb_buf = [7, 0, 0, 0], wb_flags = False\<rparr>
      (Some [8, 9]) 2 = Inr b' \<and> contents b' = [7, 8, 9]"
  using wpabuf_put_data_correct
    [of "\<lparr>wb_size = 4, wb_used = 1, wb_buf = [7, 0, 0, 0], wb_flags = False\<rparr>" "[8, 9]"]
  by (auto simp: wpabuf_ok_def tailroom_def contents_def)

lemma wpabuf_alloc_ok:
  assumes "len < - sizeof_wpabuf" "wpabuf_alloc mem len = Inr (Some b)"
  shows "wpabuf_ok b" "contents b = []" "wb_size b = len" "tailroom b = unat len"
  using assms
  by (auto simp: wpabuf_alloc_def Let_def wpabuf_ok_def contents_def tailroom_def split: if_splits)

lemma wpabuf_alloc_total:
  "len < - sizeof_wpabuf \<Longrightarrow> \<exists>r. wpabuf_alloc mem len = Inr r"
proof -
  assume "len < - sizeof_wpabuf"
  then have "unat (32 + len) = 32 + unat len"
    by (subst unat_add_lem [THEN iffD1]) (simp_all add: word_less_nat_alt sizeof_wpabuf_def)
  then have "\<not> sizeof_wpabuf + len < sizeof_wpabuf"
    by (simp add: word_less_nat_alt sizeof_wpabuf_def)
  then show ?thesis by (simp add: wpabuf_alloc_def Let_def)
qed

lemma wpabuf_put_buf_bytes:
  assumes "wpabuf_ok src"
  shows "wpabuf_put_buf dst src = put_bytes dst (contents src)"
proof -
  have l: "length (contents src) = unat (wb_used src)" using assms by (rule length_contents)
  have "unat (wb_used src) \<le> length (wb_buf src)"
    using assms by (simp add: wpabuf_ok_def word_le_nat_alt)
  then show ?thesis
    by (simp add: wpabuf_put_buf_def wpabuf_put_data_def put_bytes_def l contents_def)
qed

text \<open>
  \<open>wpabuf_concat\<close> of two well-formed buffers (the first may be NULL) whose lengths do not
  overflow returns either NULL, only when the allocation fails, or a well-formed buffer that
  holds the first contents followed by the second; no write leaves the new buffer.
\<close>

theorem wpabuf_concat_correct:
  assumes "wpabuf_ok b" "case a of None \<Rightarrow> True | Some x \<Rightarrow> wpabuf_ok x"
    and "(case a of None \<Rightarrow> 0 | Some x \<Rightarrow> unat (wb_used x)) + unat (wb_used b) + 32 < 2 ^ 64"
  shows "\<exists>r. wpabuf_concat mem a (Some b) = Inr r \<and>
    (case r of None \<Rightarrow> \<not> mem (32 + ((case a of None \<Rightarrow> 0 | Some x \<Rightarrow> wb_used x) + wb_used b))
     | Some n \<Rightarrow> wpabuf_ok n \<and>
         contents n = (case a of None \<Rightarrow> [] | Some x \<Rightarrow> contents x) @ contents b)"
proof -
  define ca where "ca = (case a of None \<Rightarrow> [] | Some x \<Rightarrow> contents x)"
  define la where "la = (case a of None \<Rightarrow> 0 | Some x \<Rightarrow> wb_used x)"
  have la: "unat la = length ca" and lb: "length (contents b) = unat (wb_used b)"
    using assms(1,2) by (auto simp: la_def ca_def length_contents split: option.splits)
  have sum: "length ca + length (contents b) + 32 < 2 ^ 64"
    using assms(3) la lb by (auto simp: la_def split: option.splits)
  then have ul: "unat (la + wb_used b) = length ca + length (contents b)"
    using la lb by (simp add: unat_add_lem [THEN iffD1])
  have small: "la + wb_used b < - sizeof_wpabuf"
    using sum by (simp add: word_less_nat_alt ul sizeof_wpabuf_def)
  obtain r where r: "wpabuf_alloc mem (la + wb_used b) = Inr r"
    using wpabuf_alloc_total [OF small] by blast
  define ds where "ds = (case a of None \<Rightarrow> [contents b] | Some x \<Rightarrow> [contents x, contents b])"
  have ds: "concat ds = ca @ contents b"
    by (simp add: ds_def ca_def split: option.splits)
  have con: "wpabuf_concat mem a (Some b) = (case r of None \<Rightarrow> Inr None
      | Some n \<Rightarrow> cbind (wb.put_all ds n) (\<lambda>n. Inr (Some n)))"
    using r assms(1,2)
    by (cases a) (auto simp: wpabuf_concat_def la_def ds_def wpabuf_put_buf_bytes wb.put_all_def cbind_assoc
        split: option.splits)
  show ?thesis
  proof (cases r)
    case None
    with r have "\<not> mem (32 + (la + wb_used b))"
      by (auto simp: wpabuf_alloc_def sizeof_wpabuf_def Let_def split: if_splits)
    with None con show ?thesis by (simp add: la_def)
  next
    case (Some n)
    note n = wpabuf_alloc_ok [OF small r [unfolded Some]]
    obtain n' where "wb.put_all ds n = Inr n'" "wpabuf_ok n'" "contents n' = ca @ contents b"
      using wb.put_all_ok [OF n(1), of ds] ds n ul by auto
    with Some con show ?thesis by (simp add: ca_def)
  qed
qed

theorem wpabuf_concat_correct_witness:
  "\<exists>r. wpabuf_concat (\<lambda>_. True)
      (Some \<lparr>wb_size = 4, wb_used = 1, wb_buf = [7, 0, 0, 0], wb_flags = False\<rparr>)
      (Some \<lparr>wb_size = 2, wb_used = 2, wb_buf = [8, 9], wb_flags = True\<rparr>) = Inr (Some r) \<and>
    contents r = [7, 8, 9]"
  using wpabuf_concat_correct [of "\<lparr>wb_size = 2, wb_used = 2, wb_buf = [8, 9], wb_flags = True\<rparr>"
      "Some \<lparr>wb_size = 4, wb_used = 1, wb_buf = [7, 0, 0, 0], wb_flags = False\<rparr>" "\<lambda>_. True"]
  by (auto simp: wpabuf_ok_def contents_def split: option.splits)

text \<open>
  \<open>wpabuf_resize\<close> of a well-formed buffer, when it returns 0, keeps the contents and
  guarantees room for \<open>add_len\<close> more bytes; when it fails it returns -1 and the buffer is
  the old one. It never touches memory outside the allocation.
\<close>

theorem wpabuf_resize_correct:
  assumes "wpabuf_ok b" "unat (wb_used b) + unat add_len + 32 < 2 ^ 64"
  shows "(\<exists>b'. wpabuf_resize mem (Some b) add_len = Inr (Some b', 0) \<and> wpabuf_ok b' \<and>
            contents b' = contents b \<and> unat add_len \<le> tailroom b') \<or>
         wpabuf_resize mem (Some b) add_len = Inr (Some b, -1)"
proof -
  have sum: "unat (wb_used b + add_len) = unat (wb_used b) + unat add_len"
    using assms(2) by (simp add: unat_add_lem [THEN iffD1])
  have hdr: "unat (32 + wb_used b + add_len) = 32 + unat (wb_used b) + unat add_len"
    using assms(2) sum unat_add_lem [of 32 "wb_used b + add_len", THEN iffD1]
    by (simp add: add.assoc)
  show ?thesis
  proof (cases "wb_used b + add_len > wb_size b")
    case True
    have "unat (wb_used b) \<le> length (wb_buf b)"
      using assms(1) by (simp add: wpabuf_ok_def word_le_nat_alt)
    moreover have "wb_used b \<le> wb_used b + add_len"
      by (simp add: word_le_nat_alt sum)
    ultimately show ?thesis
      using True hdr sum
      by (auto simp: wpabuf_resize_def Let_def sizeof_wpabuf_def wpabuf_ok_def contents_def
          tailroom_def min_def)
  next
    case False
    then have "unat add_len \<le> tailroom b"
      using assms(1) sum by (simp add: tailroom_nat word_less_nat_alt not_less)
    with False assms(1) show ?thesis by (simp add: wpabuf_resize_def Let_def)
  qed
qed

theorem wpabuf_resize_correct_witness:
  "\<exists>b'. wpabuf_resize (\<lambda>_. True)
      (Some \<lparr>wb_size = 1, wb_used = 1, wb_buf = [7], wb_flags = False\<rparr>) 2 = Inr (Some b', 0) \<and>
    contents b' = [7] \<and> tailroom b' = 2"
  using wpabuf_resize_correct [of "\<lparr>wb_size = 1, wb_used = 1, wb_buf = [7], wb_flags = False\<rparr>" 2
      "\<lambda>_. True"]
  by (simp add: wpabuf_ok_def contents_def wpabuf_resize_def Let_def sizeof_wpabuf_def tailroom_def)

end
