(* ===== verification/Bitfield.thy ===== *)
theory Bitfield
  imports Prelude
begin

text \<open>
  \<open>utils/bitfield.c\<close>: a bit set over a heap block of \<open>(max_bits + 7) / 8\<close> bytes, with checked
  accesses to the block. The abstraction is a set of bit numbers.
\<close>

record bitfield =
  bits :: bytes
  max_bits :: nat

definition bitfield_alloc :: "(nat \<Rightarrow> bool) \<Rightarrow> nat \<Rightarrow> bitfield option" where
  "bitfield_alloc mem n =
     (if mem ((n + 7) div 8) then Some \<lparr>bits = replicate ((n + 7) div 8) 0, max_bits = n\<rparr>
      else None)"

definition bitfield_set :: "bitfield \<Rightarrow> nat \<Rightarrow> bitfield option" where
  "bitfield_set bf b =
     (if b \<ge> max_bits bf then Some bf
      else do {
        v \<leftarrow> c_read (bits bf) (b div 8);
        bs \<leftarrow> c_write (bits bf) (b div 8) (v OR push_bit (b mod 8) 1);
        Some (bf\<lparr>bits := bs\<rparr>) })"

definition bitfield_clear :: "bitfield \<Rightarrow> nat \<Rightarrow> bitfield option" where
  "bitfield_clear bf b =
     (if b \<ge> max_bits bf then Some bf
      else do {
        v \<leftarrow> c_read (bits bf) (b div 8);
        bs \<leftarrow> c_write (bits bf) (b div 8) (v AND NOT (push_bit (b mod 8) 1));
        Some (bf\<lparr>bits := bs\<rparr>) })"

definition bitfield_is_set :: "bitfield \<Rightarrow> nat \<Rightarrow> bool option" where
  "bitfield_is_set bf b =
     (if b \<ge> max_bits bf then Some False
      else do { v \<leftarrow> c_read (bits bf) (b div 8); Some (v AND push_bit (b mod 8) 1 \<noteq> 0) })"

text \<open>The loop over the eight bits of a byte: \<open>k\<close> iterations are left, \<open>i\<close> is the loop counter.\<close>

fun first_zero_loop :: "nat \<Rightarrow> int \<Rightarrow> u8 \<Rightarrow> int" where
  "first_zero_loop 0 i v = -1"
| "first_zero_loop (Suc k) i v =
     (if v AND 1 = 0 then i else first_zero_loop k (i + 1) (drop_bit 1 v))"

definition first_zero :: "u8 \<Rightarrow> int" where
  "first_zero v = first_zero_loop 8 0 v"

text \<open>The search loop runs \<open>i\<close> up to and including the number of bytes.\<close>

function find_byte :: "bytes \<Rightarrow> nat \<Rightarrow> nat \<Rightarrow> nat option" where
  "find_byte bs n i =
     (if i \<le> n then do { v \<leftarrow> c_read bs i; if v \<noteq> 0xff then Some i else find_byte bs n (i + 1) }
      else Some i)"
  by pat_completeness auto
termination
  by (relation "measure (\<lambda>(bs, n, i). Suc n - i)") auto

definition bitfield_get_first_zero :: "bitfield \<Rightarrow> int option" where
  "bitfield_get_first_zero bf = (let n = (max_bits bf + 7) div 8 in do {
     i \<leftarrow> find_byte (bits bf) n 0;
     if i > n then Some (-1)
     else do {
       v \<leftarrow> c_read (bits bf) i;
       let i = int i * 8 + first_zero v;
       if i \<ge> int (max_bits bf) then Some (-1) else Some i } })"

section \<open>Abstraction\<close>

definition bf_bit :: "bitfield \<Rightarrow> nat \<Rightarrow> bool" where
  "bf_bit bf b \<longleftrightarrow> bit (bits bf ! (b div 8)) (b mod 8)"

text \<open>The block has its size and the padding bits of the last byte are clear.\<close>

definition bf_ok :: "bitfield \<Rightarrow> bool" where
  "bf_ok bf \<longleftrightarrow> length (bits bf) = (max_bits bf + 7) div 8 \<and>
     (\<forall>b. max_bits bf \<le> b \<and> b < 8 * length (bits bf) \<longrightarrow> \<not> bf_bit bf b)"

definition bf_set :: "bitfield \<Rightarrow> nat set" where
  "bf_set bf = {b. b < max_bits bf \<and> bf_bit bf b}"

lemma bf_ok_length: "bf_ok bf \<Longrightarrow> length (bits bf) = (max_bits bf + 7) div 8"
  by (simp only: bf_ok_def)

lemma bf_index: "bf_ok bf \<Longrightarrow> b < max_bits bf \<Longrightarrow> b div 8 < length (bits bf)"
  by (simp add: bf_ok_def)

lemma bit_at_eq: "(a :: nat) div 8 = b div 8 \<Longrightarrow> a mod 8 = b mod 8 \<longleftrightarrow> a = b"
  by (metis div_mod_decomp)

lemma bf_bit_update:
  assumes "b div 8 < length (bits bf)"
    and "\<And>k. k < 8 \<Longrightarrow> bit v k = (if k = b mod 8 then x else bit (bits bf ! (b div 8)) k)"
  shows "bf_bit (bf\<lparr>bits := (bits bf)[b div 8 := v]\<rparr>) a = (if a = b then x else bf_bit bf a)"
proof (cases "a div 8 = b div 8")
  case True
  with assms show ?thesis using bit_at_eq [OF True] by (auto simp: bf_bit_def)
next
  case False
  then show ?thesis by (auto simp: bf_bit_def)
qed

lemma bitfield_set_spec:
  assumes "bf_ok bf"
  shows "\<exists>bf'. bitfield_set bf b = Some bf' \<and> bf_ok bf' \<and> max_bits bf' = max_bits bf \<and>
    bf_set bf' = (if b < max_bits bf then insert b (bf_set bf) else bf_set bf)"
proof (cases "b < max_bits bf")
  case True
  define v where "v = bits bf ! (b div 8) OR push_bit (b mod 8) 1"
  have i: "b div 8 < length (bits bf)" using bf_index [OF assms True] .
  have "bf_bit (bf\<lparr>bits := (bits bf)[b div 8 := v]\<rparr>) a = (if a = b then True else bf_bit bf a)" for a
    by (rule bf_bit_update [OF i]) (auto simp: v_def bit_simps)
  then show ?thesis
    using True i assms by (auto simp: bitfield_set_def v_def bf_ok_def bf_set_def)
next
  case False
  with assms show ?thesis by (simp add: bitfield_set_def)
qed

lemma bitfield_clear_spec:
  assumes "bf_ok bf"
  shows "\<exists>bf'. bitfield_clear bf b = Some bf' \<and> bf_ok bf' \<and> max_bits bf' = max_bits bf \<and>
    bf_set bf' = bf_set bf - {b}"
proof (cases "b < max_bits bf")
  case True
  define v where "v = bits bf ! (b div 8) AND NOT (push_bit (b mod 8) 1)"
  have i: "b div 8 < length (bits bf)" using bf_index [OF assms True] .
  have "bf_bit (bf\<lparr>bits := (bits bf)[b div 8 := v]\<rparr>) a = (if a = b then False else bf_bit bf a)" for a
    by (rule bf_bit_update [OF i]) (auto simp: v_def bit_simps)
  then show ?thesis
    using True i assms by (auto simp: bitfield_clear_def v_def bf_ok_def bf_set_def)
next
  case False
  with assms show ?thesis by (auto simp: bitfield_clear_def bf_set_def)
qed

lemma and_exp_eq_0: "(v :: u8) AND 2 ^ k = 0 \<longleftrightarrow> \<not> bit v k"
  by (rule and_exp_eq_0_iff_not_bit)

lemma bitfield_is_set_spec:
  "bf_ok bf \<Longrightarrow> bitfield_is_set bf b = Some (b \<in> bf_set bf)"
  using bf_index [of bf b]
  by (auto simp: bitfield_is_set_def bf_set_def bf_bit_def and_exp_eq_0 push_bit_of_1)

section \<open>The search for a clear bit\<close>

lemma first_zero_loop_spec:
  "first_zero_loop k i v =
     (if \<exists>j < k. \<not> bit v j then i + int (LEAST j. \<not> bit v j) else -1)"
proof (induction k arbitrary: i v)
  case (Suc k)
  have b0: "v AND 1 = 0 \<longleftrightarrow> \<not> bit v 0"
    by (simp add: and_one_eq bit_0 even_iff_mod_2_eq_zero)
  show ?case
  proof (cases "bit v 0")
    case False
    then have "(LEAST j. \<not> bit v j) = 0" by (intro Least_equality) auto
    with False b0 show ?thesis by auto
  next
    case True
    have ex: "(\<exists>j < Suc k. \<not> bit v j) \<longleftrightarrow> (\<exists>j < k. \<not> bit (drop_bit 1 v) j)"
      using True by (auto simp: bit_drop_bit_eq Ex_less_Suc2)
    have "(LEAST j. \<not> bit v j) = Suc (LEAST j. \<not> bit v (Suc j))" if "\<not> bit v n" for n
      using that True Least_Suc [of "\<lambda>j. \<not> bit v j" n] by simp
    moreover have "(\<lambda>j. \<not> bit (drop_bit 1 v) j) = (\<lambda>j. \<not> bit v (Suc j))"
      by (simp add: bit_drop_bit_eq fun_eq_iff)
    ultimately show ?thesis
      using True b0 Suc ex by auto
  qed
qed simp

lemma u8_ff_iff: "(v :: u8) = 0xff \<longleftrightarrow> (\<forall>j < 8. bit v j)"
proof -
  have "(0xff :: u8) = mask 8" by (simp add: mask_eq_exp_minus_1)
  then show ?thesis by (simp only: word_eq_iff_bits) (auto simp: bit_mask_iff)
qed

lemma first_zero_spec:
  assumes "v \<noteq> 0xff"
  shows "first_zero v = int (LEAST j. \<not> bit v j)" "(LEAST j. \<not> bit v j) < 8"
    "\<not> bit v (LEAST j. \<not> bit v j)"
proof -
  from assms obtain j where j: "j < 8" "\<not> bit v j" by (auto simp: u8_ff_iff)
  then show "first_zero v = int (LEAST j. \<not> bit v j)"
    by (auto simp: first_zero_def first_zero_loop_spec)
  show "(LEAST j. \<not> bit v j) < 8" using Least_le [of "\<lambda>j. \<not> bit v j", OF j(2)] j(1) by simp
  show "\<not> bit v (LEAST j. \<not> bit v j)" using j(2) by (rule LeastI)
qed

declare find_byte.simps [simp del]

lemma find_byte_spec:
  assumes "length bs = n" "i \<le> n"
  shows "if \<exists>j. i \<le> j \<and> j < n \<and> bs ! j \<noteq> 0xff
    then \<exists>j. find_byte bs n i = Some j \<and> i \<le> j \<and> j < n \<and> bs ! j \<noteq> 0xff \<and>
           (\<forall>k. i \<le> k \<and> k < j \<longrightarrow> bs ! k = 0xff)
    else find_byte bs n i = None"
  using assms
proof (induction bs n i rule: find_byte.induct)
  case (1 bs n i)
  show ?case
  proof (cases "i < n \<and> bs ! i = 0xff")
    case True
    then have "find_byte bs n i = find_byte bs n (i + 1)"
      using "1.prems" by (simp add: find_byte.simps [of bs n i])
    moreover have "i \<le> j \<longleftrightarrow> j = i \<or> i + 1 \<le> j" for j by auto
    moreover have IH: "if \<exists>j. i + 1 \<le> j \<and> j < n \<and> bs ! j \<noteq> 0xff
      then \<exists>j. find_byte bs n (i + 1) = Some j \<and> i + 1 \<le> j \<and> j < n \<and> bs ! j \<noteq> 0xff \<and>
             (\<forall>k. i + 1 \<le> k \<and> k < j \<longrightarrow> bs ! k = 0xff)
      else find_byte bs n (i + 1) = None"
      by (rule "1.IH" [where a = "bs ! i"]) (use True "1.prems" in auto)
    ultimately show ?thesis
      using True "1.prems"
    proof (cases "\<exists>j. i + 1 \<le> j \<and> j < n \<and> bs ! j \<noteq> 0xff")
      case ex: True
      then obtain j where j: "find_byte bs n (i + 1) = Some j" "i + 1 \<le> j" "j < n"
        "bs ! j \<noteq> 0xff" "\<forall>k. i + 1 \<le> k \<and> k < j \<longrightarrow> bs ! k = 0xff"
        using IH by (auto simp del: One_nat_def)
      then have "\<forall>k. i \<le> k \<and> k < j \<longrightarrow> bs ! k = 0xff"
        using True by (metis Suc_eq_plus1 le_antisym not_less_eq_eq)
      with j \<open>find_byte bs n i = find_byte bs n (i + 1)\<close> show ?thesis by auto
    next
      case no: False
      then have "find_byte bs n (i + 1) = None"
        using IH by (simp only: if_False)
      moreover have "\<not> (\<exists>j. i \<le> j \<and> j < n \<and> bs ! j \<noteq> 0xff)"
        using no True by (metis Suc_eq_plus1 le_antisym not_less_eq_eq)
      ultimately show ?thesis
        using \<open>find_byte bs n i = find_byte bs n (i + 1)\<close> by simp
    qed
  next
    case False
    then show ?thesis
      using "1.prems" find_byte.simps [of bs n i] by (cases "i < n") auto
  qed
qed

lemma get_first_zero_found:
  assumes "bf_ok bf" "b < max_bits bf" "b \<notin> bf_set bf"
  shows "bitfield_get_first_zero bf = Some (int (LEAST b. b < max_bits bf \<and> b \<notin> bf_set bf))"
proof -
  let ?n = "(max_bits bf + 7) div 8"
  have len: "length (bits bf) = ?n" using assms(1) by (rule bf_ok_length)
  have "bits bf ! (b div 8) \<noteq> 0xff"
    using assms(2,3) by (auto simp: u8_ff_iff bf_set_def bf_bit_def intro!: exI [of _ "b mod 8"])
  then obtain j where j: "find_byte (bits bf) ?n 0 = Some j" "j < ?n" "bits bf ! j \<noteq> 0xff"
    "\<And>k. k < j \<Longrightarrow> bits bf ! k = 0xff"
    using find_byte_spec [OF len, of 0] bf_index [OF assms(1,2)] len by (auto split: if_splits)
  define r where "r = (LEAST i. \<not> bit (bits bf ! j) i)"
  note r = first_zero_spec [OF j(3), folded r_def]
  have clear: "\<not> bf_bit bf (j * 8 + r)" using r(2,3) by (simp add: bf_bit_def)
  have before: "bf_bit bf c" if "c < j * 8 + r" for c
  proof (cases "c div 8 < j")
    case True
    then show ?thesis using j(4) [OF True] by (simp add: bf_bit_def u8_ff_iff)
  next
    case False
    moreover have "c div 8 < j + 1" using that r(2) by (intro less_mult_imp_div_less) simp
    ultimately have c: "c div 8 = j" by simp
    then have "c mod 8 < r" using that mult_div_mod_eq [of 8 c] by linarith
    with c show ?thesis using not_less_Least [of "c mod 8"] by (auto simp: bf_bit_def r_def)
  qed
  have "j * 8 + r \<le> b" using before [of b] assms(2,3) by (force simp: bf_set_def)
  with assms(2) have lt: "j * 8 + r < max_bits bf" by simp
  have "(LEAST b. b < max_bits bf \<and> b \<notin> bf_set bf) = j * 8 + r"
  proof (rule Least_equality)
    show "j * 8 + r < max_bits bf \<and> j * 8 + r \<notin> bf_set bf" using lt clear by (simp add: bf_set_def)
    show "j * 8 + r \<le> y" if "y < max_bits bf \<and> y \<notin> bf_set bf" for y
      using that before [of y] by (auto simp: bf_set_def not_less [symmetric])
  qed
  then show ?thesis
    using j(1,2) len r(1) lt by (simp add: bitfield_get_first_zero_def Let_def)
qed

lemma get_first_zero_full:
  assumes "bf_ok bf" "bf_set bf = {..<max_bits bf}"
  shows "bitfield_get_first_zero bf = (if max_bits bf mod 8 = 0 then None else Some (-1))"
proof -
  define n where "n = (max_bits bf + 7) div 8"
  have len: "length (bits bf) = n" using assms(1) by (simp only: bf_ok_length n_def)
  have set: "bf_bit bf b" if "b < max_bits bf" for b
    using assms(2) that by (auto simp: bf_set_def)
  have full: "bits bf ! k = 0xff" if "8 * k + 8 \<le> max_bits bf" for k
    unfolding u8_ff_iff
  proof (intro allI impI)
    fix i :: nat assume "i < 8"
    then show "bit (bits bf ! k) i" using set [of "8 * k + i"] that by (simp add: bf_bit_def)
  qed
  show ?thesis
  proof (cases "max_bits bf mod 8 = 0")
    case True
    then obtain q where q: "max_bits bf = 8 * q" by auto
    then have "\<forall>j < n. bits bf ! j = 0xff" by (intro allI impI full) (simp add: n_def)
    then have "find_byte (bits bf) n 0 = None" using find_byte_spec [OF len, of 0] by auto
    with True show ?thesis by (simp add: bitfield_get_first_zero_def flip: n_def)
  next
    case False
    define k where "k = max_bits bf div 8"
    have k: "n = k + 1" "8 * k < max_bits bf" "max_bits bf < 8 * k + 8"
    proof -
      obtain r where r: "max_bits bf = 8 * k + r" "0 < r" "r < 8"
        using False that [of "max_bits bf mod 8"] by (simp add: k_def)
      then show "n = k + 1" "8 * k < max_bits bf" "max_bits bf < 8 * k + 8"
        by (simp_all add: n_def)
    qed
    have pad: "\<not> bit (bits bf ! k) i \<longleftrightarrow> max_bits bf \<le> 8 * k + i" if "i < 8" for i
    proof -
      have "bf_bit bf (8 * k + i) = bit (bits bf ! k) i" using that by (simp add: bf_bit_def)
      moreover have "max_bits bf \<le> 8 * k + i \<Longrightarrow> \<not> bf_bit bf (8 * k + i)"
        using assms(1) that k(1) len unfolding bf_ok_def by simp
      ultimately show ?thesis
        using set [of "8 * k + i"] by (cases "8 * k + i < max_bits bf") auto
    qed
    have neq: "bits bf ! k \<noteq> 0xff" 
    proof -
      have "\<not> bit (bits bf ! k) 7" using pad [of 7] k by simp
      then show ?thesis by (auto simp: u8_ff_iff intro!: exI [of _ 7])
    qed
    have ex: "\<exists>j. 0 \<le> j \<and> j < n \<and> bits bf ! j \<noteq> 0xff"
      using neq k(1) by (intro exI [of _ k]) simp
    obtain j where j: "find_byte (bits bf) n 0 = Some j" "j < n" "bits bf ! j \<noteq> 0xff"
      using find_byte_spec [OF len le0] unfolding if_P [OF ex] by blast
    then have "j = k" using full [of j] k by (cases "j < k") auto
    note r = first_zero_spec [OF neq]
    have "int (max_bits bf) \<le> int k * 8 + first_zero (bits bf ! k)"
      using pad [OF r(2)] r(1,3) by simp
    with j \<open>j = k\<close> len False show ?thesis
      by (simp add: bitfield_get_first_zero_def flip: n_def)
  qed
qed

section \<open>Properties\<close>

text \<open>
  C37. The bit field implements a finite set: on a well-formed field, setting a bit below the
  limit inserts it, clearing removes it, the test is membership, bits at or above the limit are
  ignored, and every operation keeps the field well-formed and inside its block.
\<close>

theorem bitfield_refines_set:
  assumes "bf_ok bf"
  shows "(\<exists>bf'. bitfield_set bf b = Some bf' \<and> bf_ok bf' \<and>
            bf_set bf' = bf_set bf \<union> ({b} \<inter> {..<max_bits bf})) \<and>
         (\<exists>bf'. bitfield_clear bf b = Some bf' \<and> bf_ok bf' \<and> bf_set bf' = bf_set bf - {b}) \<and>
         bitfield_is_set bf b = Some (b \<in> bf_set bf)"
proof (intro conjI)
  show "\<exists>bf'. bitfield_set bf b = Some bf' \<and> bf_ok bf' \<and>
      bf_set bf' = bf_set bf \<union> ({b} \<inter> {..<max_bits bf})"
    using bitfield_set_spec [OF assms, of b] by (cases "b < max_bits bf") auto
  show "\<exists>bf'. bitfield_clear bf b = Some bf' \<and> bf_ok bf' \<and> bf_set bf' = bf_set bf - {b}"
    using bitfield_clear_spec [OF assms, of b] by blast
  show "bitfield_is_set bf b = Some (b \<in> bf_set bf)"
    using assms by (rule bitfield_is_set_spec)
qed

theorem bitfield_refines_set_witness:
  "bitfield_is_set \<lparr>bits = [5], max_bits = 8\<rparr> 2 = Some True"
proof -
  have ok: "bf_ok \<lparr>bits = [5], max_bits = 8\<rparr>" by (auto simp: bf_ok_def)
  show ?thesis
    using bitfield_refines_set [OF ok, of 2] by (simp add: bf_set_def bf_bit_def)
qed



end
