(* ===== verification/Common_Util.thy ===== *)
theory Common_Util
  imports Os_Internal
begin

text \<open>
  The helper functions of \<open>utils/common.c\<close>: hexadecimal and MAC address parsing, counters,
  printable encodings, configuration strings and small array helpers. Strings are read through
  pointers that are the rest of their object (terminating NUL included); a read past the object
  is \<open>None\<close>.
\<close>

section \<open>Hexadecimal text and MAC addresses\<close>

definition hex2num :: "u8 \<Rightarrow> int" where
  "hex2num c =
     (if 48 \<le> c \<and> c \<le> 57 then uint c - 48
      else if 97 \<le> c \<and> c \<le> 102 then uint c - 97 + 10
      else if 65 \<le> c \<and> c \<le> 70 then uint c - 65 + 10
      else -1)"

definition hex2byte :: "bytes \<Rightarrow> int option" where
  "hex2byte hex = do {
     c0 \<leftarrow> c_read hex 0;
     let a = hex2num c0;
     if a < 0 then Some (-1) else do {
       c1 \<leftarrow> c_read hex 1;
       let b = hex2num c1;
       if b < 0 then Some (-1) else Some (push_bit 4 a OR b) } }"

text \<open>The loops of the three address parsers; \<open>k\<close> octets are left and \<open>addr\<close> holds those
  written. The result is the return code with the octets, and for \<open>hwaddr_aton2\<close> the number of
  characters used.\<close>

fun hwaddr_aton_loop :: "nat \<Rightarrow> bytes \<Rightarrow> bytes \<Rightarrow> (int \<times> bytes) option" where
  "hwaddr_aton_loop 0 txt addr = Some (0, addr)"
| "hwaddr_aton_loop (Suc k) txt addr = do {
     c0 \<leftarrow> c_read txt 0;
     let a = hex2num c0;
     if a < 0 then Some (-1, addr) else do {
       c1 \<leftarrow> c_read txt 1;
       let b = hex2num c1;
       if b < 0 then Some (-1, addr) else do {
         let addr = addr @ [word_of_int (push_bit 4 a OR b)];
         if k = 0 then hwaddr_aton_loop k (drop 2 txt) addr
         else do {
           c2 \<leftarrow> c_read txt 2;
           if c2 \<noteq> 58 then Some (-1, addr)
           else hwaddr_aton_loop k (drop 3 txt) addr } } } }"

definition hwaddr_aton :: "bytes \<Rightarrow> (int \<times> bytes) option" where
  "hwaddr_aton txt = hwaddr_aton_loop 6 txt []"

fun hwaddr_compact_aton_loop :: "nat \<Rightarrow> bytes \<Rightarrow> bytes \<Rightarrow> (int \<times> bytes) option" where
  "hwaddr_compact_aton_loop 0 txt addr = Some (0, addr)"
| "hwaddr_compact_aton_loop (Suc k) txt addr = do {
     c0 \<leftarrow> c_read txt 0;
     let a = hex2num c0;
     if a < 0 then Some (-1, addr) else do {
       c1 \<leftarrow> c_read txt 1;
       let b = hex2num c1;
       if b < 0 then Some (-1, addr)
       else hwaddr_compact_aton_loop k (drop 2 txt) (addr @ [word_of_int (push_bit 4 a OR b)]) } }"

definition hwaddr_compact_aton :: "bytes \<Rightarrow> (int \<times> bytes) option" where
  "hwaddr_compact_aton txt = hwaddr_compact_aton_loop 6 txt []"

fun skip_separators :: "bytes \<Rightarrow> bytes" where
  "skip_separators (c # pos) = (if c = 58 \<or> c = 46 \<or> c = 45 then skip_separators pos else c # pos)"
| "skip_separators [] = []"

fun hwaddr_aton2_loop :: "nat \<Rightarrow> bytes \<Rightarrow> bytes \<Rightarrow> ((bytes \<times> bytes) option) option" where
  "hwaddr_aton2_loop 0 pos addr = Some (Some (pos, addr))"
| "hwaddr_aton2_loop (Suc k) pos addr = do {
     let pos = skip_separators pos;
     c0 \<leftarrow> c_read pos 0;
     let a = hex2num c0;
     if a < 0 then Some None else do {
       c1 \<leftarrow> c_read pos 1;
       let b = hex2num c1;
       if b < 0 then Some None
       else hwaddr_aton2_loop k (drop 2 pos) (addr @ [word_of_int (push_bit 4 a OR b)]) } }"

definition hwaddr_aton2 :: "bytes \<Rightarrow> (int \<times> bytes) option" where
  "hwaddr_aton2 txt = do {
     r \<leftarrow> hwaddr_aton2_loop 6 txt [];
     case r of None \<Rightarrow> Some (-1, [])
     | Some (pos, addr) \<Rightarrow> Some (int (length txt - length pos), addr) }"

fun hexstr2bin_loop :: "nat \<Rightarrow> bytes \<Rightarrow> bytes \<Rightarrow> (int \<times> bytes) option" where
  "hexstr2bin_loop 0 ipos out = Some (0, out)"
| "hexstr2bin_loop (Suc k) ipos out = do {
     a \<leftarrow> hex2byte ipos;
     if a < 0 then Some (-1, out)
     else hexstr2bin_loop k (drop 2 ipos) (out @ [word_of_int a]) }"

definition hexstr2bin :: "bytes \<Rightarrow> nat \<Rightarrow> (int \<times> bytes) option" where
  "hexstr2bin hex len = hexstr2bin_loop len hex []"

section \<open>Counters and time stamps\<close>

text \<open>\<open>inc_byte_array\<close> with \<open>n = pos + 1\<close>.\<close>

fun inc_byte_array :: "bytes \<Rightarrow> nat \<Rightarrow> bytes option" where
  "inc_byte_array counter 0 = Some counter"
| "inc_byte_array counter (Suc pos) = do {
     v \<leftarrow> c_read counter pos;
     counter \<leftarrow> c_write counter pos (v + 1);
     if v + 1 \<noteq> 0 then Some counter else inc_byte_array counter pos }"

definition wpa_get_ntp_timestamp :: "u32 \<Rightarrow> u32 \<Rightarrow> bytes" where
  "wpa_get_ntp_timestamp now_sec now_usec =
     (let sec = now_sec + 2208988800;
          usec = 4295 * now_usec - drop_bit 5 now_usec - drop_bit 9 now_usec
      in WPA_PUT_BE32 sec @ WPA_PUT_BE32 usec)"

section \<open>Printing\<close>

definition hex_digit :: "bool \<Rightarrow> u8 \<Rightarrow> u8" where
  "hex_digit uppercase n = (if n < 10 then 48 + n else (if uppercase then 55 else 87) + n)"

text \<open>\<open>"%02x"\<close> and \<open>"%02X"\<close>.\<close>

definition fmt_02x :: "bool \<Rightarrow> u8 \<Rightarrow> bytes" where
  "fmt_02x uppercase b = [hex_digit uppercase (drop_bit 4 b), hex_digit uppercase (b AND 0xf)]"

text \<open>\<open>os_snprintf\<close> of a text at an offset of a buffer: what fits and a NUL; the return value is
  the length of the text.\<close>

definition snprintf_at :: "bytes \<Rightarrow> nat \<Rightarrow> bytes \<Rightarrow> bytes" where
  "snprintf_at b pos t =
     (let room = length b - pos; w = take (room - 1) t @ [0]
      in if room = 0 then b else take pos b @ w @ drop (pos + length w) b)"

fun snprintf_hex_loop :: "bytes \<Rightarrow> nat \<Rightarrow> bytes \<Rightarrow> bool \<Rightarrow> bytes \<times> nat" where
  "snprintf_hex_loop b pos [] uppercase = (b[length b - 1 := 0], pos)"
| "snprintf_hex_loop b pos (d # data) uppercase =
     (let t = fmt_02x uppercase d; b' = snprintf_at b pos t
      in if length t \<ge> length b - pos then (b'[length b - 1 := 0], pos)
         else snprintf_hex_loop b' (pos + length t) data uppercase)"

definition wpa_snprintf_hex_case :: "bytes \<Rightarrow> bytes \<Rightarrow> bool \<Rightarrow> bytes \<times> nat" where
  "wpa_snprintf_hex_case b data uppercase =
     (if b = [] then (b, 0) else snprintf_hex_loop b 0 data uppercase)"

definition wpa_snprintf_hex :: "bytes \<Rightarrow> bytes \<Rightarrow> bytes \<times> nat" where
  "wpa_snprintf_hex b data = wpa_snprintf_hex_case b data False"

definition wpa_snprintf_hex_uppercase :: "bytes \<Rightarrow> bytes \<Rightarrow> bytes \<times> nat" where
  "wpa_snprintf_hex_uppercase b data = wpa_snprintf_hex_case b data True"

text \<open>\<open>printf_encode\<close>: the short escapes are stored byte by byte, other unprintable bytes through
  \<open>os_snprintf\<close>. \<open>txt\<close> is a position in the buffer.\<close>

definition printf_escape :: "u8 \<Rightarrow> bytes option" where
  "printf_escape d =
     (if d = 34 then Some [92, 34]
      else if d = 92 then Some [92, 92]
      else if d = 27 then Some [92, 101]
      else if d = 10 then Some [92, 110]
      else if d = 13 then Some [92, 114]
      else if d = 9 then Some [92, 116]
      else if 32 \<le> d \<and> d \<le> 127 then Some [d]
      else None)"

fun store_bytes :: "bytes \<Rightarrow> nat \<Rightarrow> bytes \<Rightarrow> bytes option" where
  "store_bytes b pos [] = Some b"
| "store_bytes b pos (c # cs) = do { b \<leftarrow> c_write b pos c; store_bytes b (Suc pos) cs }"

fun printf_encode_loop :: "bytes \<Rightarrow> nat \<Rightarrow> bytes \<Rightarrow> (bytes \<times> nat) option" where
  "printf_encode_loop b pos [] = Some (b, pos)"
| "printf_encode_loop b pos (d # data) =
     (if pos + 4 > length b then Some (b, pos)
      else case printf_escape d of
          Some e \<Rightarrow> do { b \<leftarrow> store_bytes b pos e; printf_encode_loop b (pos + length e) data }
        | None \<Rightarrow> let t = [92, 120] @ fmt_02x False d
                  in printf_encode_loop (snprintf_at b pos t) (pos + length t) data)"

definition printf_encode :: "bytes \<Rightarrow> bytes \<Rightarrow> bytes option" where
  "printf_encode b data = do { (b, pos) \<leftarrow> printf_encode_loop b 0 data; c_write b pos 0 }"

text \<open>\<open>wpa_ssid_txt\<close> with its static buffer of 32 * 4 + 1 bytes.\<close>

definition wpa_ssid_txt :: "bytes \<Rightarrow> bytes option \<Rightarrow> bytes option" where
  "wpa_ssid_txt ssid_txt ssid =
     (case ssid of None \<Rightarrow> c_write ssid_txt 0 0 | Some s \<Rightarrow> printf_encode ssid_txt s)"

section \<open>Decoding escapes\<close>

text \<open>
  One turn of the \<open>printf_decode\<close> loop after a backslash: \<open>pos\<close> points behind it. The result is
  the byte stored, if any, and the new position. The octal case reads up to three digits.
\<close>

definition octal_digit :: "u8 \<Rightarrow> bool" where
  "octal_digit c \<longleftrightarrow> 48 \<le> c \<and> c \<le> 55"

definition take_octal :: "nat \<Rightarrow> bytes \<Rightarrow> (nat \<times> bytes) option" where
  "take_octal val pos = do {
     c \<leftarrow> c_read pos 0;
     if octal_digit c then Some (val * 8 + unat (c - 48), drop 1 pos) else Some (val, pos) }"

definition printf_decode_escape :: "bytes \<Rightarrow> (u8 option \<times> bytes) option" where
  "printf_decode_escape pos = do {
     c \<leftarrow> c_read pos 0;
     let next = drop 1 pos;
     if c = 92 then Some (Some 92, next)
     else if c = 34 then Some (Some 34, next)
     else if c = 110 then Some (Some 10, next)
     else if c = 114 then Some (Some 13, next)
     else if c = 116 then Some (Some 9, next)
     else if c = 101 then Some (Some 27, next)
     else if c = 120 then do {
       val \<leftarrow> hex2byte next;
       if val < 0 then do {
         c' \<leftarrow> c_read next 0;
         let val = hex2num c';
         if val < 0 then Some (None, next) else Some (Some (word_of_int val), drop 1 next) }
       else Some (Some (word_of_int val), drop 2 next) }
     else if octal_digit c then do {
       (val, pos) \<leftarrow> take_octal (unat (c - 48)) next;
       (val, pos) \<leftarrow> take_octal val pos;
       Some (Some (of_nat val), pos) }
     else Some (None, pos) }"

lemma take_octal_shorter: "take_octal v pos = Some (w, pos') \<Longrightarrow> length pos' \<le> length pos"
  by (auto simp: take_octal_def bind_eq_Some_iff split: if_splits)

lemma printf_decode_escape_shorter:
  "printf_decode_escape pos = Some (r, pos') \<Longrightarrow> length pos' \<le> length pos"
  by (auto simp: printf_decode_escape_def bind_eq_Some_iff Let_def split: if_splits
      dest!: take_octal_shorter)

function printf_decode_loop :: "bytes \<Rightarrow> nat \<Rightarrow> bytes \<Rightarrow> bytes option" where
  "printf_decode_loop [] maxlen out = None"
| "printf_decode_loop (c # pos) maxlen out =
     (if c = 0 then Some out
      else if length out + 1 \<ge> maxlen then Some out
      else if c = 92 then
        (case printf_decode_escape pos of
           None \<Rightarrow> None
         | Some (r, pos') \<Rightarrow>
             printf_decode_loop pos' maxlen (out @ (case r of None \<Rightarrow> [] | Some v \<Rightarrow> [v])))
      else printf_decode_loop pos maxlen (out @ [c]))"
  by pat_completeness auto
termination
  by (relation "measure (\<lambda>(pos, _, _). length pos)")
    (auto dest!: printf_decode_escape_shorter)

text \<open>The bytes decoded; the C function also stores a NUL behind them when
  \<open>maxlen > len\<close>.\<close>

definition printf_decode :: "nat \<Rightarrow> bytes \<Rightarrow> bytes option" where
  "printf_decode maxlen str = printf_decode_loop str maxlen []"

section \<open>Configuration strings and array helpers\<close>

text \<open>\<open>os_strrchr(value, '"')\<close> followed by the test that it is the last character: the text
  between the quotes.\<close>

definition until_last_quote :: "bytes \<Rightarrow> bytes option" where
  "until_last_quote s =
     (let str = c_str s in if str \<noteq> [] \<and> last str = 34 then Some (butlast str) else None)"

definition wpa_config_parse_string :: "(nat \<Rightarrow> bool) \<Rightarrow> bytes \<Rightarrow> bytes option option" where
  "wpa_config_parse_string mem value = do {
     c0 \<leftarrow> c_read value 0;
     if c0 = 34 then
       (case until_last_quote (drop 1 value) of
          None \<Rightarrow> Some None
        | Some str \<Rightarrow> if mem (length str + 1) then Some (Some str) else Some None)
     else do {
       quoted \<leftarrow> (if c0 = 80 then do { c1 \<leftarrow> c_read value 1; Some (c1 = 34) } else Some False);
       if quoted then
         (case until_last_quote (drop 2 value) of
            None \<Rightarrow> Some None
          | Some tstr \<Rightarrow>
              if \<not> mem (length tstr + 1) then Some None
              else do {
                str \<leftarrow> printf_decode (length tstr + 1) (tstr @ [0]);
                Some (Some str) })
       else do {
         hlen \<leftarrow> os_strlen value;
         if hlen mod 2 = 1 then Some None
         else if \<not> mem (hlen div 2 + 1) then Some None
         else do {
           (ret, str) \<leftarrow> hexstr2bin value (hlen div 2);
           if ret \<noteq> 0 then Some None else Some (Some str) } } } }"

definition is_hex :: "bytes \<Rightarrow> bool" where
  "is_hex data \<longleftrightarrow> list_ex (\<lambda>d. d < 32 \<or> d \<ge> 127) data"

function find_first_bit_loop :: "u32 \<Rightarrow> int \<Rightarrow> int" where
  "find_first_bit_loop value pos =
     (if value = 0 then -1
      else if value AND 1 \<noteq> 0 then pos
      else find_first_bit_loop (drop_bit 1 value) (pos + 1))"
  by pat_completeness auto
termination
proof (relation "measure (\<lambda>(v, _). unat v)")
  fix v :: u32 and pos :: int
  assume "v \<noteq> 0"
  then have "unat v div 2 < unat v" by (intro div_less_dividend) (auto simp: unat_gt_0)
  then show "((drop_bit 1 v, pos + 1), v, pos) \<in> measure (\<lambda>(v, _). unat v)"
    by (simp add: drop_bit_eq_div unat_div)
qed auto

definition find_first_bit :: "u32 \<Rightarrow> int" where
  "find_first_bit value = find_first_bit_loop value 0"

definition merge_byte_arrays :: "nat \<Rightarrow> bytes option \<Rightarrow> bytes option \<Rightarrow> bytes \<times> nat" where
  "merge_byte_arrays res_len src1 src2 =
     (let res = replicate res_len 0;
          after1 = (case src1 of
             None \<Rightarrow> Inr (res, 0)
           | Some s1 \<Rightarrow> if length s1 \<ge> res_len then Inl (take res_len s1, res_len)
                       else Inr (s1 @ drop (length s1) res, length s1))
      in case after1 of
           Inl r \<Rightarrow> r
         | Inr (res, len) \<Rightarrow>
             (case src2 of
                None \<Rightarrow> (res, len)
              | Some s2 \<Rightarrow>
                  if len + length s2 \<ge> res_len
                  then (take len res @ take (res_len - len) s2, res_len)
                  else (take len res @ s2 @ drop (len + length s2) res, len + length s2)))"

record wpa_freq_range =
  fr_min :: u32
  fr_max :: u32

definition freq_range_list_includes :: "wpa_freq_range list option \<Rightarrow> u32 \<Rightarrow> bool" where
  "freq_range_list_includes list freq =
     (case list of None \<Rightarrow> False
      | Some rs \<Rightarrow> list_ex (\<lambda>r. fr_min r \<le> freq \<and> freq \<le> fr_max r) rs)"

section \<open>Hexadecimal round trips\<close>

lemma nibble_cases: "n < (16 :: u8) \<Longrightarrow> n \<in> set (map of_nat [0..<16])"
proof -
  assume "n < 16"
  then have "unat n < 16" by (simp add: word_less_nat_alt)
  then have "of_nat (unat n) \<in> (of_nat ` set [0..<16] :: u8 set)" by (intro imageI) simp
  then show ?thesis by simp
qed

lemma hex2num_hex_digit:
  assumes "n < 16" shows "hex2num (hex_digit up n) = uint n" "hex_digit up n \<noteq> 0"
proof -
  have "list_all (\<lambda>n :: u8. hex2num (hex_digit True n) = uint n \<and> hex2num (hex_digit False n) = uint n \<and>
      hex_digit True n \<noteq> 0 \<and> hex_digit False n \<noteq> 0) (map of_nat [0..<16])"
    by code_simp
  then show "hex2num (hex_digit up n) = uint n" "hex_digit up n \<noteq> 0"
    using nibble_cases [OF assms] by (cases up; auto simp: list_all_iff)+
qed

lemma nibble_bounds: "drop_bit 4 (b :: u8) < 16" "b AND 0xf < (16 :: u8)"
proof -
  have "unat (drop_bit 4 b) < 16"
    using unsigned_less [of b, where 'a = nat] by (simp add: drop_bit_eq_div unat_div)
  then show "drop_bit 4 b < 16" by (simp add: word_less_nat_alt)
  have "b AND 0xf \<le> 0xf" by (rule word_and_le1)
  then show "b AND 0xf < 16" by (simp add: word_le_nat_alt word_less_nat_alt)
qed

lemma nibbles_join:
  "word_of_int (push_bit 4 (uint (drop_bit 4 (b :: u8))) OR uint (b AND 0xf)) = b"
  by (simp add: word8_eq_iff bit_simps)

lemma nibbles_nonneg: "0 \<le> push_bit 4 (uint (x :: u8)) OR uint (y :: u8)"
  by (simp add: push_bit_eq_mult)

lemma length_fmt [simp]: "length (fmt_02x up b) = 2"
  by (simp add: fmt_02x_def)

lemma hex2byte_fmt:
  "\<exists>v \<ge> 0. hex2byte (fmt_02x up b @ r) = Some v \<and> word_of_int v = b"
  using nibbles_nonneg [of "drop_bit 4 b" "b AND 0xf"] nibbles_join [of b]
  by (auto simp: hex2byte_def fmt_02x_def hex2num_hex_digit nibble_bounds Let_def)

lemma hexstr2bin_loop_fmt:
  "hexstr2bin_loop (length data) (concat (map (fmt_02x up) data) @ r) out = Some (0, out @ data)"
proof (induction data arbitrary: out)
  case (Cons b data)
  obtain v where v: "v \<ge> 0" "hex2byte (fmt_02x up b @ concat (map (fmt_02x up) data) @ r) = Some v"
    "word_of_int v = b"
    using hex2byte_fmt by blast
  then show ?case using Cons by simp
qed simp

lemma snprintf_at_fits:
  assumes "pos + length t < length b"
  shows "snprintf_at b pos t = take pos b @ t @ 0 # drop (pos + length t + 1) b"
  using assms by (simp add: snprintf_at_def Let_def)

lemma snprintf_hex_loop_fits:
  assumes "pos + 2 * length data < length b"
  shows "\<exists>rest. snprintf_hex_loop b pos data up =
    (take pos b @ concat (map (fmt_02x up) data) @ rest, pos + 2 * length data) \<and>
    length rest = length b - pos - 2 * length data"
  using assms
proof (induction data arbitrary: b pos)
  case Nil
  let ?b = "b[length b - 1 := 0]"
  have "take pos ?b = take pos b" using Nil by (intro take_update_cancel) simp
  then have "?b = take pos b @ drop pos ?b" by (metis append_take_drop_id)
  with Nil show ?case by (intro exI [of _ "drop pos ?b"]) simp
next
  case (Cons d data)
  let ?b = "snprintf_at b pos (fmt_02x up d)"
  have b: "?b = take pos b @ fmt_02x up d @ 0 # drop (Suc (Suc (Suc pos))) b"
    using Cons.prems snprintf_at_fits [of pos "fmt_02x up d" b] by simp
  have "snprintf_hex_loop b pos (d # data) up = snprintf_hex_loop ?b (pos + 2) data up"
  proof -
    have "\<not> length b - pos \<le> 2" using Cons.prems by auto
    then show ?thesis by (simp add: Let_def)
  qed
  moreover obtain rest where r: "snprintf_hex_loop ?b (pos + 2) data up =
      (take (pos + 2) ?b @ concat (map (fmt_02x up) data) @ rest, pos + 2 + 2 * length data)"
    "length rest = length ?b - (pos + 2) - 2 * length data"
  proof -
    have "length ?b = length b" using Cons.prems by (simp add: b)
    then have "pos + 2 + 2 * length data < length ?b" using Cons.prems by simp
    from Cons.IH [OF this] show ?thesis using that by blast
  qed
  moreover have "take (pos + 2) ?b = take pos b @ fmt_02x up d"
    using Cons.prems by (simp add: b)
  ultimately show ?case
    using Cons.prems by (auto simp: b)
qed

section \<open>Counters\<close>

text \<open>The number a byte array stands for, most significant byte first.\<close>

definition be_val :: "bytes \<Rightarrow> nat" where
  "be_val bs = foldl (\<lambda>v b. v * 256 + unat b) 0 bs"

lemma be_val_snoc: "be_val (bs @ [b]) = be_val bs * 256 + unat b"
  by (simp add: be_val_def)

lemma unat_inc_u8: "unat (v + 1 :: u8) = (unat v + 1) mod 256"
  by (simp add: unat_word_ariths)

lemma be_val_less: "be_val bs < 256 ^ length bs"
proof (induction bs rule: rev_induct)
  case (snoc b bs)
  have "be_val bs * 256 + unat b < (be_val bs + 1) * 256" using unat_u8_less [of b] by simp
  also have "\<dots> \<le> 256 ^ length bs * 256" using snoc by (intro mult_le_mono) simp_all
  finally show ?case by (simp add: be_val_snoc mult.commute)
qed (simp add: be_val_def)

lemma inc_byte_array_append:
  "n \<le> length bs \<Longrightarrow> inc_byte_array (bs @ r) n = map_option (\<lambda>x. x @ r) (inc_byte_array bs n)"
proof (induction n arbitrary: bs)
  case (Suc n)
  then have "(bs @ r) ! n = bs ! n" "(bs @ r)[n := v] = bs[n := v] @ r" for v
    by (simp_all add: nth_append list_update_append)
  with Suc show ?case by simp
qed simp

lemma inc_byte_array_val:
  "\<exists>bs'. inc_byte_array bs (length bs) = Some bs' \<and> length bs' = length bs \<and>
     be_val bs' = (be_val bs + 1) mod 256 ^ length bs"
proof (induction bs rule: rev_induct)
  case Nil
  then show ?case by (simp add: be_val_def)
next
  case (snoc b bs)
  show ?case
  proof (cases "b + 1 = 0")
    case False
    then have b: "unat (b + 1) = unat b + 1"
      using unat_inc_u8 [of b] unat_u8_less [of b] by (cases "unat b + 1 = 256") (auto simp: unat_eq_0)
    have "be_val bs * 256 + unat b + 1 < 256 ^ length (bs @ [b])"
      using be_val_less [of "bs @ [b + 1]"] b by (simp add: be_val_snoc)
    with False b show ?thesis by (simp add: be_val_snoc list_update_append)
  next
    case True
    then have b: "unat b = 255"
      using unat_inc_u8 [of b] unat_u8_less [of b] by (simp add: mod_Suc split: if_splits)
    obtain bs' where bs': "inc_byte_array bs (length bs) = Some bs'" "length bs' = length bs"
      "be_val bs' = (be_val bs + 1) mod 256 ^ length bs" using snoc by blast
    have "be_val (bs' @ [0]) = (be_val (bs @ [b]) + 1) mod 256 ^ length (bs @ [b])"
      using mult_mod_left [of "be_val bs + 1" "256 ^ length bs" 256]
      by (simp add: be_val_snoc b bs'(3) mult.commute)
    with True bs' show ?thesis
      by (simp add: list_update_append inc_byte_array_append)
  qed
qed

section \<open>Printable encodings\<close>

lemma length_store_bytes: "store_bytes b pos cs = Some b' \<Longrightarrow> length b' = length b"
  by (induction cs arbitrary: b pos) (auto simp: bind_eq_Some_iff c_write_def split: if_splits)

lemma store_bytes_fits:
  "pos + length cs \<le> length b \<Longrightarrow> store_bytes b pos cs = Some (take pos b @ cs @ drop (pos + length cs) b)"
proof (induction cs arbitrary: b pos)
  case (Cons c cs)
  then have "store_bytes b pos (c # cs) =
      Some (take (Suc pos) (b[pos := c]) @ cs @ drop (Suc pos + length cs) (b[pos := c]))" by simp
  moreover have "take (Suc pos) (b[pos := c]) = take pos b @ [c]"
    using Cons.prems by (simp add: take_Suc_conv_app_nth)
  ultimately show ?case by simp
qed simp

text \<open>The text one byte is printed as.\<close>

definition printf_text :: "u8 \<Rightarrow> bytes" where
  "printf_text d = (case printf_escape d of Some e \<Rightarrow> e | None \<Rightarrow> [92, 120] @ fmt_02x False d)"

lemma printf_text_length: "length (printf_text d) \<le> 4" "printf_text d \<noteq> []"
  by (auto simp: printf_text_def printf_escape_def)

lemma printf_encode_loop_fits:
  assumes "pos + 4 * length data < length b"
  shows "\<exists>b'. printf_encode_loop b pos data = Some (b', pos + length (concat (map printf_text data))) \<and>
    length b' = length b \<and>
    take (pos + length (concat (map printf_text data))) b' = take pos b @ concat (map printf_text data)"
  using assms
proof (induction data arbitrary: b pos)
  case (Cons d data)
  let ?t = "printf_text d"
  have t: "length ?t \<le> 4" by (rule printf_text_length)
  obtain b1 where step: "printf_encode_loop b pos (d # data) =
      printf_encode_loop b1 (pos + length ?t) data"
    and b1: "length b1 = length b" "take (pos + length ?t) b1 = take pos b @ ?t"
  proof (cases "printf_escape d")
    case (Some e)
    then have "length e \<le> 4" using t by (simp add: printf_text_def)
    then show ?thesis
      using that [of "take pos b @ e @ drop (pos + length e) b"] Cons.prems Some
      by (simp add: store_bytes_fits printf_text_def)
  next
    case None
    then show ?thesis
      using that [of "snprintf_at b pos ?t"] Cons.prems
      by (simp add: printf_text_def snprintf_at_fits)
  qed
  then show ?case
    using Cons.IH [of "pos + length ?t" b1] Cons.prems t by (auto simp: add.assoc)
qed simp

lemma c_read_simps [simp]: "c_read (x # xs) 0 = Some x" "c_read (x # xs) (Suc i) = c_read xs i"
  by (simp_all add: c_read_def)

lemma decode_escape_hex: "printf_decode_escape (120 # fmt_02x False d @ r) = Some (Some d, r)"
proof -
  obtain v where "v \<ge> 0" "hex2byte (fmt_02x False d @ r) = Some v" "word_of_int v = d"
    using hex2byte_fmt by blast
  then show ?thesis by (simp add: printf_decode_escape_def Let_def)
qed

lemma printf_decode_text:
  assumes "length out + 1 < maxlen"
  shows "printf_decode_loop (printf_text d @ r) maxlen out = printf_decode_loop r maxlen (out @ [d])"
proof (cases "printf_escape d")
  case None
  then show ?thesis using assms by (simp add: printf_text_def decode_escape_hex)
next
  case (Some e)
  then consider "d = 34" | "d = 92" | "d = 27" | "d = 10" | "d = 13" | "d = 9"
    | "e = [d]" "d \<noteq> 92" "32 \<le> d"
    by (auto simp: printf_escape_def split: if_splits)
  then show ?thesis
  proof cases
    case 7
    then have "d \<noteq> 0" by auto
    with 7 Some assms show ?thesis by (simp add: printf_text_def)
  qed (use assms in \<open>simp_all add: printf_text_def printf_escape_def printf_decode_escape_def\<close>)
qed

lemma printf_decode_texts:
  "length out + length data < maxlen \<Longrightarrow>
     printf_decode_loop (concat (map printf_text data) @ 0 # r) maxlen out = Some (out @ data)"
proof (induction data arbitrary: out)
  case (Cons d data)
  then have "printf_decode_loop (concat (map printf_text (d # data)) @ 0 # r) maxlen out =
      printf_decode_loop (concat (map printf_text data) @ 0 # r) maxlen (out @ [d])"
    by (simp add: printf_decode_text)
  with Cons show ?case by simp
qed simp

lemma printf_encode_text:
  assumes "4 * length data < length b"
  shows "\<exists>r. printf_encode b data = Some (concat (map printf_text data) @ 0 # r)"
proof -
  let ?n = "length (concat (map printf_text data))"
  obtain b' where b': "printf_encode_loop b 0 data = Some (b', ?n)" "length b' = length b"
    "take ?n b' = concat (map printf_text data)"
    using printf_encode_loop_fits [of 0 data b] assms by auto
  have "?n \<le> 4 * length data"
    by (induction data) (auto intro!: add_mono printf_text_length)
  with assms b'(2) have "?n < length b'" by simp
  then show ?thesis
    using b' by (simp add: printf_encode_def upd_conv_take_nth_drop)
qed

section \<open>Properties\<close>

text \<open>
  Hexadecimal text round trip: for a buffer of at least \<open>2 * len + 1\<close> bytes,
  \<open>wpa_snprintf_hex\<close> (and its upper-case variant) writes two characters per byte, reports that
  length, and \<open>hexstr2bin\<close> reads exactly the same bytes back from the buffer.
\<close>

theorem hex_roundtrip:
  assumes "2 * length data < length b"
  shows "\<exists>b' n. wpa_snprintf_hex_case b data up = (b', n) \<and> n = 2 * length data \<and>
    length b' = length b \<and> hexstr2bin b' (length data) = Some (0, data)"
proof -
  have "b \<noteq> []" using assms by auto
  moreover obtain rest where "snprintf_hex_loop b 0 data up =
      (concat (map (fmt_02x up) data) @ rest, 2 * length data)"
    "length rest = length b - 2 * length data"
    using snprintf_hex_loop_fits [of 0 data b up] assms by auto
  moreover have "length (concat (map (fmt_02x up) data)) = 2 * length data"
    by (induction data) auto
  ultimately show ?thesis
    using hexstr2bin_loop_fmt [of data up rest "[]"] assms
    by (simp add: wpa_snprintf_hex_case_def hexstr2bin_def)
qed

theorem hex_roundtrip_witness:
  "\<exists>b'. wpa_snprintf_hex_case (replicate 5 0) [0xa4, 0xc0] False = (b', 4) \<and>
     hexstr2bin b' 2 = Some (0, [0xa4, 0xc0])"
  using hex_roundtrip [of "[0xa4, 0xc0]" "replicate 5 0" False] by (auto simp: numeral_2_eq_2)

text \<open>
  \<open>inc_byte_array\<close> adds one to the big-endian number in the array, modulo 256 to the
  length: it succeeds on every array, keeps the length, and wraps only from all-ones to zero.
\<close>

theorem inc_byte_array_correct:
  "\<exists>bs'. inc_byte_array bs (length bs) = Some bs' \<and> length bs' = length bs \<and>
     be_val bs' = (be_val bs + 1) mod 256 ^ length bs"
  by (rule inc_byte_array_val)

text \<open>
  \<open>printf_encode\<close> into a buffer with more than four bytes per input byte stays inside the
  buffer and terminates the text, and \<open>printf_decode\<close> with room for the data recovers it.
\<close>

theorem printf_encode_decode:
  assumes "4 * length data < length b" "length data < maxlen"
  shows "\<exists>enc. printf_encode b data = Some enc \<and> printf_decode maxlen enc = Some data"
  using printf_encode_text [OF assms(1)] printf_decode_texts [of "[]" data maxlen] assms(2)
  by (auto simp: printf_decode_def)

theorem printf_encode_decode_witness:
  "\<exists>enc. printf_encode (replicate 9 0) [34, 1] = Some enc \<and> printf_decode 3 enc = Some [34, 1]"
  using printf_encode_decode [of "[34, 1]" "replicate 9 0" 3] by simp



end
