(* ===== verification/Aes_Correct.thy ===== *)
theory Aes_Correct
  imports Aes_Internal
begin

text \<open>
  Decryption inverts encryption for the block cipher of \<open>Aes_Internal\<close>. The tables are tied to
  their algebraic meaning first (the substitution box, doubling in the field, the column mixing
  word and its inverse), then one round of \<open>rijndaelDecrypt\<close> is shown to undo one round of
  \<open>rijndaelEncrypt\<close>, and the key schedule of \<open>rijndaelKeySetupDec\<close> is shown to hold the round
  keys in reverse order with the inner ones mixed.
\<close>

section \<open>Field arithmetic and tables\<close>


definition xtime :: "u8 \<Rightarrow> u8" where
  "xtime y = push_bit 1 y XOR (if bit y 7 then 0x1b else 0)"

definition w4 :: "u8 \<Rightarrow> u8 \<Rightarrow> u8 \<Rightarrow> u8 \<Rightarrow> u32" where
  "w4 a b c d = push_bit 24 (ucast a) OR push_bit 16 (ucast b) OR push_bit 8 (ucast c) OR ucast d"

definition mw :: "u8 \<Rightarrow> u32" where
  "mw y = w4 (xtime y) y y (xtime y XOR y)"

definition imw :: "u8 \<Rightarrow> u32" where
  "imw y = (let y2 = xtime y; y4 = xtime y2; y8 = xtime y4
     in w4 (y8 XOR y4 XOR y2) (y8 XOR y) (y8 XOR y4 XOR y) (y8 XOR y2 XOR y))"

definition sbox :: "u8 list" where
  "sbox = [
     0x63, 0x7c, 0x77, 0x7b, 0xf2, 0x6b, 0x6f, 0xc5, 0x30, 0x01, 0x67, 0x2b, 0xfe, 0xd7, 0xab, 0x76,
     0xca, 0x82, 0xc9, 0x7d, 0xfa, 0x59, 0x47, 0xf0, 0xad, 0xd4, 0xa2, 0xaf, 0x9c, 0xa4, 0x72, 0xc0,
     0xb7, 0xfd, 0x93, 0x26, 0x36, 0x3f, 0xf7, 0xcc, 0x34, 0xa5, 0xe5, 0xf1, 0x71, 0xd8, 0x31, 0x15,
     0x04, 0xc7, 0x23, 0xc3, 0x18, 0x96, 0x05, 0x9a, 0x07, 0x12, 0x80, 0xe2, 0xeb, 0x27, 0xb2, 0x75,
     0x09, 0x83, 0x2c, 0x1a, 0x1b, 0x6e, 0x5a, 0xa0, 0x52, 0x3b, 0xd6, 0xb3, 0x29, 0xe3, 0x2f, 0x84,
     0x53, 0xd1, 0x00, 0xed, 0x20, 0xfc, 0xb1, 0x5b, 0x6a, 0xcb, 0xbe, 0x39, 0x4a, 0x4c, 0x58, 0xcf,
     0xd0, 0xef, 0xaa, 0xfb, 0x43, 0x4d, 0x33, 0x85, 0x45, 0xf9, 0x02, 0x7f, 0x50, 0x3c, 0x9f, 0xa8,
     0x51, 0xa3, 0x40, 0x8f, 0x92, 0x9d, 0x38, 0xf5, 0xbc, 0xb6, 0xda, 0x21, 0x10, 0xff, 0xf3, 0xd2,
     0xcd, 0x0c, 0x13, 0xec, 0x5f, 0x97, 0x44, 0x17, 0xc4, 0xa7, 0x7e, 0x3d, 0x64, 0x5d, 0x19, 0x73,
     0x60, 0x81, 0x4f, 0xdc, 0x22, 0x2a, 0x90, 0x88, 0x46, 0xee, 0xb8, 0x14, 0xde, 0x5e, 0x0b, 0xdb,
     0xe0, 0x32, 0x3a, 0x0a, 0x49, 0x06, 0x24, 0x5c, 0xc2, 0xd3, 0xac, 0x62, 0x91, 0x95, 0xe4, 0x79,
     0xe7, 0xc8, 0x37, 0x6d, 0x8d, 0xd5, 0x4e, 0xa9, 0x6c, 0x56, 0xf4, 0xea, 0x65, 0x7a, 0xae, 0x08,
     0xba, 0x78, 0x25, 0x2e, 0x1c, 0xa6, 0xb4, 0xc6, 0xe8, 0xdd, 0x74, 0x1f, 0x4b, 0xbd, 0x8b, 0x8a,
     0x70, 0x3e, 0xb5, 0x66, 0x48, 0x03, 0xf6, 0x0e, 0x61, 0x35, 0x57, 0xb9, 0x86, 0xc1, 0x1d, 0x9e,
     0xe1, 0xf8, 0x98, 0x11, 0x69, 0xd9, 0x8e, 0x94, 0x9b, 0x1e, 0x87, 0xe9, 0xce, 0x55, 0x28, 0xdf,
     0x8c, 0xa1, 0x89, 0x0d, 0xbf, 0xe6, 0x42, 0x68, 0x41, 0x99, 0x2d, 0x0f, 0xb0, 0x54, 0xbb, 0x16]"

lemma Te0_mw: "Te0 = map mw sbox"
  by (simp add: sbox_def Te0_def mw_def w4_def xtime_def)

lemma Td0_imw: "Td0 = map imw Td4s"
  by (simp add: Td4s_def Td0_def imw_def w4_def xtime_def Let_def)

lemma Td4s_sbox_list: "map (\<lambda>x. Td4s ! unat x) sbox = map of_nat [0..<256]"
  by (simp add: sbox_def Td4s_def upt_rec)

section \<open>Column mixing\<close>

lemma xtime_xor: "xtime (a XOR b) = xtime a XOR xtime b"
  by (cases "bit a 7"; cases "bit b 7")
    (simp_all add: xtime_def word8_eq_iff bit_simps)

lemma w4_xor: "w4 (a XOR a') (b XOR b') (c XOR c') (d XOR d') = w4 a b c d XOR w4 a' b' c' d'"
  by (simp add: w4_def word32_eq_iff bit_simps)

lemma mw_xor: "mw (a XOR b) = mw a XOR mw b"
  by (simp add: mw_def xtime_xor ac_simps flip: w4_xor)

lemma imw_xor: "imw (a XOR b) = imw a XOR imw b"
  by (simp add: imw_def Let_def xtime_xor ac_simps flip: w4_xor)

lemma rotr_xor: "n \<le> 32 \<Longrightarrow> rotr (a XOR b) n = rotr a n XOR rotr b n"
  by (rule bit_word_eqI) (auto simp: rotr_def bit_simps)

lemma rotr_w4: "rotr (w4 a b c d) 8 = w4 d a b c" "rotr (w4 a b c d) 16 = w4 c d a b"
  "rotr (w4 a b c d) 24 = w4 b c d a"
  by (simp_all add: rotr_def w4_def word32_eq_iff bit_simps)

text \<open>Column mixing on the four bytes of a word.\<close>

definition mixw :: "u8 \<Rightarrow> u8 \<Rightarrow> u8 \<Rightarrow> u8 \<Rightarrow> u32" where
  "mixw a b c d = mw a XOR rotr (mw b) 8 XOR rotr (mw c) 16 XOR rotr (mw d) 24"

definition imixw :: "u8 \<Rightarrow> u8 \<Rightarrow> u8 \<Rightarrow> u8 \<Rightarrow> u32" where
  "imixw a b c d = imw a XOR rotr (imw b) 8 XOR rotr (imw c) 16 XOR rotr (imw d) 24"

definition byte3 :: "u32 \<Rightarrow> u8" where "byte3 w = ucast (drop_bit 24 w)"
definition byte2 :: "u32 \<Rightarrow> u8" where "byte2 w = ucast (drop_bit 16 w)"
definition byte1 :: "u32 \<Rightarrow> u8" where "byte1 w = ucast (drop_bit 8 w)"
definition byte0 :: "u32 \<Rightarrow> u8" where "byte0 w = ucast w"

lemma bytes_w4 [simp]: "byte3 (w4 a b c d) = a" "byte2 (w4 a b c d) = b" "byte1 (w4 a b c d) = c"
  "byte0 (w4 a b c d) = d"
  by (simp_all add: byte3_def byte2_def byte1_def byte0_def w4_def word8_eq_iff bit_simps)

lemma w4_bytes [simp]: "w4 (byte3 w) (byte2 w) (byte1 w) (byte0 w) = w"
  by (simp add: byte3_def byte2_def byte1_def byte0_def w4_def word32_eq_iff bit_simps)

lemma bytes_xor: "byte3 (v XOR w) = byte3 v XOR byte3 w" "byte2 (v XOR w) = byte2 v XOR byte2 w"
  "byte1 (v XOR w) = byte1 v XOR byte1 w" "byte0 (v XOR w) = byte0 v XOR byte0 w"
  by (simp_all add: byte3_def byte2_def byte1_def byte0_def word8_eq_iff bit_simps)

lemma xor_cancel: "(x :: u8) XOR (x XOR y) = y"
  by (simp flip: xor.assoc)

lemma imix_mix: 
  "imixw (byte3 (mixw a b c d)) (byte2 (mixw a b c d)) (byte1 (mixw a b c d)) (byte0 (mixw a b c d)) = w4 a b c d"
proof -
  have m: "mixw a b c d = w4 (xtime a XOR (xtime b XOR b) XOR c XOR d)
     (a XOR xtime b XOR (xtime c XOR c) XOR d) (a XOR b XOR xtime c XOR (xtime d XOR d))
     ((xtime a XOR a) XOR b XOR c XOR xtime d)"
    by (simp add: mixw_def mw_def rotr_w4 flip: w4_xor)
  show ?thesis
    unfolding m bytes_w4
    unfolding imixw_def imw_def Let_def rotr_w4 w4_xor [symmetric] xtime_xor
    by (simp add: xor.assoc xor.left_commute xor.commute xor_cancel)
qed


section \<open>Rounds as byte substitution, column mixing and key addition\<close>

definition sb :: "u8 \<Rightarrow> u8" where "sb x = sbox ! unat x"
definition isb :: "u8 \<Rightarrow> u8" where "isb x = Td4s ! unat x"

lemma length_tables [simp]: "length sbox = 256" "length Td4s = 256"
  by (simp_all add: sbox_def Td4s_def)

declare unat_u8_less [simp]

lemma isb_sb [simp]: "isb (sb x) = x"
proof -
  have "map (\<lambda>x. Td4s ! unat x) sbox ! unat x = map of_nat [0..<256] ! unat x"
    by (simp only: Td4s_sbox_list)
  then show ?thesis by (simp add: isb_def sb_def)
qed

lemma Te0_nth: "Te0 ! unat x = mw (sb x)"
  by (simp add: Te0_mw sb_def)

lemma Td0_nth: "Td0 ! unat x = imw (isb x)"
  by (simp add: Td0_imw isb_def)

lemma b_byte: "b3 w = unat (byte3 w)" "b2 w = unat (byte2 w)" "b1 w = unat (byte1 w)" "b0 w = unat (byte0 w)"
proof -
  have "v AND 0xff = ucast (ucast v :: u8)" for v :: u32
    by (simp add: word32_eq_iff bit_simps bit_255_int)
  then have "unat (v AND 0xff) = unat (ucast v :: u8)" for v :: u32
    by (simp add: unsigned_ucast_eq unsigned_take_bit_eq)
  then show "b3 w = unat (byte3 w)" "b2 w = unat (byte2 w)" "b1 w = unat (byte1 w)" "b0 w = unat (byte0 w)"
    by (simp_all add: b3_def b2_def b1_def b0_def byte3_def byte2_def byte1_def byte0_def)
qed

lemma mw_masks:
  "push_bit 8 (mw y) AND 0xff000000 = w4 y 0 0 0" "mw y AND 0x00ff0000 = w4 0 y 0 0"
  "mw y AND 0x0000ff00 = w4 0 0 y 0" "drop_bit 8 (mw y) AND 0x000000ff = w4 0 0 0 y"
  by (simp_all add: mw_def w4_def word32_eq_iff bit_simps)

lemma TE_bytes:
  "TE0 i = mw (sb (byte3 i))" "TE1 i = rotr (mw (sb (byte2 i))) 8"
  "TE2 i = rotr (mw (sb (byte1 i))) 16" "TE3 i = rotr (mw (sb (byte0 i))) 24"
  "TE41 i = w4 (sb (byte3 i)) 0 0 0" "TE42 i = w4 0 (sb (byte2 i)) 0 0"
  "TE43 i = w4 0 0 (sb (byte1 i)) 0" "TE44 i = w4 0 0 0 (sb (byte0 i))"
  by (simp_all add: TE0_def TE1_def TE2_def TE3_def TE41_def TE42_def TE43_def TE44_def b_byte
      Te0_nth mw_masks)

lemma TD_bytes:
  "TD0 i = imw (isb (byte3 i))" "TD1 i = rotr (imw (isb (byte2 i))) 8"
  "TD2 i = rotr (imw (isb (byte1 i))) 16" "TD3 i = rotr (imw (isb (byte0 i))) 24"
  "TD41 i = w4 (isb (byte3 i)) 0 0 0" "TD42 i = w4 0 (isb (byte2 i)) 0 0"
  "TD43 i = w4 0 0 (isb (byte1 i)) 0" "TD44 i = w4 0 0 0 (isb (byte0 i))"
  by (simp_all add: TD0_def TD1_def TD2_def TD3_def TD41_def TD42_def TD43_def TD44_def b_byte
      Td0_nth isb_def w4_def)

definition mixcol :: "u32 \<Rightarrow> u32" where
  "mixcol w = mixw (byte3 w) (byte2 w) (byte1 w) (byte0 w)"

definition imixcol :: "u32 \<Rightarrow> u32" where
  "imixcol w = imixw (byte3 w) (byte2 w) (byte1 w) (byte0 w)"

lemma imixcol_mixcol [simp]: "imixcol (mixcol w) = w"
  by (simp add: imixcol_def mixcol_def imix_mix)

lemma imixcol_xor: "imixcol (v XOR w) = imixcol v XOR imixcol w"
  by (simp add: imixcol_def imixw_def bytes_xor imw_xor rotr_xor ac_simps)

lemma inv_mix_word_imixcol: "inv_mix_word k = imixcol k"
proof -
  have "drop_bit 24 k = ucast (byte3 k)" by (simp add: byte3_def word32_eq_iff bit_simps)
  then have "unat (drop_bit 24 k) = unat (byte3 k)"
    by (simp add: unsigned_ucast_eq take_bit_nat_eq_self_iff less_trans [OF unat_u8_less])
  moreover have "TE4 (unat x) = ucast (sb x)" for x
    by (simp add: TE4_def Te0_nth mw_masks w4_def)
  moreover have "byte0 (ucast x) = x" for x by (simp add: byte0_def word8_eq_iff bit_simps)
  then have "b0 (ucast x) = unat x" for x :: u8 by (simp add: b_byte)
  ultimately show ?thesis
    by (simp add: inv_mix_word_def TD0'_def TD1'_def TD2'_def TD3'_def b_byte Td0_nth imixcol_def
        imixw_def)
qed

fun sub_shift :: "aes_state \<Rightarrow> aes_state" where
  "sub_shift (s0, s1, s2, s3) =
     (w4 (sb (byte3 s0)) (sb (byte2 s1)) (sb (byte1 s2)) (sb (byte0 s3)),
      w4 (sb (byte3 s1)) (sb (byte2 s2)) (sb (byte1 s3)) (sb (byte0 s0)),
      w4 (sb (byte3 s2)) (sb (byte2 s3)) (sb (byte1 s0)) (sb (byte0 s1)),
      w4 (sb (byte3 s3)) (sb (byte2 s0)) (sb (byte1 s1)) (sb (byte0 s2)))"

fun inv_sub_shift :: "aes_state \<Rightarrow> aes_state" where
  "inv_sub_shift (s0, s1, s2, s3) =
     (w4 (isb (byte3 s0)) (isb (byte2 s3)) (isb (byte1 s2)) (isb (byte0 s1)),
      w4 (isb (byte3 s1)) (isb (byte2 s0)) (isb (byte1 s3)) (isb (byte0 s2)),
      w4 (isb (byte3 s2)) (isb (byte2 s1)) (isb (byte1 s0)) (isb (byte0 s3)),
      w4 (isb (byte3 s3)) (isb (byte2 s2)) (isb (byte1 s1)) (isb (byte0 s0)))"

lemma inv_sub_shift [simp]: "inv_sub_shift (sub_shift s) = s"
  by (cases s) simp

fun add_key :: "aes_state \<Rightarrow> aes_state \<Rightarrow> aes_state" where
  "add_key (k0, k1, k2, k3) (s0, s1, s2, s3) = (s0 XOR k0, s1 XOR k1, s2 XOR k2, s3 XOR k3)"

fun map_cols :: "(u32 \<Rightarrow> u32) \<Rightarrow> aes_state \<Rightarrow> aes_state" where
  "map_cols f (s0, s1, s2, s3) = (f s0, f s1, f s2, f s3)"

definition round_key :: "u32 list \<Rightarrow> nat \<Rightarrow> aes_state" where
  "round_key rk i = (rk ! (4 * i), rk ! (4 * i + 1), rk ! (4 * i + 2), rk ! (4 * i + 3))"

lemma add_key_twice [simp]: "add_key k (add_key k s) = s"
  by (cases k; cases s) (simp add: xor.assoc)

lemma imix_round: "map_cols imixcol (add_key k (map_cols mixcol s)) = add_key (map_cols imixcol k) s"
  by (cases k; cases s) (simp add: imixcol_xor)

lemma enc_ROUND_eq: "enc_ROUND rk i s = add_key (round_key rk i) (map_cols mixcol (sub_shift s))"
  by (cases s) (simp add: TE_bytes mixcol_def mixw_def round_key_def xor.assoc)

lemma dec_ROUND_eq: "dec_ROUND rk i s = add_key (round_key rk i) (map_cols imixcol (inv_sub_shift s))"
  by (cases s) (simp add: TD_bytes imixcol_def imixw_def round_key_def xor.assoc)


section \<open>Iterated rounds\<close>

lemma round_key_drop: "4 * (m + i) + 4 \<le> length rk \<Longrightarrow> round_key (drop (4 * m) rk) i = round_key rk (m + i)"
  by (simp add: round_key_def algebra_simps)

fun enc_iter :: "u32 list \<Rightarrow> nat \<Rightarrow> aes_state \<Rightarrow> aes_state" where
  "enc_iter rk 0 s = s"
| "enc_iter rk (Suc n) s = enc_ROUND rk (Suc n) (enc_iter rk n s)"

fun dec_iter :: "u32 list \<Rightarrow> nat \<Rightarrow> aes_state \<Rightarrow> aes_state" where
  "dec_iter rk 0 s = s"
| "dec_iter rk (Suc n) s = dec_ROUND rk (Suc n) (dec_iter rk n s)"

lemma enc_ROUND_drop:
  "4 * (m + i) + 4 \<le> length rk \<Longrightarrow> enc_ROUND (drop (4 * m) rk) i s = enc_ROUND rk (m + i) s"
  by (simp add: enc_ROUND_eq round_key_drop)

lemma dec_ROUND_drop:
  "4 * (m + i) + 4 \<le> length rk \<Longrightarrow> dec_ROUND (drop (4 * m) rk) i s = dec_ROUND rk (m + i) s"
  by (simp add: dec_ROUND_eq round_key_drop)

lemma enc_rounds_iter:
  "8 * (m + Suc r) + 4 \<le> length rk \<Longrightarrow>
   enc_rounds (drop (8 * m) rk) (Suc r) (enc_iter rk (2 * m) s) =
     (enc_iter rk (2 * m + 2 * r + 1) s, drop (8 * (m + Suc r)) rk)"
proof (induction r arbitrary: m)
  case 0
  then show ?case
    using enc_ROUND_drop [of "2 * m" 1 rk] by (simp add: enc_rounds.simps)
next
  case (Suc r)
  have "enc_ROUND (drop (8 * m) rk) 1 (enc_iter rk (2 * m) s) = enc_iter rk (2 * m + 1) s"
    using enc_ROUND_drop [of "2 * m" 1 rk] Suc.prems by simp
  moreover have "enc_ROUND (drop (8 * Suc m) rk) 0 (enc_iter rk (2 * m + 1) s) = enc_iter rk (2 * Suc m) s"
    using enc_ROUND_drop [of "2 * m + 2" 0 rk] Suc.prems by (simp add: algebra_simps)
  ultimately show ?case
    using Suc.IH [of "Suc m"] Suc.prems by (simp add: enc_rounds.simps [of _ "Suc (Suc r)"] ac_simps)
qed

lemma dec_rounds_iter:
  "8 * (m + Suc r) + 4 \<le> length rk \<Longrightarrow>
   dec_rounds (drop (8 * m) rk) (Suc r) (dec_iter rk (2 * m) s) =
     (dec_iter rk (2 * m + 2 * r + 1) s, drop (8 * (m + Suc r)) rk)"
proof (induction r arbitrary: m)
  case 0
  then show ?case
    using dec_ROUND_drop [of "2 * m" 1 rk] by (simp add: dec_rounds.simps)
next
  case (Suc r)
  have "dec_ROUND (drop (8 * m) rk) 1 (dec_iter rk (2 * m) s) = dec_iter rk (2 * m + 1) s"
    using dec_ROUND_drop [of "2 * m" 1 rk] Suc.prems by simp
  moreover have "dec_ROUND (drop (8 * Suc m) rk) 0 (dec_iter rk (2 * m + 1) s) = dec_iter rk (2 * Suc m) s"
    using dec_ROUND_drop [of "2 * m + 2" 0 rk] Suc.prems by (simp add: algebra_simps)
  ultimately show ?case
    using Suc.IH [of "Suc m"] Suc.prems by (simp add: dec_rounds.simps [of _ "Suc (Suc r)"] ac_simps)
qed

text \<open>The decryption schedule \<open>dk\<close> of an encryption schedule \<open>ek\<close> for \<open>n\<close> rounds.\<close>

definition inverse_schedule :: "u32 list \<Rightarrow> u32 list \<Rightarrow> nat \<Rightarrow> bool" where
  "inverse_schedule ek dk n \<longleftrightarrow>
     round_key dk 0 = round_key ek n \<and> round_key dk n = round_key ek 0 \<and>
     (\<forall>i. 0 < i \<and> i < n \<longrightarrow> round_key dk i = map_cols imixcol (round_key ek (n - i)))"

lemma dec_iter_undoes:
  assumes "inverse_schedule ek dk n" "i < n"
  shows "dec_iter dk i (sub_shift (enc_iter ek (n - 1) s)) = sub_shift (enc_iter ek (n - 1 - i) s)"
  using assms(2)
proof (induction i)
  case (Suc i)
  obtain m where m: "n - 1 - i = Suc m" using Suc.prems by (cases "n - 1 - i") auto
  then have "n - Suc i = Suc m" "n - 1 - Suc i = m" by linarith+
  then show ?case
    using Suc assms(1) m
    by (simp add: dec_ROUND_eq enc_ROUND_eq imix_round inverse_schedule_def)
qed simp

definition state_of :: "bytes \<Rightarrow> aes_state" where
  "state_of pt = (GETU32 pt, GETU32 (drop 4 pt), GETU32 (drop 8 pt), GETU32 (drop 12 pt))"

fun bytes_of :: "aes_state \<Rightarrow> bytes" where
  "bytes_of (t0, t1, t2, t3) = PUTU32 t0 @ PUTU32 t1 @ PUTU32 t2 @ PUTU32 t3"

lemma GETU32_PUTU32: "GETU32 (PUTU32 w @ xs) = w"
  by (simp add: GETU32_def PUTU32_def word32_eq_iff bit_simps)

lemma PUTU32_GETU32: "PUTU32 (GETU32 (a # b # c # d # xs)) = [a, b, c, d]"
  by (simp add: GETU32_def PUTU32_def word8_eq_iff bit_simps)

lemma length_PUTU32 [simp]: "length (PUTU32 w) = 4"
  by (simp add: PUTU32_def)

lemma state_of_bytes_of [simp]: "state_of (bytes_of s) = s"
  using GETU32_PUTU32 [of _ "[]"] by (cases s) (simp add: state_of_def GETU32_PUTU32)

lemma length_bytes_of [simp]: "length (bytes_of s) = 16"
  by (cases s) simp

lemma length_SucE: "length xs = Suc n \<Longrightarrow> \<exists>y ys. xs = y # ys \<and> length ys = n"
  by (cases xs) auto

lemma bytes_of_state_of: "length pt = 16 \<Longrightarrow> bytes_of (state_of pt) = pt"
  by (auto simp: eval_nat_numeral state_of_def PUTU32_GETU32 dest!: length_SucE)

lemma w4_collect: "w4 a 0 0 0 XOR w4 0 b 0 0 XOR w4 0 0 c 0 XOR w4 0 0 0 d XOR k = w4 a b c d XOR k"
proof -
  have "w4 a 0 0 0 XOR w4 0 b 0 0 XOR w4 0 0 c 0 XOR w4 0 0 0 d = w4 a b c d"
    by (simp flip: w4_xor)
  then show ?thesis using arg_cong [of _ _ "\<lambda>x. x XOR k"] by (simp only: flip: xor.assoc)
qed

lemma rijndaelEncrypt_eq:
  assumes "4 * n + 4 \<le> length rk" "n = 2 * Suc r"
  shows "rijndaelEncrypt rk n pt =
    bytes_of (add_key (round_key rk n) (sub_shift (enc_iter rk (n - 1)
      (add_key (round_key rk 0) (state_of pt)))))"
proof -
  define s where "s = add_key (round_key rk 0) (state_of pt)"
  obtain t0 t1 t2 t3 where t: "enc_iter rk (n - 1) s = (t0, t1, t2, t3)" by (metis prod_cases4)
  have "enc_rounds rk (n div 2) s = (enc_iter rk (n - 1) s, drop (4 * n) rk)"
    using enc_rounds_iter [of 0 r rk s] assms by simp
  moreover have "drop (4 * n) rk ! i = rk ! (4 * n + i)" for i using assms by simp
  ultimately show ?thesis
    using t by (simp add: rijndaelEncrypt_def state_of_def round_key_def s_def TE_bytes Let_def
        w4_collect numeral_2_eq_2)
qed

lemma rijndaelDecrypt_eq:
  assumes "4 * n + 4 \<le> length rk" "n = 2 * Suc r"
  shows "rijndaelDecrypt rk n ct =
    bytes_of (add_key (round_key rk n) (inv_sub_shift (dec_iter rk (n - 1)
      (add_key (round_key rk 0) (state_of ct)))))"
proof -
  define s where "s = add_key (round_key rk 0) (state_of ct)"
  obtain t0 t1 t2 t3 where t: "dec_iter rk (n - 1) s = (t0, t1, t2, t3)" by (metis prod_cases4)
  have "dec_rounds rk (n div 2) s = (dec_iter rk (n - 1) s, drop (4 * n) rk)"
    using dec_rounds_iter [of 0 r rk s] assms by simp
  moreover have "drop (4 * n) rk ! i = rk ! (4 * n + i)" for i using assms by simp
  ultimately show ?thesis
    using t by (simp add: rijndaelDecrypt_def state_of_def round_key_def s_def TD_bytes Let_def
        w4_collect numeral_2_eq_2)
qed

lemma rijndaelDecrypt_inverts:
  assumes "inverse_schedule ek dk n" "n = 2 * Suc r" "4 * n + 4 \<le> length ek" "4 * n + 4 \<le> length dk"
    and "length pt = 16"
  shows "rijndaelDecrypt dk n (rijndaelEncrypt ek n pt) = pt"
proof -
  have "dec_iter dk (n - 1) (sub_shift (enc_iter ek (n - 1) s)) = sub_shift s" for s
    using dec_iter_undoes [OF assms(1), of "n - 1"] assms(2) by simp
  then show ?thesis
    using assms(1,5) by (simp add: rijndaelEncrypt_eq [OF assms(3,2)] rijndaelDecrypt_eq [OF assms(4,2)]
        inverse_schedule_def bytes_of_state_of)
qed

section \<open>Key schedules\<close>

lemma length_invert_order [simp]: "length (invert_order rk i j) = length rk"
  by (induction rk i j rule: invert_order.induct)
    (simp add: invert_order.simps [of _ i j for i j] swap_words_def)

lemma nth_swap_group:
  assumes "a < b" "4 * b + 4 \<le> length rk" "c < 4"
  shows "swap_words (swap_words (swap_words (swap_words rk (4 * a) (4 * b)) (4 * a + 1) (4 * b + 1))
      (4 * a + 2) (4 * b + 2)) (4 * a + 3) (4 * b + 3) ! (4 * g + c) =
    rk ! (4 * (if g = a then b else if g = b then a else g) + c)"
proof -
  have "c = 0 \<or> c = 1 \<or> c = 2 \<or> c = 3" using assms(3) by linarith
  moreover have ne: "4 * x + p \<noteq> 4 * y + q" if "p < 4" "q < 4" "p \<noteq> q" for x y p q :: nat
    using that by presburger
  ultimately show ?thesis
    using assms(1,2) ne [of 0] ne [of 1] ne [of 2] ne [of 3]
    by (cases "g = a"; cases "g = b") (elim disjE; simp add: swap_words_def nth_list_update)+
qed


lemma nth_invert_order:
  "4 * b + 4 \<le> length rk \<Longrightarrow> c < 4 \<Longrightarrow>
   invert_order rk (4 * a) (4 * b) ! (4 * g + c) =
     rk ! (4 * (if a \<le> g \<and> g \<le> b then a + b - g else g) + c)"
proof (induction "b - a" arbitrary: rk a b rule: less_induct)
  case less
  show ?case
  proof (cases "a < b")
    case False
    then have "a \<le> g \<and> g \<le> b \<Longrightarrow> a + b - g = g" by linarith
    with False show ?thesis by (simp add: invert_order.simps)
  next
    case True
    define rk' where "rk' = swap_words (swap_words (swap_words (swap_words rk (4 * a) (4 * b))
      (4 * a + 1) (4 * b + 1)) (4 * a + 2) (4 * b + 2)) (4 * a + 3) (4 * b + 3)"
    have len: "length rk' = length rk" by (simp add: rk'_def swap_words_def)
    have swap: "rk' ! (4 * h + c) = rk ! (4 * (if h = a then b else if h = b then a else h) + c)" for h
      unfolding rk'_def using nth_swap_group [OF True less.prems] .
    have "invert_order rk (4 * a) (4 * b) = invert_order rk' (4 * Suc a) (4 * (b - 1))"
      using True by (simp add: invert_order.simps [of rk] rk'_def diff_mult_distrib2 add.commute)
    moreover have "invert_order rk' (4 * Suc a) (4 * (b - 1)) ! (4 * g + c) =
        rk' ! (4 * (if Suc a \<le> g \<and> g \<le> b - 1 then Suc a + (b - 1) - g else g) + c)"
      using True less.prems len by (intro less.hyps) auto
    moreover have "(if Suc a \<le> g \<and> g \<le> b - 1 then Suc a + (b - 1) - g else g) =
        (if a < g \<and> g < b then a + b - g else g)"
      using True by auto
    ultimately show ?thesis
      using True by (auto simp: swap split: if_splits)
  qed
qed

lemma rijndaelKeySetupDec_inverse:
  assumes enc: "rijndaelKeySetupEnc key kb = Some (int n, ek)" and len: "length ek = 4 * n + 4"
    and dec: "rijndaelKeySetupDec key kb = Some (nr, dk)" and n: "0 < n"
  shows "nr = int n \<and> length dk = length ek \<and> inverse_schedule ek dk n"
proof -
  define ik where "ik = invert_order ek 0 (4 * n)"
  have ik: "length ik = 4 * n + 4" and
    nth: "g \<le> n \<Longrightarrow> c < 4 \<Longrightarrow> ik ! (4 * g + c) = ek ! (4 * (n - g) + c)" for g c
    using nth_invert_order [of n ek c 0 g] len by (simp_all add: ik_def)
  have dk: "dk = take 4 ik @ map inv_mix_word (take (4 * (n - 1)) (drop 4 ik)) @ drop (4 * n) ik"
    and nr: "nr = int n"
    using enc dec by (simp_all add: rijndaelKeySetupDec_def ik_def Let_def)
  have first: "dk ! c = ek ! (4 * n + c)" and last: "dk ! (4 * n + c) = ek ! c" if "c < 4" for c
    using nth [of 0 c] nth [of n c] that ik n by (cases n; simp add: dk nth_append)+
  have inner: "dk ! (4 * g + c) = imixcol (ek ! (4 * (n - g) + c))" if "0 < g" "g < n" "c < 4" for g c
  proof -
    have "dk ! (4 * g + c) = inv_mix_word (ik ! (4 * g + c))"
      using that ik by (cases n; cases g; simp add: dk nth_append add.assoc)
    then show ?thesis using nth [of g c] that by (simp add: inv_mix_word_imixcol)
  qed
  have "length dk = length ek" using ik len n by (simp add: dk)
  moreover have "inverse_schedule ek dk n"
    using first [of 0] first [of 1] first [of 2] first [of 3] last [of 0] last [of 1] last [of 2] last [of 3]
      inner [of _ 0] inner [of _ 1] inner [of _ 2] inner [of _ 3]
    by (simp add: inverse_schedule_def round_key_def numeral_2_eq_2)
  ultimately show ?thesis using nr by simp
qed

lemma length_fold_expand:
  "length (fold (\<lambda>i rk. expand128 rk i) xs rk) = length rk + 4 * length xs"
  "length (fold (\<lambda>i rk. expand192 rk i) xs rk) = length rk + sum_list (map (\<lambda>i. if i = 7 then 4 else 6) xs)"
  "length (fold (\<lambda>i rk. expand256 rk i) xs rk) = length rk + sum_list (map (\<lambda>i. if i = 6 then 4 else 8) xs)"
  by (induction xs arbitrary: rk) (auto simp: expand128_def expand192_def expand256_def Let_def)

definition aes_rounds :: "nat \<Rightarrow> nat" where
  "aes_rounds klen = (if klen = 16 then 10 else if klen = 24 then 12 else 14)"

lemma rijndaelKeySetupEnc_ok:
  assumes "length key \<in> {16, 24, 32}"
  obtains ek where "rijndaelKeySetupEnc key (length key * 8) = Some (int (aes_rounds (length key)), ek)"
    "length ek = 4 * aes_rounds (length key) + 4"
proof -
  have "sum_list (map (\<lambda>i. if i = 7 then 4 else 6) [0..<8]) = (46 :: nat)"
    "sum_list (map (\<lambda>i. if i = 6 then 4 else 8) [0..<7]) = (52 :: nat)"
    by (simp_all add: upt_rec)
  then show thesis
    using assms that
    by (auto simp: rijndaelKeySetupEnc_def aes_rounds_def Let_def length_fold_expand)
qed

lemma rijndaelKeySetupDec_ok:
  assumes "rijndaelKeySetupEnc key kb = Some (int n, ek)"
  obtains dk nr where "rijndaelKeySetupDec key kb = Some (nr, dk)"
  using assms by (auto simp: rijndaelKeySetupDec_def Let_def)

lemma aes_init_ok:
  assumes "length key \<in> {16, 24, 32}"
  obtains ectx dctx where "aes_encrypt_init True key (length key) = Some (Some ectx)"
    "aes_decrypt_init True key (length key) = Some (Some dctx)"
    "aes_nr ectx = aes_rounds (length key)" "aes_nr dctx = aes_rounds (length key)"
    "inverse_schedule (aes_rk ectx) (aes_rk dctx) (aes_rounds (length key))"
    "length (aes_rk ectx) = 4 * aes_rounds (length key) + 4"
    "length (aes_rk dctx) = 4 * aes_rounds (length key) + 4"
proof -
  let ?n = "aes_rounds (length key)"
  obtain ek where ek: "rijndaelKeySetupEnc key (length key * 8) = Some (int ?n, ek)"
      "length ek = 4 * ?n + 4"
    using rijndaelKeySetupEnc_ok [OF assms] .
  obtain dk nr where dk: "rijndaelKeySetupDec key (length key * 8) = Some (nr, dk)"
    using rijndaelKeySetupDec_ok [OF ek(1)] .
  have "0 < ?n" by (simp add: aes_rounds_def)
  with ek dk have "nr = int ?n \<and> length dk = length ek \<and> inverse_schedule ek dk ?n"
    using rijndaelKeySetupDec_inverse by blast
  with ek dk that [of "\<lparr>aes_rk = ek, aes_nr = ?n\<rparr>" "\<lparr>aes_rk = dk, aes_nr = ?n\<rparr>"]
  show ?thesis by (simp add: aes_encrypt_init_def aes_decrypt_init_def)
qed

lemma aes_rounds_even: "\<exists>r. aes_rounds k = 2 * Suc r"
  by (rule exI [of _ "aes_rounds k div 2 - 1"]) (simp add: aes_rounds_def)

lemma aes_block_roundtrip:
  assumes "length key \<in> {16, 24, 32}" "length pt = 16"
  shows "\<exists>ectx dctx. aes_encrypt_init True key (length key) = Some (Some ectx) \<and>
    aes_decrypt_init True key (length key) = Some (Some dctx) \<and>
    length (aes_encrypt ectx pt) = 16 \<and> aes_decrypt dctx (aes_encrypt ectx pt) = pt"
proof -
  obtain ectx dctx where init: "aes_encrypt_init True key (length key) = Some (Some ectx)"
    "aes_decrypt_init True key (length key) = Some (Some dctx)"
    and nr: "aes_nr ectx = aes_rounds (length key)" "aes_nr dctx = aes_rounds (length key)"
    and inv: "inverse_schedule (aes_rk ectx) (aes_rk dctx) (aes_rounds (length key))"
    and len: "4 * aes_rounds (length key) + 4 \<le> length (aes_rk ectx)"
      "4 * aes_rounds (length key) + 4 \<le> length (aes_rk dctx)"
    using aes_init_ok [OF assms(1)] by (metis order_refl)
  obtain r where r: "aes_rounds (length key) = 2 * Suc r" using aes_rounds_even by blast
  have "aes_decrypt dctx (aes_encrypt ectx pt) = pt"
    using rijndaelDecrypt_inverts [OF inv r len assms(2)] by (simp add: aes_decrypt_def aes_encrypt_def nr)
  moreover have "length (aes_encrypt ectx pt) = 16"
    using rijndaelEncrypt_eq [OF len(1) r] by (simp add: aes_encrypt_def nr)
  ultimately show ?thesis using init by blast
qed

text \<open>
  C23. AES decryption inverts encryption, for every key of 16, 24 or 32 bytes and every block: both
  contexts are created when the allocations succeed, the ciphertext has 16 bytes, and
  \<open>aes_decrypt\<close> with the decryption context returns the plaintext.
\<close>

theorem aes_decrypt_encrypt:
  assumes "length key \<in> {16, 24, 32}" "length pt = 16"
  shows "\<exists>ectx dctx. aes_encrypt_init True key (length key) = Some (Some ectx) \<and>
    aes_decrypt_init True key (length key) = Some (Some dctx) \<and>
    length (aes_encrypt ectx pt) = 16 \<and> aes_decrypt dctx (aes_encrypt ectx pt) = pt"
  using assms by (rule aes_block_roundtrip)

theorem aes_decrypt_encrypt_witness:
  "\<exists>ectx dctx. aes_encrypt_init True (replicate 16 7) 16 = Some (Some ectx) \<and>
    aes_decrypt_init True (replicate 16 7) 16 = Some (Some dctx) \<and>
    length (aes_encrypt ectx (replicate 16 9)) = 16 \<and>
    aes_decrypt dctx (aes_encrypt ectx (replicate 16 9)) = replicate 16 9"
  using aes_decrypt_encrypt [of "replicate 16 7" "replicate 16 9"] by (simp only: length_replicate) simp

end
