(* ===== verification/Aes_Modes.thy ===== *)
theory Aes_Modes
  imports Aes_Correct Common_Util
begin

text \<open>
  Block cipher modes: key wrap (\<open>crypto/aes-wrap.c\<close>, \<open>aes-unwrap.c\<close>), CBC (\<open>aes-cbc.c\<close>), CTR
  (\<open>aes-ctr.c\<close>) and single blocks (\<open>aes-encblock.c\<close>). Each loop takes the block function it calls
  as an argument; the locale \<open>block_cipher\<close> states what it relies on and is interpreted on the AES
  implementation. A mode returns the C return value with the output buffer; \<open>None\<close> is an access
  outside an argument.
\<close>

section \<open>Numbers as big-endian bytes\<close>

text \<open>The big-endian encoding of a number in \<open>n\<close> bytes.\<close>

fun be_enc :: "nat \<Rightarrow> nat \<Rightarrow> bytes" where
  "be_enc 0 v = []"
| "be_enc (Suc n) v = be_enc n (v div 256) @ [of_nat (v mod 256)]"

lemma length_be_enc [simp]: "length (be_enc n v) = n"
  by (induction n arbitrary: v) simp_all

lemma be_enc_be_val: "be_enc (length bs) (be_val bs) = bs"
  by (induction bs rule: rev_induct) (simp_all add: be_val_snoc unat_u8_less)

lemma be_enc_mod: "be_enc n (v mod 256 ^ n) = be_enc n v"
proof (induction n arbitrary: v)
  case (Suc n)
  have "v mod 256 ^ Suc n div 256 = v div 256 mod 256 ^ n"
    by (simp add: mod_mult2_eq)
  moreover have "v mod 256 ^ Suc n mod 256 = v mod 256" by (simp add: mod_mod_cancel)
  ultimately show ?case using Suc by simp
qed simp

lemma be_val_be_enc: "be_val (be_enc n v) = v mod 256 ^ n"
proof (induction n arbitrary: v)
  case (Suc n)
  have "unat (of_nat (v mod 256) :: u8) = v mod 256" by (simp add: unat_of_nat)
  then show ?case using Suc [of "v div 256"] by (simp add: be_val_snoc mod_mult2_eq mult.commute)
qed (simp add: be_val_def)

lemma be_enc_zero: "be_enc n 0 = replicate n 0"
  by (induction n) (simp_all add: replicate_append_same)

lemma be_enc_small: "t < 256 \<Longrightarrow> be_enc (Suc n) t = replicate n 0 @ [of_nat t]"
  by (simp add: be_enc_zero)

lemma fold_cong_invariant:
  assumes "\<And>x s. x \<in> set xs \<Longrightarrow> P s \<Longrightarrow> f x s = g x s"
    and "\<And>x s. x \<in> set xs \<Longrightarrow> P s \<Longrightarrow> P (g x s)" "P s"
  shows "fold f xs s = fold g xs s"
  using assms
  by (induction xs arbitrary: s) simp_all

section \<open>Key wrap (\<open>aes-wrap.c\<close>, \<open>aes-unwrap.c\<close>)\<close>

text \<open>\<open>a\<close> is the 8-byte register and \<open>r\<close> the \<open>8 * n\<close> bytes of the other registers; both live in the
  output buffer. \<open>enc\<close> is \<open>aes_encrypt\<close> with the context at hand.\<close>

definition aes_wrap_step :: "(bytes \<Rightarrow> bytes) \<Rightarrow> nat \<Rightarrow> nat \<times> nat \<Rightarrow> bytes \<times> bytes \<Rightarrow> bytes \<times> bytes" where
  "aes_wrap_step enc n = (\<lambda>(j, i) (a, r).
     let b = enc (a @ take 8 (drop (8 * (i - 1)) r)); a = take 8 b
     in (a[7 := a ! 7 XOR of_nat (n * j + i)],
         take (8 * (i - 1)) r @ drop 8 b @ drop (8 * (i - 1) + 8) r))"

definition aes_unwrap_step :: "(bytes \<Rightarrow> bytes) \<Rightarrow> nat \<Rightarrow> nat \<times> nat \<Rightarrow> bytes \<times> bytes \<Rightarrow> bytes \<times> bytes" where
  "aes_unwrap_step dec n = (\<lambda>(j, i) (a, r).
     let b = dec (a[7 := a ! 7 XOR of_nat (n * j + i)] @ take 8 (drop (8 * (i - 1)) r))
     in (take 8 b, take (8 * (i - 1)) r @ drop 8 b @ drop (8 * (i - 1) + 8) r))"

definition wrap_order :: "nat \<Rightarrow> (nat \<times> nat) list" where
  "wrap_order n = [(j, i). j \<leftarrow> [0..<6], i \<leftarrow> [1..<n + 1]]"

definition unwrap_order :: "nat \<Rightarrow> (nat \<times> nat) list" where
  "unwrap_order n = [(j, i). j \<leftarrow> rev [0..<6], i \<leftarrow> rev [1..<n + 1]]"

definition aes_wrap :: "bool \<Rightarrow> bytes \<Rightarrow> nat \<Rightarrow> bytes \<Rightarrow> (int \<times> bytes) option" where
  "aes_wrap mem kek n plain = do {
     r \<leftarrow> c_slice plain 0 (8 * n);
     let a = replicate 8 0xa6;
     c \<leftarrow> aes_encrypt_init mem kek 16;
     case c of
       None \<Rightarrow> Some (-1, a @ r)
     | Some ctx \<Rightarrow>
         let (a, r) = fold (aes_wrap_step (aes_encrypt ctx) n) (wrap_order n) (a, r)
         in Some (0, a @ r) }"

definition aes_unwrap :: "bool \<Rightarrow> bytes \<Rightarrow> nat \<Rightarrow> bytes \<Rightarrow> (int \<times> bytes) option" where
  "aes_unwrap mem kek n cipher = do {
     a \<leftarrow> c_slice cipher 0 8;
     r \<leftarrow> c_slice cipher 8 (8 * n);
     c \<leftarrow> aes_decrypt_init mem kek 16;
     case c of
       None \<Rightarrow> Some (-1, r)
     | Some ctx \<Rightarrow>
         let (a, r) = fold (aes_unwrap_step (aes_decrypt ctx) n) (unwrap_order n) (a, r)
         in Some (if \<exists>i < 8. a ! i \<noteq> 0xa6 then -1 else 0, r) }"

section \<open>CBC (\<open>aes-cbc.c\<close>)\<close>

fun cbc_encrypt_blocks :: "(bytes \<Rightarrow> bytes) \<Rightarrow> nat \<Rightarrow> bytes \<Rightarrow> bytes \<Rightarrow> bytes" where
  "cbc_encrypt_blocks enc 0 cbc pos = pos"
| "cbc_encrypt_blocks enc (Suc blocks) cbc pos =
     (let cbc = enc (xor_bytes cbc (take 16 pos))
      in cbc @ cbc_encrypt_blocks enc blocks cbc (drop 16 pos))"

definition aes_128_cbc_encrypt :: "bool \<Rightarrow> bytes \<Rightarrow> bytes \<Rightarrow> bytes \<Rightarrow> (int \<times> bytes) option" where
  "aes_128_cbc_encrypt mem key iv data = do {
     c \<leftarrow> aes_encrypt_init mem key 16;
     case c of
       None \<Rightarrow> Some (-1, data)
     | Some ctx \<Rightarrow> do {
         cbc \<leftarrow> c_slice iv 0 16;
         Some (0, cbc_encrypt_blocks (aes_encrypt ctx) (length data div 16) cbc data) } }"

fun cbc_decrypt_blocks :: "(bytes \<Rightarrow> bytes) \<Rightarrow> nat \<Rightarrow> bytes \<Rightarrow> bytes \<Rightarrow> bytes" where
  "cbc_decrypt_blocks dec 0 cbc pos = pos"
| "cbc_decrypt_blocks dec (Suc blocks) cbc pos =
     (let tmp = take 16 pos
      in xor_bytes (dec tmp) cbc @ cbc_decrypt_blocks dec blocks tmp (drop 16 pos))"

definition aes_128_cbc_decrypt :: "bool \<Rightarrow> bytes \<Rightarrow> bytes \<Rightarrow> bytes \<Rightarrow> (int \<times> bytes) option" where
  "aes_128_cbc_decrypt mem key iv data = do {
     c \<leftarrow> aes_decrypt_init mem key 16;
     case c of
       None \<Rightarrow> Some (-1, data)
     | Some ctx \<Rightarrow> do {
         cbc \<leftarrow> c_slice iv 0 16;
         Some (0, cbc_decrypt_blocks (aes_decrypt ctx) (length data div 16) cbc data) } }"

section \<open>CTR and single blocks (\<open>aes-ctr.c\<close>, \<open>aes-encblock.c\<close>)\<close>

fun ctr_increment :: "nat \<Rightarrow> bytes \<Rightarrow> bytes" where
  "ctr_increment 0 counter = counter"
| "ctr_increment (Suc i) counter =
     (let counter = counter[i := counter ! i + 1]
      in if counter ! i \<noteq> 0 then counter else ctr_increment i counter)"

function ctr_loop :: "(bytes \<Rightarrow> bytes) \<Rightarrow> bytes \<Rightarrow> bytes \<Rightarrow> bytes" where
  "ctr_loop enc counter pos =
     (if pos = [] then []
      else xor_bytes (take 16 pos) (enc counter) @ ctr_loop enc (ctr_increment 16 counter) (drop 16 pos))"
  by pat_completeness auto
termination
  by (relation "measure (\<lambda>(enc, counter, pos). length pos)") auto

declare ctr_loop.simps [simp del]

definition aes_128_ctr_encrypt :: "bool \<Rightarrow> bytes \<Rightarrow> bytes \<Rightarrow> bytes \<Rightarrow> (int \<times> bytes) option" where
  "aes_128_ctr_encrypt mem key nonce data = do {
     c \<leftarrow> aes_encrypt_init mem key 16;
     case c of
       None \<Rightarrow> Some (-1, data)
     | Some ctx \<Rightarrow> do {
         counter \<leftarrow> c_slice nonce 0 16;
         Some (0, ctr_loop (aes_encrypt ctx) counter data) } }"

definition aes_128_encrypt_block :: "bool \<Rightarrow> bytes \<Rightarrow> bytes \<Rightarrow> (int \<times> bytes) option" where
  "aes_128_encrypt_block mem key inp = do {
     c \<leftarrow> aes_encrypt_init mem key 16;
     case c of
       None \<Rightarrow> Some (-1, [])
     | Some ctx \<Rightarrow> do {
         b \<leftarrow> c_slice inp 0 16;
         Some (0, aes_encrypt ctx b) } }"

section \<open>What the modes rely on\<close>

text \<open>A block cipher: encryption keeps the block length and decryption inverts it. The loops above
  are shown correct for any such cipher.\<close>

locale block_cipher =
  fixes valid :: "'k \<Rightarrow> bool"
    and E :: "'k \<Rightarrow> bytes \<Rightarrow> bytes"
    and D :: "'k \<Rightarrow> bytes \<Rightarrow> bytes"
  assumes length_E: "valid k \<Longrightarrow> length b = 16 \<Longrightarrow> length (E k b) = 16"
    and D_E: "valid k \<Longrightarrow> length b = 16 \<Longrightarrow> D k (E k b) = b"
begin

lemma E_surj:
  assumes "valid k" "length c = 16"
  obtains b where "length b = 16" "E k b = c"
proof -
  let ?B = "{b :: bytes. set b \<subseteq> UNIV \<and> length b = 16}"
  have "finite ?B" by (rule finite_lists_length_eq) simp
  moreover have "inj_on (E k) ?B" using D_E [OF assms(1)] by (auto intro: inj_on_inverseI)
  moreover have "E k ` ?B \<subseteq> ?B" using length_E [OF assms(1)] by auto
  ultimately have "E k ` ?B = ?B" by (simp add: endo_inj_surj)
  with assms(2) have "c \<in> E k ` ?B" by simp
  with that show thesis by auto
qed

lemma E_D: "valid k \<Longrightarrow> length c = 16 \<Longrightarrow> E k (D k c) = c"
  by (metis E_surj D_E)

lemma length_D: "valid k \<Longrightarrow> length c = 16 \<Longrightarrow> length (D k c) = 16"
  by (metis E_surj D_E)

lemma cbc_roundtrip:
  "valid k \<Longrightarrow> length cbc = 16 \<Longrightarrow> 16 * n \<le> length p \<Longrightarrow>
   cbc_decrypt_blocks (D k) n cbc (cbc_encrypt_blocks (E k) n cbc p) = p"
  by (induction n arbitrary: cbc p) (simp_all add: Let_def length_E D_E xor_bytes_commute [of cbc for cbc])

lemma length_cbc_encrypt:
  "valid k \<Longrightarrow> length cbc = 16 \<Longrightarrow> 16 * n \<le> length p \<Longrightarrow> length (cbc_encrypt_blocks (E k) n cbc p) = length p"
  by (induction n arbitrary: cbc p) (simp_all add: Let_def length_E)

lemma cbc_tail:
  "valid k \<Longrightarrow> length cbc = 16 \<Longrightarrow> 16 * n \<le> length p \<Longrightarrow>
   drop (16 * n) (cbc_encrypt_blocks (E k) n cbc p) = drop (16 * n) p"
  by (induction n arbitrary: cbc p) (simp_all add: Let_def length_E add.commute)

text \<open>One step of each direction of the key wrap, on registers of the right lengths.\<close>

lemma wrap_step_inverse:
  assumes "valid k" "(j, i) \<in> set (wrap_order n)" "length a = 8" "length r = 8 * n"
    and s: "aes_wrap_step (E k) n (j, i) (a, r) = (a', r')"
  shows "length a' = 8 \<and> length r' = 8 * n \<and> aes_unwrap_step (D k) n (j, i) (a', r') = (a, r)"
proof -
  have i: "1 \<le> i" "i \<le> n" using assms(2) by (auto simp: wrap_order_def)
  define blk where "blk = take 8 (drop (8 * (i - 1)) r)"
  define b where "b = E k (a @ blk)"
  define t :: u8 where "t = of_nat (n * j + i)"
  have room: "8 * (i - 1) + 8 \<le> length r" using i assms(4) by simp
  then have blk: "length blk = 8" by (simp add: blk_def)
  then have b: "length b = 16" "D k b = a @ blk"
    using assms(1,3) by (simp_all add: b_def length_E D_E)
  have a': "a' = (take 8 b)[7 := take 8 b ! 7 XOR t]" and
    r': "r' = take (8 * (i - 1)) r @ drop 8 b @ drop (8 * (i - 1) + 8) r"
    using s by (simp_all add: aes_wrap_step_def Let_def b_def blk_def t_def)
  have "a'[7 := a' ! 7 XOR t] = take 8 b"
    using b list_update_id [of "take 8 b" 7] by (simp add: a' xor.assoc)
  moreover have "take 8 (drop (8 * (i - 1)) r') = drop 8 b" using b room by (simp add: r')
  ultimately have dec: "D k (a'[7 := a' ! 7 XOR t] @ take 8 (drop (8 * (i - 1)) r')) = a @ blk" using b by simp
  have "take (8 * (i - 1)) r' @ blk @ drop (8 * (i - 1) + 8) r' = r"
    using room b append_take_drop_id [of "8 * (i - 1)" r]  append_take_drop_id [of 8 "drop (8 * (i - 1)) r"]
    by (simp add: r' blk_def add.commute)
  with dec show ?thesis
    using b room assms(3,4) by (simp add: aes_unwrap_step_def Let_def t_def a' r' blk)
qed

lemma unwrap_step_inverse:
  assumes "valid k" "(j, i) \<in> set (wrap_order n)" "length a = 8" "length r = 8 * n"
    and s: "aes_unwrap_step (D k) n (j, i) (a, r) = (a', r')"
  shows "length a' = 8 \<and> length r' = 8 * n \<and> aes_wrap_step (E k) n (j, i) (a', r') = (a, r)"
proof -
  have i: "1 \<le> i" "i \<le> n" using assms(2) by (auto simp: wrap_order_def)
  define blk where "blk = take 8 (drop (8 * (i - 1)) r)"
  define t :: u8 where "t = of_nat (n * j + i)"
  define x where "x = a[7 := a ! 7 XOR t]"
  define b where "b = D k (x @ blk)"
  have room: "8 * (i - 1) + 8 \<le> length r" using i assms(4) by simp
  then have blk: "length blk = 8" "length x = 8" using assms(3) by (simp_all add: blk_def x_def)
  then have b: "length b = 16" "E k b = x @ blk"
    using assms(1) by (simp_all add: b_def length_D E_D)
  have a': "a' = take 8 b" and r': "r' = take (8 * (i - 1)) r @ drop 8 b @ drop (8 * (i - 1) + 8) r"
    using s by (simp_all add: aes_unwrap_step_def Let_def b_def blk_def t_def x_def)
  have "take 8 (drop (8 * (i - 1)) r') = drop 8 b" using b room by (simp add: r')
  then have enc: "E k (a' @ take 8 (drop (8 * (i - 1)) r')) = x @ blk" using b by (simp add: a')
  have "take (8 * (i - 1)) r' @ blk @ drop (8 * (i - 1) + 8) r' = r"
    using room b append_take_drop_id [of "8 * (i - 1)" r] append_take_drop_id [of 8 "drop (8 * (i - 1)) r"]
    by (simp add: r' blk_def add.commute)
  moreover have "x[7 := x ! 7 XOR t] = a" using assms(3) by (simp add: x_def xor.assoc)
  ultimately show ?thesis
    using b room enc assms(3,4) blk by (simp add: aes_wrap_step_def Let_def a' r' t_def nth_append)
qed

text \<open>Six passes of the registers and the passes in the opposite direction cancel out.\<close>

lemma unwrap_order_rev: "unwrap_order n = rev (wrap_order n)"
proof -
  have "rev (concat (map (\<lambda>j. map (Pair j) is) js)) = concat (map (\<lambda>j. map (Pair j) (rev is)) (rev js))"
    for js "is" :: "nat list" by (induction js) (simp_all add: rev_map)
  then show ?thesis by (simp add: unwrap_order_def wrap_order_def)
qed

lemma wrap_passes_inverse:
  assumes "valid k" "length a = 8" "length r = 8 * n"
    and "fold (aes_wrap_step (E k) n) (wrap_order n) (a, r) = (a', r')"
  shows "length a' = 8 \<and> length r' = 8 * n \<and>
    fold (aes_unwrap_step (D k) n) (unwrap_order n) (a', r') = (a, r)"
proof -
  let ?P = "\<lambda>(a :: bytes, r :: bytes). length a = 8 \<and> length r = 8 * n"
  have "?P (aes_wrap_step (E k) n ji s) \<and> aes_unwrap_step (D k) n ji (aes_wrap_step (E k) n ji s) = s"
    if "ji \<in> set (wrap_order n)" "?P s" for ji s
    using wrap_step_inverse [OF assms(1), of "fst ji" "snd ji" n "fst s" "snd s"] that
    by (cases "aes_wrap_step (E k) n ji s") auto
  from fold_rev_inverse [where P = ?P and f = "aes_wrap_step (E k) n" and
      g = "aes_unwrap_step (D k) n" and xs = "wrap_order n" and s = "(a, r)", OF this]
  show ?thesis using assms by (simp add: unwrap_order_rev)
qed

lemma unwrap_passes_inverse:
  assumes "valid k" "length a = 8" "length r = 8 * n"
    and "fold (aes_unwrap_step (D k) n) (unwrap_order n) (a, r) = (a', r')"
  shows "length a' = 8 \<and> length r' = 8 * n \<and>
    fold (aes_wrap_step (E k) n) (wrap_order n) (a', r') = (a, r)"
proof -
  let ?P = "\<lambda>(a :: bytes, r :: bytes). length a = 8 \<and> length r = 8 * n"
  have "?P (aes_unwrap_step (D k) n ji s) \<and> aes_wrap_step (E k) n ji (aes_unwrap_step (D k) n ji s) = s"
    if "ji \<in> set (unwrap_order n)" "?P s" for ji s
    using unwrap_step_inverse [OF assms(1), of "fst ji" "snd ji" n "fst s" "snd s"] that
    by (cases "aes_unwrap_step (D k) n ji s") (auto simp: unwrap_order_rev)
  from fold_rev_inverse [where P = ?P and f = "aes_unwrap_step (D k) n" and
      g = "aes_wrap_step (E k) n" and xs = "unwrap_order n" and s = "(a, r)", OF this]
  show ?thesis using assms by (simp add: unwrap_order_rev)
qed

end

section \<open>The AES implementation is a block cipher\<close>

definition aes_E :: "bytes \<Rightarrow> bytes \<Rightarrow> bytes" where
  "aes_E key b = (case aes_encrypt_init True key (length key) of
     Some (Some ctx) \<Rightarrow> aes_encrypt ctx b | _ \<Rightarrow> [])"

definition aes_D :: "bytes \<Rightarrow> bytes \<Rightarrow> bytes" where
  "aes_D key b = (case aes_decrypt_init True key (length key) of
     Some (Some ctx) \<Rightarrow> aes_decrypt ctx b | _ \<Rightarrow> [])"

definition aes_key :: "bytes \<Rightarrow> bool" where
  "aes_key key \<longleftrightarrow> length key \<in> {16, 24, 32}"

interpretation aes: block_cipher aes_key aes_E aes_D
proof
  fix k b :: bytes assume "aes_key k" "length b = 16"
  then show "length (aes_E k b) = 16" "aes_D k (aes_E k b) = b"
    using aes_block_roundtrip [of k b] by (auto simp: aes_key_def aes_E_def aes_D_def)
qed


lemma aes_encrypt_init_16:
  assumes "length key = 16"
  obtains ctx where "aes_encrypt_init True key 16 = Some (Some ctx)" "aes_encrypt ctx = aes_E key"
  using aes_block_roundtrip [of key "replicate 16 0"] assms that
  by (auto simp: aes_E_def fun_eq_iff)

lemma aes_decrypt_init_16:
  assumes "length key = 16"
  obtains ctx where "aes_decrypt_init True key 16 = Some (Some ctx)" "aes_decrypt ctx = aes_D key"
  using aes_block_roundtrip [of key "replicate 16 0"] assms that
  by (auto simp: aes_D_def fun_eq_iff)

lemma aes_key_16 [simp]: "length key = 16 \<Longrightarrow> aes_key key"
  by (simp add: aes_key_def)

section \<open>Key wrap is an authenticated bijection\<close>

lemma aes_wrap_eq:
  assumes "length kek = 16" "length plain = 8 * n"
  shows "aes_wrap True kek n plain =
    (let (a, r) = fold (aes_wrap_step (aes_E kek) n) (wrap_order n) (replicate 8 0xa6, plain) in Some (0, a @ r))"
  using assms by (auto simp: aes_wrap_def intro: aes_encrypt_init_16 [OF assms(1)])

lemma aes_unwrap_eq:
  assumes "length kek = 16" "length cipher = 8 * n + 8"
  shows "aes_unwrap True kek n cipher =
    (let (a, r) = fold (aes_unwrap_step (aes_D kek) n) (unwrap_order n) (take 8 cipher, drop 8 cipher)
     in Some (if \<exists>i < 8. a ! i \<noteq> 0xa6 then -1 else 0, r))"
  using assms by (auto simp: aes_unwrap_def intro: aes_decrypt_init_16 [OF assms(1)])

lemma all_a6: "length a = 8 \<Longrightarrow> (\<exists>i < 8. a ! i \<noteq> (0xa6 :: u8)) \<longleftrightarrow> a \<noteq> replicate 8 0xa6"
  by (auto simp: list_eq_iff_nth_eq)

text \<open>
  Key wrap round trip: for a 16-byte key encryption key and \<open>8 * n\<close> bytes of key data,
  \<open>aes_wrap\<close> succeeds with \<open>8 * n + 8\<close> bytes, and \<open>aes_unwrap\<close> of these succeeds and returns the
  key data.
\<close>

lemma aes_wrap_roundtrip:
  assumes "length kek = 16" "length plain = 8 * n"
  shows "\<exists>cipher. aes_wrap True kek n plain = Some (0, cipher) \<and> length cipher = 8 * n + 8 \<and>
    aes_unwrap True kek n cipher = Some (0, plain)"
proof -
  obtain a r where ar: "fold (aes_wrap_step (aes_E kek) n) (wrap_order n) (replicate 8 0xa6, plain) = (a, r)"
    by fastforce
  with aes.wrap_passes_inverse [of kek "replicate 8 0xa6" plain n] assms
  have "length a = 8" "length r = 8 * n" "fold (aes_unwrap_step (aes_D kek) n) (unwrap_order n) (a, r) =
      (replicate 8 0xa6, plain)"
    by simp_all
  with ar assms show ?thesis
    using aes_unwrap_eq [of kek "a @ r" n] by (simp add: aes_wrap_eq all_a6)
qed

text \<open>
  C24. Key wrap authenticity: \<open>aes_unwrap\<close> accepts a ciphertext of \<open>8 * n + 8\<close> bytes exactly when it
  is what \<open>aes_wrap\<close> produces for the key data that \<open>aes_unwrap\<close> returns. Every other ciphertext is
  rejected with -1.
\<close>

theorem aes_unwrap_authentic:
  assumes "length kek = 16" "length cipher = 8 * n + 8"
  shows "\<exists>plain res. aes_unwrap True kek n cipher = Some (res, plain) \<and> length plain = 8 * n \<and>
    (if aes_wrap True kek n plain = Some (0, cipher) then res = 0 else res = -1)"
proof -
  obtain a r where ar: "fold (aes_unwrap_step (aes_D kek) n) (unwrap_order n) (take 8 cipher, drop 8 cipher) = (a, r)"
    by fastforce
  with aes.unwrap_passes_inverse [of kek "take 8 cipher" "drop 8 cipher" n] assms
  have len: "length a = 8" "length r = 8 * n" and
    bk: "fold (aes_wrap_step (aes_E kek) n) (wrap_order n) (a, r) = (take 8 cipher, drop 8 cipher)"
    by simp_all
  obtain a' r' where w: "fold (aes_wrap_step (aes_E kek) n) (wrap_order n) (replicate 8 0xa6, r) = (a', r')"
    by fastforce
  have l: "length a' = 8" and w': "fold (aes_unwrap_step (aes_D kek) n) (unwrap_order n) (a', r') = (replicate 8 0xa6, r)"
    using aes.wrap_passes_inverse [of kek "replicate 8 0xa6" r n a' r'] assms(1) len w by simp_all
  have "aes_wrap True kek n r = Some (0, cipher) \<longleftrightarrow> a = replicate 8 0xa6"
  proof
    assume "aes_wrap True kek n r = Some (0, cipher)"
    then have "a' @ r' = cipher" using aes_wrap_eq [OF assms(1) len(2)] w by simp
    then have "a' = take 8 cipher" "r' = drop 8 cipher" using l by auto
    then show "a = replicate 8 0xa6" using w' ar by simp
  next
    assume "a = replicate 8 0xa6"
    then show "aes_wrap True kek n r = Some (0, cipher)" using aes_wrap_eq [OF assms(1) len(2)] bk by simp
  qed
  then show ?thesis
    using aes_unwrap_eq [OF assms] ar len by (auto simp: all_a6)
qed

theorem aes_unwrap_authentic_witness:
  "\<exists>plain res. aes_unwrap True (replicate 16 1) 1 (replicate 16 2) = Some (res, plain) \<and> length plain = 8 * 1 \<and>
    (if aes_wrap True (replicate 16 1) 1 plain = Some (0, replicate 16 2) then res = 0 else res = -1)"
  by (rule aes_unwrap_authentic) simp_all

text \<open>The step of RFC 3394, which adds the step number as a 64-bit number.\<close>

definition rfc3394_step :: "(bytes \<Rightarrow> bytes) \<Rightarrow> nat \<Rightarrow> nat \<times> nat \<Rightarrow> bytes \<times> bytes \<Rightarrow> bytes \<times> bytes" where
  "rfc3394_step enc n = (\<lambda>(j, i) (a, r).
     let b = enc (a @ take 8 (drop (8 * (i - 1)) r))
     in (xor_bytes (take 8 b) (be_enc 8 (n * j + i)),
         take (8 * (i - 1)) r @ drop 8 b @ drop (8 * (i - 1) + 8) r))"

lemma xor_be_enc_8:
  assumes "length a = 8" "t < 256"
  shows "xor_bytes a (be_enc 8 t) = a[7 := a ! 7 XOR of_nat t]"
proof -
  have "be_enc 8 t = replicate 7 0 @ [of_nat t]" using be_enc_small [OF assms(2), of 7] by simp
  then show ?thesis
    using assms(1) by (intro nth_equalityI) (auto simp: nth_append nth_list_update less_Suc_eq_le)
qed

lemma wrap_step_rfc3394:
  assumes "length kek = 16" "(j, i) \<in> set (wrap_order n)" "length a = 8" "length r = 8 * n" "6 * n < 256"
  shows "aes_wrap_step (aes_E kek) n (j, i) (a, r) = rfc3394_step (aes_E kek) n (j, i) (a, r)"
proof -
  have ji: "j \<le> 5" "1 \<le> i" "i \<le> n" using assms(2) by (auto simp: wrap_order_def)
  then have "n * j + i \<le> n * 5 + n" by (intro add_mono mult_le_mono) auto
  then have t: "n * j + i < 256" using assms(5) by linarith
  have "length (a @ take 8 (drop (8 * (i - 1)) r)) = 16" using ji assms(3,4) by simp
  then have "length (take 8 (aes_E kek (a @ take 8 (drop (8 * (i - 1)) r)))) = 8"
    using assms(1) by (simp add: aes.length_E)
  then show ?thesis
    unfolding aes_wrap_step_def rfc3394_step_def Let_def by (simp only: xor_be_enc_8 [OF _ t] prod.case)
qed



section \<open>CBC\<close>

lemma aes_128_cbc_encrypt_eq:
  "length key = 16 \<Longrightarrow> length iv = 16 \<Longrightarrow> aes_128_cbc_encrypt True key iv data =
     Some (0, cbc_encrypt_blocks (aes_E key) (length data div 16) iv data)"
  by (auto simp: aes_128_cbc_encrypt_def intro: aes_encrypt_init_16 [of key])

lemma aes_128_cbc_decrypt_eq:
  "length key = 16 \<Longrightarrow> length iv = 16 \<Longrightarrow> aes_128_cbc_decrypt True key iv data =
     Some (0, cbc_decrypt_blocks (aes_D key) (length data div 16) iv data)"
  by (auto simp: aes_128_cbc_decrypt_def intro: aes_decrypt_init_16 [of key])

text \<open>
  CBC round trip: with the same 16-byte key and initialisation vector, decryption recovers every
  data block that encryption produced and both leave a trailing partial block untouched.
\<close>

theorem aes_cbc_roundtrip:
  assumes "length key = 16" "length iv = 16"
  shows "\<exists>crypt. aes_128_cbc_encrypt True key iv data = Some (0, crypt) \<and> length crypt = length data \<and>
    drop (length data div 16 * 16) crypt = drop (length data div 16 * 16) data \<and>
    aes_128_cbc_decrypt True key iv crypt = Some (0, data)"
proof -
  let ?n = "length data div 16"
  let ?c = "cbc_encrypt_blocks (aes_E key) ?n iv data"
  have "length ?c = length data" "drop (?n * 16) ?c = drop (?n * 16) data"
    "cbc_decrypt_blocks (aes_D key) ?n iv ?c = data"
    using aes.length_cbc_encrypt [of key iv ?n data] aes.cbc_tail [of key iv ?n data]
      aes.cbc_roundtrip [of key iv ?n data] assms by (simp_all add: mult.commute)
  then show ?thesis using assms by (simp add: aes_128_cbc_encrypt_eq aes_128_cbc_decrypt_eq)
qed

theorem aes_cbc_roundtrip_witness:
  "\<exists>crypt. aes_128_cbc_encrypt True (replicate 16 1) (replicate 16 2) [1, 2, 3] = Some (0, crypt) \<and>
    length crypt = length [1, 2, 3 :: u8] \<and>
    drop (length [1, 2, 3 :: u8] div 16 * 16) crypt = drop (length [1, 2, 3 :: u8] div 16 * 16) [1, 2, 3] \<and>
    aes_128_cbc_decrypt True (replicate 16 1) (replicate 16 2) crypt = Some (0, [1, 2, 3])"
  by (rule aes_cbc_roundtrip) simp_all


section \<open>CTR\<close>

lemma ctr_increment_inc: "n \<le> length c \<Longrightarrow> inc_byte_array c n = Some (ctr_increment n c)"
  by (induction n arbitrary: c) (simp_all add: Let_def)

lemma ctr_increment_enc: "length c = 16 \<Longrightarrow> ctr_increment 16 c = be_enc 16 (be_val c + 1)"
  using inc_byte_array_val [of c] ctr_increment_inc [of 16 c] be_enc_be_val [of "ctr_increment 16 c"]
    be_enc_mod [of 16 "be_val c + 1"] by simp

lemma length_ctr_increment: "length (ctr_increment n c) = length c"
  by (induction n arbitrary: c) (simp_all add: Let_def)

lemma length_ctr_loop:
  assumes "\<And>b. length b = 16 \<Longrightarrow> length (enc b) = 16"
  shows "length c = 16 \<Longrightarrow> length (ctr_loop enc c pos) = length pos"
proof (induction "length pos" arbitrary: c pos rule: less_induct)
  case less
  then show ?case
    using less.hyps [of "drop 16 pos" "ctr_increment 16 c"] assms
    by (simp add: ctr_loop.simps [of enc c pos] length_ctr_increment min_def)
qed

lemma ctr_loop_nth:
  assumes "\<And>b. length b = 16 \<Longrightarrow> length (enc b) = 16"
  shows "length c = 16 \<Longrightarrow> i < length pos \<Longrightarrow>
    ctr_loop enc c pos ! i = pos ! i XOR enc (be_enc 16 (be_val c + i div 16)) ! (i mod 16)"
proof (induction "length pos" arbitrary: c pos i rule: less_induct)
  case less
  have unf: "ctr_loop enc c pos = xor_bytes (take 16 pos) (enc c) @ ctr_loop enc (ctr_increment 16 c) (drop 16 pos)"
    using less.prems by (subst ctr_loop.simps) auto
  show ?case
  proof (cases "i < 16")
    case True
    then show ?thesis
      using less.prems assms be_enc_be_val [of c] by (simp add: unf nth_append)
  next
    case False
    then obtain j where j: "i = 16 + j" by (metis le_iff_add not_less)
    have "i div 16 = Suc (j div 16)" by (simp add: j)
    then have "be_enc 16 (be_val (ctr_increment 16 c) + j div 16) = be_enc 16 (be_val c + i div 16)"
      using be_enc_mod [of 16 "be_val (ctr_increment 16 c) + j div 16"] be_enc_mod [of 16 "be_val c + i div 16"]
      by (simp add: ctr_increment_enc [OF less.prems(1)] be_val_be_enc mod_add_left_eq)
    moreover have "ctr_loop enc (ctr_increment 16 c) (drop 16 pos) ! j = drop 16 pos ! j XOR
        enc (be_enc 16 (be_val (ctr_increment 16 c) + j div 16)) ! (j mod 16)"
      using less.prems j by (intro less.hyps) (auto simp: length_ctr_increment)
    ultimately show ?thesis
      using less.prems assms j by (simp add: unf nth_append)
  qed
qed

lemma ctr_loop_twice:
  assumes "\<And>b. length b = 16 \<Longrightarrow> length (enc b) = 16" "length c = 16"
  shows "ctr_loop enc c (ctr_loop enc c pos) = pos"
  using assms by (intro nth_equalityI) (simp_all add: length_ctr_loop ctr_loop_nth xor.assoc)

lemma aes_128_ctr_encrypt_eq:
  "length key = 16 \<Longrightarrow> length nonce = 16 \<Longrightarrow>
   aes_128_ctr_encrypt True key nonce data = Some (0, ctr_loop (aes_E key) nonce data)"
  by (auto simp: aes_128_ctr_encrypt_def intro: aes_encrypt_init_16 [of key])

text \<open>
  Counter mode: for every data length, byte \<open>i\<close> of the output is byte \<open>i\<close> of the data XOR the
  matching byte of the encryption of the nonce, read as a 128-bit big-endian number, plus
  \<open>i div 16\<close>, with wrap-around at 128 bits; a second call with the same arguments restores the data.
\<close>

theorem aes_ctr_correct:
  assumes "length key = 16" "length nonce = 16"
  shows "\<exists>out. aes_128_ctr_encrypt True key nonce data = Some (0, out) \<and> length out = length data \<and>
    (\<forall>i < length data. out ! i =
       data ! i XOR aes_E key (be_enc 16 (be_val nonce + i div 16)) ! (i mod 16)) \<and>
    aes_128_ctr_encrypt True key nonce out = Some (0, data)"
  using assms
  by (simp add: aes_128_ctr_encrypt_eq ctr_loop_twice length_ctr_loop ctr_loop_nth aes.length_E)

theorem aes_ctr_correct_witness:
  "\<exists>out. aes_128_ctr_encrypt True (replicate 16 1) (replicate 16 255) [7, 8] = Some (0, out) \<and>
    length out = length [7, 8 :: u8] \<and>
    (\<forall>i < length [7, 8 :: u8]. out ! i = [7, 8] ! i XOR
       aes_E (replicate 16 1) (be_enc 16 (be_val (replicate 16 255) + i div 16)) ! (i mod 16)) \<and>
    aes_128_ctr_encrypt True (replicate 16 1) (replicate 16 255) out = Some (0, [7, 8])"
  by (rule aes_ctr_correct) simp_all

end
