(* ===== verification/Aes_Mac.thy ===== *)
theory Aes_Mac
  imports Aes_Modes
begin

text \<open>
  OMAC1 (\<open>crypto/aes-omac1.c\<close>) over vectors of buffers, shown equal to CMAC on the concatenation,
  and EAX (\<open>crypto/aes-eax.c\<close>), which combines three such MACs with counter mode.
\<close>

section \<open>OMAC1 / CMAC (\<open>aes-omac1.c\<close>)\<close>

text \<open>\<open>gf_mulx\<close> shifts the 16 bytes left by one bit.\<close>

definition gf_mulx :: "bytes \<Rightarrow> bytes" where
  "gf_mulx pad =
     (let carry = pad ! 0 AND 0x80;
          sh = map (\<lambda>i. push_bit 1 (pad ! i) OR drop_bit 7 (pad ! (i + 1))) [0..<15] @ [push_bit 1 (pad ! 15)]
      in if carry \<noteq> 0 then sh[15 := sh ! 15 XOR 0x87] else sh)"

text \<open>The read position is the element number and the bytes of that element not read yet. Behind
  the last element the code loads \<open>addr[num_elem]\<close>, a value nothing depends on as long as the
  pointer is not followed; it is \<open>None\<close> here. Following it, or reading from an empty element,
  is an access outside the elements.\<close>

type_synonym omac_pos = "nat \<times> bytes option"

fun omac_next :: "bytes list \<Rightarrow> omac_pos \<Rightarrow> (u8 \<times> omac_pos) option" where
  "omac_next addr (e, Some (b # rest)) =
     (if rest = [] then Some (b, e + 1, c_read addr (e + 1)) else Some (b, e, Some rest))"
| "omac_next addr (e, _) = None"

fun omac_read :: "bytes list \<Rightarrow> nat \<Rightarrow> omac_pos \<Rightarrow> (bytes \<times> omac_pos) option" where
  "omac_read addr 0 p = Some ([], p)"
| "omac_read addr (Suc n) p = do {
     (b, p) \<leftarrow> omac_next addr p;
     (bs, p) \<leftarrow> omac_read addr n p;
     Some (b # bs, p) }"

function omac_blocks :: "(bytes \<Rightarrow> bytes) \<Rightarrow> bytes list \<Rightarrow> nat \<Rightarrow> bytes \<Rightarrow> omac_pos \<Rightarrow>
    (nat \<times> bytes \<times> omac_pos) option" where
  "omac_blocks enc addr left cbc p =
     (if 16 \<le> left then do {
        (bs, p) \<leftarrow> omac_read addr 16 p;
        let cbc = xor_bytes cbc bs;
        omac_blocks enc addr (left - 16) (if 16 < left then enc cbc else cbc) p }
      else Some (left, cbc, p))"
  by pat_completeness auto
termination
  by (relation "measure (\<lambda>(enc, addr, left, cbc, p). left)") auto

declare omac_blocks.simps [simp del]

definition omac1_final :: "(bytes \<Rightarrow> bytes) \<Rightarrow> bytes list \<Rightarrow> nat \<Rightarrow> nat \<Rightarrow> bytes \<Rightarrow> omac_pos \<Rightarrow> bytes option" where
  "omac1_final enc addr total_len left cbc p =
     (let pad = gf_mulx (enc (replicate 16 0))
      in if left \<noteq> 0 \<or> total_len = 0 then do {
           (bs, p) \<leftarrow> omac_read addr left p;
           let cbc = xor_bytes (take left cbc) bs @ drop left cbc;
           let cbc = cbc[left := cbc ! left XOR 0x80];
           Some (enc (xor_bytes (gf_mulx pad) cbc)) }
         else Some (enc (xor_bytes pad cbc)))"

definition omac1_aes_128_vector :: "bool \<Rightarrow> bytes \<Rightarrow> bytes list \<Rightarrow> (int \<times> bytes) option" where
  "omac1_aes_128_vector mem key addr = do {
     c \<leftarrow> aes_encrypt_init mem key 16;
     case c of
       None \<Rightarrow> Some (-1, [])
     | Some ctx \<Rightarrow> do {
         let total_len = sum_list (map length addr);
         (left, cbc, p) \<leftarrow> omac_blocks (aes_encrypt ctx) addr total_len (replicate 16 0) (0, c_read addr 0);
         mac \<leftarrow> omac1_final (aes_encrypt ctx) addr total_len left cbc p;
         Some (0, mac) } }"

definition omac1_aes_128 :: "bool \<Rightarrow> bytes \<Rightarrow> bytes \<Rightarrow> (int \<times> bytes) option" where
  "omac1_aes_128 mem key data = omac1_aes_128_vector mem key [data]"

section \<open>EAX (\<open>aes-eax.c\<close>)\<close>

text \<open>\<open>mem k\<close> is the result of the \<open>k\<close>-th allocation. The first component is the return value, then
  the data buffer and the tag.\<close>

definition eax_mac :: "bool \<Rightarrow> bytes \<Rightarrow> u8 \<Rightarrow> bytes \<Rightarrow> (int \<times> bytes) option" where
  "eax_mac mem key t data = omac1_aes_128 mem key (replicate 15 0 @ [t] @ data)"

definition aes_128_eax_encrypt :: "(nat \<Rightarrow> bool) \<Rightarrow> bytes \<Rightarrow> bytes \<Rightarrow> bytes \<Rightarrow> bytes \<Rightarrow> bytes \<Rightarrow>
    (int \<times> bytes \<times> bytes) option" where
  "aes_128_eax_encrypt mem key nonce hdr data tag =
     (if \<not> mem 0 then Some (-1, data, tag)
      else do {
        (r, nonce_mac) \<leftarrow> eax_mac (mem 1) key 0 nonce;
        if r \<noteq> 0 then Some (-1, data, tag)
        else do {
          (r, hdr_mac) \<leftarrow> eax_mac (mem 2) key 1 hdr;
          if r \<noteq> 0 then Some (-1, data, tag)
          else do {
            (r, data) \<leftarrow> aes_128_ctr_encrypt (mem 3) key nonce_mac data;
            if r \<noteq> 0 then Some (-1, data, tag)
            else do {
              (r, data_mac) \<leftarrow> eax_mac (mem 4) key 2 data;
              if r \<noteq> 0 then Some (-1, data, tag)
              else if length tag < 16 then None
              else Some (0, data, xor_bytes (xor_bytes nonce_mac data_mac) hdr_mac @ drop 16 tag) } } } })"

definition aes_128_eax_decrypt :: "(nat \<Rightarrow> bool) \<Rightarrow> bytes \<Rightarrow> bytes \<Rightarrow> bytes \<Rightarrow> bytes \<Rightarrow> bytes \<Rightarrow>
    (int \<times> bytes) option" where
  "aes_128_eax_decrypt mem key nonce hdr data tag =
     (if \<not> mem 0 then Some (-1, data)
      else do {
        (r, nonce_mac) \<leftarrow> eax_mac (mem 1) key 0 nonce;
        if r \<noteq> 0 then Some (-1, data)
        else do {
          (r, hdr_mac) \<leftarrow> eax_mac (mem 2) key 1 hdr;
          if r \<noteq> 0 then Some (-1, data)
          else do {
            (r, data_mac) \<leftarrow> eax_mac (mem 3) key 2 data;
            if r \<noteq> 0 then Some (-1, data)
            else do {
              t \<leftarrow> c_slice tag 0 16;
              if t \<noteq> xor_bytes (xor_bytes nonce_mac data_mac) hdr_mac then Some (-2, data)
              else aes_128_ctr_encrypt (mem 4) key nonce_mac data } } } })"

section \<open>CMAC of the concatenated message\<close>

text \<open>RFC 4493 on one message.\<close>

function cmac_blocks :: "(bytes \<Rightarrow> bytes) \<Rightarrow> bytes \<Rightarrow> bytes \<Rightarrow> bytes" where
  "cmac_blocks enc x msg =
     (if 16 < length msg then cmac_blocks enc (enc (xor_bytes x (take 16 msg))) (drop 16 msg)
      else (let k1 = gf_mulx (enc (replicate 16 0)); k2 = gf_mulx k1;
                last = (if length msg = 16 then xor_bytes msg k1
                        else xor_bytes (msg @ [0x80] @ replicate (15 - length msg) 0) k2)
            in enc (xor_bytes last x)))"
  by pat_completeness auto
termination
  by (relation "measure (\<lambda>(enc, x, msg). length msg)") auto

declare cmac_blocks.simps [simp del]

definition cmac :: "(bytes \<Rightarrow> bytes) \<Rightarrow> bytes \<Rightarrow> bytes" where
  "cmac enc msg = cmac_blocks enc (replicate 16 0) msg"

text \<open>What is left to read at a position.\<close>

definition omac_rest :: "bytes list \<Rightarrow> omac_pos \<Rightarrow> bytes" where
  "omac_rest addr p = (case p of (e, cur) \<Rightarrow> (case cur of None \<Rightarrow> [] | Some xs \<Rightarrow> xs @ concat (drop (e + 1) addr)))"

definition omac_pos_ok :: "bytes list \<Rightarrow> omac_pos \<Rightarrow> bool" where
  "omac_pos_ok addr p = (case p of (e, cur) \<Rightarrow> (case cur of None \<Rightarrow> True | Some xs \<Rightarrow> xs \<noteq> []))"

lemma omac_next_ok:
  assumes "\<forall>x \<in> set addr. x \<noteq> []" "omac_pos_ok addr p" "omac_rest addr p = b # bs"
  shows "\<exists>p'. omac_next addr p = Some (b, p') \<and> omac_pos_ok addr p' \<and> omac_rest addr p' = bs"
proof -
  obtain e rest where p: "p = (e, Some (b # rest))" "rest @ concat (drop (e + 1) addr) = bs"
    using assms(2,3) by (cases p) (auto simp: omac_rest_def omac_pos_ok_def neq_Nil_conv split: option.splits)
  show ?thesis
  proof (cases "rest = [] \<and> e + 1 < length addr")
    case True
    then have "drop (e + 1) addr = addr ! (e + 1) # drop (e + 2) addr" by (simp add: Cons_nth_drop_Suc)
    with True p assms(1) show ?thesis by (auto simp: omac_rest_def omac_pos_ok_def)
  qed (use p in \<open>auto simp: omac_rest_def omac_pos_ok_def\<close>)
qed

lemma omac_read_ok:
  assumes "\<forall>x \<in> set addr. x \<noteq> []"
  shows "omac_pos_ok addr p \<Longrightarrow> n \<le> length (omac_rest addr p) \<Longrightarrow>
    \<exists>p'. omac_read addr n p = Some (take n (omac_rest addr p), p') \<and> omac_pos_ok addr p' \<and>
      omac_rest addr p' = drop n (omac_rest addr p)"
proof (induction n arbitrary: p)
  case (Suc n)
  then obtain b bs where r: "omac_rest addr p = b # bs" by (cases "omac_rest addr p") auto
  then obtain p' where "omac_next addr p = Some (b, p')" "omac_pos_ok addr p'" "omac_rest addr p' = bs"
    using omac_next_ok [OF assms Suc.prems(1)] by blast
  with Suc.IH [of p'] Suc.prems r show ?case by auto
qed simp


lemma xor_bytes_rotate:
  "length k = n \<Longrightarrow> length c = n \<Longrightarrow> length m = n \<Longrightarrow>
   xor_bytes k (xor_bytes c m) = xor_bytes (xor_bytes m k) c"
  by (rule nth_equalityI) (simp_all add: ac_simps)

lemma omac_pad:
  assumes "length k = 16" "length c = 16" "length m < 16"
  shows "xor_bytes k ((xor_bytes (take (length m) c) m @ drop (length m) c)
      [length m := (xor_bytes (take (length m) c) m @ drop (length m) c) ! length m XOR 0x80]) =
    xor_bytes (xor_bytes (m @ [0x80] @ replicate (15 - length m) 0) k) c"
  using assms
  by (intro nth_equalityI) (auto simp: nth_append nth_list_update nth_Cons' ac_simps)

lemma length_gf_mulx [simp]: "length (gf_mulx p) = 16"
  by (simp add: gf_mulx_def Let_def)

lemma omac_cmac_blocks:
  assumes "\<forall>x \<in> set addr. x \<noteq> []" and enc: "\<And>b. length b = 16 \<Longrightarrow> length (enc b) = 16"
  shows "omac_pos_ok addr p \<Longrightarrow> length cbc = 16 \<Longrightarrow> (total_len = 0) = (omac_rest addr p = []) \<Longrightarrow>
    (omac_blocks enc addr (length (omac_rest addr p)) cbc p \<bind>
      (\<lambda>(left, cbc, p). omac1_final enc addr total_len left cbc p)) = Some (cmac_blocks enc cbc (omac_rest addr p))"
proof (induction "length (omac_rest addr p)" arbitrary: cbc p rule: less_induct)
  case less
  let ?m = "omac_rest addr p"
  show ?case
  proof (cases "16 \<le> length ?m")
    case True
    then obtain p' where rd: "omac_read addr 16 p = Some (take 16 ?m, p')" "omac_pos_ok addr p'"
        and r: "omac_rest addr p' = drop 16 ?m"
      using omac_read_ok [OF assms(1) less.prems(1), of 16] by auto
    show ?thesis
    proof (cases "16 < length ?m")
      case True
      let ?x = "enc (xor_bytes cbc (take 16 ?m))"
      have "(omac_blocks enc addr (length (omac_rest addr p')) ?x p' \<bind>
          (\<lambda>(left, cbc, p). omac1_final enc addr total_len left cbc p)) =
          Some (cmac_blocks enc ?x (omac_rest addr p'))"
        using True less.prems rd(2) r enc by (intro less.hyps) auto
      then show ?thesis
        using True rd(1) r by (simp add: omac_blocks.simps [of enc addr "length ?m"] cmac_blocks.simps [of enc cbc ?m])
    next
      case False
      with True have "length ?m = 16" by simp
      moreover from this have "?m \<noteq> []" by auto
      ultimately show ?thesis
        using less.prems rd enc
        by (simp add: omac_blocks.simps omac1_final_def cmac_blocks.simps [of enc cbc ?m]
            xor_bytes_rotate [of _ 16] Let_def)
    qed
  next
    case False
    then obtain p' where rd: "omac_read addr (length ?m) p = Some (?m, p')"
      using omac_read_ok [OF assms(1) less.prems(1), of "length ?m"] by auto
    then show ?thesis
      using False less.prems enc omac_pad [of "gf_mulx (gf_mulx (enc (replicate 16 0)))" cbc ?m]
      by (simp add: omac_blocks.simps omac1_final_def cmac_blocks.simps [of enc cbc ?m] Let_def)
  qed
qed

lemma omac1_vector_eq:
  assumes "length key = 16" "\<forall>x \<in> set addr. x \<noteq> []"
  shows "omac1_aes_128_vector True key addr = Some (0, cmac (aes_E key) (concat addr))"
proof -
  have start: "omac_rest addr (0, c_read addr 0) = concat addr" "omac_pos_ok addr (0, c_read addr 0)"
    using assms(2) by (cases addr; simp add: omac_rest_def omac_pos_ok_def)+
  obtain left cbc p where
    "omac_blocks (aes_E key) addr (length (concat addr)) (replicate 16 0) (0, c_read addr 0) = Some (left, cbc, p)"
    "omac1_final (aes_E key) addr (length (concat addr)) left cbc p = Some (cmac (aes_E key) (concat addr))"
    using omac_cmac_blocks [OF assms(2) _ start(2), of "aes_E key" "replicate 16 0" "length (concat addr)"] assms(1)
    by (auto simp: start(1) aes.length_E cmac_def bind_eq_Some_iff)
  moreover obtain ctx where "aes_encrypt_init True key 16 = Some (Some ctx)" "aes_encrypt ctx = aes_E key"
    using aes_encrypt_init_16 [OF assms(1)] .
  ultimately show ?thesis by (simp add: omac1_aes_128_vector_def length_concat)
qed

text \<open>One message is a vector of one element; the empty message reads nothing.\<close>

lemma omac1_eq:
  assumes "length key = 16"
  shows "omac1_aes_128 True key data = Some (0, cmac (aes_E key) data)"
proof (cases "data = []")
  case True
  moreover obtain ctx where "aes_encrypt_init True key 16 = Some (Some ctx)" "aes_encrypt ctx = aes_E key"
    using aes_encrypt_init_16 [OF assms] .
  ultimately show ?thesis
    using omac_pad [of "gf_mulx (gf_mulx (aes_E key (replicate 16 0)))" "replicate 16 0" "[]"]
    by (simp add: omac1_aes_128_def omac1_aes_128_vector_def omac_blocks.simps omac1_final_def cmac_def
        cmac_blocks.simps Let_def)
next
  case False
  then show ?thesis using omac1_vector_eq [OF assms, of "[data]"] by (simp add: omac1_aes_128_def)
qed



text \<open>
  An empty element in front of remaining data makes \<open>omac1_aes_128_vector\<close> read outside the
  element: its loop fetches a byte before it tests the end of the element.
\<close>

theorem omac1_empty_element_overread:
  assumes "length key = 16" "16 \<le> length d"
  shows "omac1_aes_128_vector True key [[], d] = None"
proof -
  obtain ctx where "aes_encrypt_init True key 16 = Some (Some ctx)" "aes_encrypt ctx = aes_E key"
    using aes_encrypt_init_16 [OF assms(1)] .
  moreover have "omac_read [[], d] 16 (0, Some []) = None" by (simp add: numeral_eq_Suc)
  ultimately show ?thesis
    using assms(2) by (simp add: omac1_aes_128_vector_def omac_blocks.simps)
qed

theorem omac1_empty_element_overread_witness:
  "omac1_aes_128_vector True (replicate 16 1) [[], replicate 16 2] = None"
  by (rule omac1_empty_element_overread) simp_all

section \<open>EAX\<close>

lemma length_cmac:
  assumes "length key = 16"
  shows "length (cmac (aes_E key) msg) = 16"
proof -
  have enc: "length (aes_E key b) = 16" if "length b = 16" for b using that assms by (simp add: aes.length_E)
  have "length x = 16 \<Longrightarrow> length (cmac_blocks (aes_E key) x msg) = 16" for x
  proof (induction "length msg" arbitrary: x msg rule: less_induct)
    case less
    then show ?case
      using less.hyps [of "drop 16 msg" "aes_E key (xor_bytes x (take 16 msg))"]
      by (auto simp: cmac_blocks.simps [of _ x msg] enc Let_def intro!: enc)
  qed
  then show ?thesis by (simp add: cmac_def)
qed

text \<open>
  EAX round trip and authentication: when the allocations succeed, encryption returns 0 with data
  of the same length and a 16-byte tag, decryption of the result with the same key, nonce and
  header returns 0 and the data, and decryption with any other 16-byte tag returns -2 and
  leaves the data encrypted.
\<close>

theorem aes_eax_roundtrip:
  assumes "length key = 16" "length tag0 = 16" "length t = 16"
  shows "\<exists>crypt tag. aes_128_eax_encrypt (\<lambda>_. True) key nonce hdr data tag0 = Some (0, crypt, tag) \<and>
    length crypt = length data \<and> length tag = 16 \<and>
    aes_128_eax_decrypt (\<lambda>_. True) key nonce hdr crypt t =
      (if t = tag then Some (0, data) else Some (-2, crypt))"
  using assms
  by (simp add: aes_128_eax_encrypt_def aes_128_eax_decrypt_def eax_mac_def omac1_eq length_cmac
      aes_128_ctr_encrypt_eq length_ctr_loop ctr_loop_twice aes.length_E)

theorem aes_eax_roundtrip_witness:
  "\<exists>crypt tag. aes_128_eax_encrypt (\<lambda>_. True) (replicate 16 1) [1] [2] [3, 4] (replicate 16 0) = Some (0, crypt, tag) \<and>
    length crypt = length [3, 4 :: u8] \<and> length tag = 16 \<and>
    aes_128_eax_decrypt (\<lambda>_. True) (replicate 16 1) [1] [2] crypt (replicate 16 5) =
      (if replicate 16 5 = tag then Some (0, [3, 4]) else Some (-2, crypt))"
  by (rule aes_eax_roundtrip) simp_all

end
