(* ===== verification/Aes_Ccm.thy ===== *)
theory Aes_Ccm
  imports Aes_Modes Os_Internal
begin

text \<open>
  CCM (\<open>crypto/aes-ccm.c\<close>) with the two-byte length field the source fixes: authenticated
  encryption, authenticated decryption, and the room its output needs.
\<close>

section \<open>CCM (\<open>aes-ccm.c\<close>)\<close>

text \<open>\<open>x\<close> is the running MAC block; \<open>a\<close> the first 14 bytes of the counter block, whose last two
  bytes are set before every use. \<open>L\<close> is always 2.\<close>

definition aes_ccm_auth_start :: "(bytes \<Rightarrow> bytes) \<Rightarrow> u64 \<Rightarrow> nat \<Rightarrow> bytes \<Rightarrow> bytes \<Rightarrow> nat \<Rightarrow> bytes" where
  "aes_ccm_auth_start enc M L nonce aad plain_len =
     (let b0 = (if aad \<noteq> [] then 0x40 else 0) OR ucast (push_bit 3 ((M - 2) div 2)) OR of_nat (L - 1);
          b = [b0] @ take (15 - L) nonce @ WPA_PUT_BE16 (of_nat plain_len);
          x = enc b
      in if aad = [] then x
         else (let aad_buf = WPA_PUT_BE16 (of_nat (length aad)) @ aad @ replicate (30 - length aad) 0;
                   x = enc (xor_bytes (take 16 aad_buf) x)
               in if 14 < length aad then enc (xor_bytes (drop 16 aad_buf) x) else x))"

function aes_ccm_auth :: "(bytes \<Rightarrow> bytes) \<Rightarrow> bytes \<Rightarrow> bytes \<Rightarrow> bytes" where
  "aes_ccm_auth enc data x =
     (if 16 \<le> length data then aes_ccm_auth enc (drop 16 data) (enc (xor_bytes x (take 16 data)))
      else if data \<noteq> [] then enc (xor_bytes (take (length data) x) data @ drop (length data) x)
      else x)"
  by pat_completeness auto
termination
  by (relation "measure (\<lambda>(enc, data, x). length data)") auto

declare aes_ccm_auth.simps [simp del]

definition aes_ccm_encr_start :: "nat \<Rightarrow> bytes \<Rightarrow> bytes" where
  "aes_ccm_encr_start L nonce = [of_nat (L - 1)] @ take (15 - L) nonce"

text \<open>\<open>i\<close> is the block counter and \<open>out\<close> the output buffer from the current position on. A partial
  last block is encrypted into the output as a whole block.\<close>

function aes_ccm_encr :: "(bytes \<Rightarrow> bytes) \<Rightarrow> bytes \<Rightarrow> nat \<Rightarrow> bytes \<Rightarrow> bytes \<Rightarrow> bytes option" where
  "aes_ccm_encr enc a i inp out =
     (let s = enc (a @ WPA_PUT_BE16 (of_nat i)) in
      if inp = [] then Some out
      else if length out < 16 then None
      else if 16 \<le> length inp then do {
        rest \<leftarrow> aes_ccm_encr enc a (i + 1) (drop 16 inp) (drop 16 out);
        Some (xor_bytes s (take 16 inp) @ rest) }
      else Some (xor_bytes (take (length inp) s) inp @ drop (length inp) s @ drop 16 out))"
  by pat_completeness auto
termination
  by (relation "measure (\<lambda>(enc, a, i, inp, out). length inp)") auto

declare aes_ccm_encr.simps [simp del]

definition aes_ccm_encr_auth :: "(bytes \<Rightarrow> bytes) \<Rightarrow> nat \<Rightarrow> bytes \<Rightarrow> bytes \<Rightarrow> bytes" where
  "aes_ccm_encr_auth enc M x a = xor_bytes (take M x) (take M (enc (a @ WPA_PUT_BE16 0)))"

definition aes_ccm_decr_auth :: "(bytes \<Rightarrow> bytes) \<Rightarrow> nat \<Rightarrow> bytes \<Rightarrow> bytes \<Rightarrow> bytes" where
  "aes_ccm_decr_auth enc M a auth = xor_bytes (take M auth) (take M (enc (a @ WPA_PUT_BE16 0)))"

text \<open>The return value, the output buffer and the authentication field.\<close>

definition aes_ccm_ae :: "bool \<Rightarrow> bytes \<Rightarrow> bytes \<Rightarrow> nat \<Rightarrow> bytes \<Rightarrow> bytes \<Rightarrow> bytes \<Rightarrow>
    (int \<times> bytes \<times> bytes) option" where
  "aes_ccm_ae mem key nonce M plain aad crypt =
     (if 30 < length aad \<or> 16 < M then Some (-1, crypt, [])
      else do {
        c \<leftarrow> aes_encrypt_init mem key (length key);
        case c of
          None \<Rightarrow> Some (-1, crypt, [])
        | Some aes \<Rightarrow> do {
            let L = 2;
            n \<leftarrow> c_slice nonce 0 (15 - L);
            let x = aes_ccm_auth_start (aes_encrypt aes) (of_nat M) L n aad (length plain);
            let x = aes_ccm_auth (aes_encrypt aes) plain x;
            let a = aes_ccm_encr_start L n;
            crypt \<leftarrow> aes_ccm_encr (aes_encrypt aes) a 1 plain crypt;
            Some (0, crypt, aes_ccm_encr_auth (aes_encrypt aes) M x a) } })"

definition aes_ccm_ad :: "bool \<Rightarrow> bytes \<Rightarrow> bytes \<Rightarrow> nat \<Rightarrow> bytes \<Rightarrow> bytes \<Rightarrow> bytes \<Rightarrow> bytes \<Rightarrow>
    (int \<times> bytes) option" where
  "aes_ccm_ad mem key nonce M crypt aad auth plain =
     (if 30 < length aad \<or> 16 < M then Some (-1, plain)
      else do {
        c \<leftarrow> aes_encrypt_init mem key (length key);
        case c of
          None \<Rightarrow> Some (-1, plain)
        | Some aes \<Rightarrow> do {
            let L = 2;
            n \<leftarrow> c_slice nonce 0 (15 - L);
            u \<leftarrow> c_slice auth 0 M;
            let a = aes_ccm_encr_start L n;
            let t = aes_ccm_decr_auth (aes_encrypt aes) M a u;
            plain \<leftarrow> aes_ccm_encr (aes_encrypt aes) a 1 crypt plain;
            let x = aes_ccm_auth_start (aes_encrypt aes) (of_nat M) L n aad (length crypt);
            let x = aes_ccm_auth (aes_encrypt aes) (take (length crypt) plain) x;
            r \<leftarrow> os_memcmp x t M;
            Some (if r \<noteq> 0 then -1 else 0, plain) } })"

section \<open>CCM correctness\<close>

lemma aes_encrypt_init_ok:
  assumes "aes_key key"
  obtains ctx where "aes_encrypt_init True key (length key) = Some (Some ctx)" "aes_encrypt ctx = aes_E key"
  using aes_block_roundtrip [of key "replicate 16 0"] assms that
  by (auto simp: aes_E_def aes_key_def fun_eq_iff)

text \<open>The key stream of \<open>n\<close> blocks from block \<open>i\<close> on, and the room the output needs.\<close>

fun ccm_stream :: "(bytes \<Rightarrow> bytes) \<Rightarrow> bytes \<Rightarrow> nat \<Rightarrow> nat \<Rightarrow> bytes" where
  "ccm_stream enc a i 0 = []"
| "ccm_stream enc a i (Suc n) = enc (a @ WPA_PUT_BE16 (of_nat i)) @ ccm_stream enc a (i + 1) n"

definition ccm_blocks :: "nat \<Rightarrow> nat" where
  "ccm_blocks n = (n + 15) div 16"

lemma ccm_blocks_simps [simp]: "ccm_blocks 0 = 0" "16 \<le> n \<Longrightarrow> ccm_blocks n = Suc (ccm_blocks (n - 16))"
  "0 < n \<Longrightarrow> n < 16 \<Longrightarrow> ccm_blocks n = 1"
  by (auto simp: ccm_blocks_def)

lemma le_ccm_blocks: "n \<le> 16 * ccm_blocks n"
  unfolding ccm_blocks_def by presburger

lemma length_WPA_PUT_BE16 [simp]: "length (WPA_PUT_BE16 v) = 2"
  by (simp add: WPA_PUT_BE16_def)

lemma length_ccm_stream:
  "(\<And>b. length b = 16 \<Longrightarrow> length (enc b) = 16) \<Longrightarrow> length a = 14 \<Longrightarrow> length (ccm_stream enc a i n) = 16 * n"
  by (induction n arbitrary: i) simp_all

lemma xor_bytes_append:
  "length xs = length ys \<Longrightarrow> xor_bytes (xs @ xs') (ys @ ys') = xor_bytes xs ys @ xor_bytes xs' ys'"
  by (simp add: xor_bytes_def)

lemma xor_bytes_take: "length xs \<le> length ys \<Longrightarrow> xor_bytes xs (take (length xs) ys) = xor_bytes xs ys"
  by (rule nth_equalityI) simp_all

lemma aes_ccm_encr_ok:
  assumes enc: "\<And>b. length b = 16 \<Longrightarrow> length (enc b) = 16" and a: "length a = 14"
  shows "16 * ccm_blocks (length inp) \<le> length out \<Longrightarrow>
    \<exists>out'. aes_ccm_encr enc a i inp out = Some out' \<and> length out' = length out \<and>
      take (length inp) out' = xor_bytes inp (ccm_stream enc a i (ccm_blocks (length inp)))"
proof (induction "length inp" arbitrary: inp out i rule: less_induct)
  case less
  let ?s = "enc (a @ WPA_PUT_BE16 (of_nat i))"
  have s: "length ?s = 16" using enc a by simp
  consider "inp = []" | "16 \<le> length inp" | "inp \<noteq> []" "length inp < 16" by linarith
  then show ?case
  proof cases
    case 2
    then obtain out' where out': "aes_ccm_encr enc a (i + 1) (drop 16 inp) (drop 16 out) = Some out'"
      "length out' = length out - 16"
      "take (length inp - 16) out' = xor_bytes (drop 16 inp) (ccm_stream enc a (i + 1) (ccm_blocks (length inp - 16)))"
      using less.hyps [of "drop 16 inp" "drop 16 out" "i + 1"] less.prems by fastforce
    have "xor_bytes inp (ccm_stream enc a i (ccm_blocks (length inp))) =
        xor_bytes (take 16 inp) ?s @ xor_bytes (drop 16 inp) (ccm_stream enc a (i + 1) (ccm_blocks (length inp - 16)))"
      using 2 s xor_bytes_append [of "take 16 inp" ?s "drop 16 inp"] by simp
    moreover have "inp \<noteq> []" using 2 by auto
    ultimately show ?thesis
      using 2 less.prems out' s
      by (simp add: aes_ccm_encr.simps [of enc a i inp] Let_def xor_bytes_commute [of ?s])
  next
    case 3
    with less.prems s show ?thesis
      using xor_bytes_take [of inp ?s]
      by (simp add: aes_ccm_encr.simps [of enc a i inp] Let_def xor_bytes_commute [of "take _ _"])
  qed (simp add: aes_ccm_encr.simps xor_bytes_def)
qed

lemma aes_ccm_encr_overrun:
  assumes enc: "\<And>b. length b = 16 \<Longrightarrow> length (enc b) = 16" and a: "length a = 14"
  shows "length out < 16 * ccm_blocks (length inp) \<Longrightarrow> aes_ccm_encr enc a i inp out = None"
proof (induction "length inp" arbitrary: inp out i rule: less_induct)
  case less
  then show ?case
    using less.hyps [of "drop 16 inp" "drop 16 out" "i + 1"]
    by (cases "16 \<le> length inp"; cases "inp = []") (auto simp: aes_ccm_encr.simps [of enc a i inp] Let_def)
qed

lemma length_aes_ccm_auth:
  assumes "\<And>b. length b = 16 \<Longrightarrow> length (enc b) = 16"
  shows "length x = 16 \<Longrightarrow> length (aes_ccm_auth enc data x) = 16"
proof (induction "length data" arbitrary: data x rule: less_induct)
  case less
  then show ?case
    using less.hyps [of "drop 16 data" "enc (xor_bytes x (take 16 data))"] assms
    by (simp add: aes_ccm_auth.simps [of enc data])
qed

lemma length_aes_ccm_auth_start:
  assumes "\<And>b. length b = 16 \<Longrightarrow> length (enc b) = 16" "length nonce = 13" "length aad \<le> 30"
  shows "length (aes_ccm_auth_start enc M 2 nonce aad n) = 16"
  using assms by (simp add: aes_ccm_auth_start_def Let_def)


lemma aes_E_length [simp]: "aes_key key \<Longrightarrow> length b = 16 \<Longrightarrow> length (aes_E key b) = 16"
  by (rule aes.length_E)

lemma length_aes_ccm_encr_start: "13 \<le> length nonce \<Longrightarrow> length (aes_ccm_encr_start 2 (take 13 nonce)) = 14"
  by (simp add: aes_ccm_encr_start_def)

text \<open>The message authentication code of CCM and the encrypted form, in terms of the cipher.\<close>

definition ccm_mac :: "bytes \<Rightarrow> bytes \<Rightarrow> nat \<Rightarrow> bytes \<Rightarrow> bytes \<Rightarrow> bytes" where
  "ccm_mac key nonce M aad plain = aes_ccm_auth (aes_E key) plain
     (aes_ccm_auth_start (aes_E key) (of_nat M) 2 (take 13 nonce) aad (length plain))"

definition ccm_crypt :: "bytes \<Rightarrow> bytes \<Rightarrow> bytes \<Rightarrow> bytes" where
  "ccm_crypt key nonce inp = xor_bytes inp
     (ccm_stream (aes_E key) (aes_ccm_encr_start 2 (take 13 nonce)) 1 (ccm_blocks (length inp)))"

definition ccm_tag :: "bytes \<Rightarrow> bytes \<Rightarrow> nat \<Rightarrow> bytes \<Rightarrow> bytes \<Rightarrow> bytes" where
  "ccm_tag key nonce M aad plain =
     aes_ccm_encr_auth (aes_E key) M (ccm_mac key nonce M aad plain) (aes_ccm_encr_start 2 (take 13 nonce))"

lemma ccm_lengths:
  assumes "aes_key key" "13 \<le> length nonce" "length aad \<le> 30" "M \<le> 16"
  shows "length (ccm_mac key nonce M aad plain) = 16" "length (ccm_crypt key nonce inp) = length inp"
    "length (ccm_tag key nonce M aad plain) = M"
  using assms le_ccm_blocks [of "length inp"]
  by (simp_all add: ccm_mac_def ccm_crypt_def ccm_tag_def aes_ccm_encr_auth_def length_aes_ccm_auth
      length_aes_ccm_auth_start length_ccm_stream length_aes_ccm_encr_start)

lemma ccm_crypt_twice:
  assumes "aes_key key" "13 \<le> length nonce"
  shows "ccm_crypt key nonce (ccm_crypt key nonce inp) = inp"
  using assms le_ccm_blocks [of "length inp"]
  by (simp add: ccm_crypt_def length_ccm_stream length_aes_ccm_encr_start)

lemma aes_ccm_ae_eq:
  assumes "aes_key key" "13 \<le> length nonce" "M \<le> 16" "length aad \<le> 30"
    and "16 * ccm_blocks (length plain) \<le> length out"
  shows "\<exists>crypt. aes_ccm_ae True key nonce M plain aad out = Some (0, crypt, ccm_tag key nonce M aad plain) \<and>
    length crypt = length out \<and> take (length plain) crypt = ccm_crypt key nonce plain"
proof -
  obtain ctx where ctx: "aes_encrypt_init True key (length key) = Some (Some ctx)" "aes_encrypt ctx = aes_E key"
    using aes_encrypt_init_ok [OF assms(1)] .
  obtain crypt where "aes_ccm_encr (aes_E key) (aes_ccm_encr_start 2 (take 13 nonce)) 1 plain out = Some crypt"
    "length crypt = length out" "take (length plain) crypt = ccm_crypt key nonce plain"
    using aes_ccm_encr_ok [of "aes_E key" "aes_ccm_encr_start 2 (take 13 nonce)" plain out 1] assms
    by (auto simp: length_aes_ccm_encr_start ccm_crypt_def)
  with ctx assms show ?thesis
    by (simp add: aes_ccm_ae_def ccm_tag_def ccm_mac_def Let_def)
qed

lemma aes_ccm_ad_eq:
  assumes "aes_key key" "13 \<le> length nonce" "M \<le> 16" "length aad \<le> 30" "M \<le> length auth"
    and "16 * ccm_blocks (length crypt) \<le> length out"
  shows "\<exists>plain. take (length crypt) plain = ccm_crypt key nonce crypt \<and> length plain = length out \<and>
    aes_ccm_ad True key nonce M crypt aad auth out =
      Some (if take M auth = ccm_tag key nonce M aad (ccm_crypt key nonce crypt) then 0 else -1, plain)"
proof -
  obtain ctx where ctx: "aes_encrypt_init True key (length key) = Some (Some ctx)" "aes_encrypt ctx = aes_E key"
    using aes_encrypt_init_ok [OF assms(1)] .
  let ?a = "aes_ccm_encr_start 2 (take 13 nonce)"
  let ?x = "ccm_mac key nonce M aad (ccm_crypt key nonce crypt)"
  let ?t = "aes_ccm_decr_auth (aes_E key) M ?a (take M auth)"
  let ?s = "take M (aes_E key (?a @ WPA_PUT_BE16 0))"
  obtain plain where plain: "aes_ccm_encr (aes_E key) ?a 1 crypt out = Some plain"
    "length plain = length out" "take (length crypt) plain = ccm_crypt key nonce crypt"
    using aes_ccm_encr_ok [of "aes_E key" ?a crypt out 1] assms
    by (auto simp: length_aes_ccm_encr_start ccm_crypt_def)
  have len: "length ?t = M" "length ?s = M" "length (take M auth) = M" "length (take M ?x) = M"
    using assms by (simp_all add: aes_ccm_decr_auth_def length_aes_ccm_encr_start ccm_lengths)
  have "take M ?x = ?t \<longleftrightarrow> take M auth = xor_bytes (take M ?x) ?s"
    using len xor_bytes_cancel [of "take M auth" ?s] xor_bytes_cancel [of "take M ?x" ?s]
    by (auto simp: aes_ccm_decr_auth_def)
  then have eq: "take M ?x = take M ?t \<longleftrightarrow> take M auth = ccm_tag key nonce M aad (ccm_crypt key nonce crypt)"
    using len by (simp add: ccm_tag_def aes_ccm_encr_auth_def)
  obtain r where "os_memcmp ?x ?t M = Some r" "r = 0 \<longleftrightarrow> take M ?x = take M ?t"
    using os_memcmp_correct [of M ?x ?t] len assms by (auto simp: ccm_lengths)
  moreover have "?x = aes_ccm_auth (aes_E key) (take (length crypt) plain)
      (aes_ccm_auth_start (aes_E key) (of_nat M) 2 (take 13 nonce) aad (length crypt))"
    using plain assms by (simp add: ccm_mac_def ccm_lengths)
  ultimately show ?thesis
    using ctx assms plain eq by (simp add: aes_ccm_ad_def Let_def)
qed

text \<open>
  C25. CCM round trip and authentication: for output buffers rounded up to whole blocks, \<open>aes_ccm_ae\<close>
  succeeds; \<open>aes_ccm_ad\<close> of its ciphertext recovers the plaintext, and returns 0 exactly when
  the authentication field is the one \<open>aes_ccm_ae\<close> produced and -1 for every other one.
\<close>

theorem aes_ccm_roundtrip:
  assumes "length key \<in> {16, 24, 32}" "13 \<le> length nonce" "M \<le> 16" "length aad \<le> 30" "M \<le> length u"
    and "16 * ((length plain + 15) div 16) \<le> length out" "16 * ((length plain + 15) div 16) \<le> length out2"
  shows "\<exists>crypt auth p. aes_ccm_ae True key nonce M plain aad out = Some (0, crypt, auth) \<and> length auth = M \<and>
    aes_ccm_ad True key nonce M (take (length plain) crypt) aad u out2 = Some (if take M u = auth then 0 else -1, p) \<and>
    take (length plain) p = plain"
proof -
  have key: "aes_key key" using assms(1) by (simp add: aes_key_def)
  obtain crypt where ae: "aes_ccm_ae True key nonce M plain aad out = Some (0, crypt, ccm_tag key nonce M aad plain)"
    "take (length plain) crypt = ccm_crypt key nonce plain"
    using aes_ccm_ae_eq [OF key assms(2-4), of plain out] assms(6) by (auto simp: ccm_blocks_def)
  obtain p where "take (length plain) p = plain"
    "aes_ccm_ad True key nonce M (ccm_crypt key nonce plain) aad u out2 =
      Some (if take M u = ccm_tag key nonce M aad plain then 0 else -1, p)"
    using aes_ccm_ad_eq [OF key assms(2-5), of "ccm_crypt key nonce plain" out2] assms key
    by (auto simp: ccm_blocks_def ccm_lengths [OF key assms(2,4,3)] ccm_crypt_twice)
  with ae show ?thesis using ccm_lengths [OF key assms(2,4,3)] by auto
qed

theorem aes_ccm_roundtrip_witness:
  "\<exists>crypt auth p. aes_ccm_ae True (replicate 16 1) (replicate 13 2) 8 [1, 2] [3] (replicate 16 0) =
      Some (0, crypt, auth) \<and> length auth = 8 \<and>
    aes_ccm_ad True (replicate 16 1) (replicate 13 2) 8 (take (length [1, 2 :: u8]) crypt) [3] (replicate 8 5) (replicate 16 0) =
      Some (if take 8 (replicate 8 5) = auth then 0 else -1, p) \<and>
    take (length [1, 2 :: u8]) p = [1, 2]"
  by (rule aes_ccm_roundtrip) simp_all

text \<open>
  \<open>aes_ccm_ae\<close> writes whole blocks: with an output buffer shorter than the plaintext rounded up to
  a multiple of 16 bytes, in particular one of exactly the plaintext length when that is not a
  multiple of 16, a write falls outside the buffer.
\<close>

theorem aes_ccm_ae_overrun:
  assumes "length key \<in> {16, 24, 32}" "13 \<le> length nonce" "M \<le> 16" "length aad \<le> 30"
    and "length out < 16 * ((length plain + 15) div 16)"
  shows "aes_ccm_ae True key nonce M plain aad out = None"
proof -
  have key: "aes_key key" using assms(1) by (simp add: aes_key_def)
  obtain ctx where "aes_encrypt_init True key (length key) = Some (Some ctx)" "aes_encrypt ctx = aes_E key"
    using aes_encrypt_init_ok [OF key] .
  moreover have "aes_ccm_encr (aes_E key) (aes_ccm_encr_start 2 (take 13 nonce)) 1 plain out = None"
    using assms key by (intro aes_ccm_encr_overrun) (simp_all add: length_aes_ccm_encr_start ccm_blocks_def)
  ultimately show ?thesis using assms by (simp add: aes_ccm_ae_def Let_def)
qed

theorem aes_ccm_ae_overrun_witness:
  "aes_ccm_ae True (replicate 16 1) (replicate 13 2) 8 [1, 2] [3] [0, 0] = None"
  by (rule aes_ccm_ae_overrun) simp_all

end
