(* ===== verification/Aes_Gcm.thy ===== *)
theory Aes_Gcm
  imports Aes_Ccm
begin

text \<open>
  GCM and GMAC (\<open>crypto/aes-gcm.c\<close>): the block arithmetic is refined to multiplication of 128-bit
  words in the field of SP 800-38D, and authenticated decryption is shown to undo authenticated
  encryption and to accept one tag only.
\<close>

section \<open>The functions of \<open>aes-gcm.c\<close>\<close>

definition inc32 :: "bytes \<Rightarrow> bytes" where
  "inc32 block = take 12 block @ WPA_PUT_BE32 (WPA_GET_BE32 (drop 12 block) + 1)"

text \<open>\<open>xor_block\<close> works on four 32-bit units of either byte order: byte by byte.\<close>

definition xor_block :: "bytes \<Rightarrow> bytes \<Rightarrow> bytes" where
  "xor_block dst src = xor_bytes (take 16 dst) (take 16 src)"

definition shift_right_block :: "bytes \<Rightarrow> bytes" where
  "shift_right_block v =
     (let sh = (\<lambda>p c. drop_bit 1 (WPA_GET_BE32 (drop p v)) OR (if c AND 0x01 \<noteq> 0 then 0x80000000 else 0))
      in WPA_PUT_BE32 (drop_bit 1 (WPA_GET_BE32 v)) @ WPA_PUT_BE32 (sh 4 (v ! 3)) @
         WPA_PUT_BE32 (sh 8 (v ! 7)) @ WPA_PUT_BE32 (sh 12 (v ! 11)))"

definition gf_mult_step :: "bytes \<Rightarrow> nat \<times> nat \<Rightarrow> bytes \<times> bytes \<Rightarrow> bytes \<times> bytes" where
  "gf_mult_step x = (\<lambda>(i, j) (z, v).
     (if x ! i AND push_bit (7 - j) 1 \<noteq> 0 then xor_block z v else z,
      if v ! 15 AND 0x01 \<noteq> 0 then (let v = shift_right_block v in v[0 := v ! 0 XOR 0xe1])
      else shift_right_block v))"

definition gf_mult :: "bytes \<Rightarrow> bytes \<Rightarrow> bytes" where
  "gf_mult x y = fst (fold (gf_mult_step x) [(i, j). i \<leftarrow> [0..<16], j \<leftarrow> [0..<8]] (replicate 16 0, y))"

definition ghash_start :: bytes where
  "ghash_start = replicate 16 0"

function ghash :: "bytes \<Rightarrow> bytes \<Rightarrow> bytes \<Rightarrow> bytes" where
  "ghash h x y =
     (if 16 \<le> length x then ghash h (drop 16 x) (gf_mult (xor_block y x) h)
      else if x \<noteq> [] then gf_mult (xor_block y (x @ replicate (16 - length x) 0)) h
      else y)"
  by pat_completeness auto
termination
  by (relation "measure (\<lambda>(h, x, y). length x)") auto

declare ghash.simps [simp del]

function aes_gctr :: "(bytes \<Rightarrow> bytes) \<Rightarrow> bytes \<Rightarrow> bytes \<Rightarrow> bytes" where
  "aes_gctr enc cb x =
     (if x = [] then []
      else if 16 \<le> length x then xor_block (enc cb) x @ aes_gctr enc (inc32 cb) (drop 16 x)
      else xor_bytes x (take (length x) (enc cb)))"
  by pat_completeness auto
termination
  by (relation "measure (\<lambda>(enc, cb, x). length x)") auto

declare aes_gctr.simps [simp del]

text \<open>The context with the hash subkey; the inner \<open>None\<close> is NULL.\<close>

definition aes_gcm_init_hash_subkey :: "bool \<Rightarrow> bytes \<Rightarrow> (aes_ctx \<times> bytes) option option" where
  "aes_gcm_init_hash_subkey mem key = do {
     c \<leftarrow> aes_encrypt_init mem key (length key);
     case c of None \<Rightarrow> Some None
     | Some aes \<Rightarrow> Some (Some (aes, aes_encrypt aes (replicate 16 0))) }"

definition aes_gcm_prepare_j0 :: "bytes \<Rightarrow> bytes \<Rightarrow> bytes" where
  "aes_gcm_prepare_j0 iv H =
     (if length iv = 12 then (iv @ replicate 4 0)[15 := 0x01]
      else ghash H (WPA_PUT_BE64 0 @ WPA_PUT_BE64 (of_nat (length iv) * 8)) (ghash H iv ghash_start))"

definition aes_gcm_gctr :: "(bytes \<Rightarrow> bytes) \<Rightarrow> bytes \<Rightarrow> bytes \<Rightarrow> bytes" where
  "aes_gcm_gctr enc J0 inp = (if inp = [] then [] else aes_gctr enc (inc32 J0) inp)"

definition aes_gcm_ghash :: "bytes \<Rightarrow> bytes \<Rightarrow> bytes \<Rightarrow> bytes" where
  "aes_gcm_ghash H aad crypt =
     ghash H (WPA_PUT_BE64 (of_nat (length aad) * 8) @ WPA_PUT_BE64 (of_nat (length crypt) * 8))
       (ghash H crypt (ghash H aad ghash_start))"

text \<open>The return value, the ciphertext and the tag.\<close>

definition aes_gcm_ae :: "bool \<Rightarrow> bytes \<Rightarrow> bytes \<Rightarrow> bytes \<Rightarrow> bytes \<Rightarrow> (int \<times> bytes \<times> bytes) option" where
  "aes_gcm_ae mem key iv plain aad = do {
     c \<leftarrow> aes_gcm_init_hash_subkey mem key;
     case c of None \<Rightarrow> Some (-1, [], [])
     | Some (aes, H) \<Rightarrow>
         let J0 = aes_gcm_prepare_j0 iv H;
             crypt = aes_gcm_gctr (aes_encrypt aes) J0 plain;
             S = aes_gcm_ghash H aad crypt
         in Some (0, crypt, aes_gctr (aes_encrypt aes) J0 S) }"

definition aes_gcm_ad :: "bool \<Rightarrow> bytes \<Rightarrow> bytes \<Rightarrow> bytes \<Rightarrow> bytes \<Rightarrow> bytes \<Rightarrow> (int \<times> bytes) option" where
  "aes_gcm_ad mem key iv crypt aad tag = do {
     c \<leftarrow> aes_gcm_init_hash_subkey mem key;
     case c of None \<Rightarrow> Some (-1, [])
     | Some (aes, H) \<Rightarrow> do {
         let J0 = aes_gcm_prepare_j0 iv H;
         let plain = aes_gcm_gctr (aes_encrypt aes) J0 crypt;
         let S = aes_gcm_ghash H aad crypt;
         let T = aes_gctr (aes_encrypt aes) J0 S;
         r \<leftarrow> os_memcmp tag T 16;
         Some (if r \<noteq> 0 then -1 else 0, plain) } }"

definition aes_gmac :: "bool \<Rightarrow> bytes \<Rightarrow> bytes \<Rightarrow> bytes \<Rightarrow> (int \<times> bytes) option" where
  "aes_gmac mem key iv aad = map_option (\<lambda>(r, crypt, tag). (r, tag)) (aes_gcm_ae mem key iv [] aad)"

section \<open>Multiplication in the field of 128-bit blocks\<close>

text \<open>Algorithm 1 of NIST SP 800-38D on 128-bit words, leftmost bit first.\<close>

definition gf128_step :: "128 word \<Rightarrow> nat \<Rightarrow> 128 word \<times> 128 word \<Rightarrow> 128 word \<times> 128 word" where
  "gf128_step X i = (\<lambda>(Z, V).
     (if bit X (127 - i) then Z XOR V else Z,
      if bit V 0 then drop_bit 1 V XOR push_bit 120 0xe1 else drop_bit 1 V))"

definition gf128_mult :: "128 word \<Rightarrow> 128 word \<Rightarrow> 128 word" where
  "gf128_mult X Y = fst (fold (gf128_step X) [0..<128] (0, Y))"

definition word128 :: "bytes \<Rightarrow> 128 word" where
  "word128 bs = word_rcat bs"

lemma bit_word128:
  "length bs = 16 \<Longrightarrow> n < 128 \<Longrightarrow> bit (word128 bs) n \<longleftrightarrow> bit (bs ! (15 - n div 8)) (n mod 8)"
  using less_mult_imp_div_less [of n 16 8] bit_horner_sum_uint_exp_iff [of "rev bs" n]
  by (simp add: word128_def word_rcat_def bit_word_of_int_iff rev_nth)

lemma bit_word128_split:
  "length bs = 16 \<Longrightarrow> q < 16 \<Longrightarrow> r < 8 \<Longrightarrow> bit (word128 bs) (8 * q + r) \<longleftrightarrow> bit (bs ! (15 - q)) r"
  using bit_word128 [of bs "8 * q + r"] by simp

lemma length_xor_block [simp]: "length a = 16 \<Longrightarrow> length b = 16 \<Longrightarrow> length (xor_block a b) = 16"
  by (simp add: xor_block_def)

lemma word128_xor: "length a = 16 \<Longrightarrow> length b = 16 \<Longrightarrow> word128 (xor_block a b) = word128 a XOR word128 b"
  by (rule bit_word_eqI) (simp add: bit_word128 bit_xor_iff xor_block_def)

lemma word128_zero: "word128 (replicate 16 0) = 0"
  by (rule bit_word_eqI) (simp add: bit_word128)

definition carry_in :: "u8 \<Rightarrow> bool \<Rightarrow> u8" where
  "carry_in b c = drop_bit 1 b OR (if c then 0x80 else 0)"

lemma shift_right_word:
  "WPA_PUT_BE32 (drop_bit 1 (WPA_GET_BE32 (a # b # c # d # xs)) OR (if p then 0x80000000 else 0)) =
     [carry_in a p, carry_in b (bit a 0), carry_in c (bit b 0), carry_in d (bit c 0)]"
  by (simp add: WPA_PUT_BE32_def WPA_GET_BE32_def carry_in_def word8_eq_iff bit_simps)
    (simp add: numeral_eq_Suc)

lemma odd_u8: "x AND 1 = 0 \<longleftrightarrow> \<not> bit x 0" for x :: u8
  by (auto simp: word8_eq_iff bit_simps)

lemma shift_right_block_bytes:
  assumes "length v = 16"
  shows "shift_right_block v = map (\<lambda>k. carry_in (v ! k) (0 < k \<and> bit (v ! (k - 1)) 0)) [0..<16]"
proof -
  obtain a0 a1 a2 a3 a4 a5 a6 a7 a8 a9 a10 a11 a12 a13 a14 a15 where
    v: "v = [a0, a1, a2, a3, a4, a5, a6, a7, a8, a9, a10, a11, a12, a13, a14, a15]"
    using assms(1) by (auto simp: numeral_eq_Suc dest!: length_SucE)
  show ?thesis
    using shift_right_word [where p = False] shift_right_word [where p = True]
    by (simp add: v shift_right_block_def Let_def odd_u8 shift_right_word upt_rec)
qed

lemma length_shift_right_block [simp]: "length v = 16 \<Longrightarrow> length (shift_right_block v) = 16"
  by (simp add: shift_right_block_bytes)

lemma bit_int_128: "bit (128 :: int) n \<longleftrightarrow> n = 7"
proof -
  have "bit (push_bit 7 (1 :: int)) n \<longleftrightarrow> n = 7" by (auto simp only: bit_push_bit_iff bit_1_iff) simp_all
  then show ?thesis by simp
qed

lemma bit_carry_in: "n < 8 \<Longrightarrow> bit (carry_in b c) n \<longleftrightarrow> (if n = 7 then c else bit b (Suc n))"
  using bit_imp_le_length [of b 8] by (auto simp: carry_in_def bit_or_iff bit_drop_bit_eq bit_int_128)

lemma word128_shift: 
  assumes "length v = 16"
  shows "word128 (shift_right_block v) = drop_bit 1 (word128 v)"
proof (rule bit_word_eqI)
  fix n assume "n < LENGTH(128)"
  then have n: "n < 128" by simp
  define q r where "q = n div 8" and "r = n mod 8"
  have nqr: "n = 8 * q + r" "r < 8" "q < 16" using n by (auto simp: q_def r_def)
  have "bit (word128 (shift_right_block v)) n \<longleftrightarrow>
      (if r = 7 then q < 15 \<and> bit (v ! (14 - q)) 0 else bit (v ! (15 - q)) (Suc r))"
    using assms n nqr by (simp add: bit_word128 shift_right_block_bytes bit_carry_in diff_diff_eq flip: q_def r_def)
  moreover have "bit (drop_bit 1 (word128 v)) n \<longleftrightarrow>
      (if r = 7 then q < 15 \<and> bit (v ! (14 - q)) 0 else bit (v ! (15 - q)) (Suc r))"
  proof (cases "r = 7")
    case True
    then have "Suc n = 8 * (q + 1)" using nqr by simp
    moreover have "\<not> bit (word128 v) 128" using bit_imp_le_length [of "word128 v" 128] by auto
    ultimately show ?thesis using assms True nqr bit_word128 [of v "8 * (q + 1)"]
      by (cases "q = 15") (simp_all add: bit_drop_bit_eq diff_diff_eq)
  next
    case False
    then have "Suc n = 8 * q + Suc r" "Suc r < 8" using nqr by simp_all
    then have "bit (word128 v) (Suc n) \<longleftrightarrow> bit (v ! (15 - q)) (Suc r)"
      using bit_word128_split [OF assms nqr(3), of "Suc r"] by (simp only:)
    then show ?thesis using False by (simp add: bit_drop_bit_eq)
  qed
  ultimately show "bit (word128 (shift_right_block v)) n \<longleftrightarrow> bit (drop_bit 1 (word128 v)) n" by simp
qed


lemma word128_reduce:
  assumes "length v = 16"
  shows "word128 (v[0 := v ! 0 XOR 0xe1]) = word128 v XOR push_bit 120 0xe1"
proof -
  let ?R = "[0xe1, 0, 0, 0, 0, 0, 0, 0, 0, 0, 0, 0, 0, 0, 0, 0] :: bytes"
  have "?R = 0xe1 # replicate 15 0" by (simp add: numeral_eq_Suc)
  then have "v[0 := v ! 0 XOR 0xe1] = xor_block v ?R"
    using assms by (intro nth_equalityI) (auto simp: xor_block_def nth_list_update nth_Cons')
  moreover have "word128 ?R = push_bit 120 0xe1" by (simp add: word128_def word_rcat_def)
  ultimately show ?thesis using assms word128_xor [of v ?R] by simp
qed

lemma word128_gf_mult_step:
  assumes "length x = 16" "length z = 16" "length v = 16" "i < 16" "j < 8"
    and "gf_mult_step x (i, j) (z, v) = (z', v')"
  shows "length z' = 16 \<and> length v' = 16 \<and>
    gf128_step (word128 x) (8 * i + j) (word128 z, word128 v) = (word128 z', word128 v')"
proof -
  have "127 - (8 * i + j) = 8 * (15 - i) + (7 - j)" using assms(4,5) by linarith
  then have "bit (word128 x) (127 - (8 * i + j)) \<longleftrightarrow> bit (x ! i) (7 - j)"
    using bit_word128_split [OF assms(1), of "15 - i" "7 - j"] assms(4,5) by simp
  moreover have "y AND push_bit k 1 \<noteq> 0 \<longleftrightarrow> bit y k" for y :: u8 and k
    by (simp add: and_exp_eq_0_iff_not_bit push_bit_eq_mult)
  moreover have "bit (word128 v) 0 \<longleftrightarrow> bit (v ! 15) 0" using assms(3) by (simp add: bit_word128)
  ultimately show ?thesis
    using assms by (auto simp: gf_mult_step_def gf128_step_def Let_def odd_u8 word128_shift word128_reduce
        word128_xor)
qed


lemma gf_mult_fold:
  assumes "length x = 16"
  shows "\<forall>(i, j) \<in> set ijs. i < 16 \<and> j < 8 \<Longrightarrow> length z = 16 \<Longrightarrow> length v = 16 \<Longrightarrow>
    fold (gf_mult_step x) ijs (z, v) = (z', v') \<Longrightarrow>
    length z' = 16 \<and> length v' = 16 \<and>
    fold (gf128_step (word128 x)) (map (\<lambda>(i, j). 8 * i + j) ijs) (word128 z, word128 v) = (word128 z', word128 v')"
proof (induction ijs arbitrary: z v)
  case (Cons ij ijs)
  obtain i j where ij: "ij = (i, j)" "i < 16" "j < 8" using Cons.prems(1) by auto
  obtain z1 v1 where s: "gf_mult_step x (i, j) (z, v) = (z1, v1)" by fastforce
  have "length z1 = 16 \<and> length v1 = 16 \<and>
      gf128_step (word128 x) (8 * i + j) (word128 z, word128 v) = (word128 z1, word128 v1)"
    using word128_gf_mult_step [OF assms Cons.prems(2,3) ij(2,3) s] .
  then show ?case using Cons.IH [of z1 v1] Cons.prems ij s by simp
qed simp

lemma gf_mult_order: "map (\<lambda>(i, j). 8 * i + j) [(i, j). i \<leftarrow> [0..<16], j \<leftarrow> [0..<8]] = [0..<128 :: nat]"
  by (simp add: upt_rec)

lemma gf_mult_refines:
  assumes "length x = 16" "length y = 16"
  shows "length (gf_mult x y) = 16 \<and> word128 (gf_mult x y) = gf128_mult (word128 x) (word128 y)"
proof -
  define ijs where "ijs = [(i, j). i \<leftarrow> [0..<16 :: nat], j \<leftarrow> [0..<8 :: nat]]"
  have range: "\<forall>(i, j) \<in> set ijs. i < 16 \<and> j < 8" by (auto simp: ijs_def)
  have order: "map (\<lambda>(i, j). 8 * i + j) ijs = [0..<128]" using gf_mult_order by (simp only: ijs_def)
  obtain z v where "fold (gf_mult_step x) ijs (replicate 16 0, y) = (z, v)" by fastforce
  with gf_mult_fold [OF assms(1) range _ assms(2) this] show ?thesis
    by (simp add: gf_mult_def gf128_mult_def order word128_zero flip: ijs_def)
qed

text \<open>
  C31. The multiplication used by GHASH is multiplication in the field of 128-bit blocks: the shift and
  add loop over bytes computes Algorithm 1 of SP 800-38D on the blocks read as 128-bit words.
\<close>

theorem gf_mult_correct:
  assumes "length x = 16" "length y = 16"
  shows "word128 (gf_mult x y) = gf128_mult (word128 x) (word128 y)"
  using gf_mult_refines [OF assms] by simp

theorem gf_mult_correct_witness:
  "word128 (gf_mult (replicate 16 3) (replicate 16 5)) = gf128_mult (word128 (replicate 16 3)) (word128 (replicate 16 5))"
  by (rule gf_mult_correct) simp_all

section \<open>Authenticated encryption\<close>

lemma length_WPA_PUT_BE32 [simp]: "length (WPA_PUT_BE32 v) = 4"
  by (simp add: WPA_PUT_BE32_def)

lemma length_WPA_PUT_BE64 [simp]: "length (WPA_PUT_BE64 v) = 8"
  by (simp add: WPA_PUT_BE64_def)

lemma length_inc32 [simp]: "length b = 16 \<Longrightarrow> length (inc32 b) = 16"
  by (simp add: inc32_def)

lemma length_gf_mult [simp]: "length x = 16 \<Longrightarrow> length y = 16 \<Longrightarrow> length (gf_mult x y) = 16"
  using gf_mult_refines by blast

lemma length_ghash [simp]: "length h = 16 \<Longrightarrow> length y = 16 \<Longrightarrow> length (ghash h x y) = 16"
proof (induction "length x" arbitrary: x y rule: less_induct)
  case less
  then show ?case
    using less.hyps [of "drop 16 x" "gf_mult (xor_block y x) h"]
    by (simp add: ghash.simps [of h x y] xor_block_def)
qed

lemma aes_gctr_stream:
  assumes "\<And>b. length b = 16 \<Longrightarrow> length (enc b) = 16"
  shows "length cb = 16 \<Longrightarrow> length (aes_gctr enc cb x) = length x \<and> aes_gctr enc cb (aes_gctr enc cb x) = x"
proof (induction "length x" arbitrary: x cb rule: less_induct)
  case less
  consider "x = []" | "16 \<le> length x" | "x \<noteq> []" "length x < 16" by linarith
  then show ?case
  proof cases
    case 2
    let ?y = "aes_gctr enc (inc32 cb) (drop 16 x)" and ?b = "xor_block (enc cb) x"
    have ne: "x \<noteq> []" using 2 by auto
    have ih: "length ?y = length x - 16" "aes_gctr enc (inc32 cb) ?y = drop 16 x"
      using less.hyps [of "drop 16 x" "inc32 cb"] less.prems 2 by auto
    have b: "length ?b = 16" "xor_block (enc cb) (?b @ ?y) = take 16 x"
      using 2 less.prems assms by (simp_all add: xor_block_def)
    have unf: "aes_gctr enc cb x = ?b @ ?y" using 2 ne by (simp add: aes_gctr.simps [of enc cb x])
    have "aes_gctr enc cb (?b @ ?y) = xor_block (enc cb) (?b @ ?y) @ aes_gctr enc (inc32 cb) ?y"
      using b(1) by (subst aes_gctr.simps) auto
    with ih b unf 2 show ?thesis by simp
  next
    case 3
    let ?s = "take (length x) (enc cb)"
    have "length ?s = length x" using 3 less.prems assms by simp
    then have "length (xor_bytes x ?s) = length x" "xor_bytes (xor_bytes x ?s) ?s = x" by simp_all
    moreover from this(1) have "xor_bytes x ?s \<noteq> []" using 3(1) by (metis length_0_conv)
    ultimately show ?thesis
      using 3 by (simp add: aes_gctr.simps [of enc cb x] aes_gctr.simps [of enc cb "xor_bytes x ?s"])
  qed (simp add: aes_gctr.simps)
qed


lemma aes_encrypt_init_gcm:
  assumes "aes_key key"
  obtains ctx where "aes_gcm_init_hash_subkey True key = Some (Some (ctx, aes_E key (replicate 16 0)))"
    "aes_encrypt ctx = aes_E key"
proof -
  obtain ctx where "aes_encrypt_init True key (length key) = Some (Some ctx)" "aes_encrypt ctx = aes_E key"
    using aes_encrypt_init_ok [OF assms] .
  then show thesis by (intro that) (simp_all add: aes_gcm_init_hash_subkey_def)
qed

lemma length_aes_gcm_prepare_j0: "length H = 16 \<Longrightarrow> length (aes_gcm_prepare_j0 iv H) = 16"
  by (simp add: aes_gcm_prepare_j0_def ghash_start_def)

lemma length_aes_gcm_ghash: "length H = 16 \<Longrightarrow> length (aes_gcm_ghash H aad crypt) = 16"
  by (simp add: aes_gcm_ghash_def ghash_start_def)

lemma aes_gcm_gctr_stream:
  assumes "\<And>b. length b = 16 \<Longrightarrow> length (enc b) = 16" "length J0 = 16"
  shows "length (aes_gcm_gctr enc J0 x) = length x \<and> aes_gcm_gctr enc J0 (aes_gcm_gctr enc J0 x) = x"
  using aes_gctr_stream [of enc "inc32 J0" x] assms
  by (cases "x = []") (auto simp: aes_gcm_gctr_def)

text \<open>
  C32. GCM round trip and authentication: for every key size, IV, associated data and plaintext,
  \<open>aes_gcm_ae\<close> succeeds with a ciphertext of the same length and a 16-byte tag, and \<open>aes_gcm_ad\<close> of the
  ciphertext computes the plaintext and returns 0 exactly for that tag and -1 for every other one.
\<close>

theorem aes_gcm_roundtrip:
  assumes "length key \<in> {16, 24, 32}" "length t = 16"
  shows "\<exists>crypt tag. aes_gcm_ae True key iv plain aad = Some (0, crypt, tag) \<and>
    length crypt = length plain \<and> length tag = 16 \<and>
    aes_gcm_ad True key iv crypt aad t = Some (if t = tag then 0 else -1, plain)"
proof -
  have key: "aes_key key" using assms(1) by (simp add: aes_key_def)
  obtain ctx where ctx: "aes_gcm_init_hash_subkey True key = Some (Some (ctx, aes_E key (replicate 16 0)))"
      "aes_encrypt ctx = aes_E key"
    using aes_encrypt_init_gcm [OF key] .
  define H where "H = aes_E key (replicate 16 0)"
  define J0 where "J0 = aes_gcm_prepare_j0 iv H"
  define crypt where "crypt = aes_gcm_gctr (aes_E key) J0 plain"
  define tag where "tag = aes_gctr (aes_E key) J0 (aes_gcm_ghash H aad crypt)"
  have H: "length H = 16" using key by (simp add: H_def)
  have J0: "length J0 = 16" using length_aes_gcm_prepare_j0 [OF H] by (simp add: J0_def)
  have c: "length crypt = length plain" "aes_gcm_gctr (aes_E key) J0 crypt = plain"
    using aes_gcm_gctr_stream [of "aes_E key" J0 plain] key J0 by (simp_all add: crypt_def)
  have t: "length tag = 16"
    using aes_gctr_stream [of "aes_E key" J0 "aes_gcm_ghash H aad crypt"] key J0 length_aes_gcm_ghash [OF H]
    by (simp add: tag_def)
  obtain r where "os_memcmp t tag 16 = Some r" "r = 0 \<longleftrightarrow> t = tag"
    using os_memcmp_correct [of 16 t tag] t assms(2) by auto
  then show ?thesis
    using ctx c t by (simp add: aes_gcm_ae_def aes_gcm_ad_def Let_def flip: H_def J0_def crypt_def tag_def)
qed

theorem aes_gcm_roundtrip_witness:
  "\<exists>crypt tag. aes_gcm_ae True (replicate 16 1) (replicate 12 2) [1, 2] [3] = Some (0, crypt, tag) \<and>
    length crypt = length [1, 2 :: u8] \<and> length tag = 16 \<and>
    aes_gcm_ad True (replicate 16 1) (replicate 12 2) crypt [3] (replicate 16 4) =
      Some (if replicate 16 4 = tag then 0 else -1, [1, 2])"
  by (rule aes_gcm_roundtrip) simp_all

end
