(* ===== verification/Hash_Spec.thy ===== *)
theory Hash_Spec
  imports Prelude
begin

text \<open>
  What the three hash implementations share: the chaining of 64-byte blocks, the padding of the
  message, and the contract of an incremental hash. The locale \<open>incremental_hash\<close> says that a
  context represents the bytes fed so far; its lemma, that hashing a vector of buffers is hashing
  their concatenation, is proved once and used for MD5, SHA-1 and SHA-256.
\<close>

section \<open>Chaining of blocks\<close>

function absorb :: "('s \<Rightarrow> bytes \<Rightarrow> 's) \<Rightarrow> 's \<Rightarrow> bytes \<Rightarrow> 's \<times> bytes" where
  "absorb cf s m = (if 64 \<le> length m then absorb cf (cf s (take 64 m)) (drop 64 m) else (s, m))"
  by pat_completeness auto
termination
  by (relation "measure (\<lambda>(cf, s, m). length m)") auto

declare absorb.simps [simp del]

lemma absorb_short [simp]: "length m < 64 \<Longrightarrow> absorb cf s m = (s, m)"
  by (simp add: absorb.simps)

lemma absorb_block: "length b = 64 \<Longrightarrow> absorb cf s (b @ m) = absorb cf (cf s b) m"
  by (simp add: absorb.simps [of cf s "b @ m"])

lemma absorb_append:
  "absorb cf s (m @ d) = absorb cf (fst (absorb cf s m)) (snd (absorb cf s m) @ d)"
proof (induction "length m" arbitrary: m s rule: less_induct)
  case less
  show ?case
  proof (cases "64 \<le> length m")
    case True
    then show ?thesis
      using less [of "drop 64 m" "cf s (take 64 m)"]
      by (simp add: absorb.simps [of cf s m] absorb.simps [of cf s "m @ d"])
  qed simp
qed

lemma length_absorb_rest: "length (snd (absorb cf s m)) = length m mod 64"
proof (induction "length m" arbitrary: m s rule: less_induct)
  case less
  show ?case
  proof (cases "64 \<le> length m")
    case True
    then show ?thesis
      using less [of "drop 64 m" "cf s (take 64 m)"]
      by (simp add: absorb.simps [of cf s m] le_mod_geq)
  qed simp
qed

section \<open>Padding\<close>

text \<open>A one bit, zeros up to 56 modulo 64 bytes, and the length in bits as encoded by \<open>enc\<close>.\<close>

definition md_pad :: "(nat \<Rightarrow> bytes) \<Rightarrow> bytes \<Rightarrow> bytes" where
  "md_pad enc m = m @ [0x80] @ replicate ((119 - length m mod 64) mod 64) 0 @ enc (8 * length m)"

definition md_hash :: "('s \<Rightarrow> bytes \<Rightarrow> 's) \<Rightarrow> 's \<Rightarrow> (nat \<Rightarrow> bytes) \<Rightarrow> ('s \<Rightarrow> bytes) \<Rightarrow> bytes \<Rightarrow> bytes" where
  "md_hash cf iv enc out m = out (fst (absorb cf iv (md_pad enc m)))"

text \<open>The padded message seen from the state after the complete blocks of the message.\<close>

lemma absorb_md_pad:
  "absorb cf iv (md_pad enc m) =
     absorb cf (fst (absorb cf iv m))
       (snd (absorb cf iv m) @ [0x80] @ replicate ((119 - length m mod 64) mod 64) 0 @ enc (8 * length m))"
  by (simp add: md_pad_def absorb_append [of cf iv m])

definition pad_zeros :: "nat \<Rightarrow> nat" where
  "pad_zeros n = (120 - n mod 64) mod 64"

lemma pad_zeros_cases: "pad_zeros n = (if n mod 64 \<le> 56 then 56 - n mod 64 else 120 - n mod 64)"
proof -
  have "n mod 64 < 64" by simp
  moreover have "(120 - r) mod 64 = 56 - r" if "r \<le> 56" for r :: nat
  proof -
    have "120 - r = 64 + (56 - r)" using that by simp
    then show ?thesis by (simp only: mod_add_self1) simp
  qed
  ultimately show ?thesis unfolding pad_zeros_def by auto
qed

lemma pad_zeros_Suc: "n mod 64 \<noteq> 56 \<Longrightarrow> pad_zeros n = Suc (pad_zeros (Suc n))"
proof -
  have "n mod 64 < 64" by simp
  then show "n mod 64 \<noteq> 56 \<Longrightarrow> pad_zeros n = Suc (pad_zeros (Suc n))"
    by (auto simp: pad_zeros_cases mod_Suc)
qed

text \<open>The last one or two blocks.\<close>

lemma absorb_last_block:
  assumes "length r \<le> 55" "length e = 8"
  shows "fst (absorb cf s (r @ [0x80] @ replicate ((119 - length r) mod 64) 0 @ e)) =
    cf s (r @ [0x80] @ replicate (55 - length r) 0 @ e)"
proof -
  have "119 - length r = 64 + (55 - length r)" using assms by simp
  then have "(119 - length r) mod 64 = 55 - length r" by (simp only: mod_add_self1) simp
  then show ?thesis
    using assms absorb_block [of "r @ [0x80] @ replicate (55 - length r) 0 @ e" cf s "[]"] by simp
qed

lemma absorb_last_two_blocks:
  assumes "56 \<le> length r" "length r < 64" "length e = 8"
  shows "fst (absorb cf s (r @ [0x80] @ replicate ((119 - length r) mod 64) 0 @ e)) =
    cf (cf s (r @ [0x80] @ replicate (63 - length r) 0)) (replicate 56 0 @ e)"
proof -
  have "(119 - length r) mod 64 = (63 - length r) + 56" using assms by simp
  then have "r @ [0x80] @ replicate ((119 - length r) mod 64) 0 @ e =
      (r @ [0x80] @ replicate (63 - length r) 0) @ (replicate 56 0 @ e)"
    by (simp only: replicate_add append_assoc)
  then show ?thesis
    using assms absorb_block [of "r @ [0x80] @ replicate (63 - length r) 0" cf s "replicate 56 0 @ e"]
      absorb_block [of "replicate 56 0 @ e" cf _ "[]"] by simp
qed

section \<open>Length counters\<close>

lemma unat_shift3: "unat (push_bit 3 (len :: u32)) = 8 * unat len mod 2 ^ 32"
  by (simp add: push_bit_eq_mult unat_word_ariths mult.commute)

lemma unat_shift29: "unat (drop_bit 29 (len :: u32)) = 8 * unat len div 2 ^ 32"
  by (simp add: drop_bit_eq_div unat_div)

lemma bit_count:
  assumes c: "unat c0 + 2 ^ 32 * unat c1 = 8 * n" and b: "8 * (n + unat len) < 2 ^ 64"
  defines "n0 \<equiv> c0 + push_bit 3 len"
  shows "unat n0 + 2 ^ 32 * unat ((if n0 < push_bit 3 len then c1 + 1 else c1) + drop_bit 29 (len :: u32)) =
    8 * (n + unat len)"
proof -
  define a q where "a = unat (push_bit 3 len)" and "q = unat (drop_bit 29 len)"
  have aq: "8 * unat len = 2 ^ 32 * q + a" "a < 2 ^ 32"
    unfolding a_def q_def unat_shift3 unat_shift29
    by (rule mult_div_mod_eq [symmetric], rule mod_less_divisor) simp
  have x: "unat c0 < 2 ^ 32" using unsigned_less [of c0, where 'a = nat] by simp
  have n0: "unat n0 = (unat c0 + a) mod 2 ^ 32" by (simp add: n0_def a_def unat_word_ariths)
  have less: "n0 < push_bit 3 len \<longleftrightarrow> unat n0 < a" by (simp add: a_def word_less_nat_alt)
  show ?thesis
  proof (cases "unat c0 + a < 2 ^ 32")
    case True
    then have "unat n0 = unat c0 + a" using n0 by simp
    moreover have "unat (c1 + drop_bit 29 len) = unat c1 + q"
      using b c aq by (subst unat_add_lem [THEN iffD1]) (simp_all add: q_def)
    ultimately show ?thesis using c aq less by simp
  next
    case False
    then have low: "unat n0 = unat c0 + a - 2 ^ 32" using n0 x aq(2) by (simp add: mod_if)
    have "unat (c1 + 1) = unat c1 + 1"
      using b c aq False by (subst unat_add_lem [THEN iffD1]) simp_all
    then have "unat (c1 + 1 + drop_bit 29 len) = unat c1 + 1 + q"
      using b c aq False by (subst unat_add_lem [THEN iffD1]) (simp_all add: q_def)
    moreover have "n0 < push_bit 3 len" using low less x False by simp
    ultimately show ?thesis using low c aq False by simp
  qed
qed

lemma unat_and_63: "unat (w AND 63 :: u32) = unat w mod 64"
proof -
  have "w AND 63 = take_bit 6 w" by (simp add: take_bit_eq_mask mask_eq_exp_minus_1)
  then show ?thesis by (simp add: take_bit_eq_mod unat_mod)
qed

lemma byte_position:
  assumes "unat c0 + 2 ^ 32 * unat (c1 :: u32) = 8 * n"
  shows "unat (drop_bit 3 (c0 :: u32) AND 63) = n mod 64"
proof -
  have "n = unat c0 div 8 + 64 * (2 ^ 23 * unat c1)" using assms by simp
  then have "n mod 64 = unat c0 div 8 mod 64" by (metis mod_mult_self2)
  then show ?thesis by (simp add: unat_and_63 drop_bit_eq_div unat_div)
qed

text \<open>The carry test of MD5 compares with the other summand.\<close>

lemma add_carry_sym: "x + y < x \<longleftrightarrow> x + y < (y :: u32)"
proof -
  have "unat x < 2 ^ 32" "unat y < 2 ^ 32"
    using unsigned_less [of x, where 'a = nat] unsigned_less [of y, where 'a = nat] by simp_all
  moreover have "unat (x + y) = (unat x + unat y) mod 2 ^ 32" by (simp add: unat_word_ariths)
  ultimately show ?thesis
    by (cases "unat x + unat y < 2 ^ 32") (auto simp: word_less_nat_alt le_mod_geq)
qed

section \<open>Incremental hashing\<close>

fun update_all :: "('c \<Rightarrow> bytes \<Rightarrow> 'c option) \<Rightarrow> 'c \<Rightarrow> bytes list \<Rightarrow> 'c option" where
  "update_all upd c [] = Some c"
| "update_all upd c (d # ds) = upd c d \<bind> (\<lambda>c. update_all upd c ds)"

locale incremental_hash =
  fixes init :: 'c
    and update :: "'c \<Rightarrow> bytes \<Rightarrow> 'c option"
    and final :: "'c \<Rightarrow> bytes option"
    and rep :: "'c \<Rightarrow> bytes \<Rightarrow> bool"
    and hash :: "bytes \<Rightarrow> bytes"
    and limit :: nat
  assumes rep_init: "rep init []"
    and rep_update: "rep c m \<Longrightarrow> length (m @ d) < limit \<Longrightarrow> \<exists>c'. update c d = Some c' \<and> rep c' (m @ d)"
    and final_rep: "rep c m \<Longrightarrow> length m < limit \<Longrightarrow> final c = Some (hash m)"
begin

lemma rep_update_all:
  "rep c m \<Longrightarrow> length (m @ concat ds) < limit \<Longrightarrow>
   \<exists>c'. update_all update c ds = Some c' \<and> rep c' (m @ concat ds)"
proof (induction ds arbitrary: c m)
  case (Cons d ds)
  then obtain c' where "update c d = Some c'" "rep c' (m @ d)" using rep_update [of c m d] by auto
  with Cons.IH [of c' "m @ d"] Cons.prems show ?case by simp
qed simp

lemma vector_hash:
  "length (concat ds) < limit \<Longrightarrow> (update_all update init ds \<bind> final) = Some (hash (concat ds))"
  using rep_update_all [OF rep_init, of ds] final_rep by fastforce

end

end
