(* ===== verification/Sha1.thy ===== *)
theory Sha1
  imports Hash_Spec
begin

text \<open>
  The SHA-1 implementation of \<open>crypto/sha1-internal.c\<close> (little-endian configuration), with contexts
  fed by \<open>SHA1Update\<close>, and the proof that \<open>sha1_vector\<close> is SHA-1 of FIPS 180 on the concatenated
  buffers. The buffer of a new context is not read before it is written; it holds zeros here.
\<close>

section \<open>The compression function\<close>

definition rol :: "u32 \<Rightarrow> nat \<Rightarrow> u32" where
  "rol v n = push_bit n v OR drop_bit (32 - n) v"

text \<open>\<open>l\<close> is the union of 16 words, loaded in the byte order of a little-endian machine. Both macros
  store the word they compute.\<close>

definition blk0 :: "u32 list \<Rightarrow> nat \<Rightarrow> u32" where
  "blk0 l i = (rol (l ! i) 24 AND 0xFF00FF00) OR (rol (l ! i) 8 AND 0x00FF00FF)"

definition blk :: "u32 list \<Rightarrow> nat \<Rightarrow> u32" where
  "blk l i = rol (l ! ((i + 13) mod 16) XOR l ! ((i + 8) mod 16) XOR l ! ((i + 2) mod 16) XOR l ! (i mod 16)) 1"

text \<open>One of the 80 operations. The arguments of the macros rotate by one variable from call to call,
  so the roles \<open>(v, w, x, y, z)\<close> of the next call are \<open>(z, v, w, x, y)\<close> of this one.\<close>

type_synonym sha1_vars = "u32 \<times> u32 \<times> u32 \<times> u32 \<times> u32"

definition sha1_R :: "nat \<Rightarrow> sha1_vars \<times> u32 list \<Rightarrow> sha1_vars \<times> u32 list" where
  "sha1_R i = (\<lambda>((v, w, x, y, z), l).
     let b = (if i < 16 then blk0 l i else blk l i);
         l = l[i mod 16 := b];
         z = z + ((if i < 20 then ((w AND (x XOR y)) XOR y) + b + 0x5A827999
                   else if i < 40 then (w XOR x XOR y) + b + 0x6ED9EBA1
                   else if i < 60 then (((w OR x) AND y) OR (w AND x)) + b + 0x8F1BBCDC
                   else (w XOR x XOR y) + b + 0xCA62C1D6) + rol v 5);
         w = rol w 30
     in ((z, v, w, x, y), l))"

type_synonym sha1_state = sha1_vars

fun sha1_add :: "sha1_state \<Rightarrow> sha1_vars \<Rightarrow> sha1_state" where
  "sha1_add (s0, s1, s2, s3, s4) (a, b, c, d, e) = (s0 + a, s1 + b, s2 + c, s3 + d, s4 + e)"

definition SHA1Transform :: "sha1_state \<Rightarrow> bytes \<Rightarrow> sha1_state" where
  "SHA1Transform state buffer =
     (let l = map (\<lambda>i. WPA_GET_LE32 (drop (4 * i) buffer)) [0..<16]
      in sha1_add state (fst (fold sha1_R [0..<80] (state, l))))"

section \<open>Contexts\<close>

record sha1_ctx =
  s1_state :: sha1_state
  s1_count0 :: u32
  s1_count1 :: u32
  s1_buffer :: bytes

definition SHA1Init :: "bytes \<Rightarrow> sha1_ctx" where
  "SHA1Init garbage = \<lparr>s1_state = (0x67452301, 0xEFCDAB89, 0x98BADCFE, 0x10325476, 0xC3D2E1F0),
     s1_count0 = 0, s1_count1 = 0, s1_buffer = garbage\<rparr>"

text \<open>The loop over whole blocks of \<open>data\<close>, an object of \<open>len\<close> bytes.\<close>

function sha1_full_blocks :: "sha1_state \<Rightarrow> bytes \<Rightarrow> u32 \<Rightarrow> u32 \<Rightarrow> (sha1_state \<times> u32) option" where
  "sha1_full_blocks st data len i =
     (if i + 63 < len then
        (if unat len < unat i + 64 then None
         else sha1_full_blocks (SHA1Transform st (take 64 (drop (unat i) data))) data len (i + 64))
      else Some (st, i))"
  by pat_completeness auto
termination
proof (relation "measure (\<lambda>(st, data, len, i). unat len - unat i)", goal_cases)
  case (2 st data len i)
  have "unat i + 64 < 2 ^ 32" using 2 unsigned_less [of len, where 'a = nat] by simp
  then have "unat (i + 64) = unat i + 64" by (simp add: unat_add_lem [THEN iffD1])
  with 2 show ?case by simp
qed simp

declare sha1_full_blocks.simps [simp del]

definition SHA1Update :: "sha1_ctx \<Rightarrow> bytes \<Rightarrow> u32 \<Rightarrow> sha1_ctx option" where
  "SHA1Update context dat len = do {
     data \<leftarrow> c_slice dat 0 (unat len);
     let j = drop_bit 3 (s1_count0 context) AND 63;
     let count0 = s1_count0 context + push_bit 3 len;
     let count1 = (if count0 < push_bit 3 len then s1_count1 context + 1 else s1_count1 context);
     let count1 = count1 + drop_bit 29 len;
     (st, i, j, buf) \<leftarrow>
       (if 63 < j + len then do {
          let i = 64 - j;
          chunk \<leftarrow> c_slice data 0 (unat i);
          let buf = take (unat j) (s1_buffer context) @ chunk;
          let st = SHA1Transform (s1_state context) buf;
          (st, i) \<leftarrow> sha1_full_blocks st data len i;
          Some (st, i, 0, buf) }
        else Some (s1_state context, 0, j, s1_buffer context));
     rest \<leftarrow> c_slice data (unat i) (unat (len - i));
     if 64 < unat j + length rest then None
     else Some \<lparr>s1_state = st, s1_count0 = count0, s1_count1 = count1,
       s1_buffer = take (unat j) buf @ rest @ drop (unat j + length rest) buf\<rparr> }"

text \<open>The padding loop of \<open>SHA1Final\<close>; 64 iterations are enough for every context.\<close>

fun sha1_pad_loop :: "nat \<Rightarrow> sha1_ctx \<Rightarrow> sha1_ctx option" where
  "sha1_pad_loop 0 context = None"
| "sha1_pad_loop (Suc n) context =
     (if s1_count0 context AND 504 \<noteq> 448 then SHA1Update context [0] 1 \<bind> sha1_pad_loop n
      else Some context)"

definition SHA1Final :: "sha1_ctx \<Rightarrow> bytes option" where
  "SHA1Final context = do {
     let finalcount = WPA_PUT_BE32 (s1_count1 context) @ WPA_PUT_BE32 (s1_count0 context);
     context \<leftarrow> SHA1Update context [0x80] 1;
     context \<leftarrow> sha1_pad_loop 65 context;
     context \<leftarrow> SHA1Update context finalcount 8;
     let (s0, s1, s2, s3, s4) = s1_state context;
     Some (WPA_PUT_BE32 s0 @ WPA_PUT_BE32 s1 @ WPA_PUT_BE32 s2 @ WPA_PUT_BE32 s3 @ WPA_PUT_BE32 s4) }"

definition sha1_vector :: "bytes list \<Rightarrow> bytes option" where
  "sha1_vector addr = update_all (\<lambda>c d. SHA1Update c d (of_nat (length d))) (SHA1Init (replicate 64 0)) addr \<bind> SHA1Final"


section \<open>FIPS 180 SHA-1\<close>

fun fips_W :: "bytes \<Rightarrow> nat \<Rightarrow> u32" where
  "fips_W b t = (if t < 16 then WPA_GET_BE32 (drop (4 * t) b)
     else rol (fips_W b (t - 3) XOR fips_W b (t - 8) XOR fips_W b (t - 14) XOR fips_W b (t - 16)) 1)"

declare fips_W.simps [simp del]

definition fips_f :: "nat \<Rightarrow> u32 \<Rightarrow> u32 \<Rightarrow> u32 \<Rightarrow> u32" where
  "fips_f t b c d =
     (if t < 20 then (b AND c) XOR (NOT b AND d)
      else if t < 40 then b XOR c XOR d
      else if t < 60 then (b AND c) XOR (b AND d) XOR (c AND d)
      else b XOR c XOR d)"

definition fips_K :: "nat \<Rightarrow> u32" where
  "fips_K t = (if t < 20 then 0x5A827999 else if t < 40 then 0x6ED9EBA1
     else if t < 60 then 0x8F1BBCDC else 0xCA62C1D6)"

definition fips_step :: "bytes \<Rightarrow> nat \<Rightarrow> sha1_vars \<Rightarrow> sha1_vars" where
  "fips_step m t = (\<lambda>(a, b, c, d, e).
     (rol a 5 + fips_f t b c d + e + fips_K t + fips_W m t, a, rol b 30, c, d))"

definition fips_compress :: "sha1_state \<Rightarrow> bytes \<Rightarrow> sha1_state" where
  "fips_compress st m = sha1_add st (fold (fips_step m) [0..<80] st)"

definition sha1_iv :: sha1_state where
  "sha1_iv = (0x67452301, 0xEFCDAB89, 0x98BADCFE, 0x10325476, 0xC3D2E1F0)"

fun sha1_out :: "sha1_state \<Rightarrow> bytes" where
  "sha1_out (s0, s1, s2, s3, s4) =
     WPA_PUT_BE32 s0 @ WPA_PUT_BE32 s1 @ WPA_PUT_BE32 s2 @ WPA_PUT_BE32 s3 @ WPA_PUT_BE32 s4"

lemma sha1_out_length [simp]: "length (sha1_out s) = 20"
  by (cases s) (simp add: WPA_PUT_BE32_def)

definition sha1 :: "bytes \<Rightarrow> bytes" where
  "sha1 m = md_hash fips_compress sha1_iv (\<lambda>n. WPA_PUT_BE64 (of_nat n)) sha1_out m"

lemma length_sha1 [simp]: "length (sha1 m) = 20"
  by (simp add: sha1_def md_hash_def sha1_out_length)

section \<open>The compression functions agree\<close>

lemma blk0_be: 
  assumes "i < length l" "l ! i = WPA_GET_LE32 d"
  shows "blk0 l i = WPA_GET_BE32 d"
proof -
  have "rol (WPA_GET_LE32 d) 24 AND 0xFF00FF00 OR (rol (WPA_GET_LE32 d) 8 AND 0x00FF00FF) = WPA_GET_BE32 d"
    by (simp add: rol_def WPA_GET_LE32_def WPA_GET_BE32_def word32_eq_iff bit_simps)
  with assms show ?thesis by (simp add: blk0_def)
qed

lemma choose_alt: "(w AND (x XOR y)) XOR y = (w AND x) XOR (NOT w AND y)" for w x y :: u32
  by (rule bit_word_eqI) (auto simp: bit_simps)

lemma majority_alt: "((w OR x) AND y) OR (w AND x) = (w AND x) XOR (w AND y) XOR (x AND y)" for w x y :: u32
  by (rule bit_word_eqI) (auto simp: bit_simps)

definition schedule_ok :: "bytes \<Rightarrow> nat \<Rightarrow> u32 list \<Rightarrow> bool" where
  "schedule_ok m t l \<longleftrightarrow> length l = 16 \<and>
     (\<forall>k. k < t \<and> t \<le> k + 16 \<longrightarrow> l ! (k mod 16) = fips_W m k) \<and>
     (\<forall>k. t \<le> k \<and> k < 16 \<longrightarrow> l ! k = WPA_GET_LE32 (drop (4 * k) m))"

lemma schedule_word:
  assumes "schedule_ok m t l"
  shows "(if t < 16 then blk0 l t else blk l t) = fips_W m t"
proof (cases "t < 16")
  case True
  then show ?thesis
    using assms blk0_be [of t l "drop (4 * t) m"] by (simp add: schedule_ok_def fips_W.simps [of m t])
next
  case False
  have w: "l ! (k mod 16) = fips_W m k" if "k < t" "t \<le> k + 16" for k
    using assms that by (simp add: schedule_ok_def)
  obtain u where t: "t = u + 16" using False by (metis add.commute le_iff_add not_less)
  have "(u + 16 + 13) mod 16 = (u + 13) mod 16" "(u + 16 + 8) mod 16 = (u + 8) mod 16"
    "(u + 16 + 2) mod 16 = (u + 2) mod 16" "(u + 16) mod 16 = u mod 16"
    using mod_add_self2 [of "u + 13" 16] mod_add_self2 [of "u + 8" 16] mod_add_self2 [of "u + 2" 16]
    by (simp_all add: ac_simps)
  moreover have "u + 16 - 3 = u + 13" "u + 16 - 8 = u + 8" "u + 16 - 14 = u + 2" "u + 16 - 16 = u"
    by simp_all
  ultimately show ?thesis
    using w [of "u + 13"] w [of "u + 8"] w [of "u + 2"] w [of u] False
    unfolding t blk_def fips_W.simps [of m "u + 16"] by (simp only: if_False)
qed

lemma schedule_step:
  assumes "schedule_ok m t l"
  shows "schedule_ok m (Suc t) (l[t mod 16 := fips_W m t])"
proof -
  have ne: "k mod 16 \<noteq> t mod 16" if "k < t" "t < k + 16" for k
    using that mod_eq_dvd_iff_nat [of k t 16] dvd_imp_le [of 16 "t - k"] by auto
  have "l[t mod 16 := fips_W m t] ! (k mod 16) = fips_W m k" if "k < Suc t" "Suc t \<le> k + 16" for k
    using assms ne [of k] that by (cases "k = t") (auto simp: schedule_ok_def)
  moreover have "l[t mod 16 := fips_W m t] ! k = WPA_GET_LE32 (drop (4 * k) m)" if "Suc t \<le> k" "k < 16" for k
    using assms that by (simp add: schedule_ok_def)
  ultimately show ?thesis using assms by (simp add: schedule_ok_def)
qed

lemma sha1_rounds:
  assumes "schedule_ok m 0 l0"
  shows "\<exists>l. fold sha1_R [0..<t] (st, l0) = (fold (fips_step m) [0..<t] st, l) \<and> schedule_ok m t l"
proof (induction t)
  case (Suc t)
  then obtain l where l: "fold sha1_R [0..<t] (st, l0) = (fold (fips_step m) [0..<t] st, l)" "schedule_ok m t l"
    by blast
  obtain a b c d e where v: "fold (fips_step m) [0..<t] st = (a, b, c, d, e)" by (metis prod_cases5)
  have "sha1_R t ((a, b, c, d, e), l) = (fips_step m t (a, b, c, d, e), l[t mod 16 := fips_W m t])"
    unfolding sha1_R_def prod.case schedule_word [OF l(2)]
    by (simp add: fips_step_def Let_def fips_f_def fips_K_def choose_alt majority_alt)
  with l v schedule_step [OF l(2)] show ?case by simp
qed (use assms in simp)

lemma SHA1Transform_fips: "SHA1Transform st m = fips_compress st m"
proof -
  let ?l = "map (\<lambda>i. WPA_GET_LE32 (drop (4 * i) m)) [0..<16]"
  have "schedule_ok m 0 ?l" by (auto simp: schedule_ok_def)
  from sha1_rounds [OF this, of 80 st] show ?thesis
    by (auto simp: SHA1Transform_def fips_compress_def)
qed


section \<open>Contexts represent the bytes fed\<close>

definition sha1_rep :: "sha1_ctx \<Rightarrow> bytes \<Rightarrow> bool" where
  "sha1_rep c m \<longleftrightarrow> length (s1_buffer c) = 64 \<and>
     unat (s1_count0 c) + 2 ^ 32 * unat (s1_count1 c) = 8 * length m \<and>
     absorb fips_compress sha1_iv m = (s1_state c, take (length m mod 64) (s1_buffer c))"

lemma sha1_full_blocks_absorb:
  assumes "length data = unat len" "unat len < 2 ^ 32 - 64"
  shows "unat i \<le> unat len \<Longrightarrow>
    \<exists>i' st'. sha1_full_blocks st data len i = Some (st', i') \<and> unat i' \<le> unat len \<and>
      absorb fips_compress st (drop (unat i) data) = (st', drop (unat i') data) \<and> unat len - unat i' < 64"
proof (induction "unat len - unat i" arbitrary: i st rule: less_induct)
  case less
  have "unat (i + 63) = unat i + 63"
    using assms(2) less.prems by (simp add: unat_add_lem [THEN iffD1])
  then have guard: "i + 63 < len \<longleftrightarrow> unat i + 64 \<le> unat len" by (auto simp: word_less_nat_alt)
  show ?case
  proof (cases "unat i + 64 \<le> unat len")
    case True
    have i64: "unat (i + 64) = unat i + 64"
      using assms(2) True by (simp add: unat_add_lem [THEN iffD1])
    have "drop (unat i) data = take 64 (drop (unat i) data) @ drop (unat i + 64) data"
      by (metis add.commute append_take_drop_id drop_drop)
    then have "absorb fips_compress st (drop (unat i) data) =
        absorb fips_compress (SHA1Transform st (take 64 (drop (unat i) data))) (drop (unat (i + 64)) data)"
      using True assms(1) absorb_block [of "take 64 (drop (unat i) data)" fips_compress st "drop (unat i + 64) data"]
      by (simp add: SHA1Transform_fips i64)
    then show ?thesis
      using True guard i64 less.hyps [of "i + 64" "SHA1Transform st (take 64 (drop (unat i) data))"]
      by (simp add: sha1_full_blocks.simps [of st data len i])
  next
    case False
    then show ?thesis
      using guard less.prems assms(1) by (simp add: sha1_full_blocks.simps [of st data len i])
  qed
qed

text \<open>One call of \<open>SHA1Update\<close>.\<close>

lemma SHA1Update_rep:
  assumes rep: "sha1_rep c m" and len: "length d = unat len" and small: "length (m @ d) < 2 ^ 32 - 128"
  shows "\<exists>c'. SHA1Update c d len = Some c' \<and> sha1_rep c' (m @ d)"
proof -
  define j where "j = drop_bit 3 (s1_count0 c) AND 63"
  have cnt: "unat (s1_count0 c) + 2 ^ 32 * unat (s1_count1 c) = 8 * length m"
    and buf: "length (s1_buffer c) = 64"
    and abs: "absorb fips_compress sha1_iv m = (s1_state c, take (length m mod 64) (s1_buffer c))"
    using rep by (simp_all add: sha1_rep_def)
  have j: "unat j = length m mod 64" unfolding j_def by (rule byte_position [OF cnt])
  have "unat (j + len) = unat j + unat len"
    using small len j by (intro unat_add_lem [THEN iffD1]) simp
  then have guard: "63 < j + len \<longleftrightarrow> 64 \<le> unat j + unat len" by (auto simp: word_less_nat_alt)
  have abs': "absorb fips_compress sha1_iv (m @ d) =
      absorb fips_compress (s1_state c) (take (unat j) (s1_buffer c) @ d)"
    using abs j by (simp add: absorb_append [of _ _ m])
  note count = bit_count [OF cnt, of len]
  show ?thesis
  proof (cases "64 \<le> unat j + unat len")
    case False
    let ?r = "take (unat j) (s1_buffer c) @ d"
    have short: "length ?r < 64" "length (m @ d) mod 64 = length ?r"
      using False j len buf mod_add_left_eq [of "length m" 64 "length d"] by simp_all
    show ?thesis
      using False guard short abs' buf j len count small
      by (simp add: SHA1Update_def Let_def sha1_rep_def flip: j_def)
  next
    case True
    have j64: "unat j < 64" by (simp add: j)
    then have i: "unat (64 - j) = 64 - unat j" by (simp add: unat_sub word_le_nat_alt)
    have le: "64 - unat j \<le> unat len" using True by linarith
    define buf' where "buf' = take (unat j) (s1_buffer c) @ take (64 - unat j) d"
    obtain i' st' where fb: "sha1_full_blocks (SHA1Transform (s1_state c) buf') d len (64 - j) = Some (st', i')"
      "unat i' \<le> unat len" "absorb fips_compress (SHA1Transform (s1_state c) buf') (drop (64 - unat j) d) =
        (st', drop (unat i') d)" "unat len - unat i' < 64"
      using sha1_full_blocks_absorb [OF len, of "64 - j" "SHA1Transform (s1_state c) buf'"] le small len
      by (auto simp: i)
    have "take (unat j) (s1_buffer c) @ d = buf' @ drop (64 - unat j) d" by (simp add: buf'_def)
    then have "absorb fips_compress sha1_iv (m @ d) = (st', drop (unat i') d)"
      using abs' fb(3) absorb_block [of buf' fips_compress "s1_state c" "drop (64 - unat j) d"] True j64 buf len
      by (simp add: SHA1Transform_fips buf'_def del: append_assoc)
    moreover have "unat (len - i') = unat len - unat i'" using fb(2) by (simp add: unat_sub word_le_nat_alt)
    moreover from calculation(1) have "length (m @ d) mod 64 = unat len - unat i'"
      using length_absorb_rest [of fips_compress sha1_iv "m @ d"] len by simp
    moreover have "c_slice d 0 (64 - unat j) = Some (take (64 - unat j) d)" using le len by simp
    moreover have "length buf' = 64" using le len buf j64 by (simp add: buf'_def)
    ultimately show ?thesis
      using True guard len count small i fb
      by (simp add: SHA1Update_def Let_def sha1_rep_def flip: j_def buf'_def)
  qed
qed


text \<open>The padding loop and the digest.\<close>

lemma sha1_count_504:
  assumes "unat c0 + 2 ^ 32 * unat (c1 :: u32) = 8 * n"
  shows "c0 AND 504 = (448 :: u32) \<longleftrightarrow> n mod 64 = 56"
proof -
  have "c0 AND 504 = push_bit 3 (drop_bit 3 c0 AND 63)" by (simp add: word32_eq_iff bit_simps)
  then have "unat (c0 AND 504) = 8 * (n mod 64) mod 2 ^ 32"
    by (simp only: unat_shift3 byte_position [OF assms])
  also have "\<dots> = 8 * (n mod 64)" using mod_less_divisor [of 64 n] by (intro mod_less) simp
  finally have "unat (c0 AND 504) = 8 * (n mod 64)" .
  then show ?thesis by (auto simp: word_unat_eq_iff)
qed

lemma sha1_pad_loop_rep:
  "sha1_rep c m \<Longrightarrow> pad_zeros (length m) < fuel \<Longrightarrow> length m + pad_zeros (length m) < 2 ^ 32 - 128 \<Longrightarrow>
   \<exists>c'. sha1_pad_loop fuel c = Some c' \<and> sha1_rep c' (m @ replicate (pad_zeros (length m)) 0)"
proof (induction fuel arbitrary: c m)
  case (Suc f)
  have "unat (s1_count0 c) + 2 ^ 32 * unat (s1_count1 c) = 8 * length m"
    using Suc.prems(1) by (simp add: sha1_rep_def)
  note fin = sha1_count_504 [OF this]
  show ?case
  proof (cases "length m mod 64 = 56")
    case True
    then show ?thesis using Suc.prems(1) fin by (simp add: pad_zeros_cases)
  next
    case False
    then have z: "pad_zeros (length m) = Suc (pad_zeros (length (m @ [0])))" by (simp add: pad_zeros_Suc)
    obtain c1 where c1: "SHA1Update c [0] 1 = Some c1" "sha1_rep c1 (m @ [0])"
      using SHA1Update_rep [OF Suc.prems(1), of "[0]" 1] Suc.prems(3) z by auto
    with Suc.IH [OF c1(2)] Suc.prems z False fin show ?thesis by simp
  qed
qed simp

lemma finalcount_be64:
  assumes "unat c0 + 2 ^ 32 * unat (c1 :: u32) = n"
  shows "WPA_PUT_BE32 c1 @ WPA_PUT_BE32 (c0 :: u32) = WPA_PUT_BE64 (of_nat n)"
proof -
  have "(of_nat n :: u64) = ucast c0 + push_bit 32 (ucast c1)"
    unfolding assms [symmetric] by (simp add: push_bit_eq_mult)
  also have "\<dots> = ucast c0 OR push_bit 32 (ucast c1)"
    by (rule disjunctive_add) (auto simp: bit_simps)
  finally show ?thesis
    by (simp add: WPA_PUT_BE64_def WPA_PUT_BE32_def word8_eq_iff bit_simps)
qed

lemma SHA1Final_rep:
  assumes "sha1_rep c m" "length m < 2 ^ 32 - 256"
  shows "SHA1Final c = Some (sha1 m)"
proof -
  let ?z = "pad_zeros (length (m @ [0x80]))"
  have z: "?z = (119 - length m mod 64) mod 64" "?z < 64"
    by (simp_all add: pad_zeros_def mod_Suc)
  obtain c1 where c1: "SHA1Update c [0x80] 1 = Some c1" "sha1_rep c1 (m @ [0x80])"
    using SHA1Update_rep [OF assms(1), of "[0x80]" 1] assms(2) by auto
  obtain c2 where c2: "sha1_pad_loop 65 c1 = Some c2" "sha1_rep c2 ((m @ [0x80]) @ replicate ?z 0)"
    using sha1_pad_loop_rep [OF c1(2), of 65] z(2) assms(2) by auto
  let ?f = "WPA_PUT_BE32 (s1_count1 c) @ WPA_PUT_BE32 (s1_count0 c)"
  have f: "?f = WPA_PUT_BE64 (of_nat (8 * length m))"
    using assms(1) by (intro finalcount_be64) (simp add: sha1_rep_def)
  obtain c3 where c3: "SHA1Update c2 ?f 8 = Some c3" "sha1_rep c3 (((m @ [0x80]) @ replicate ?z 0) @ ?f)"
    using SHA1Update_rep [OF c2(2), of ?f 8] z(2) assms(2) by (auto simp: WPA_PUT_BE32_def)
  have "((m @ [0x80]) @ replicate ?z 0) @ ?f = md_pad (\<lambda>n. WPA_PUT_BE64 (of_nat n)) m"
    using z(1) f by (simp add: md_pad_def)
  then have "fst (absorb fips_compress sha1_iv (md_pad (\<lambda>n. WPA_PUT_BE64 (of_nat n)) m)) = s1_state c3"
    using c3(2) by (simp add: sha1_rep_def)
  moreover obtain s0 s1 s2 s3 s4 where "s1_state c3 = (s0, s1, s2, s3, s4)" by (metis prod_cases5)
  ultimately show ?thesis
    using c1(1) c2(1) c3(1) by (simp add: SHA1Final_def sha1_def md_hash_def Let_def)
qed

interpretation sha1_hash: incremental_hash "SHA1Init (replicate 64 0)"
  "\<lambda>c d. SHA1Update c d (of_nat (length d))" SHA1Final sha1_rep sha1 "2 ^ 32 - 256"
proof
  show "sha1_rep (SHA1Init (replicate 64 0)) []" by (simp add: sha1_rep_def SHA1Init_def sha1_iv_def)
  show "\<exists>c'. SHA1Update c d (of_nat (length d)) = Some c' \<and> sha1_rep c' (m @ d)"
    if "sha1_rep c m" "length (m @ d) < 2 ^ 32 - 256" for c m d
    using SHA1Update_rep [OF that(1), of d "of_nat (length d)"] that(2) by (simp add: unat_of_nat)
  show "SHA1Final c = Some (sha1 m)" if "sha1_rep c m" "length m < 2 ^ 32 - 256" for c m
    using that by (rule SHA1Final_rep)
qed

lemma sha1_vector_eq:
  "length (concat addr) < 2 ^ 32 - 256 \<Longrightarrow> sha1_vector addr = Some (sha1 (concat addr))"
  using sha1_hash.vector_hash [of addr] by (simp add: sha1_vector_def)



end
