(* ===== verification/Sha256.thy ===== *)
theory Sha256
  imports Hash_Spec
begin

text \<open>
  The SHA-256 implementation of \<open>crypto/sha256-internal.c\<close> and the proof that \<open>sha256_vector\<close> is
  SHA-256 of FIPS 180 on the concatenated buffers. Sums that the C code forms in \<open>unsigned long\<close>
  and stores in \<open>u32\<close> are 32-bit sums here.
\<close>

section \<open>The compression function\<close>

text \<open>The table row by row as in the source.\<close>

definition sha256_K :: "u32 list" where
  "sha256_K = concat [
     [0x428a2f98, 0x71374491, 0xb5c0fbcf, 0xe9b5dba5, 0x3956c25b],
     [0x59f111f1, 0x923f82a4, 0xab1c5ed5, 0xd807aa98, 0x12835b01],
     [0x243185be, 0x550c7dc3, 0x72be5d74, 0x80deb1fe, 0x9bdc06a7],
     [0xc19bf174, 0xe49b69c1, 0xefbe4786, 0x0fc19dc6, 0x240ca1cc],
     [0x2de92c6f, 0x4a7484aa, 0x5cb0a9dc, 0x76f988da, 0x983e5152],
     [0xa831c66d, 0xb00327c8, 0xbf597fc7, 0xc6e00bf3, 0xd5a79147],
     [0x06ca6351, 0x14292967, 0x27b70a85, 0x2e1b2138, 0x4d2c6dfc],
     [0x53380d13, 0x650a7354, 0x766a0abb, 0x81c2c92e, 0x92722c85],
     [0xa2bfe8a1, 0xa81a664b, 0xc24b8b70, 0xc76c51a3, 0xd192e819],
     [0xd6990624, 0xf40e3585, 0x106aa070, 0x19a4c116, 0x1e376c08],
     [0x2748774c, 0x34b0bcb5, 0x391c0cb3, 0x4ed8aa4a, 0x5b9cca4f],
     [0x682e6ff3, 0x748f82ee, 0x78a5636f, 0x84c87814, 0x8cc70208],
     [0x90befffa, 0xa4506ceb, 0xbef9a3f7, 0xc67178f2]]"

text \<open>\<open>RORc\<close> works on \<open>unsigned long\<close> and masks its result to 32 bits.\<close>

definition RORc :: "u32 \<Rightarrow> nat \<Rightarrow> u32" where
  "RORc x y = ucast ((drop_bit (y mod 32) (ucast x AND 0xFFFFFFFF) OR
     push_bit (32 - y mod 32) (ucast x)) AND (0xFFFFFFFF :: u64))"

definition Ch :: "u32 \<Rightarrow> u32 \<Rightarrow> u32 \<Rightarrow> u32" where "Ch x y z = z XOR (x AND (y XOR z))"
definition Maj :: "u32 \<Rightarrow> u32 \<Rightarrow> u32 \<Rightarrow> u32" where "Maj x y z = ((x OR y) AND z) OR (x AND y)"
definition Sigma0 :: "u32 \<Rightarrow> u32" where "Sigma0 x = RORc x 2 XOR RORc x 13 XOR RORc x 22"
definition Sigma1 :: "u32 \<Rightarrow> u32" where "Sigma1 x = RORc x 6 XOR RORc x 11 XOR RORc x 25"
definition Gamma0 :: "u32 \<Rightarrow> u32" where "Gamma0 x = RORc x 7 XOR RORc x 18 XOR drop_bit 3 x"
definition Gamma1 :: "u32 \<Rightarrow> u32" where "Gamma1 x = RORc x 17 XOR RORc x 19 XOR drop_bit 10 x"

type_synonym sha256_vars = "u32 \<times> u32 \<times> u32 \<times> u32 \<times> u32 \<times> u32 \<times> u32 \<times> u32"

definition sha256_W :: "bytes \<Rightarrow> u32 list" where
  "sha256_W buf = fold (\<lambda>i W. W @ [Gamma1 (W ! (i - 2)) + W ! (i - 7) + Gamma0 (W ! (i - 15)) + W ! (i - 16)])
     [16..<64] (map (\<lambda>i. WPA_GET_BE32 (drop (4 * i) buf)) [0..<16])"

text \<open>\<open>RND\<close> on the eight variables, followed by the shift of the variables.\<close>

definition sha256_RND :: "u32 list \<Rightarrow> nat \<Rightarrow> sha256_vars \<Rightarrow> sha256_vars" where
  "sha256_RND W i = (\<lambda>(a, b, c, d, e, f, g, h).
     let t0 = h + Sigma1 e + Ch e f g + sha256_K ! i + W ! i;
         t1 = Sigma0 a + Maj a b c;
         d = d + t0;
         h = t0 + t1
     in (h, a, b, c, d, e, f, g))"

fun sha256_feedback :: "sha256_vars \<Rightarrow> sha256_vars \<Rightarrow> sha256_vars" where
  "sha256_feedback (s0, s1, s2, s3, s4, s5, s6, s7) (a, b, c, d, e, f, g, h) =
     (s0 + a, s1 + b, s2 + c, s3 + d, s4 + e, s5 + f, s6 + g, s7 + h)"

definition sha256_compress :: "sha256_vars \<Rightarrow> bytes \<Rightarrow> sha256_vars" where
  "sha256_compress st buf = sha256_feedback st (fold (sha256_RND (sha256_W buf)) [0..<64] st)"

section \<open>Contexts\<close>

record sha256_state =
  s2_length :: u64
  s2_state :: sha256_vars
  s2_curlen :: nat
  s2_buf :: bytes

definition sha256_init :: "bytes \<Rightarrow> sha256_state" where
  "sha256_init garbage = \<lparr>s2_length = 0,
     s2_state = (0x6A09E667, 0xBB67AE85, 0x3C6EF372, 0xA54FF53A, 0x510E527F, 0x9B05688C, 0x1F83D9AB, 0x5BE0CD19),
     s2_curlen = 0, s2_buf = garbage\<rparr>"

text \<open>The loop of \<open>sha256_process\<close>. With a full buffer it would make no progress; the caller excludes it.\<close>

function sha256_process_loop :: "sha256_state \<Rightarrow> bytes \<Rightarrow> sha256_state option" where
  "sha256_process_loop md inp =
     (if inp = [] then Some md
      else if 64 \<le> s2_curlen md then None
      else if s2_curlen md = 0 \<and> 64 \<le> length inp then
        sha256_process_loop (md\<lparr>s2_state := sha256_compress (s2_state md) (take 64 inp),
          s2_length := s2_length md + 64 * 8\<rparr>) (drop 64 inp)
      else
        (let n = min (length inp) (64 - s2_curlen md);
             buf = take (s2_curlen md) (s2_buf md) @ take n inp @ drop (s2_curlen md + n) (s2_buf md);
             md = md\<lparr>s2_buf := buf, s2_curlen := s2_curlen md + n\<rparr>;
             md = (if s2_curlen md = 64 then md\<lparr>s2_state := sha256_compress (s2_state md) buf,
                     s2_length := s2_length md + 8 * 64, s2_curlen := 0\<rparr> else md)
         in sha256_process_loop md (drop n inp)))"
  by pat_completeness auto
termination
  by (relation "measure (\<lambda>(md, inp). length inp)") auto

declare sha256_process_loop.simps [simp del]

definition sha256_process :: "sha256_state \<Rightarrow> bytes \<Rightarrow> (int \<times> sha256_state) option" where
  "sha256_process md inp =
     (if 64 \<le> s2_curlen md then Some (-1, md)
      else map_option (\<lambda>md. (0, md)) (sha256_process_loop md inp))"

fun sha256_out :: "sha256_vars \<Rightarrow> bytes" where
  "sha256_out (s0, s1, s2, s3, s4, s5, s6, s7) =
     WPA_PUT_BE32 s0 @ WPA_PUT_BE32 s1 @ WPA_PUT_BE32 s2 @ WPA_PUT_BE32 s3 @
     WPA_PUT_BE32 s4 @ WPA_PUT_BE32 s5 @ WPA_PUT_BE32 s6 @ WPA_PUT_BE32 s7"

definition sha256_done :: "sha256_state \<Rightarrow> int \<times> bytes" where
  "sha256_done md =
     (if 64 \<le> s2_curlen md then (-1, [])
      else
        (let len = s2_length md + of_nat (s2_curlen md * 8);
             buf = take (s2_curlen md) (s2_buf md) @ [0x80];
             (st, buf) = (if 56 < s2_curlen md + 1
                then (sha256_compress (s2_state md) (buf @ replicate (64 - (s2_curlen md + 1)) 0), [])
                else (s2_state md, buf));
             buf = buf @ replicate (56 - length buf) 0;
             st = sha256_compress st (buf @ WPA_PUT_BE64 len)
         in (0, sha256_out st)))"

text \<open>The vector form: -1 from a step is passed on.\<close>

fun sha256_process_all :: "sha256_state \<Rightarrow> bytes list \<Rightarrow> (int \<times> sha256_state) option" where
  "sha256_process_all md [] = Some (0, md)"
| "sha256_process_all md (a # addr) = do {
     (r, md) \<leftarrow> sha256_process md a;
     if r \<noteq> 0 then Some (-1, md) else sha256_process_all md addr }"

definition sha256_vector :: "bytes list \<Rightarrow> (int \<times> bytes) option" where
  "sha256_vector addr = do {
     (r, md) \<leftarrow> sha256_process_all (sha256_init (replicate 64 0)) addr;
     if r \<noteq> 0 then Some (-1, [])
     else (let (r, mac) = sha256_done md in if r \<noteq> 0 then Some (-1, []) else Some (0, mac)) }"


section \<open>FIPS 180 SHA-256\<close>

definition fips_rotr :: "u32 \<Rightarrow> nat \<Rightarrow> u32" where
  "fips_rotr x n = drop_bit n x OR push_bit (32 - n) x"

definition fips_sigma0 :: "u32 \<Rightarrow> u32" where
  "fips_sigma0 x = fips_rotr x 7 XOR fips_rotr x 18 XOR drop_bit 3 x"

definition fips_sigma1 :: "u32 \<Rightarrow> u32" where
  "fips_sigma1 x = fips_rotr x 17 XOR fips_rotr x 19 XOR drop_bit 10 x"

fun fips256_W :: "bytes \<Rightarrow> nat \<Rightarrow> u32" where
  "fips256_W b t = (if t < 16 then WPA_GET_BE32 (drop (4 * t) b)
     else fips_sigma1 (fips256_W b (t - 2)) + fips256_W b (t - 7) + fips_sigma0 (fips256_W b (t - 15)) +
       fips256_W b (t - 16))"

declare fips256_W.simps [simp del]

definition fips256_step :: "bytes \<Rightarrow> nat \<Rightarrow> sha256_vars \<Rightarrow> sha256_vars" where
  "fips256_step m t = (\<lambda>(a, b, c, d, e, f, g, h).
     let T1 = h + (fips_rotr e 6 XOR fips_rotr e 11 XOR fips_rotr e 25) + ((e AND f) XOR (NOT e AND g)) +
           sha256_K ! t + fips256_W m t;
         T2 = (fips_rotr a 2 XOR fips_rotr a 13 XOR fips_rotr a 22) + ((a AND b) XOR (a AND c) XOR (b AND c))
     in (T1 + T2, a, b, c, d + T1, e, f, g))"

definition fips256_compress :: "sha256_vars \<Rightarrow> bytes \<Rightarrow> sha256_vars" where
  "fips256_compress st m = sha256_feedback st (fold (fips256_step m) [0..<64] st)"

definition sha256_iv :: sha256_vars where
  "sha256_iv = (0x6A09E667, 0xBB67AE85, 0x3C6EF372, 0xA54FF53A, 0x510E527F, 0x9B05688C, 0x1F83D9AB, 0x5BE0CD19)"

definition sha256 :: "bytes \<Rightarrow> bytes" where
  "sha256 m = md_hash fips256_compress sha256_iv (\<lambda>n. WPA_PUT_BE64 (of_nat n)) sha256_out m"

lemma length_sha256 [simp]: "length (sha256 m) = 32"
proof -
  have "length (sha256_out st) = 32" for st
    by (induction st rule: sha256_out.induct) (simp add: WPA_PUT_BE32_def)
  then show ?thesis by (simp add: sha256_def md_hash_def)
qed

section \<open>The compression functions agree\<close>

lemma RORc_rotr:
  assumes "0 < n" "n < 32"
  shows "RORc x n = fips_rotr x n"
proof -
  have mask: "w AND 0xFFFFFFFF = take_bit 32 w" for w :: u64
    by (simp add: take_bit_eq_mask mask_eq_exp_minus_1)
  show ?thesis
    unfolding RORc_def fips_rotr_def mask using assms
    by (intro bit_word_eqI) (auto simp: bit_simps)
qed

lemma Gamma_sigma: "Gamma0 x = fips_sigma0 x" "Gamma1 x = fips_sigma1 x"
  by (simp_all add: Gamma0_def Gamma1_def fips_sigma0_def fips_sigma1_def RORc_rotr)

lemma Ch_alt: "Ch x y z = (x AND y) XOR (NOT x AND z)"
  unfolding Ch_def by (rule bit_word_eqI) (auto simp: bit_simps)

lemma Maj_alt: "Maj x y z = (x AND y) XOR (x AND z) XOR (y AND z)"
  unfolding Maj_def by (rule bit_word_eqI) (auto simp: bit_simps)

lemma sha256_W_prefix:
  "fold (\<lambda>i W. W @ [Gamma1 (W ! (i - 2)) + W ! (i - 7) + Gamma0 (W ! (i - 15)) + W ! (i - 16)])
     [16..<16 + n] (map (\<lambda>i. WPA_GET_BE32 (drop (4 * i) b)) [0..<16]) = map (fips256_W b) [0..<16 + n]"
proof (induction n)
  case 0
  then show ?case by (simp add: fips256_W.simps)
next
  case (Suc n)
  have "fips256_W b (16 + n) = fips_sigma1 (fips256_W b (14 + n)) + fips256_W b (9 + n) +
      fips_sigma0 (fips256_W b (1 + n)) + fips256_W b n"
    by (simp add: fips256_W.simps [of b "16 + n"])
  moreover have "[k..<16 + Suc n] = [k..<16 + n] @ [16 + n]" if "k \<le> 16" for k
    using upt_Suc_append [of k "16 + n"] that by (simp only: add_Suc_right)
  ultimately show ?case using Suc.IH by (simp add: Gamma_sigma nth_append)
qed

lemma sha256_W_fips:
  assumes "t < 64"
  shows "sha256_W b ! t = fips256_W b t"
proof -
  have e: "16 + 48 = (64 :: nat)" by simp
  have "sha256_W b = map (fips256_W b) [0..<64]"
    using sha256_W_prefix [where b = b and n = 48] unfolding sha256_W_def e .
  with assms show ?thesis by simp
qed

lemma sha256_compress_fips: "sha256_compress st b = fips256_compress st b"
proof -
  have "fold (sha256_RND (sha256_W b)) [0..<64] st = fold (fips256_step b) [0..<64] st"
    by (rule fold_cong)
      (auto simp: sha256_RND_def fips256_step_def sha256_W_fips Sigma0_def Sigma1_def RORc_rotr Ch_alt Maj_alt
        Let_def fun_eq_iff)
  then show ?thesis by (simp add: sha256_compress_def fips256_compress_def)
qed

section \<open>Contexts represent the bytes fed\<close>

definition sha256_rep :: "sha256_state \<Rightarrow> bytes \<Rightarrow> bool" where
  "sha256_rep c m \<longleftrightarrow> length (s2_buf c) = 64 \<and> s2_curlen c = length m mod 64 \<and>
     s2_length c = of_nat (8 * (length m - length m mod 64)) \<and>
     absorb fips256_compress sha256_iv m = (s2_state c, take (s2_curlen c) (s2_buf c))"

text \<open>Feeding bytes that at most fill the buffer, and feeding a whole block to an empty buffer.\<close>

lemma sha256_rep_fill:
  assumes rep: "sha256_rep c m" and n: "n = min (length d) (64 - s2_curlen c)"
    and b: "buf = take (s2_curlen c) (s2_buf c) @ take n d @ drop (s2_curlen c + n) (s2_buf c)"
  shows "sha256_rep (let md = c\<lparr>s2_buf := buf, s2_curlen := s2_curlen c + n\<rparr> in
      if s2_curlen md = 64 then md\<lparr>s2_state := sha256_compress (s2_state md) buf,
        s2_length := s2_length md + 8 * 64, s2_curlen := 0\<rparr> else md) (m @ take n d)"
proof -
  have c: "s2_curlen c = length m mod 64" "length (s2_buf c) = 64" "s2_curlen c < 64"
    and len: "s2_length c = of_nat (8 * (length m - length m mod 64))"
    and abs: "absorb fips256_compress sha256_iv m = (s2_state c, take (s2_curlen c) (s2_buf c))"
    using rep by (simp_all add: sha256_rep_def)
  have n': "n \<le> length d" "s2_curlen c + n \<le> 64" using n c(3) by auto
  let ?r = "take (s2_curlen c) (s2_buf c) @ take n d"
  have abs': "absorb fips256_compress sha256_iv (m @ take n d) = absorb fips256_compress (s2_state c) ?r"
    using abs by (simp add: absorb_append [of _ _ m])
  have r: "length ?r = s2_curlen c + n" using n' c by simp
  have m: "length m = 64 * (length m div 64) + s2_curlen c" using c(1) by simp
  show ?thesis
  proof (cases "s2_curlen c + n = 64")
    case True
    have "length m + n = 64 * (length m div 64 + 1)" using m True by simp
    then have "(length m + n) mod 64 = 0" by simp
    moreover have "length m + n = (length m - length m mod 64) + 64" using c(1) True m by linarith
    ultimately have mod: "(length m + n) mod 64 = 0" "length m + n = (length m - length m mod 64) + 64"
      by blast+
    have "buf = ?r" using True n' c by (simp add: b)
    moreover have "absorb fips256_compress (s2_state c) ?r = (fips256_compress (s2_state c) ?r, [])"
      using r True absorb_block [of ?r fips256_compress "s2_state c" "[]"] by simp
    ultimately show ?thesis
      using True mod abs' c r n' len
      by (simp add: sha256_rep_def sha256_compress_fips)
  next
    case False
    then have "(length m + n) mod 64 = s2_curlen c + n"
      using c(1) n' mod_add_left_eq [of "length m" 64 n] by simp
    moreover have "length m + n - (s2_curlen c + n) = length m - length m mod 64" using c(1) by simp
    ultimately show ?thesis
      using False abs' c r n' len by (simp add: sha256_rep_def b)
  qed
qed

lemma sha256_rep_block:
  assumes rep: "sha256_rep c m" and "s2_curlen c = 0" "length blk = 64"
  shows "sha256_rep (c\<lparr>s2_state := sha256_compress (s2_state c) blk, s2_length := s2_length c + 64 * 8\<rparr>) (m @ blk)"
proof -
  have "length m mod 64 = 0" using rep assms(2) by (simp add: sha256_rep_def)
  then show ?thesis
    using rep assms(2,3) absorb_block [of blk fips256_compress "s2_state c" "[]"]
    by (simp add: sha256_rep_def sha256_compress_fips absorb_append [of _ _ m])
qed

lemma sha256_process_loop_rep:
  "sha256_rep c m \<Longrightarrow> \<exists>c'. sha256_process_loop c d = Some c' \<and> sha256_rep c' (m @ d)"
proof (induction "length d" arbitrary: c m d rule: less_induct)
  case less
  have cur: "s2_curlen c < 64" using less.prems by (simp add: sha256_rep_def)
  consider "d = []" | "d \<noteq> []" "s2_curlen c = 0" "64 \<le> length d" | "d \<noteq> []" "\<not> (s2_curlen c = 0 \<and> 64 \<le> length d)"
    by fastforce
  then show ?case
  proof cases
    case 1
    then show ?thesis using less.prems by (simp add: sha256_process_loop.simps)
  next
    case 2
    let ?c = "c\<lparr>s2_state := sha256_compress (s2_state c) (take 64 d), s2_length := s2_length c + 64 * 8\<rparr>"
    have "sha256_rep ?c (m @ take 64 d)" using less.prems 2 by (intro sha256_rep_block) simp_all
    then obtain c' where "sha256_process_loop ?c (drop 64 d) = Some c'" "sha256_rep c' ((m @ take 64 d) @ drop 64 d)"
      using less.hyps [of "drop 64 d" ?c "m @ take 64 d"] 2 by auto
    then show ?thesis using 2 cur by (simp add: sha256_process_loop.simps [of c d])
  next
    case 3
    define n where "n = min (length d) (64 - s2_curlen c)"
    define buf where "buf = take (s2_curlen c) (s2_buf c) @ take n d @ drop (s2_curlen c + n) (s2_buf c)"
    define md where "md = (let md = c\<lparr>s2_buf := buf, s2_curlen := s2_curlen c + n\<rparr> in
      if s2_curlen md = 64 then md\<lparr>s2_state := sha256_compress (s2_state md) buf,
        s2_length := s2_length md + 8 * 64, s2_curlen := 0\<rparr> else md)"
    have "sha256_rep md (m @ take n d)"
      unfolding md_def using less.prems n_def buf_def by (rule sha256_rep_fill)
    moreover have "0 < n" using 3 cur by (simp add: n_def)
    ultimately obtain c' where "sha256_process_loop md (drop n d) = Some c'" "sha256_rep c' (m @ d)"
      using less.hyps [of "drop n d" md "m @ take n d"] 3(1) by auto
    moreover have "sha256_process_loop c d = sha256_process_loop md (drop n d)"
      using 3 cur by (simp only: sha256_process_loop.simps [of c d] Let_def n_def buf_def md_def not_le if_False) auto
    ultimately show ?thesis by simp
  qed
qed

lemma sha256_process_rep:
  "sha256_rep c m \<Longrightarrow> \<exists>c'. sha256_process c d = Some (0, c') \<and> sha256_rep c' (m @ d)"
  using sha256_process_loop_rep [of c m d] by (auto simp: sha256_process_def sha256_rep_def)


lemma sha256_done_rep:
  assumes "sha256_rep c m"
  shows "sha256_done c = (0, sha256 m)"
proof -
  define r where "r = take (s2_curlen c) (s2_buf c)"
  define e where "e = WPA_PUT_BE64 (of_nat (8 * length m))"
  have c: "s2_curlen c = length m mod 64" "length r = s2_curlen c" "s2_curlen c < 64"
    and abs: "absorb fips256_compress sha256_iv m = (s2_state c, r)"
    using assms by (simp_all add: sha256_rep_def r_def)
  have "length m - length m mod 64 + length m mod 64 = length m" by simp
  then have "s2_length c + of_nat (s2_curlen c * 8) = of_nat (8 * length m)"
    using assms c(1) by (simp add: sha256_rep_def flip: of_nat_add)
  then have len: "WPA_PUT_BE64 (s2_length c + of_nat (s2_curlen c * 8)) = e" by (simp only: e_def)
  have e: "length e = 8" by (simp add: e_def WPA_PUT_BE64_def)
  have hash: "sha256 m = sha256_out (fst (absorb fips256_compress (s2_state c)
      (r @ [0x80] @ replicate ((119 - length r) mod 64) 0 @ e)))"
    using abs c by (simp add: sha256_def md_hash_def absorb_md_pad e_def)
  show ?thesis
  proof (cases "56 \<le> length r")
    case True
    then show ?thesis
      using hash absorb_last_two_blocks [OF True _ e, of fips256_compress "s2_state c"] c len
      by (simp add: sha256_done_def Let_def sha256_compress_fips r_def)
  next
    case False
    then have "length r \<le> 55" by simp
    then show ?thesis
      using hash absorb_last_block [OF _ e, of r fips256_compress "s2_state c"] c len
      by (simp add: sha256_done_def Let_def sha256_compress_fips r_def)
  qed
qed

interpretation sha256_hash: incremental_hash "sha256_init (replicate 64 0)"
  "\<lambda>c d. map_option snd (sha256_process c d)" "\<lambda>c. Some (snd (sha256_done c))" sha256_rep sha256 "2 ^ 61"
proof
  show "sha256_rep (sha256_init (replicate 64 0)) []" by (simp add: sha256_rep_def sha256_init_def sha256_iv_def)
  show "\<exists>c'. map_option snd (sha256_process c d) = Some c' \<and> sha256_rep c' (m @ d)"
    if "sha256_rep c m" "length (m @ d) < 2 ^ 61" for c m d
    using sha256_process_rep [OF that(1), of d] by auto
  show "Some (snd (sha256_done c)) = Some (sha256 m)" if "sha256_rep c m" "length m < 2 ^ 61" for c m
    using sha256_done_rep [OF that(1)] by simp
qed

lemma sha256_process_all_rep:
  "sha256_rep c m \<Longrightarrow> \<exists>c'. sha256_process_all c addr = Some (0, c') \<and>
     update_all (\<lambda>c d. map_option snd (sha256_process c d)) c addr = Some c' \<and> sha256_rep c' (m @ concat addr)"
proof (induction addr arbitrary: c m)
  case (Cons d addr)
  then obtain c1 where "sha256_process c d = Some (0, c1)" "sha256_rep c1 (m @ d)"
    using sha256_process_rep by blast
  with Cons.IH [of c1 "m @ d"] show ?case by simp
qed simp

lemma sha256_vector_eq:
  assumes "length (concat addr) < 2 ^ 61"
  shows "sha256_vector addr = Some (0, sha256 (concat addr))"
proof -
  obtain c where c: "sha256_process_all (sha256_init (replicate 64 0)) addr = Some (0, c)"
    "update_all (\<lambda>c d. map_option snd (sha256_process c d)) (sha256_init (replicate 64 0)) addr = Some c"
    "s2_curlen c < 64"
    using sha256_process_all_rep [OF sha256_hash.rep_init, of addr] by (auto simp: sha256_rep_def)
  then have "snd (sha256_done c) = sha256 (concat addr)" using sha256_hash.vector_hash [OF assms] by simp
  moreover have "fst (sha256_done c) = 0" using c(3) by (simp add: sha256_done_def Let_def split: prod.split)
  ultimately show ?thesis using c(1) by (auto simp: sha256_vector_def split: prod.split)
qed



end
