(* ===== verification/Md5.thy ===== *)
theory Md5
  imports Hash_Spec
begin

text \<open>
  The MD5 implementation of \<open>crypto/md5-internal.c\<close> (little-endian configuration) and the proof that
  \<open>md5_vector\<close> is MD5 of RFC 1321 on the concatenated buffers; the 64 additive constants are those
  of the source on both sides.
\<close>

section \<open>The compression function\<close>

definition F1 :: "u32 \<Rightarrow> u32 \<Rightarrow> u32 \<Rightarrow> u32" where "F1 x y z = z XOR (x AND (y XOR z))"
definition F2 :: "u32 \<Rightarrow> u32 \<Rightarrow> u32 \<Rightarrow> u32" where "F2 x y z = F1 z x y"
definition F3 :: "u32 \<Rightarrow> u32 \<Rightarrow> u32 \<Rightarrow> u32" where "F3 x y z = x XOR y XOR z"
definition F4 :: "u32 \<Rightarrow> u32 \<Rightarrow> u32 \<Rightarrow> u32" where "F4 x y z = y XOR (x OR NOT z)"

text \<open>The 64 steps: index of the message word, constant, shift.\<close>

definition md5_steps :: "(nat \<times> u32 \<times> nat) list" where
  "md5_steps = [
     (0, 0xd76aa478, 7), (1, 0xe8c7b756, 12), (2, 0x242070db, 17), (3, 0xc1bdceee, 22),
     (4, 0xf57c0faf, 7), (5, 0x4787c62a, 12), (6, 0xa8304613, 17), (7, 0xfd469501, 22),
     (8, 0x698098d8, 7), (9, 0x8b44f7af, 12), (10, 0xffff5bb1, 17), (11, 0x895cd7be, 22),
     (12, 0x6b901122, 7), (13, 0xfd987193, 12), (14, 0xa679438e, 17), (15, 0x49b40821, 22),
     (1, 0xf61e2562, 5), (6, 0xc040b340, 9), (11, 0x265e5a51, 14), (0, 0xe9b6c7aa, 20),
     (5, 0xd62f105d, 5), (10, 0x02441453, 9), (15, 0xd8a1e681, 14), (4, 0xe7d3fbc8, 20),
     (9, 0x21e1cde6, 5), (14, 0xc33707d6, 9), (3, 0xf4d50d87, 14), (8, 0x455a14ed, 20),
     (13, 0xa9e3e905, 5), (2, 0xfcefa3f8, 9), (7, 0x676f02d9, 14), (12, 0x8d2a4c8a, 20),
     (5, 0xfffa3942, 4), (8, 0x8771f681, 11), (11, 0x6d9d6122, 16), (14, 0xfde5380c, 23),
     (1, 0xa4beea44, 4), (4, 0x4bdecfa9, 11), (7, 0xf6bb4b60, 16), (10, 0xbebfbc70, 23),
     (13, 0x289b7ec6, 4), (0, 0xeaa127fa, 11), (3, 0xd4ef3085, 16), (6, 0x04881d05, 23),
     (9, 0xd9d4d039, 4), (12, 0xe6db99e5, 11), (15, 0x1fa27cf8, 16), (2, 0xc4ac5665, 23),
     (0, 0xf4292244, 6), (7, 0x432aff97, 10), (14, 0xab9423a7, 15), (5, 0xfc93a039, 21),
     (12, 0x655b59c3, 6), (3, 0x8f0ccc92, 10), (10, 0xffeff47d, 15), (1, 0x85845dd1, 21),
     (8, 0x6fa87e4f, 6), (15, 0xfe2ce6e0, 10), (6, 0xa3014314, 15), (13, 0x4e0811a1, 21),
     (4, 0xf7537e82, 6), (11, 0xbd3af235, 10), (2, 0x2ad7d2bb, 15), (9, 0xeb86d391, 21)]"

definition MD5STEP :: "(u32 \<Rightarrow> u32 \<Rightarrow> u32 \<Rightarrow> u32) \<Rightarrow> u32 \<Rightarrow> u32 \<Rightarrow> u32 \<Rightarrow> u32 \<Rightarrow> u32 \<Rightarrow> nat \<Rightarrow> u32" where
  "MD5STEP f w x y z data s =
     (let w = w + (f x y z + data); w = push_bit s w OR drop_bit (32 - s) w in w + x)"

definition md5_F :: "nat \<Rightarrow> u32 \<Rightarrow> u32 \<Rightarrow> u32 \<Rightarrow> u32" where
  "md5_F i = (if i < 16 then F1 else if i < 32 then F2 else if i < 48 then F3 else F4)"

text \<open>The arguments \<open>(w, x, y, z)\<close> rotate: a step on \<open>(a, b, c, d)\<close> is followed by one on \<open>(d, a, b, c)\<close>.\<close>

type_synonym md5_vars = "u32 \<times> u32 \<times> u32 \<times> u32"

definition md5_round :: "u32 list \<Rightarrow> nat \<Rightarrow> md5_vars \<Rightarrow> md5_vars" where
  "md5_round inp i = (\<lambda>(w, x, y, z).
     case md5_steps ! i of (k, c, s) \<Rightarrow> (z, MD5STEP (md5_F i) w x y z (inp ! k + c) s, x, y))"

fun md5_feedback :: "md5_vars \<Rightarrow> md5_vars \<Rightarrow> md5_vars" where
  "md5_feedback (s0, s1, s2, s3) (a, b, c, d) = (s0 + a, s1 + b, s2 + c, s3 + d)"

definition MD5Transform :: "md5_vars \<Rightarrow> bytes \<Rightarrow> md5_vars" where
  "MD5Transform buf inp = md5_feedback buf
     (fold (md5_round (map (\<lambda>i. WPA_GET_LE32 (drop (4 * i) inp)) [0..<16])) [0..<64] buf)"

section \<open>Contexts\<close>

record md5_ctx =
  m5_buf :: md5_vars
  m5_bits0 :: u32
  m5_bits1 :: u32
  m5_in :: bytes

definition MD5Init :: "bytes \<Rightarrow> md5_ctx" where
  "MD5Init garbage = \<lparr>m5_buf = (0x67452301, 0xefcdab89, 0x98badcfe, 0x10325476),
     m5_bits0 = 0, m5_bits1 = 0, m5_in = garbage\<rparr>"

text \<open>Whole blocks pass through \<open>ctx->in\<close>; what remains is copied to its start.\<close>

function md5_full_blocks :: "md5_vars \<Rightarrow> bytes \<Rightarrow> bytes \<Rightarrow> md5_vars \<times> bytes" where
  "md5_full_blocks st inbuf data =
     (if 64 \<le> length data then md5_full_blocks (MD5Transform st (take 64 data)) (take 64 data) (drop 64 data)
      else (st, data @ drop (length data) inbuf))"
  by pat_completeness auto
termination
  by (relation "measure (\<lambda>(st, inbuf, data). length data)") auto

declare md5_full_blocks.simps [simp del]

definition MD5Update :: "md5_ctx \<Rightarrow> bytes \<Rightarrow> u32 \<Rightarrow> md5_ctx option" where
  "MD5Update ctx dat len = do {
     data \<leftarrow> c_slice dat 0 (unat len);
     let t = m5_bits0 ctx;
     let bits0 = t + push_bit 3 len;
     let bits1 = (if bits0 < t then m5_bits1 ctx + 1 else m5_bits1 ctx) + drop_bit 29 len;
     let k = unat (drop_bit 3 t AND 0x3f);
     let ctx = ctx\<lparr>m5_bits0 := bits0, m5_bits1 := bits1\<rparr>;
     if k \<noteq> 0 \<and> length data < 64 - k then
       Some (ctx\<lparr>m5_in := take k (m5_in ctx) @ data @ drop (k + length data) (m5_in ctx)\<rparr>)
     else do {
       let (st, inbuf, data) =
         (if k \<noteq> 0 then
            (let inbuf = take k (m5_in ctx) @ take (64 - k) data
             in (MD5Transform (m5_buf ctx) inbuf, inbuf, drop (64 - k) data))
          else (m5_buf ctx, m5_in ctx, data));
       let (st, inbuf) = md5_full_blocks st inbuf data;
       Some (ctx\<lparr>m5_buf := st, m5_in := inbuf\<rparr>) } }"

fun md5_out :: "md5_vars \<Rightarrow> bytes" where
  "md5_out (a, b, c, d) = WPA_PUT_LE32 a @ WPA_PUT_LE32 b @ WPA_PUT_LE32 c @ WPA_PUT_LE32 d"

definition MD5Final :: "md5_ctx \<Rightarrow> bytes" where
  "MD5Final ctx =
     (let count = unat (drop_bit 3 (m5_bits0 ctx) AND 0x3F);
          p = take count (m5_in ctx) @ [0x80];
          pad = 64 - 1 - count;
          (st, inbuf) = (if pad < 8
             then (MD5Transform (m5_buf ctx) (p @ replicate pad 0), replicate 56 0)
             else (m5_buf ctx, p @ replicate (pad - 8) 0))
      in md5_out (MD5Transform st (inbuf @ WPA_PUT_LE32 (m5_bits0 ctx) @ WPA_PUT_LE32 (m5_bits1 ctx))))"

definition md5_vector :: "bytes list \<Rightarrow> bytes option" where
  "md5_vector addr = map_option MD5Final
     (update_all (\<lambda>c d. MD5Update c d (of_nat (length d))) (MD5Init (replicate 64 0)) addr)"

section \<open>RFC 1321 MD5\<close>

definition rfc_F :: "nat \<Rightarrow> u32 \<Rightarrow> u32 \<Rightarrow> u32 \<Rightarrow> u32" where
  "rfc_F i x y z =
     (if i < 16 then (x AND y) OR (NOT x AND z)
      else if i < 32 then (x AND z) OR (y AND NOT z)
      else if i < 48 then x XOR y XOR z
      else y XOR (x OR NOT z))"

definition rfc_k :: "nat \<Rightarrow> nat" where
  "rfc_k i = (if i < 16 then i else if i < 32 then (5 * i + 1) mod 16
     else if i < 48 then (3 * i + 5) mod 16 else (7 * i) mod 16)"

definition rfc_s :: "nat \<Rightarrow> nat" where
  "rfc_s i = (if i < 16 then [7, 12, 17, 22] else if i < 32 then [5, 9, 14, 20]
     else if i < 48 then [4, 11, 16, 23] else [6, 10, 15, 21]) ! (i mod 4)"

definition rfc_T :: "nat \<Rightarrow> u32" where
  "rfc_T i = fst (snd (md5_steps ! i))"

definition rfc_step :: "bytes \<Rightarrow> nat \<Rightarrow> md5_vars \<Rightarrow> md5_vars" where
  "rfc_step m i = (\<lambda>(a, b, c, d).
     let r = a + rfc_F i b c d + WPA_GET_LE32 (drop (4 * rfc_k i) m) + rfc_T i
     in (d, b + (push_bit (rfc_s i) r OR drop_bit (32 - rfc_s i) r), b, c))"

definition rfc_compress :: "md5_vars \<Rightarrow> bytes \<Rightarrow> md5_vars" where
  "rfc_compress st m = md5_feedback st (fold (rfc_step m) [0..<64] st)"

definition md5_iv :: md5_vars where
  "md5_iv = (0x67452301, 0xefcdab89, 0x98badcfe, 0x10325476)"

definition put_le64 :: "u64 \<Rightarrow> bytes" where
  "put_le64 v = rev (WPA_PUT_BE64 v)"

definition md5 :: "bytes \<Rightarrow> bytes" where
  "md5 m = md_hash rfc_compress md5_iv (\<lambda>n. put_le64 (of_nat n)) md5_out m"

lemma length_md5 [simp]: "length (md5 m) = 16"
proof -
  have "length (md5_out st) = 16" for st
    by (induction st rule: md5_out.induct) (simp add: WPA_PUT_LE32_def)
  then show ?thesis by (simp add: md5_def md_hash_def)
qed

section \<open>The compression functions agree\<close>

lemma md5_F_rfc: "md5_F i x y z = rfc_F i x y z"
proof -
  have "F1 x y z = (x AND y) OR (NOT x AND z)" "F2 x y z = (x AND z) OR (y AND NOT z)"
    unfolding F1_def F2_def by (rule bit_word_eqI; auto simp: bit_simps)+
  then show ?thesis by (simp add: md5_F_def rfc_F_def F3_def F4_def)
qed

lemma md5_steps_rfc: "map (\<lambda>(k, c, s). (k, s)) md5_steps = map (\<lambda>i. (rfc_k i, rfc_s i)) [0..<64]"
  by (simp add: md5_steps_def rfc_k_def rfc_s_def upt_rec)

lemma md5_round_rfc:
  assumes "i < 64"
  shows "md5_round (map (\<lambda>i. WPA_GET_LE32 (drop (4 * i) m)) [0..<16]) i v = rfc_step m i v"
proof -
  have len: "length md5_steps = 64" by (simp add: md5_steps_def)
  obtain k c s where st: "md5_steps ! i = (k, c, s)" by (metis prod_cases3)
  have "map (\<lambda>(k, c, s). (k, s)) md5_steps ! i = map (\<lambda>i. (rfc_k i, rfc_s i)) [0..<64] ! i"
    by (simp only: md5_steps_rfc)
  then have "k = rfc_k i" "s = rfc_s i" using assms len st by simp_all
  moreover have "rfc_k i < 16" by (simp add: rfc_k_def)
  ultimately show ?thesis
    using st by (cases v) (simp add: md5_round_def rfc_step_def rfc_T_def MD5STEP_def Let_def md5_F_rfc ac_simps)
qed

lemma MD5Transform_rfc: "MD5Transform st m = rfc_compress st m"
proof -
  have "fold (md5_round (map (\<lambda>i. WPA_GET_LE32 (drop (4 * i) m)) [0..<16])) [0..<64] st =
      fold (rfc_step m) [0..<64] st"
    by (rule fold_cong) (simp_all add: md5_round_rfc fun_eq_iff)
  then show ?thesis by (simp only: MD5Transform_def rfc_compress_def)
qed


section \<open>Contexts represent the bytes fed\<close>

definition md5_rep :: "md5_ctx \<Rightarrow> bytes \<Rightarrow> bool" where
  "md5_rep c m \<longleftrightarrow> length (m5_in c) = 64 \<and>
     unat (m5_bits0 c) + 2 ^ 32 * unat (m5_bits1 c) = 8 * length m \<and>
     absorb rfc_compress md5_iv m = (m5_buf c, take (length m mod 64) (m5_in c))"

lemma md5_full_blocks_absorb:
  "length inbuf = 64 \<Longrightarrow> \<exists>inbuf'. md5_full_blocks st inbuf data = (fst (absorb rfc_compress st data), inbuf') \<and>
     length inbuf' = 64 \<and> take (length data mod 64) inbuf' = snd (absorb rfc_compress st data)"
proof (induction "length data" arbitrary: st inbuf data rule: less_induct)
  case less
  show ?case
  proof (cases "64 \<le> length data")
    case True
    then have "length data mod 64 = length (drop 64 data) mod 64" by (simp add: le_mod_geq)
    with True less.hyps [of "drop 64 data" "take 64 data" "MD5Transform st (take 64 data)"] show ?thesis
      by (simp add: md5_full_blocks.simps [of st inbuf data] absorb.simps [of rfc_compress st data] MD5Transform_rfc)
  next
    case False
    then show ?thesis using less.prems by (simp add: md5_full_blocks.simps [of st inbuf data])
  qed
qed

lemma MD5Update_rep:
  assumes rep: "md5_rep c m" and len: "length d = unat len" and small: "length (m @ d) < 2 ^ 61"
  shows "\<exists>c'. MD5Update c d len = Some c' \<and> md5_rep c' (m @ d)"
proof -
  define k where "k = unat (drop_bit 3 (m5_bits0 c) AND 0x3f)"
  have cnt: "unat (m5_bits0 c) + 2 ^ 32 * unat (m5_bits1 c) = 8 * length m"
    and buf: "length (m5_in c) = 64"
    and abs: "absorb rfc_compress md5_iv m = (m5_buf c, take (length m mod 64) (m5_in c))"
    using rep by (simp_all add: md5_rep_def)
  have k: "k = length m mod 64" "k < 64" using byte_position [OF cnt] by (simp_all add: k_def)
  have abs': "absorb rfc_compress md5_iv (m @ d) = absorb rfc_compress (m5_buf c) (take k (m5_in c) @ d)"
    using abs k by (simp add: absorb_append [of _ _ m])
  have count: "unat (m5_bits0 c + push_bit 3 len) + 2 ^ 32 *
      unat ((if m5_bits0 c + push_bit 3 len < m5_bits0 c then m5_bits1 c + 1 else m5_bits1 c) + drop_bit 29 len) =
      8 * length (m @ d)"
    using bit_count [OF cnt, of len] small len by (simp add: add_carry_sym [of "m5_bits0 c"])
  consider (short) "k \<noteq> 0" "length d < 64 - k" | (fill) "k \<noteq> 0" "64 - k \<le> length d" | (none) "k = 0" by linarith
  then show ?thesis
  proof cases
    case short
    then have "length (m @ d) mod 64 = k + length d"
      using k mod_add_left_eq [of "length m" 64 "length d"] by simp
    with short show ?thesis
      using abs' buf k(2) len count by (simp add: MD5Update_def md5_rep_def Let_def flip: k_def)
  next
    case fill
    define b where "b = take k (m5_in c) @ take (64 - k) d"
    have b: "length b = 64" "take k (m5_in c) @ d = b @ drop (64 - k) d"
      using fill buf k(2) by (simp_all add: b_def)
    obtain st r where A: "absorb rfc_compress (MD5Transform (m5_buf c) b) (drop (64 - k) d) = (st, r)" by fastforce
    obtain inb where fb: "md5_full_blocks (MD5Transform (m5_buf c) b) b (drop (64 - k) d) = (st, inb)"
      "length inb = 64" "take (length (drop (64 - k) d) mod 64) inb = r"
      using md5_full_blocks_absorb [OF b(1), of "MD5Transform (m5_buf c) b" "drop (64 - k) d"] A by auto
    have a: "absorb rfc_compress md5_iv (m @ d) = (st, r)"
      using abs' b(2) absorb_block [OF b(1), of rfc_compress "m5_buf c" "drop (64 - k) d"] A
      by (simp add: MD5Transform_rfc)
    have "length (m @ d) mod 64 = length (drop (64 - k) d) mod 64"
      using length_absorb_rest [of rfc_compress md5_iv "m @ d"] a A
        length_absorb_rest [of rfc_compress "MD5Transform (m5_buf c) b" "drop (64 - k) d"] by simp
    with fill show ?thesis
      using a fb len count by (simp add: MD5Update_def md5_rep_def Let_def flip: k_def b_def)
  next
    case none
    obtain st r where A: "absorb rfc_compress (m5_buf c) d = (st, r)" by fastforce
    obtain inb where fb: "md5_full_blocks (m5_buf c) (m5_in c) d = (st, inb)"
      "length inb = 64" "take (length d mod 64) inb = r"
      using md5_full_blocks_absorb [OF buf, of "m5_buf c" d] A by auto
    have "length (m @ d) mod 64 = length d mod 64"
      using none k(1) mod_add_left_eq [of "length m" 64 "length d"] by simp
    with none show ?thesis
      using abs' A fb len count by (simp add: MD5Update_def md5_rep_def Let_def flip: k_def)
  qed
qed

lemma bits_le64:
  assumes "unat b0 + 2 ^ 32 * unat (b1 :: u32) = n"
  shows "WPA_PUT_LE32 b0 @ WPA_PUT_LE32 b1 = put_le64 (of_nat n)"
proof -
  have "(of_nat n :: u64) = ucast b0 + push_bit 32 (ucast b1)"
    unfolding assms [symmetric] by (simp add: push_bit_eq_mult)
  also have "\<dots> = ucast b0 OR push_bit 32 (ucast b1)"
    by (rule disjunctive_add) (auto simp: bit_simps)
  finally show ?thesis
    by (simp add: put_le64_def WPA_PUT_BE64_def WPA_PUT_LE32_def word8_eq_iff bit_simps)
qed

lemma MD5Final_rep:
  assumes "md5_rep c m"
  shows "MD5Final c = md5 m"
proof -
  define r where "r = take (length m mod 64) (m5_in c)"
  define e where "e = WPA_PUT_LE32 (m5_bits0 c) @ WPA_PUT_LE32 (m5_bits1 c)"
  have cnt: "unat (m5_bits0 c) + 2 ^ 32 * unat (m5_bits1 c) = 8 * length m"
    and abs: "absorb rfc_compress md5_iv m = (m5_buf c, r)" and r: "length r = length m mod 64"
    using assms by (simp_all add: md5_rep_def r_def)
  have k: "unat (drop_bit 3 (m5_bits0 c) AND 0x3F) = length r" using byte_position [OF cnt] r by simp
  have e: "e = put_le64 (of_nat (8 * length m))" "length e = 8"
    unfolding e_def by (rule bits_le64 [OF cnt]) (simp add: WPA_PUT_LE32_def)
  have hash: "md5 m = md5_out (fst (absorb rfc_compress (m5_buf c)
      (r @ [0x80] @ replicate ((119 - length r) mod 64) 0 @ e)))"
    using abs r e(1) by (simp add: md5_def md_hash_def absorb_md_pad)
  have in_r: "take (length r) (m5_in c) = r" using r by (simp add: r_def)
  show ?thesis
  proof (cases "56 \<le> length r")
    case True
    then have "63 - length r < 8" by linarith
    then show ?thesis
      using True hash absorb_last_two_blocks [OF True _ e(2), of rfc_compress "m5_buf c"] r k in_r
      by (simp add: MD5Final_def Let_def MD5Transform_rfc flip: e_def)
  next
    case False
    then have "length r \<le> 55" "63 - length r - 8 = 55 - length r" "\<not> 63 - length r < 8" by linarith+
    then show ?thesis
      using hash absorb_last_block [OF _ e(2), of r rfc_compress "m5_buf c"] k in_r
      by (simp add: MD5Final_def Let_def MD5Transform_rfc flip: e_def)
  qed
qed

interpretation md5_hash: incremental_hash "MD5Init (replicate 64 0)"
  "\<lambda>c d. MD5Update c d (of_nat (length d))" "\<lambda>c. Some (MD5Final c)" md5_rep md5 "2 ^ 32"
proof
  show "md5_rep (MD5Init (replicate 64 0)) []" by (simp add: md5_rep_def MD5Init_def md5_iv_def)
  show "\<exists>c'. MD5Update c d (of_nat (length d)) = Some c' \<and> md5_rep c' (m @ d)"
    if "md5_rep c m" "length (m @ d) < 2 ^ 32" for c m d
    using MD5Update_rep [OF that(1), of d "of_nat (length d)"] that(2) by (simp add: unat_of_nat)
  show "Some (MD5Final c) = Some (md5 m)" if "md5_rep c m" "length m < 2 ^ 32" for c m
    using MD5Final_rep [OF that(1)] by simp
qed

lemma md5_vector_eq:
  assumes "length (concat addr) < 2 ^ 32"
  shows "md5_vector addr = Some (md5 (concat addr))"
proof -
  have "map_option MD5Final x = x \<bind> (\<lambda>c. Some (MD5Final c))" for x by (cases x) auto
  then show ?thesis using md5_hash.vector_hash [OF assms] by (simp only: md5_vector_def)
qed

text \<open>
  \<open>md5_vector\<close> computes the MD5 of RFC 1321 of the concatenation of its buffers, for every vector
  of fewer than 2^32 bytes in total.
\<close>

theorem md5_vector_correct:
  assumes "length (concat addr) < 2 ^ 32"
  shows "md5_vector addr = Some (md5 (concat addr)) \<and> length (md5 (concat addr)) = 16"
  using md5_vector_eq [OF assms] by simp

theorem md5_vector_correct_witness:
  "md5_vector [[97], [98, 99]] = Some (md5 (concat [[97], [98, 99]])) \<and> length (md5 (concat [[97], [98, 99]])) = 16"
  by (rule md5_vector_correct) simp

end
