(* ===== verification/Hmac.thy ===== *)
theory Hmac
  imports Sha1 Sha256 Md5 Os_Internal
begin

text \<open>
  HMAC over vectors of buffers (\<open>src/drc-hostap/src/crypto/sha1.c\<close>, \<open>md5.c\<close>, \<open>sha256.c\<close>).  A result is the return value with the bytes written to the output buffer.
\<close>

section \<open>HMAC\<close>

text \<open>The three vector functions share one text; \<open>vec\<close> is the hash of a vector with its return value.\<close>

definition hmac_k_pad :: "u8 \<Rightarrow> bytes \<Rightarrow> bytes" where
  "hmac_k_pad x key = map (\<lambda>b. b XOR x) (key @ replicate (64 - length key) 0)"

definition hmac_vector :: "(bytes list \<Rightarrow> (int \<times> bytes) option) \<Rightarrow> bytes \<Rightarrow> bytes list \<Rightarrow> (int \<times> bytes) option" where
  "hmac_vector vec key addr =
     (if 5 < length addr then Some (-1, [])
      else do {
        (r, key) \<leftarrow> (if 64 < length key then vec [key] else Some (0, key));
        if r \<noteq> 0 then Some (-1, [])
        else do {
          (r, mac) \<leftarrow> vec (hmac_k_pad 0x36 key # addr);
          if r \<noteq> 0 then Some (-1, [])
          else vec [hmac_k_pad 0x5c key, mac] } })"

definition hmac_sha1_vector :: "bytes \<Rightarrow> bytes list \<Rightarrow> (int \<times> bytes) option" where
  "hmac_sha1_vector key addr = hmac_vector (\<lambda>a. map_option (Pair 0) (sha1_vector a)) key addr"

definition hmac_sha1 :: "bytes \<Rightarrow> bytes \<Rightarrow> (int \<times> bytes) option" where
  "hmac_sha1 key data = hmac_sha1_vector key [data]"

definition hmac_md5_vector :: "bytes \<Rightarrow> bytes list \<Rightarrow> (int \<times> bytes) option" where
  "hmac_md5_vector key addr = hmac_vector (\<lambda>a. map_option (Pair 0) (md5_vector a)) key addr"

definition hmac_md5 :: "bytes \<Rightarrow> bytes \<Rightarrow> (int \<times> bytes) option" where
  "hmac_md5 key data = hmac_md5_vector key [data]"

definition hmac_sha256_vector :: "bytes \<Rightarrow> bytes list \<Rightarrow> (int \<times> bytes) option" where
  "hmac_sha256_vector key addr = hmac_vector sha256_vector key addr"

definition hmac_sha256 :: "bytes \<Rightarrow> bytes \<Rightarrow> (int \<times> bytes) option" where
  "hmac_sha256 key data = hmac_sha256_vector key [data]"

section \<open>RFC 2104 HMAC\<close>

definition hmac :: "(bytes \<Rightarrow> bytes) \<Rightarrow> bytes \<Rightarrow> bytes \<Rightarrow> bytes" where
  "hmac H key m =
     (let k = (if 64 < length key then H key else key); k0 = k @ replicate (64 - length k) 0
      in H (xor_bytes k0 (replicate 64 0x5c) @ H (xor_bytes k0 (replicate 64 0x36) @ m)))"

lemma hmac_k_pad_xor:
  "length key \<le> 64 \<Longrightarrow> hmac_k_pad x key = xor_bytes (key @ replicate (64 - length key) 0) (replicate 64 x)"
  by (rule nth_equalityI) (simp_all add: hmac_k_pad_def nth_append)

locale vector_hash =
  fixes vec :: "bytes list \<Rightarrow> (int \<times> bytes) option"
    and H :: "bytes \<Rightarrow> bytes"
    and hlen :: nat
  assumes vec_hash: "length (concat addr) < 2 ^ 31 \<Longrightarrow> vec addr = Some (0, H (concat addr))"
    and length_H: "length (H m) = hlen"
    and hlen_le: "hlen \<le> 64"
begin

lemma hmac_vector_eq:
  assumes "length addr \<le> 5" "length (concat addr) < 2 ^ 30" "length key < 2 ^ 30"
  shows "hmac_vector vec key addr = Some (0, hmac H key (concat addr))"
proof -
  have pad: "length k \<le> 64 \<Longrightarrow> length (hmac_k_pad x k) = 64" for k x by (simp add: hmac_k_pad_def)
  define k where "k = (if 64 < length key then H key else key)"
  have k: "length k \<le> 64" using length_H hlen_le by (simp add: k_def)
  have key: "(if 64 < length key then vec [key] else Some (0, key)) = Some (0, k)"
    using vec_hash [of "[key]"] assms(3) by (simp add: k_def)
  have inner: "vec (hmac_k_pad 0x36 k # addr) = Some (0, H (hmac_k_pad 0x36 k @ concat addr))"
    using vec_hash [of "hmac_k_pad 0x36 k # addr"] pad [OF k] assms(2) by simp
  have outer: "vec [hmac_k_pad 0x5c k, H x] = Some (0, H (hmac_k_pad 0x5c k @ H x))" for x
    using vec_hash [of "[hmac_k_pad 0x5c k, H x]"] pad [OF k] length_H hlen_le by simp
  show ?thesis
    unfolding hmac_vector_def key hmac_def k_def [symmetric] Let_def hmac_k_pad_xor [OF k, symmetric]
    using assms(1) inner outer by simp
qed

lemma hmac_vector_limit: "5 < length addr \<Longrightarrow> hmac_vector vec key addr = Some (-1, [])"
  by (simp add: hmac_vector_def)

lemma length_hmac: "length (hmac H key m) = hlen"
  by (simp add: hmac_def Let_def length_H)

end

interpretation vsha1: vector_hash "\<lambda>a. map_option (Pair 0) (sha1_vector a)" sha1 20
  by unfold_locales (simp_all add: sha1_vector_eq)

interpretation vmd5: vector_hash "\<lambda>a. map_option (Pair 0) (md5_vector a)" md5 16
  by unfold_locales (simp_all add: md5_vector_eq)

interpretation vsha256: vector_hash sha256_vector sha256 32
  by unfold_locales (simp_all add: sha256_vector_eq)

lemmas hmac_sha1_vector_eq = vsha1.hmac_vector_eq [folded hmac_sha1_vector_def]
lemmas hmac_md5_vector_eq = vmd5.hmac_vector_eq [folded hmac_md5_vector_def]
lemmas hmac_sha256_vector_eq = vsha256.hmac_vector_eq [folded hmac_sha256_vector_def]

text \<open>
  C28. The three HMAC functions implement RFC 2104 with the standard hashes: for at most five buffers
  they return 0 and the HMAC of the concatenation under keys of any length (longer keys hashed
  first), and -1 for more buffers.
\<close>

theorem hmac_vectors_correct:
  assumes "length (concat addr) < 2 ^ 30" "length key < 2 ^ 30"
  shows "hmac_sha1_vector key addr = Some (if length addr \<le> 5 then (0, hmac sha1 key (concat addr)) else (-1, [])) \<and>
    hmac_md5_vector key addr = Some (if length addr \<le> 5 then (0, hmac md5 key (concat addr)) else (-1, [])) \<and>
    hmac_sha256_vector key addr = Some (if length addr \<le> 5 then (0, hmac sha256 key (concat addr)) else (-1, []))"
proof (cases "length addr \<le> 5")
  case True
  with assms show ?thesis by (simp add: hmac_sha1_vector_eq hmac_md5_vector_eq hmac_sha256_vector_eq)
next
  case False
  then show ?thesis
    by (simp add: hmac_sha1_vector_def hmac_md5_vector_def hmac_sha256_vector_def hmac_vector_def)
qed

theorem hmac_vectors_correct_witness:
  "hmac_sha1_vector [1] [[2], [3]] = Some (if length [[2], [3 :: u8]] \<le> 5 then (0, hmac sha1 [1] (concat [[2], [3]])) else (-1, [])) \<and>
    hmac_md5_vector [1] [[2], [3]] = Some (if length [[2], [3 :: u8]] \<le> 5 then (0, hmac md5 [1] (concat [[2], [3]])) else (-1, [])) \<and>
    hmac_sha256_vector [1] [[2], [3]] = Some (if length [[2], [3 :: u8]] \<le> 5 then (0, hmac sha256 [1] (concat [[2], [3]])) else (-1, []))"
  by (rule hmac_vectors_correct) simp_all

end
