(* ===== verification/Prf.thy ===== *)
theory Prf
  imports Hmac
begin

text \<open>
  The key expansions built on HMAC (\<open>src/drc-hostap/src/crypto/sha1-prf.c\<close>, \<open>sha256-prf.c\<close>,
  \<open>sha1-pbkdf2.c\<close>, \<open>sha1-tprf.c\<close>, \<open>sha1-tlsprf.c\<close>, \<open>sha256-tlsprf.c\<close>), their specifications after
  IEEE 802.11, RFC 2898 and RFC 5246, and the equality of the two.
\<close>

section \<open>Key expansion\<close>

text \<open>\<open>sha1_prf\<close>: the label with its NUL, the data and a one-byte counter; \<open>left\<close> is \<open>buf_len - pos\<close>.\<close>

function sha1_prf_loop :: "bytes \<Rightarrow> bytes \<Rightarrow> bytes \<Rightarrow> u8 \<Rightarrow> nat \<Rightarrow> (int \<times> bytes) option" where
  "sha1_prf_loop key label data counter left =
     (if left = 0 then Some (0, [])
      else do {
        (r, hash) \<leftarrow> hmac_sha1_vector key [label, data, [counter]];
        if r \<noteq> 0 then Some (-1, [])
        else if 20 \<le> left then do {
          (r, rest) \<leftarrow> sha1_prf_loop key label data (counter + 1) (left - 20);
          Some (r, hash @ rest) }
        else Some (0, take left hash) })"
  by pat_completeness auto
termination
  by (relation "measure (\<lambda>(key, label, data, counter, left). left)") auto

declare sha1_prf_loop.simps [simp del]

definition sha1_prf :: "bytes \<Rightarrow> bytes \<Rightarrow> bytes \<Rightarrow> nat \<Rightarrow> (int \<times> bytes) option" where
  "sha1_prf key label data buf_len = do {
     n \<leftarrow> os_strlen label;
     sha1_prf_loop key (take (n + 1) label) data 0 buf_len }"

text \<open>\<open>sha256_prf_bits\<close>: a 16-bit counter in front and the length in bits behind.\<close>

function sha256_prf_loop :: "bytes \<Rightarrow> bytes \<Rightarrow> bytes \<Rightarrow> bytes \<Rightarrow> u16 \<Rightarrow> nat \<Rightarrow> bytes option" where
  "sha256_prf_loop key label data length_le counter left =
     (if left = 0 then Some []
      else do {
        (r, hash) \<leftarrow> hmac_sha256_vector key [WPA_PUT_LE16 counter, label, data, length_le];
        if 32 \<le> left then do {
          rest \<leftarrow> sha256_prf_loop key label data length_le (counter + 1) (left - 32);
          Some (hash @ rest) }
        else Some (take left hash) })"
  by pat_completeness auto
termination
  by (relation "measure (\<lambda>(key, label, data, length_le, counter, left). left)") auto

declare sha256_prf_loop.simps [simp del]

definition sha256_prf_bits :: "bytes \<Rightarrow> bytes \<Rightarrow> bytes \<Rightarrow> nat \<Rightarrow> bytes option" where
  "sha256_prf_bits key label data buf_len_bits = do {
     n \<leftarrow> os_strlen label;
     let buf_len = (buf_len_bits + 7) div 8;
     buf \<leftarrow> sha256_prf_loop key (take n label) data (WPA_PUT_LE16 (of_nat buf_len_bits)) 1 buf_len;
     Some (if buf_len_bits mod 8 \<noteq> 0
           then buf[buf_len - 1 := buf ! (buf_len - 1) AND push_bit (8 - buf_len_bits mod 8) 0xff]
           else buf) }"

definition sha256_prf :: "bytes \<Rightarrow> bytes \<Rightarrow> bytes \<Rightarrow> nat \<Rightarrow> bytes option" where
  "sha256_prf key label data buf_len = sha256_prf_bits key label data (buf_len * 8)"

section \<open>Password-based keys\<close>

text \<open>\<open>i\<close> more iterations, with \<open>tmp\<close> the last block and \<open>digest\<close> the sum so far.\<close>

fun pbkdf2_iterate :: "bytes \<Rightarrow> nat \<Rightarrow> bytes \<Rightarrow> bytes \<Rightarrow> (int \<times> bytes) option" where
  "pbkdf2_iterate pass 0 tmp digest = Some (0, digest)"
| "pbkdf2_iterate pass (Suc i) tmp digest = do {
     (r, tmp2) \<leftarrow> hmac_sha1 pass tmp;
     if r \<noteq> 0 then Some (-1, digest)
     else pbkdf2_iterate pass i tmp2 (xor_bytes digest tmp2) }"

definition pbkdf2_sha1_f :: "bytes \<Rightarrow> bytes \<Rightarrow> nat \<Rightarrow> u32 \<Rightarrow> (int \<times> bytes) option" where
  "pbkdf2_sha1_f passphrase ssid iterations count = do {
     n \<leftarrow> os_strlen passphrase;
     let pass = take n passphrase;
     (r, tmp) \<leftarrow> hmac_sha1_vector pass [ssid, WPA_PUT_BE32 count];
     if r \<noteq> 0 then Some (-1, [])
     else pbkdf2_iterate pass (iterations - 1) tmp tmp }"

function pbkdf2_loop :: "bytes \<Rightarrow> bytes \<Rightarrow> nat \<Rightarrow> u32 \<Rightarrow> nat \<Rightarrow> (int \<times> bytes) option" where
  "pbkdf2_loop passphrase ssid iterations count left =
     (if left = 0 then Some (0, [])
      else do {
        let count = count + 1;
        (r, digest) \<leftarrow> pbkdf2_sha1_f passphrase ssid iterations count;
        if r \<noteq> 0 then Some (-1, [])
        else do {
          (r, rest) \<leftarrow> pbkdf2_loop passphrase ssid iterations count (left - 20);
          Some (r, take (min 20 left) digest @ rest) } })"
  by pat_completeness auto
termination
  by (relation "measure (\<lambda>(passphrase, ssid, iterations, count, left). left)") auto

declare pbkdf2_loop.simps [simp del]

definition pbkdf2_sha1 :: "bytes \<Rightarrow> bytes \<Rightarrow> nat \<Rightarrow> nat \<Rightarrow> (int \<times> bytes) option" where
  "pbkdf2_sha1 passphrase ssid iterations buflen = pbkdf2_loop passphrase ssid iterations 0 buflen"

section \<open>EAP-FAST and TLS key expansion\<close>

text \<open>\<open>hash\<close> is the output of the previous round, empty in the first one.\<close>

function sha1_t_prf_loop :: "bytes \<Rightarrow> bytes \<Rightarrow> bytes \<Rightarrow> bytes \<Rightarrow> bytes \<Rightarrow> u8 \<Rightarrow> nat \<Rightarrow> (int \<times> bytes) option" where
  "sha1_t_prf_loop key hash label seed output_len counter left =
     (if left = 0 then Some (0, [])
      else do {
        let counter = counter + 1;
        (r, hash) \<leftarrow> hmac_sha1_vector key [hash, label, seed, output_len, [counter]];
        if r \<noteq> 0 then Some (-1, [])
        else if 20 \<le> left then do {
          (r, rest) \<leftarrow> sha1_t_prf_loop key hash label seed output_len counter (left - 20);
          Some (r, hash @ rest) }
        else Some (0, take left hash) })"
  by pat_completeness auto
termination
  by (relation "measure (\<lambda>(key, hash, label, seed, output_len, counter, left). left)") auto

declare sha1_t_prf_loop.simps [simp del]

definition sha1_t_prf :: "bytes \<Rightarrow> bytes \<Rightarrow> bytes \<Rightarrow> nat \<Rightarrow> (int \<times> bytes) option" where
  "sha1_t_prf key label seed buf_len = do {
     n \<leftarrow> os_strlen label;
     sha1_t_prf_loop key [] (take (n + 1) label) seed
       [of_nat (buf_len div 256), of_nat buf_len] 0 buf_len }"

function tls_prf_sha256_loop :: "bytes \<Rightarrow> bytes \<Rightarrow> bytes \<Rightarrow> bytes \<Rightarrow> nat \<Rightarrow> bytes option" where
  "tls_prf_sha256_loop secret A label seed left =
     (if left = 0 then Some []
      else do {
        (r, P) \<leftarrow> hmac_sha256_vector secret [A, label, seed];
        (r, A) \<leftarrow> hmac_sha256 secret A;
        rest \<leftarrow> tls_prf_sha256_loop secret A label seed (left - 32);
        Some (take (min 32 left) P @ rest) })"
  by pat_completeness auto
termination
  by (relation "measure (\<lambda>(secret, A, label, seed, left). left)") auto

declare tls_prf_sha256_loop.simps [simp del]

definition tls_prf_sha256 :: "bytes \<Rightarrow> bytes \<Rightarrow> bytes \<Rightarrow> nat \<Rightarrow> bytes option" where
  "tls_prf_sha256 secret label seed outlen = do {
     n \<leftarrow> os_strlen label;
     (r, A) \<leftarrow> hmac_sha256_vector secret [take n label, seed];
     tls_prf_sha256_loop secret A (take n label) seed outlen }"


text \<open>The state of the loop of \<open>tls_prf_sha1_md5\<close>: for each hash the chaining value, the current block
  and the position in it.\<close>

fun tls_prf_refill :: "(bytes \<Rightarrow> bytes list \<Rightarrow> (int \<times> bytes) option) \<Rightarrow> nat \<Rightarrow> bytes \<Rightarrow> bytes \<Rightarrow> bytes \<Rightarrow>
    bytes \<times> bytes \<times> nat \<Rightarrow> (bytes \<times> bytes \<times> nat) option" where
  "tls_prf_refill hm mac_len S label seed (A, P, pos) =
     (if pos = mac_len then do {
        (r, P) \<leftarrow> hm S [A, label, seed];
        (r, A) \<leftarrow> hm S [A];
        Some (A, P, 0) }
      else Some (A, P, pos))"

fun tls_prf_sha1_md5_loop :: "bytes \<Rightarrow> bytes \<Rightarrow> bytes \<Rightarrow> bytes \<Rightarrow> nat \<Rightarrow>
    bytes \<times> bytes \<times> nat \<Rightarrow> bytes \<times> bytes \<times> nat \<Rightarrow> bytes option" where
  "tls_prf_sha1_md5_loop S1 S2 label seed 0 m s = Some []"
| "tls_prf_sha1_md5_loop S1 S2 label seed (Suc n) m s = do {
     (A_MD5, P_MD5, MD5_pos) \<leftarrow> tls_prf_refill hmac_md5_vector 16 S1 label seed m;
     (A_SHA1, P_SHA1, SHA1_pos) \<leftarrow> tls_prf_refill hmac_sha1_vector 20 S2 label seed s;
     x \<leftarrow> c_read P_MD5 MD5_pos;
     y \<leftarrow> c_read P_SHA1 SHA1_pos;
     rest \<leftarrow> tls_prf_sha1_md5_loop S1 S2 label seed n (A_MD5, P_MD5, MD5_pos + 1) (A_SHA1, P_SHA1, SHA1_pos + 1);
     Some ((x XOR y) # rest) }"

definition tls_prf_sha1_md5 :: "bytes \<Rightarrow> bytes \<Rightarrow> bytes \<Rightarrow> nat \<Rightarrow> (int \<times> bytes) option" where
  "tls_prf_sha1_md5 secret label seed outlen =
     (if length secret mod 2 = 1 then Some (-1, [])
      else do {
        n \<leftarrow> os_strlen label;
        let L_S = (length secret + 1) div 2;
        let S1 = take L_S secret;
        let S2 = take L_S (drop L_S secret);
        (r, A_MD5) \<leftarrow> hmac_md5_vector S1 [take n label, seed];
        (r, A_SHA1) \<leftarrow> hmac_sha1_vector S2 [take n label, seed];
        out \<leftarrow> tls_prf_sha1_md5_loop S1 S2 (take n label) seed outlen (A_MD5, [], 16) (A_SHA1, [], 20);
        Some (0, out) })"

section \<open>Specification of the key expansions\<close>

text \<open>The first \<open>n\<close> bytes of the blocks \<open>f 0\<close>, \<open>f 1\<close>, \<dots> of \<open>h\<close> bytes each.\<close>

definition expand :: "nat \<Rightarrow> (nat \<Rightarrow> bytes) \<Rightarrow> nat \<Rightarrow> bytes" where
  "expand h f n = map (\<lambda>i. f (i div h) ! (i mod h)) [0..<n]"

lemma length_expand [simp]: "length (expand h f n) = n"
  by (simp add: expand_def)

lemma nth_expand [simp]: "i < n \<Longrightarrow> expand h f n ! i = f (i div h) ! (i mod h)"
  by (simp add: expand_def)

lemma expand_0 [simp]: "expand h f 0 = []"
  by (simp add: expand_def)

lemma expand_last: "n < h \<Longrightarrow> length (f 0) = h \<Longrightarrow> expand h f n = take n (f 0)"
  by (rule nth_equalityI) simp_all

lemma expand_first:
  assumes "h \<le> n" "0 < h" "length (f 0) = h"
  shows "f 0 @ expand h (\<lambda>i. f (Suc i)) (n - h) = expand h f n"
proof (rule nth_equalityI)
  fix i assume "i < length (f 0 @ expand h (\<lambda>i. f (Suc i)) (n - h))"
  with assms have i: "i < n" by simp
  have "h \<le> i \<Longrightarrow> Suc ((i - h) div h) = i div h \<and> (i - h) mod h = i mod h"
    using assms(2) by (simp add: le_div_geq le_mod_geq)
  with i assms show "(f 0 @ expand h (\<lambda>i. f (Suc i)) (n - h)) ! i = expand h f n ! i"
    by (simp add: nth_append)
qed (use assms in simp)

lemma expand_min_first:
  assumes "0 < n" "0 < h" "length (f 0) = h"
  shows "take (min h n) (f 0) @ expand h (\<lambda>i. f (Suc i)) (n - h) = expand h f n"
proof (cases "h \<le> n")
  case True
  then show ?thesis using expand_first [of h n f, OF True assms(2,3)] assms(3) by (simp add: min_def)
next
  case False
  then show ?thesis using assms by (simp add: expand_last min_def)
qed

lemma c_str_take:
  assumes "0 \<in> set s"
  shows "os_strlen s = Some (length (c_str s))"
    and "take (length (c_str s)) s = c_str s"
    and "take (Suc (length (c_str s))) s = c_str s @ [0]"
proof -
  let ?r = "drop (length (c_str s) + 1) s"
  have s: "s = c_str s @ 0 # ?r" by (rule c_str_split [OF assms])
  show "os_strlen s = Some (length (c_str s))" by (simp add: os_strlen_correct assms)
  show "take (length (c_str s)) s = c_str s" by (subst (2) s) simp
  show "take (Suc (length (c_str s))) s = c_str s @ [0]" by (subst (2) s) simp
qed

lemmas length_hmac = vsha1.length_hmac vmd5.length_hmac vsha256.length_hmac

lemma sha1_prf_loop_eq:
  assumes "length key < 2 ^ 30" "length label + length data < 2 ^ 30 - 1"
  shows "sha1_prf_loop key label data counter left =
    Some (0, expand 20 (\<lambda>i. hmac sha1 key (label @ data @ [counter + of_nat i])) left)"
proof (induction left arbitrary: counter rule: less_induct)
  case (less left)
  let ?f = "\<lambda>i. hmac sha1 key (label @ data @ [counter + of_nat i])"
  have h: "hmac_sha1_vector key [label, data, [counter]] = Some (0, ?f 0)"
    using assms by (simp add: hmac_sha1_vector_eq)
  have l: "length (?f 0) = 20" by (simp add: length_hmac)
  have IH: "20 \<le> left \<Longrightarrow> sha1_prf_loop key label data (counter + 1) (left - 20) =
      Some (0, expand 20 (\<lambda>i. ?f (Suc i)) (left - 20))"
    using less.IH [of "left - 20" "counter + 1"] by (simp add: add.assoc)
  show ?case
    using IH expand_first [of 20 left ?f, OF _ _ l] expand_last [of left 20 ?f, OF _ l]
    by (subst sha1_prf_loop.simps) (simp add: h)
qed

lemma sha256_prf_loop_eq:
  assumes "length key < 2 ^ 30" "length label + length data + length ll < 2 ^ 30 - 2"
  shows "sha256_prf_loop key label data ll counter left =
    Some (expand 32 (\<lambda>i. hmac sha256 key (WPA_PUT_LE16 (counter + of_nat i) @ label @ data @ ll)) left)"
proof (induction left arbitrary: counter rule: less_induct)
  case (less left)
  let ?f = "\<lambda>i. hmac sha256 key (WPA_PUT_LE16 (counter + of_nat i) @ label @ data @ ll)"
  have h: "hmac_sha256_vector key [WPA_PUT_LE16 counter, label, data, ll] = Some (0, ?f 0)"
    using assms by (simp add: hmac_sha256_vector_eq)
  have l: "length (?f 0) = 32" by (simp add: length_hmac)
  have IH: "32 \<le> left \<Longrightarrow> sha256_prf_loop key label data ll (counter + 1) (left - 32) =
      Some (expand 32 (\<lambda>i. ?f (Suc i)) (left - 32))"
    using less.IH [of "left - 32" "counter + 1"] by (simp add: add.assoc)
  show ?case
    using IH expand_first [of 32 left ?f, OF _ _ l] expand_last [of left 32 ?f, OF _ l]
    by (subst sha256_prf_loop.simps) (simp add: h)
qed

text \<open>RFC 2898: block \<open>i\<close> is the sum of the chain \<open>U\<^sub>1, U\<^sub>2, \<dots>\<close> of \<open>c\<close> HMAC values.\<close>

fun pbkdf2_U :: "bytes \<Rightarrow> bytes \<Rightarrow> nat \<Rightarrow> bytes" where
  "pbkdf2_U pass u 0 = u"
| "pbkdf2_U pass u (Suc j) = hmac sha1 pass (pbkdf2_U pass u j)"

definition pbkdf2_T :: "bytes \<Rightarrow> bytes \<Rightarrow> nat \<Rightarrow> u32 \<Rightarrow> bytes" where
  "pbkdf2_T pass salt c i =
     (let u1 = hmac sha1 pass (salt @ WPA_PUT_BE32 i)
      in fold (\<lambda>j acc. xor_bytes acc (pbkdf2_U pass u1 j)) [1..<c] u1)"

lemma length_pbkdf2_U: "length u = 20 \<Longrightarrow> length (pbkdf2_U pass u j) = 20"
  by (cases j) (simp_all add: length_hmac)

lemma pbkdf2_U_shift: "pbkdf2_U pass (hmac sha1 pass u) j = pbkdf2_U pass u (Suc j)"
  by (induction j) simp_all

lemma pbkdf2_iterate_eq:
  assumes "length pass < 2 ^ 30" "length u = 20"
  shows "pbkdf2_iterate pass i u acc = Some (0, fold (\<lambda>j acc. xor_bytes acc (pbkdf2_U pass u j)) [1..<Suc i] acc)"
  using assms(2)
proof (induction i arbitrary: u acc)
  case (Suc i)
  have "hmac_sha1 pass u = Some (0, hmac sha1 pass u)"
    using assms(1) Suc.prems by (simp add: hmac_sha1_def hmac_sha1_vector_eq)
  moreover have "[1..<Suc (Suc i)] = 1 # map Suc [1..<Suc i]"
    by (simp add: map_Suc_upt upt_conv_Cons)
  ultimately show ?case
    using Suc.IH [of "hmac sha1 pass u"]
    by (simp add: length_hmac pbkdf2_U_shift fold_map comp_def del: upt_Suc)
qed simp

lemma length_pbkdf2_T: "length (pbkdf2_T pass salt c i) = 20"
proof -
  have "length u = 20 \<Longrightarrow> length acc = 20 \<Longrightarrow>
      length (fold (\<lambda>j acc. xor_bytes acc (pbkdf2_U pass u j)) js acc) = 20" for u acc js
    by (induction js arbitrary: acc) (simp_all add: length_pbkdf2_U)
  then show ?thesis by (simp add: pbkdf2_T_def Let_def length_hmac)
qed

lemma pbkdf2_sha1_f_eq:
  assumes "0 \<in> set pass" "length (c_str pass) < 2 ^ 30" "length ssid < 2 ^ 30 - 4"
  shows "pbkdf2_sha1_f pass ssid c i = Some (0, pbkdf2_T (c_str pass) ssid c i)"
proof -
  let ?p = "c_str pass"
  note n = c_str_take(1) [OF assms(1)] and t = c_str_take(2) [OF assms(1)]
  have "hmac_sha1_vector ?p [ssid, WPA_PUT_BE32 i] = Some (0, hmac sha1 ?p (ssid @ WPA_PUT_BE32 i))"
    using assms by (simp add: hmac_sha1_vector_eq)
  moreover have "pbkdf2_iterate ?p (c - 1) u u = Some (0, fold (\<lambda>j acc. xor_bytes acc (pbkdf2_U ?p u j)) [1..<c] u)"
    if "length u = 20" for u
    using pbkdf2_iterate_eq [OF assms(2) that, of "c - 1" u] by (cases c) simp_all
  ultimately show ?thesis
    unfolding pbkdf2_sha1_f_def n by (simp add: t Let_def pbkdf2_T_def length_hmac)
qed

lemma pbkdf2_loop_eq:
  assumes "0 \<in> set pass" "length (c_str pass) < 2 ^ 30" "length ssid < 2 ^ 30 - 4"
  shows "pbkdf2_loop pass ssid c count left =
    Some (0, expand 20 (\<lambda>i. pbkdf2_T (c_str pass) ssid c (count + 1 + of_nat i)) left)"
proof (induction left arbitrary: count rule: less_induct)
  case (less left)
  let ?f = "\<lambda>i. pbkdf2_T (c_str pass) ssid c (count + 1 + of_nat i)"
  have l: "length (?f 0) = 20" by (rule length_pbkdf2_T)
  have "0 < left \<Longrightarrow> pbkdf2_loop pass ssid c (count + 1) (left - 20) =
      Some (0, expand 20 (\<lambda>i. ?f (Suc i)) (left - 20))"
    using less.IH [of "left - 20" "count + 1"] by (simp add: algebra_simps)
  with expand_min_first [of left 20 ?f, OF _ _ l] show ?case
    by (subst pbkdf2_loop.simps) (simp add: pbkdf2_sha1_f_eq [OF assms])
qed

text \<open>RFC 5246: \<open>A(0)\<close> is the seed, \<open>A(i)\<close> the HMAC of \<open>A(i - 1)\<close>, and \<open>P_hash\<close> the HMAC values of
  \<open>A(i)\<close> and the seed.\<close>

fun tls_A :: "(bytes \<Rightarrow> bytes \<Rightarrow> bytes) \<Rightarrow> bytes \<Rightarrow> bytes \<Rightarrow> nat \<Rightarrow> bytes" where
  "tls_A mac S seed 0 = seed"
| "tls_A mac S seed (Suc i) = mac S (tls_A mac S seed i)"

definition P_hash :: "(bytes \<Rightarrow> bytes \<Rightarrow> bytes) \<Rightarrow> nat \<Rightarrow> bytes \<Rightarrow> bytes \<Rightarrow> nat \<Rightarrow> bytes" where
  "P_hash mac h S seed = expand h (\<lambda>i. mac S (tls_A mac S seed (Suc i) @ seed))"

text \<open>What the key expansions use of a keyed MAC over vectors.\<close>

locale vector_mac =
  fixes hm :: "bytes \<Rightarrow> bytes list \<Rightarrow> (int \<times> bytes) option"
    and mac :: "bytes \<Rightarrow> bytes \<Rightarrow> bytes"
    and h :: nat
  assumes hm_mac: "\<lbrakk>length addr \<le> 5; length (concat addr) < 2 ^ 30; length S < 2 ^ 30\<rbrakk>
      \<Longrightarrow> hm S addr = Some (0, mac S (concat addr))"
    and length_mac: "length (mac S m) = h"
    and h_bounds: "0 < h" "h \<le> 64"
begin

lemma length_tls_A: "length (tls_A mac S seed (Suc i)) = h"
  by (simp add: length_mac)

text \<open>The state of one hash before byte \<open>i\<close> of the output.\<close>

fun tls_at :: "bytes \<Rightarrow> bytes \<Rightarrow> nat \<Rightarrow> bytes \<times> bytes \<times> nat \<Rightarrow> bool" where
  "tls_at S ls i (A, P, pos) \<longleftrightarrow>
     (if i mod h = 0 then A = tls_A mac S ls (Suc (i div h)) \<and> pos = h
      else A = tls_A mac S ls (Suc (Suc (i div h))) \<and>
        P = mac S (tls_A mac S ls (Suc (i div h)) @ ls) \<and> pos = i mod h)"

lemma refill_at:
  assumes "tls_at S (label @ seed) i st" "length S < 2 ^ 30" "length label + length seed < 2 ^ 30 - 64"
  shows "tls_prf_refill hm h S label seed st =
    Some (tls_A mac S (label @ seed) (Suc (Suc (i div h))),
      mac S (tls_A mac S (label @ seed) (Suc (i div h)) @ label @ seed), i mod h)"
proof -
  obtain A P pos where st: "st = (A, P, pos)" by (cases st)
  have lt: "i mod h < h" using h_bounds by simp
  show ?thesis
  proof (cases "i mod h = 0")
    case True
    have l: "length A = h" using assms(1) True length_tls_A [of S "label @ seed" "i div h"] by (simp add: st)
    have "hm S [A, label, seed] = Some (0, mac S (A @ label @ seed))" "hm S [A] = Some (0, mac S A)"
      using hm_mac [of "[A, label, seed]" S] hm_mac [of "[A]" S] assms(2,3) l h_bounds by simp_all
    with assms(1) True show ?thesis by (simp add: st)
  next
    case False
    with assms(1) lt show ?thesis by (auto simp add: st)
  qed
qed

lemma advance_at:
  "tls_at S ls (Suc i) (tls_A mac S ls (Suc (Suc (i div h))),
      mac S (tls_A mac S ls (Suc (i div h)) @ ls), Suc (i mod h))"
  using h_bounds by (simp add: mod_Suc div_Suc del: tls_A.simps)

end

interpretation mac_sha1: vector_mac hmac_sha1_vector "hmac sha1" 20
  by unfold_locales (simp_all add: hmac_sha1_vector_eq length_hmac)

interpretation mac_md5: vector_mac hmac_md5_vector "hmac md5" 16
  by unfold_locales (simp_all add: hmac_md5_vector_eq length_hmac)

interpretation mac_sha256: vector_mac hmac_sha256_vector "hmac sha256" 32
  by unfold_locales (simp_all add: hmac_sha256_vector_eq length_hmac)

lemma tls_prf_sha1_md5_loop_eq:
  assumes "length S1 < 2 ^ 30" "length S2 < 2 ^ 30" "length label + length seed < 2 ^ 30 - 64"
    "mac_md5.tls_at S1 (label @ seed) k m" "mac_sha1.tls_at S2 (label @ seed) k s"
  shows "tls_prf_sha1_md5_loop S1 S2 label seed n m s =
    Some (map (\<lambda>i. P_hash (hmac md5) 16 S1 (label @ seed) (Suc i) ! i XOR P_hash (hmac sha1) 20 S2 (label @ seed) (Suc i) ! i)
      [k..<k + n])"
  using assms(4,5)
proof (induction n arbitrary: k m s)
  case (Suc n)
  note rm = mac_md5.refill_at [OF Suc.prems(1) assms(1,3)]
  note rs = mac_sha1.refill_at [OF Suc.prems(2) assms(2,3)]
  have len: "length (hmac md5 a b) = 16" "length (hmac sha1 a b) = 20" for a b
    by (simp_all add: length_hmac)
  have "[k..<k + Suc n] = k # [Suc k..<Suc k + n]" by (simp add: upt_conv_Cons)
  moreover note Suc.IH [OF mac_md5.advance_at [of S1 "label @ seed" k] mac_sha1.advance_at [of S2 "label @ seed" k]]
  ultimately show ?case
    by (simp add: rm rs len P_hash_def del: tls_A.simps upt_Suc)
qed simp

lemma tls_prf_sha256_loop_eq:
  assumes "length S < 2 ^ 30" "length label + length seed < 2 ^ 30 - 32"
  shows "tls_prf_sha256_loop S (tls_A (hmac sha256) S (label @ seed) (Suc k)) label seed left =
    Some (expand 32 (\<lambda>i. hmac sha256 S (tls_A (hmac sha256) S (label @ seed) (Suc (k + i)) @ label @ seed)) left)"
proof (induction left arbitrary: k rule: less_induct)
  case (less left)
  let ?A = "tls_A (hmac sha256) S (label @ seed)"
  let ?f = "\<lambda>i. hmac sha256 S (?A (Suc (k + i)) @ label @ seed)"
  have h: "hmac_sha256_vector S [?A (Suc k), label, seed] = Some (0, ?f 0)"
    using assms mac_sha256.length_tls_A [of S "label @ seed" k] by (simp add: hmac_sha256_vector_eq del: tls_A.simps)
  have a: "hmac_sha256 S (?A (Suc k)) = Some (0, ?A (Suc (Suc k)))"
    using assms mac_sha256.length_tls_A [of S "label @ seed" k]
    by (simp add: hmac_sha256_def hmac_sha256_vector_eq tls_A.simps(2) [of _ _ _ "Suc k"] del: tls_A.simps)
  have l: "length (?f 0) = 32" by (simp add: length_hmac)
  have "0 < left \<Longrightarrow> tls_prf_sha256_loop S (?A (Suc (Suc k))) label seed (left - 32) =
      Some (expand 32 (\<lambda>i. ?f (Suc i)) (left - 32))"
    using less.IH [of "left - 32" "Suc k"] by (simp del: tls_A.simps)
  with expand_min_first [of left 32 ?f, OF _ _ l] show ?case
    by (subst tls_prf_sha256_loop.simps) (simp add: h a del: tls_A.simps)
qed

section \<open>The key expansions are the standard ones\<close>

text \<open>
  C30. \<open>sha1_prf\<close> is the PRF of IEEE 802.11i: byte \<open>i\<close> of the output is byte \<open>i mod 20\<close> of the HMAC-SHA1
  of the label, a zero byte, the data and the block number \<open>i div 20\<close>, for every output length (the
  block number wraps at 256).
\<close>

theorem sha1_prf_correct:
  assumes "0 \<in> set label" "length key < 2 ^ 30" "length (c_str label) + length data < 2 ^ 30 - 2"
  shows "sha1_prf key label data n =
    Some (0, expand 20 (\<lambda>i. hmac sha1 key (c_str label @ [0] @ data @ [of_nat i])) n)"
proof -
  have "sha1_prf_loop key (c_str label @ [0]) data 0 n =
      Some (0, expand 20 (\<lambda>i. hmac sha1 key ((c_str label @ [0]) @ data @ [0 + of_nat i])) n)"
    using assms(2,3) by (intro sha1_prf_loop_eq) simp_all
  then show ?thesis by (simp add: sha1_prf_def c_str_take [OF assms(1)])
qed

theorem sha1_prf_correct_witness:
  "sha1_prf [1] [0x61, 0] [2] 25 =
    Some (0, expand 20 (\<lambda>i. hmac sha1 [1] (c_str [0x61, 0] @ [0] @ [2] @ [of_nat i])) 25)"
  by (rule sha1_prf_correct) simp_all

text \<open>
  \<open>sha256_prf_bits\<close> is the key derivation function of IEEE 802.11r: the HMAC-SHA256 blocks of the
  counter from 1, the label, the data and the length in bits, cut to the wanted number of bits; the
  unused low bits of the last byte are cleared.
\<close>

theorem sha256_prf_bits_correct:
  assumes "0 \<in> set label" "length key < 2 ^ 30" "length (c_str label) + length data < 2 ^ 30 - 4"
  shows "\<exists>out. sha256_prf_bits key label data bits = Some out \<and> length out = (bits + 7) div 8 \<and>
    (\<forall>i j. i < length out \<and> j < 8 \<longrightarrow> bit (out ! i) (7 - j) =
      (8 * i + j < bits \<and> bit (hmac sha256 key (WPA_PUT_LE16 (of_nat (i div 32 + 1)) @ c_str label @ data @
        WPA_PUT_LE16 (of_nat bits)) ! (i mod 32)) (7 - j)))"
proof -
  define n where "n = (bits + 7) div 8"
  define f where "f = (\<lambda>i. hmac sha256 key (WPA_PUT_LE16 (1 + of_nat i) @ c_str label @ data @ WPA_PUT_LE16 (of_nat bits)))"
  have loop: "sha256_prf_loop key (c_str label) data (WPA_PUT_LE16 (of_nat bits)) 1 n = Some (expand 32 f n)"
    unfolding f_def using assms(2,3) by (intro sha256_prf_loop_eq) simp_all
  define out where "out = (if bits mod 8 \<noteq> 0
    then (expand 32 f n)[n - 1 := expand 32 f n ! (n - 1) AND push_bit (8 - bits mod 8) 0xff] else expand 32 f n)"
  have run: "sha256_prf_bits key label data bits = Some out"
    unfolding sha256_prf_bits_def c_str_take(1) [OF assms(1)] n_def [symmetric] Let_def
    by (simp add: c_str_take(2) [OF assms(1)] loop out_def)
  obtain q r where qr: "bits = 8 * q + r" "r < 8"
    by (metis mod_less_divisor mult_div_mod_eq zero_less_numeral)
  have n: "n = q + (if r = 0 then 0 else 1)" "bits mod 8 = r" using qr by (auto simp: n_def)
  have bits: "bit (out ! i) (7 - j) = (8 * i + j < bits \<and> bit (f (i div 32) ! (i mod 32)) (7 - j))"
    if "i < n" "j < 8" for i j
  proof (cases "i = n - 1 \<and> bits mod 8 \<noteq> 0")
    case True
    then have "out ! i = f (i div 32) ! (i mod 32) AND push_bit (8 - bits mod 8) 0xff"
      using that by (simp add: out_def)
    moreover have "bit (push_bit (8 - bits mod 8) 0xff :: u8) (7 - j) \<longleftrightarrow> 8 - bits mod 8 \<le> 7 - j"
      using that(2) by (auto simp: bit_push_bit_iff)
    moreover have "8 - bits mod 8 \<le> 7 - j \<longleftrightarrow> 8 * i + j < bits"
    proof -
      have "i = q" "r \<noteq> 0" using True n by auto
      then show ?thesis using that(2) qr(2) unfolding n(2) by (subst qr(1)) linarith
    qed
    ultimately show ?thesis by (auto simp: bit_and_iff)
  next
    case False
    then have "out ! i = f (i div 32) ! (i mod 32)" using that by (auto simp: out_def nth_list_update)
    moreover have "i < q" using False that(1) n by (cases "r = 0") auto
    then have "8 * i + j < bits" using that(2) by (subst qr(1)) linarith
    ultimately show ?thesis by simp
  qed
  have "length out = n" by (simp add: out_def)
  with run bits show ?thesis by (auto simp: n_def f_def)
qed

theorem sha256_prf_bits_correct_witness:
  "\<exists>out. sha256_prf_bits [1] [0x61, 0] [2] 12 = Some out \<and> length out = (12 + 7) div 8 \<and>
    (\<forall>i j. i < length out \<and> j < 8 \<longrightarrow> bit (out ! i) (7 - j) =
      (8 * i + j < 12 \<and> bit (hmac sha256 [1] (WPA_PUT_LE16 (of_nat (i div 32 + 1)) @ c_str [0x61, 0] @ [2] @
        WPA_PUT_LE16 (of_nat 12)) ! (i mod 32)) (7 - j)))"
  by (rule sha256_prf_bits_correct) simp_all

text \<open>
  C29. \<open>pbkdf2_sha1\<close> is PBKDF2 of RFC 2898 with HMAC-SHA1, which turns a passphrase and an SSID into the
  PSK: block \<open>i\<close> of the output is the sum of the \<open>iterations\<close> HMAC values chained from the salt and the
  block number.
\<close>

theorem pbkdf2_sha1_correct:
  assumes "0 \<in> set passphrase" "length (c_str passphrase) < 2 ^ 30" "length ssid < 2 ^ 30 - 4"
  shows "pbkdf2_sha1 passphrase ssid iterations buflen =
    Some (0, expand 20 (\<lambda>i. pbkdf2_T (c_str passphrase) ssid iterations (of_nat (i + 1))) buflen)"
  unfolding pbkdf2_sha1_def pbkdf2_loop_eq [OF assms] by (simp add: add.commute)

theorem pbkdf2_sha1_correct_witness:
  "pbkdf2_sha1 [0x70, 0x77, 0] [0x61] 2 32 =
    Some (0, expand 20 (\<lambda>i. pbkdf2_T (c_str [0x70, 0x77, 0]) [0x61] 2 (of_nat (i + 1))) 32)"
  by (rule pbkdf2_sha1_correct) simp_all

text \<open>
  The TLS key expansions are those of RFC 2246 and RFC 5246: \<open>tls_prf_sha256\<close> is \<open>P_hash\<close> with
  HMAC-SHA256 over label and seed, and \<open>tls_prf_sha1_md5\<close> the XOR of \<open>P_hash\<close> with HMAC-MD5 under the
  first and with HMAC-SHA1 under the second half of a secret of even length; an odd length gives -1.
\<close>

theorem tls_prf_correct:
  assumes "0 \<in> set label" "length secret < 2 ^ 30" "length (c_str label) + length seed < 2 ^ 30 - 64"
  shows "tls_prf_sha256 secret label seed n = Some (P_hash (hmac sha256) 32 secret (c_str label @ seed) n) \<and>
    tls_prf_sha1_md5 secret label seed n =
      (if odd (length secret) then Some (-1, [])
       else Some (0, xor_bytes
         (P_hash (hmac md5) 16 (take (length secret div 2) secret) (c_str label @ seed) n)
         (P_hash (hmac sha1) 20 (drop (length secret div 2) secret) (c_str label @ seed) n)))"
proof
  let ?ls = "c_str label @ seed"
  have A: "hmac_sha256_vector secret [c_str label, seed] = Some (0, tls_A (hmac sha256) secret ?ls (Suc 0))"
    using assms(2,3) by (simp add: hmac_sha256_vector_eq)
  show "tls_prf_sha256 secret label seed n = Some (P_hash (hmac sha256) 32 secret ?ls n)"
    using tls_prf_sha256_loop_eq [OF assms(2), of "c_str label" seed 0 n] assms(3)
    by (simp add: tls_prf_sha256_def c_str_take [OF assms(1)] A P_hash_def del: tls_A.simps)
  show "tls_prf_sha1_md5 secret label seed n =
      (if odd (length secret) then Some (-1, [])
       else Some (0, xor_bytes
         (P_hash (hmac md5) 16 (take (length secret div 2) secret) ?ls n)
         (P_hash (hmac sha1) 20 (drop (length secret div 2) secret) ?ls n)))"
  proof (cases "odd (length secret)")
    case True
    then show ?thesis by (simp add: tls_prf_sha1_md5_def odd_iff_mod_2_eq_one)
  next
    case False
    define S1 where "S1 = take (length secret div 2) secret"
    define S2 where "S2 = drop (length secret div 2) secret"
    have L: "(length secret + 1) div 2 = length secret div 2" "length secret mod 2 \<noteq> 1"
      using False by presburger+
    have S2: "take (length secret div 2) S2 = S2"
      using False by (simp add: S2_def) presburger
    have len: "length S1 < 2 ^ 30" "length S2 < 2 ^ 30" using assms(2) by (simp_all add: S1_def S2_def)
    have A1: "hmac_md5_vector S1 [c_str label, seed] = Some (0, tls_A (hmac md5) S1 ?ls (Suc 0))"
      and A2: "hmac_sha1_vector S2 [c_str label, seed] = Some (0, tls_A (hmac sha1) S2 ?ls (Suc 0))"
      using assms(3) len by (simp_all add: hmac_md5_vector_eq hmac_sha1_vector_eq)
    note loop = tls_prf_sha1_md5_loop_eq [OF len assms(3), of 0
        "(tls_A (hmac md5) S1 ?ls (Suc 0), [], 16)" "(tls_A (hmac sha1) S2 ?ls (Suc 0), [], 20)" n]
    have "map (\<lambda>i. P_hash (hmac md5) 16 S1 ?ls (Suc i) ! i XOR P_hash (hmac sha1) 20 S2 ?ls (Suc i) ! i) [0..<0 + n] =
        xor_bytes (P_hash (hmac md5) 16 S1 ?ls n) (P_hash (hmac sha1) 20 S2 ?ls n)"
      by (rule nth_equalityI) (simp_all add: P_hash_def)
    with loop False show ?thesis
      unfolding tls_prf_sha1_md5_def c_str_take(1) [OF assms(1)] L(1) Let_def
      by (simp add: L(2) S1_def [symmetric] S2_def [symmetric] S2 c_str_take(2) [OF assms(1)] A1 A2 del: tls_A.simps)
  qed
qed

theorem tls_prf_correct_witness:
  "tls_prf_sha256 [1, 2] [0x61, 0] [3] 40 = Some (P_hash (hmac sha256) 32 [1, 2] (c_str [0x61, 0] @ [3]) 40) \<and>
    tls_prf_sha1_md5 [1, 2] [0x61, 0] [3] 40 =
      (if odd (length [1, 2 :: u8]) then Some (-1, [])
       else Some (0, xor_bytes
         (P_hash (hmac md5) 16 (take (length [1, 2 :: u8] div 2) [1, 2]) (c_str [0x61, 0] @ [3]) 40)
         (P_hash (hmac sha1) 20 (drop (length [1, 2 :: u8] div 2) [1, 2]) (c_str [0x61, 0] @ [3]) 40)))"
  by (rule tls_prf_correct) simp_all

end
