(* ===== verification/Wpa_Common.thy ===== *)
theory Wpa_Common
  imports Prf Aes_Mac Common_Util
begin

text \<open>
  Key derivation shared by supplicant and authenticator (first part of
  \<open>src/drc-hostap/src/common/wpa_common.c\<close>): the EAPOL-Key MIC, the pairwise key hierarchy with the
  rotation that \<open>CONFIG_TENDONIN\<close> adds for the gamepad, PMKIDs, and the fast transition keys.
\<close>

section \<open>EAPOL-Key MIC\<close>

text \<open>A string literal of the source: its characters, \<open>c_lit\<close> with the terminating NUL.\<close>

definition lit :: "string \<Rightarrow> bytes" where
  "lit s = map of_char s"

definition c_lit :: "string \<Rightarrow> bytes" where
  "c_lit s = lit s @ [0]"

text \<open>The key descriptor versions.\<close>

abbreviation (input) WPA_KEY_INFO_TYPE_HMAC_MD5_RC4 :: int where "WPA_KEY_INFO_TYPE_HMAC_MD5_RC4 \<equiv> 1"
abbreviation (input) WPA_KEY_INFO_TYPE_HMAC_SHA1_AES :: int where "WPA_KEY_INFO_TYPE_HMAC_SHA1_AES \<equiv> 2"
abbreviation (input) WPA_KEY_INFO_TYPE_AES_128_CMAC :: int where "WPA_KEY_INFO_TYPE_AES_128_CMAC \<equiv> 3"

text \<open>The result is the return value with the bytes stored in \<open>mic\<close>; \<open>key\<close> is read for 16 bytes.\<close>

definition wpa_eapol_key_mic :: "build_config \<Rightarrow> bytes \<Rightarrow> int \<Rightarrow> bytes \<Rightarrow> (int \<times> bytes) option" where
  "wpa_eapol_key_mic cfg key ver buf = do {
     key \<leftarrow> c_slice key 0 16;
     if ver = WPA_KEY_INFO_TYPE_HMAC_MD5_RC4 \<and> \<not> CONFIG_FIPS cfg then hmac_md5 key buf
     else if ver = WPA_KEY_INFO_TYPE_HMAC_SHA1_AES then do {
       (r, hash) \<leftarrow> hmac_sha1 key buf;
       if r \<noteq> 0 then Some (-1, []) else Some (0, take 16 hash) }
     else if ver = WPA_KEY_INFO_TYPE_AES_128_CMAC \<and> (CONFIG_IEEE80211R cfg \<or> CONFIG_IEEE80211W cfg)
     then omac1_aes_128 True key buf
     else Some (-1, []) }"

section \<open>Pairwise key hierarchy\<close>

text \<open>The two halves of \<open>data\<close> are filled in the order \<open>os_memcmp\<close> gives.\<close>

definition ordered_pair :: "bytes \<Rightarrow> bytes \<Rightarrow> nat \<Rightarrow> bytes option" where
  "ordered_pair a b n = do {
     c \<leftarrow> os_memcmp a b n;
     x \<leftarrow> c_slice a 0 n;
     y \<leftarrow> c_slice b 0 n;
     Some (if c < 0 then x @ y else y @ x) }"

text \<open>The three calls under \<open>CONFIG_TENDONIN\<close>: the first three bytes move to the end of the key.\<close>

definition tendonin_rotate :: "bytes \<Rightarrow> bytes option" where
  "tendonin_rotate ptk = do {
     rotate_data \<leftarrow> c_slice ptk 0 3;
     ptk \<leftarrow> os_memmove ptk 0 3 (length ptk - 3);
     Some (take (length ptk - 3) ptk @ rotate_data) }"

definition wpa_pmk_to_ptk :: "build_config \<Rightarrow> bytes \<Rightarrow> bytes \<Rightarrow> bytes \<Rightarrow> bytes \<Rightarrow> bytes \<Rightarrow> bytes \<Rightarrow> nat \<Rightarrow>
    bool \<Rightarrow> bytes option" where
  "wpa_pmk_to_ptk cfg pmk label addr1 addr2 nonce1 nonce2 ptk_len use_sha256 = do {
     addrs \<leftarrow> ordered_pair addr1 addr2 6;
     nonces \<leftarrow> ordered_pair nonce1 nonce2 32;
     let data = addrs @ nonces;
     ptk \<leftarrow> (if CONFIG_IEEE80211W cfg \<and> use_sha256 then sha256_prf pmk label data ptk_len
             else map_option snd (sha1_prf pmk label data ptk_len));
     if CONFIG_TENDONIN cfg then tendonin_rotate ptk else Some ptk }"

definition rsn_pmkid :: "build_config \<Rightarrow> bytes \<Rightarrow> bytes \<Rightarrow> bytes \<Rightarrow> bool \<Rightarrow> bytes option" where
  "rsn_pmkid cfg pmk aa spa use_sha256 = do {
     aa \<leftarrow> c_slice aa 0 6;
     spa \<leftarrow> c_slice spa 0 6;
     let addr = [lit ''PMK Name'', aa, spa];
     (r, hash) \<leftarrow> (if CONFIG_IEEE80211W cfg \<and> use_sha256 then hmac_sha256_vector pmk addr
                   else hmac_sha1_vector pmk addr);
     Some (take 16 hash) }"

section \<open>Fast transition keys\<close>

text \<open>\<open>None\<close> inside: the early return that leaves the output buffers alone.\<close>

definition wpa_derive_pmk_r0 :: "bytes \<Rightarrow> bytes \<Rightarrow> bytes \<Rightarrow> bytes \<Rightarrow> bytes \<Rightarrow> (bytes \<times> bytes) option option" where
  "wpa_derive_pmk_r0 xxkey ssid mdid r0kh_id s0kh_id =
     (if 32 < length ssid \<or> 48 < length r0kh_id then Some None
      else do {
        mdid \<leftarrow> c_slice mdid 0 2;
        s0kh_id \<leftarrow> c_slice s0kh_id 0 6;
        let buf = [of_nat (length ssid)] @ ssid @ mdid @ [of_nat (length r0kh_id)] @ r0kh_id @ s0kh_id;
        r0_key_data \<leftarrow> sha256_prf xxkey (c_lit ''FT-R0'') buf 48;
        (r, hash) \<leftarrow> sha256_vector [lit ''FT-R0N'', take 16 (drop 32 r0_key_data)];
        Some (Some (take 32 r0_key_data, take 16 hash)) })"

definition wpa_derive_pmk_r1_name :: "bytes \<Rightarrow> bytes \<Rightarrow> bytes \<Rightarrow> bytes option" where
  "wpa_derive_pmk_r1_name pmk_r0_name r1kh_id s1kh_id = do {
     pmk_r0_name \<leftarrow> c_slice pmk_r0_name 0 16;
     r1kh_id \<leftarrow> c_slice r1kh_id 0 6;
     s1kh_id \<leftarrow> c_slice s1kh_id 0 6;
     (r, hash) \<leftarrow> sha256_vector [lit ''FT-R1N'', pmk_r0_name, r1kh_id, s1kh_id];
     Some (take 16 hash) }"

definition wpa_derive_pmk_r1 :: "bytes \<Rightarrow> bytes \<Rightarrow> bytes \<Rightarrow> bytes \<Rightarrow> (bytes \<times> bytes) option" where
  "wpa_derive_pmk_r1 pmk_r0 pmk_r0_name r1kh_id s1kh_id = do {
     pmk_r0 \<leftarrow> c_slice pmk_r0 0 32;
     r1 \<leftarrow> c_slice r1kh_id 0 6;
     s1 \<leftarrow> c_slice s1kh_id 0 6;
     pmk_r1 \<leftarrow> sha256_prf pmk_r0 (c_lit ''FT-R1'') (r1 @ s1) 32;
     pmk_r1_name \<leftarrow> wpa_derive_pmk_r1_name pmk_r0_name r1kh_id s1kh_id;
     Some (pmk_r1, pmk_r1_name) }"

definition wpa_pmk_r1_to_ptk :: "bytes \<Rightarrow> bytes \<Rightarrow> bytes \<Rightarrow> bytes \<Rightarrow> bytes \<Rightarrow> bytes \<Rightarrow> nat \<Rightarrow>
    (bytes \<times> bytes) option" where
  "wpa_pmk_r1_to_ptk pmk_r1 snonce anonce sta_addr bssid pmk_r1_name ptk_len = do {
     pmk_r1 \<leftarrow> c_slice pmk_r1 0 32;
     snonce \<leftarrow> c_slice snonce 0 32;
     anonce \<leftarrow> c_slice anonce 0 32;
     bssid \<leftarrow> c_slice bssid 0 6;
     sta_addr \<leftarrow> c_slice sta_addr 0 6;
     ptk \<leftarrow> sha256_prf pmk_r1 (c_lit ''FT-PTK'') (snonce @ anonce @ bssid @ sta_addr) ptk_len;
     pmk_r1_name \<leftarrow> c_slice pmk_r1_name 0 16;
     (r, hash) \<leftarrow> sha256_vector [pmk_r1_name, lit ''FT-PTKN'', snonce, anonce, bssid, sta_addr];
     Some (ptk, take 16 hash) }"

text \<open>The elements of \<open>wpa_ft_mic\<close>; an absent one is NULL. \<open>mem\<close> is the result of the allocation. The
  buffer holds every element that is present, the MIC field of the FTIE cleared.\<close>

definition wpa_ft_mic :: "bool \<Rightarrow> bytes \<Rightarrow> bytes \<Rightarrow> bytes \<Rightarrow> u8 \<Rightarrow> bytes option \<Rightarrow> bytes option \<Rightarrow>
    bytes option \<Rightarrow> bytes option \<Rightarrow> (int \<times> bytes) option" where
  "wpa_ft_mic mem kck sta_addr ap_addr transaction_seqnum mdie ftie rsnie ric =
     (if \<not> mem then Some (-1, [])
      else do {
        sta_addr \<leftarrow> c_slice sta_addr 0 6;
        ap_addr \<leftarrow> c_slice ap_addr 0 6;
        let buf = sta_addr @ ap_addr @ [transaction_seqnum] @
          (case rsnie of None \<Rightarrow> [] | Some e \<Rightarrow> e) @ (case mdie of None \<Rightarrow> [] | Some e \<Rightarrow> e);
        case ftie of
          Some e \<Rightarrow>
            (if length e < 2 + 82 then Some (-1, [])
             else do {
               e \<leftarrow> os_memset e 4 0 16;
               omac1_aes_128 True kck (buf @ e @ (case ric of None \<Rightarrow> [] | Some e \<Rightarrow> e)) })
        | None \<Rightarrow> omac1_aes_128 True kck (buf @ (case ric of None \<Rightarrow> [] | Some e \<Rightarrow> e)) })"

section \<open>Order of addresses and nonces\<close>

lemma be_val_Cons: "be_val (x # xs) = unat x * 256 ^ length xs + be_val xs"
  by (induction xs rule: rev_induct) (simp_all add: be_val_snoc be_val_def [of "[_]"] be_val_def [of "[]"] algebra_simps
      flip: append_Cons)

lemma be_val_Cons_less:
  assumes "length xs = length ys" "x \<noteq> y"
  shows "be_val (x # xs) < be_val (y # ys) \<longleftrightarrow> unat x < unat y"
proof -
  have mono: "unat a < unat b \<Longrightarrow> length as = length bs \<Longrightarrow> be_val (a # as) < be_val (b # bs)" for a b as bs
  proof -
    assume "unat a < unat b" and l: "length as = length bs"
    then have "(unat a + 1) * 256 ^ length bs \<le> unat b * 256 ^ length bs" by (intro mult_right_mono) simp_all
    then show ?thesis using be_val_less [of as] l by (simp add: be_val_Cons algebra_simps)
  qed
  show ?thesis
    using mono [of x y xs ys] mono [of y x ys xs] assms by (metis less_asym linorder_neqE_nat word_unat_eq_iff)
qed

lemma os_memcmp_order:
  "length a = n \<Longrightarrow> length b = n \<Longrightarrow> \<exists>c. os_memcmp a b n = Some c \<and> (c < 0 \<longleftrightarrow> be_val a < be_val b)"
proof (induction a b n rule: os_memcmp.induct)
  case (2 x p1 y p2 n)
  show ?case
  proof (cases "x = y")
    case True
    with 2 show ?thesis by (simp add: be_val_Cons)
  next
    case False
    with 2 be_val_Cons_less [of p1 p2 x y] show ?thesis by (simp add: word_less_def [symmetric] word_less_nat_alt [symmetric])
  qed
qed simp_all

lemma ordered_pair_commute: "ordered_pair a b n = ordered_pair b a n"
proof (cases "n \<le> length a \<and> n \<le> length b")
  case True
  then obtain c where c: "os_memcmp a b n = Some c" "c = 0 \<longleftrightarrow> take n a = take n b"
    using os_memcmp_correct by blast
  then have "os_memcmp b a n = Some (- c)" using True os_memcmp_swap [of n a b] by simp
  with c True show ?thesis by (auto simp: ordered_pair_def)
next
  case False
  then have "ordered_pair a b n = None" "ordered_pair b a n = None"
    by (auto simp: ordered_pair_def bind_eq_None_conv not_le split: option.splits)
  then show ?thesis by simp
qed

text \<open>The order of the standard: the smaller value, as a big-endian number, first.\<close>

definition min_max :: "bytes \<Rightarrow> bytes \<Rightarrow> bytes" where
  "min_max a b = (if be_val a < be_val b then a @ b else b @ a)"

lemma ordered_pair_eq: "\<lbrakk>length a = n; length b = n\<rbrakk> \<Longrightarrow> ordered_pair a b n = Some (min_max a b)"
  using os_memcmp_order [of a n b] by (auto simp: ordered_pair_def min_max_def)

lemma tendonin_rotate_eq: "3 \<le> length ptk \<Longrightarrow> tendonin_rotate ptk = Some (rotate 3 ptk)"
  by (cases "length ptk = 3")
    (simp_all add: tendonin_rotate_def os_memmove_copied copied_def rotate_drop_take)

section \<open>Key agreement\<close>

text \<open>The PTK of IEEE 802.11i, 8.5.1.2: the PRF over the ordered addresses and nonces.\<close>

definition ptk_80211 :: "bytes \<Rightarrow> bytes \<Rightarrow> bytes \<Rightarrow> bytes \<Rightarrow> bytes \<Rightarrow> bytes \<Rightarrow> nat \<Rightarrow> bytes" where
  "ptk_80211 pmk label a1 a2 n1 n2 len =
     expand 20 (\<lambda>i. hmac sha1 pmk (label @ [0] @ min_max a1 a2 @ min_max n1 n2 @ [of_nat i])) len"

lemma wpa_eapol_key_mic_eq:
  assumes "length key = 16" "length buf < 2 ^ 30"
  shows "wpa_eapol_key_mic cfg key ver buf = Some
    (if ver = 1 \<and> \<not> CONFIG_FIPS cfg then (0, hmac md5 key buf)
     else if ver = 2 then (0, take 16 (hmac sha1 key buf))
     else if ver = 3 \<and> (CONFIG_IEEE80211R cfg \<or> CONFIG_IEEE80211W cfg) then (0, cmac (aes_E key) buf)
     else (-1, []))"
  using assms by (simp add: wpa_eapol_key_mic_def hmac_md5_def hmac_sha1_def hmac_md5_vector_eq
      hmac_sha1_vector_eq omac1_eq)

text \<open>
  C9. The two sides of the four-way handshake compute the same pairwise transient key: exchanging the
  roles of the addresses, of the nonces, or of both changes nothing, in every build configuration
  and for every length, also when an access would be outside a buffer.
\<close>

theorem wpa_pmk_to_ptk_agreement:
  "wpa_pmk_to_ptk cfg pmk label aa spa anonce snonce len u =
     wpa_pmk_to_ptk cfg pmk label spa aa snonce anonce len u \<and>
   wpa_pmk_to_ptk cfg pmk label aa spa anonce snonce len u =
     wpa_pmk_to_ptk cfg pmk label spa aa anonce snonce len u"
  unfolding wpa_pmk_to_ptk_def ordered_pair_commute [of aa] ordered_pair_commute [of anonce] by simp

text \<open>
  C10. With the SHA-1 based PRF \<open>wpa_pmk_to_ptk\<close> computes the key of IEEE 802.11i; a build with
  \<open>CONFIG_TENDONIN\<close>, which talks to the gamepad, computes the same key rotated left by three bytes.
\<close>

theorem wpa_pmk_to_ptk_correct:
  assumes "length a1 = 6" "length a2 = 6" "length n1 = 32" "length n2 = 32"
    and "length pmk < 2 ^ 30" "0 \<in> set label" "length (c_str label) < 2 ^ 29"
    and "3 \<le> len" "\<not> (CONFIG_IEEE80211W cfg \<and> u)"
  shows "wpa_pmk_to_ptk cfg pmk label a1 a2 n1 n2 len u =
    Some (let ptk = ptk_80211 pmk (c_str label) a1 a2 n1 n2 len in if CONFIG_TENDONIN cfg then rotate 3 ptk else ptk)"
proof -
  let ?d = "min_max a1 a2 @ min_max n1 n2"
  have len: "length ?d = 76" using assms(1-4) by (simp add: min_max_def)
  have "sha1_prf_loop pmk (c_str label @ [0]) ?d 0 len =
      Some (0, expand 20 (\<lambda>i. hmac sha1 pmk ((c_str label @ [0]) @ ?d @ [0 + of_nat i])) len)"
    using assms(5,7) len by (intro sha1_prf_loop_eq) simp_all
  then have "sha1_prf pmk label ?d len = Some (0, ptk_80211 pmk (c_str label) a1 a2 n1 n2 len)"
    by (simp add: sha1_prf_def c_str_take [OF assms(6)] ptk_80211_def)
  moreover have "length (ptk_80211 pmk (c_str label) a1 a2 n1 n2 len) = len" by (simp add: ptk_80211_def)
  ultimately show ?thesis
    using assms(8,9) by (auto simp: wpa_pmk_to_ptk_def ordered_pair_eq assms(1-4) tendonin_rotate_eq Let_def)
qed

theorem wpa_pmk_to_ptk_correct_witness:
  "wpa_pmk_to_ptk pc2drc_config (replicate 32 7) [0x50, 0] [1, 2, 3, 4, 5, 6] [1, 2, 3, 4, 5, 7]
      (replicate 32 1) (replicate 32 2) 48 False =
    Some (let ptk = ptk_80211 (replicate 32 7) (c_str [0x50, 0]) [1, 2, 3, 4, 5, 6] [1, 2, 3, 4, 5, 7]
        (replicate 32 1) (replicate 32 2) 48
      in if CONFIG_TENDONIN pc2drc_config then rotate 3 ptk else ptk)"
  by (rule wpa_pmk_to_ptk_correct) (simp_all add: pc2drc_config_def)

end
