(* ===== verification/Wpa_Cipher.thy ===== *)
theory Wpa_Cipher
  imports Wpa_Common
begin

text \<open>
  Cipher and key management suites (\<open>src/drc-hostap/src/common/defs.h\<close>, \<open>wpa_common.h\<close> and the second
  part of \<open>wpa_common.c\<close>): selectors on the wire, their bit masks, the choice of a cipher, and the text
  form of the configuration files. An \<open>int\<close> that holds a mask is a 32-bit word, so that -1 is
  \<open>0xFFFFFFFF\<close>. The selectors of CCMP and PSK depend on \<open>CONFIG_TENDONIN\<close>.
\<close>

section \<open>Constants\<close>

abbreviation (input) WPA_CIPHER_NONE :: u32 where "WPA_CIPHER_NONE \<equiv> 0x01"
abbreviation (input) WPA_CIPHER_WEP40 :: u32 where "WPA_CIPHER_WEP40 \<equiv> 0x02"
abbreviation (input) WPA_CIPHER_WEP104 :: u32 where "WPA_CIPHER_WEP104 \<equiv> 0x04"
abbreviation (input) WPA_CIPHER_TKIP :: u32 where "WPA_CIPHER_TKIP \<equiv> 0x08"
abbreviation (input) WPA_CIPHER_CCMP :: u32 where "WPA_CIPHER_CCMP \<equiv> 0x10"
abbreviation (input) WPA_CIPHER_AES_128_CMAC :: u32 where "WPA_CIPHER_AES_128_CMAC \<equiv> 0x20"
abbreviation (input) WPA_CIPHER_GCMP :: u32 where "WPA_CIPHER_GCMP \<equiv> 0x40"

abbreviation (input) WPA_KEY_MGMT_IEEE8021X :: u32 where "WPA_KEY_MGMT_IEEE8021X \<equiv> 0x0001"
abbreviation (input) WPA_KEY_MGMT_PSK :: u32 where "WPA_KEY_MGMT_PSK \<equiv> 0x0002"
abbreviation (input) WPA_KEY_MGMT_NONE :: u32 where "WPA_KEY_MGMT_NONE \<equiv> 0x0004"
abbreviation (input) WPA_KEY_MGMT_IEEE8021X_NO_WPA :: u32 where "WPA_KEY_MGMT_IEEE8021X_NO_WPA \<equiv> 0x0008"
abbreviation (input) WPA_KEY_MGMT_WPA_NONE :: u32 where "WPA_KEY_MGMT_WPA_NONE \<equiv> 0x0010"
abbreviation (input) WPA_KEY_MGMT_FT_IEEE8021X :: u32 where "WPA_KEY_MGMT_FT_IEEE8021X \<equiv> 0x0020"
abbreviation (input) WPA_KEY_MGMT_FT_PSK :: u32 where "WPA_KEY_MGMT_FT_PSK \<equiv> 0x0040"
abbreviation (input) WPA_KEY_MGMT_IEEE8021X_SHA256 :: u32 where "WPA_KEY_MGMT_IEEE8021X_SHA256 \<equiv> 0x0080"
abbreviation (input) WPA_KEY_MGMT_PSK_SHA256 :: u32 where "WPA_KEY_MGMT_PSK_SHA256 \<equiv> 0x0100"
abbreviation (input) WPA_KEY_MGMT_SAE :: u32 where "WPA_KEY_MGMT_SAE \<equiv> 0x0400"
abbreviation (input) WPA_KEY_MGMT_FT_SAE :: u32 where "WPA_KEY_MGMT_FT_SAE \<equiv> 0x0800"
abbreviation (input) WPA_KEY_MGMT_CCKM :: u32 where "WPA_KEY_MGMT_CCKM \<equiv> 0x4000"

abbreviation (input) WPA_PROTO_WPA :: u32 where "WPA_PROTO_WPA \<equiv> 1"
abbreviation (input) WPA_PROTO_RSN :: u32 where "WPA_PROTO_RSN \<equiv> 2"

text \<open>The selectors of \<open>wpa_common.h\<close>; the values of \<open>RSN_SELECTOR\<close> on their bytes.\<close>

definition RSN_SELECTOR :: "u8 \<Rightarrow> u8 \<Rightarrow> u8 \<Rightarrow> u8 \<Rightarrow> u32" where
  "RSN_SELECTOR a b c d = push_bit 24 (ucast a) OR push_bit 16 (ucast b) OR push_bit 8 (ucast c) OR ucast d"

definition RSN_AUTH_KEY_MGMT_PSK_OVER_802_1X :: "build_config \<Rightarrow> u32" where
  "RSN_AUTH_KEY_MGMT_PSK_OVER_802_1X cfg =
     (if CONFIG_TENDONIN cfg then RSN_SELECTOR 0xa4 0xc0 0xe1 2 else RSN_SELECTOR 0x00 0x0f 0xac 2)"

definition RSN_CIPHER_SUITE_CCMP :: "build_config \<Rightarrow> u32" where
  "RSN_CIPHER_SUITE_CCMP cfg =
     (if CONFIG_TENDONIN cfg then RSN_SELECTOR 0xa4 0xc0 0xe1 4 else RSN_SELECTOR 0x00 0x0f 0xac 4)"

abbreviation (input) WPA_AUTH_KEY_MGMT_NONE :: u32 where "WPA_AUTH_KEY_MGMT_NONE \<equiv> RSN_SELECTOR 0x00 0x50 0xf2 0"
abbreviation (input) WPA_AUTH_KEY_MGMT_UNSPEC_802_1X :: u32 where "WPA_AUTH_KEY_MGMT_UNSPEC_802_1X \<equiv> RSN_SELECTOR 0x00 0x50 0xf2 1"
abbreviation (input) WPA_AUTH_KEY_MGMT_PSK_OVER_802_1X :: u32 where "WPA_AUTH_KEY_MGMT_PSK_OVER_802_1X \<equiv> RSN_SELECTOR 0x00 0x50 0xf2 2"
abbreviation (input) WPA_AUTH_KEY_MGMT_CCKM :: u32 where "WPA_AUTH_KEY_MGMT_CCKM \<equiv> RSN_SELECTOR 0x00 0x40 0x96 0"
abbreviation (input) WPA_CIPHER_SUITE_NONE :: u32 where "WPA_CIPHER_SUITE_NONE \<equiv> RSN_SELECTOR 0x00 0x50 0xf2 0"
abbreviation (input) WPA_CIPHER_SUITE_WEP40 :: u32 where "WPA_CIPHER_SUITE_WEP40 \<equiv> RSN_SELECTOR 0x00 0x50 0xf2 1"
abbreviation (input) WPA_CIPHER_SUITE_TKIP :: u32 where "WPA_CIPHER_SUITE_TKIP \<equiv> RSN_SELECTOR 0x00 0x50 0xf2 2"
abbreviation (input) WPA_CIPHER_SUITE_CCMP :: u32 where "WPA_CIPHER_SUITE_CCMP \<equiv> RSN_SELECTOR 0x00 0x50 0xf2 4"
abbreviation (input) WPA_CIPHER_SUITE_WEP104 :: u32 where "WPA_CIPHER_SUITE_WEP104 \<equiv> RSN_SELECTOR 0x00 0x50 0xf2 5"
abbreviation (input) WPA_OUI_TYPE :: u32 where "WPA_OUI_TYPE \<equiv> RSN_SELECTOR 0x00 0x50 0xf2 1"
abbreviation (input) RSN_AUTH_KEY_MGMT_UNSPEC_802_1X :: u32 where "RSN_AUTH_KEY_MGMT_UNSPEC_802_1X \<equiv> RSN_SELECTOR 0x00 0x0f 0xac 1"
abbreviation (input) RSN_AUTH_KEY_MGMT_FT_802_1X :: u32 where "RSN_AUTH_KEY_MGMT_FT_802_1X \<equiv> RSN_SELECTOR 0x00 0x0f 0xac 3"
abbreviation (input) RSN_AUTH_KEY_MGMT_FT_PSK :: u32 where "RSN_AUTH_KEY_MGMT_FT_PSK \<equiv> RSN_SELECTOR 0x00 0x0f 0xac 4"
abbreviation (input) RSN_AUTH_KEY_MGMT_802_1X_SHA256 :: u32 where "RSN_AUTH_KEY_MGMT_802_1X_SHA256 \<equiv> RSN_SELECTOR 0x00 0x0f 0xac 5"
abbreviation (input) RSN_AUTH_KEY_MGMT_PSK_SHA256 :: u32 where "RSN_AUTH_KEY_MGMT_PSK_SHA256 \<equiv> RSN_SELECTOR 0x00 0x0f 0xac 6"
abbreviation (input) RSN_AUTH_KEY_MGMT_SAE :: u32 where "RSN_AUTH_KEY_MGMT_SAE \<equiv> RSN_SELECTOR 0x00 0x0f 0xac 8"
abbreviation (input) RSN_AUTH_KEY_MGMT_FT_SAE :: u32 where "RSN_AUTH_KEY_MGMT_FT_SAE \<equiv> RSN_SELECTOR 0x00 0x0f 0xac 9"
abbreviation (input) RSN_AUTH_KEY_MGMT_CCKM :: u32 where "RSN_AUTH_KEY_MGMT_CCKM \<equiv> RSN_SELECTOR 0x00 0x40 0x96 0"
abbreviation (input) RSN_CIPHER_SUITE_NONE :: u32 where "RSN_CIPHER_SUITE_NONE \<equiv> RSN_SELECTOR 0x00 0x0f 0xac 0"
abbreviation (input) RSN_CIPHER_SUITE_WEP40 :: u32 where "RSN_CIPHER_SUITE_WEP40 \<equiv> RSN_SELECTOR 0x00 0x0f 0xac 1"
abbreviation (input) RSN_CIPHER_SUITE_TKIP :: u32 where "RSN_CIPHER_SUITE_TKIP \<equiv> RSN_SELECTOR 0x00 0x0f 0xac 2"
abbreviation (input) RSN_CIPHER_SUITE_WEP104 :: u32 where "RSN_CIPHER_SUITE_WEP104 \<equiv> RSN_SELECTOR 0x00 0x0f 0xac 5"
abbreviation (input) RSN_CIPHER_SUITE_AES_128_CMAC :: u32 where "RSN_CIPHER_SUITE_AES_128_CMAC \<equiv> RSN_SELECTOR 0x00 0x0f 0xac 6"
abbreviation (input) RSN_CIPHER_SUITE_GCMP :: u32 where "RSN_CIPHER_SUITE_GCMP \<equiv> RSN_SELECTOR 0x00 0x0f 0xac 8"

section \<open>Selectors and bit masks\<close>

definition rsn_selector_to_bitfield :: "build_config \<Rightarrow> bytes \<Rightarrow> u32" where
  "rsn_selector_to_bitfield cfg s =
     (if WPA_GET_BE32 s = RSN_CIPHER_SUITE_NONE then WPA_CIPHER_NONE
      else if WPA_GET_BE32 s = RSN_CIPHER_SUITE_WEP40 then WPA_CIPHER_WEP40
      else if WPA_GET_BE32 s = RSN_CIPHER_SUITE_TKIP then WPA_CIPHER_TKIP
      else if WPA_GET_BE32 s = RSN_CIPHER_SUITE_CCMP cfg then WPA_CIPHER_CCMP
      else if WPA_GET_BE32 s = RSN_CIPHER_SUITE_WEP104 then WPA_CIPHER_WEP104
      else if CONFIG_IEEE80211W cfg \<and> WPA_GET_BE32 s = RSN_CIPHER_SUITE_AES_128_CMAC
      then WPA_CIPHER_AES_128_CMAC
      else if WPA_GET_BE32 s = RSN_CIPHER_SUITE_GCMP then WPA_CIPHER_GCMP
      else 0)"

definition rsn_key_mgmt_to_bitfield :: "build_config \<Rightarrow> bytes \<Rightarrow> u32" where
  "rsn_key_mgmt_to_bitfield cfg s =
     (if WPA_GET_BE32 s = RSN_AUTH_KEY_MGMT_UNSPEC_802_1X then WPA_KEY_MGMT_IEEE8021X
      else if WPA_GET_BE32 s = RSN_AUTH_KEY_MGMT_PSK_OVER_802_1X cfg then WPA_KEY_MGMT_PSK
      else if CONFIG_IEEE80211R cfg \<and> WPA_GET_BE32 s = RSN_AUTH_KEY_MGMT_FT_802_1X
      then WPA_KEY_MGMT_FT_IEEE8021X
      else if CONFIG_IEEE80211R cfg \<and> WPA_GET_BE32 s = RSN_AUTH_KEY_MGMT_FT_PSK
      then WPA_KEY_MGMT_FT_PSK
      else if CONFIG_IEEE80211W cfg \<and> WPA_GET_BE32 s = RSN_AUTH_KEY_MGMT_802_1X_SHA256
      then WPA_KEY_MGMT_IEEE8021X_SHA256
      else if CONFIG_IEEE80211W cfg \<and> WPA_GET_BE32 s = RSN_AUTH_KEY_MGMT_PSK_SHA256
      then WPA_KEY_MGMT_PSK_SHA256
      else if CONFIG_SAE cfg \<and> WPA_GET_BE32 s = RSN_AUTH_KEY_MGMT_SAE then WPA_KEY_MGMT_SAE
      else if CONFIG_SAE cfg \<and> WPA_GET_BE32 s = RSN_AUTH_KEY_MGMT_FT_SAE then WPA_KEY_MGMT_FT_SAE
      else 0)"

definition wpa_selector_to_bitfield :: "bytes \<Rightarrow> u32" where
  "wpa_selector_to_bitfield s =
     (if WPA_GET_BE32 s = WPA_CIPHER_SUITE_NONE then WPA_CIPHER_NONE
      else if WPA_GET_BE32 s = WPA_CIPHER_SUITE_WEP40 then WPA_CIPHER_WEP40
      else if WPA_GET_BE32 s = WPA_CIPHER_SUITE_TKIP then WPA_CIPHER_TKIP
      else if WPA_GET_BE32 s = WPA_CIPHER_SUITE_CCMP then WPA_CIPHER_CCMP
      else if WPA_GET_BE32 s = WPA_CIPHER_SUITE_WEP104 then WPA_CIPHER_WEP104
      else 0)"

definition wpa_key_mgmt_to_bitfield :: "bytes \<Rightarrow> u32" where
  "wpa_key_mgmt_to_bitfield s =
     (if WPA_GET_BE32 s = WPA_AUTH_KEY_MGMT_UNSPEC_802_1X then WPA_KEY_MGMT_IEEE8021X
      else if WPA_GET_BE32 s = WPA_AUTH_KEY_MGMT_PSK_OVER_802_1X then WPA_KEY_MGMT_PSK
      else if WPA_GET_BE32 s = WPA_AUTH_KEY_MGMT_NONE then WPA_KEY_MGMT_WPA_NONE
      else 0)"

definition wpa_cipher_to_suite :: "build_config \<Rightarrow> u32 \<Rightarrow> u32 \<Rightarrow> u32" where
  "wpa_cipher_to_suite cfg proto cipher =
     (if cipher AND WPA_CIPHER_CCMP \<noteq> 0
      then (if proto = WPA_PROTO_RSN then RSN_CIPHER_SUITE_CCMP cfg else WPA_CIPHER_SUITE_CCMP)
      else if cipher AND WPA_CIPHER_GCMP \<noteq> 0 then RSN_CIPHER_SUITE_GCMP
      else if cipher AND WPA_CIPHER_TKIP \<noteq> 0
      then (if proto = WPA_PROTO_RSN then RSN_CIPHER_SUITE_TKIP else WPA_CIPHER_SUITE_TKIP)
      else if cipher AND WPA_CIPHER_WEP104 \<noteq> 0
      then (if proto = WPA_PROTO_RSN then RSN_CIPHER_SUITE_WEP104 else WPA_CIPHER_SUITE_WEP104)
      else if cipher AND WPA_CIPHER_WEP40 \<noteq> 0
      then (if proto = WPA_PROTO_RSN then RSN_CIPHER_SUITE_WEP40 else WPA_CIPHER_SUITE_WEP40)
      else if cipher AND WPA_CIPHER_NONE \<noteq> 0
      then (if proto = WPA_PROTO_RSN then RSN_CIPHER_SUITE_NONE else WPA_CIPHER_SUITE_NONE)
      else 0)"

text \<open>The number of suites with the bytes written at \<open>pos\<close>.\<close>

definition rsn_cipher_put_suites :: "build_config \<Rightarrow> u32 \<Rightarrow> nat \<times> bytes" where
  "rsn_cipher_put_suites cfg ciphers =
     (let suites = (if ciphers AND WPA_CIPHER_CCMP \<noteq> 0 then [RSN_CIPHER_SUITE_CCMP cfg] else []) @
        (if ciphers AND WPA_CIPHER_GCMP \<noteq> 0 then [RSN_CIPHER_SUITE_GCMP] else []) @
        (if ciphers AND WPA_CIPHER_TKIP \<noteq> 0 then [RSN_CIPHER_SUITE_TKIP] else []) @
        (if ciphers AND WPA_CIPHER_NONE \<noteq> 0 then [RSN_CIPHER_SUITE_NONE] else [])
      in (length suites, concat (map WPA_PUT_BE32 suites)))"

definition wpa_cipher_put_suites :: "u32 \<Rightarrow> nat \<times> bytes" where
  "wpa_cipher_put_suites ciphers =
     (let suites = (if ciphers AND WPA_CIPHER_CCMP \<noteq> 0 then [WPA_CIPHER_SUITE_CCMP] else []) @
        (if ciphers AND WPA_CIPHER_TKIP \<noteq> 0 then [WPA_CIPHER_SUITE_TKIP] else []) @
        (if ciphers AND WPA_CIPHER_NONE \<noteq> 0 then [WPA_CIPHER_SUITE_NONE] else [])
      in (length suites, concat (map WPA_PUT_BE32 suites)))"

section \<open>Properties and choice of a cipher\<close>

datatype wpa_alg = WPA_ALG_NONE | WPA_ALG_WEP | WPA_ALG_TKIP | WPA_ALG_CCMP | WPA_ALG_IGTK | WPA_ALG_PMK
  | WPA_ALG_GCMP | WPA_ALG_SMS4 | WPA_ALG_KRK

datatype wpa_cipher = CIPHER_NONE | CIPHER_WEP40 | CIPHER_TKIP | CIPHER_CCMP | CIPHER_WEP104 | CIPHER_GCMP
  | CIPHER_SMS4

definition wpa_cipher_key_len :: "u32 \<Rightarrow> nat" where
  "wpa_cipher_key_len cipher =
     (if cipher = WPA_CIPHER_CCMP \<or> cipher = WPA_CIPHER_GCMP then 16
      else if cipher = WPA_CIPHER_TKIP then 32
      else if cipher = WPA_CIPHER_WEP104 then 13
      else if cipher = WPA_CIPHER_WEP40 then 5
      else 0)"

definition wpa_cipher_rsc_len :: "u32 \<Rightarrow> nat" where
  "wpa_cipher_rsc_len cipher =
     (if cipher = WPA_CIPHER_CCMP \<or> cipher = WPA_CIPHER_GCMP \<or> cipher = WPA_CIPHER_TKIP then 6 else 0)"

definition wpa_cipher_to_alg :: "u32 \<Rightarrow> wpa_alg" where
  "wpa_cipher_to_alg cipher =
     (if cipher = WPA_CIPHER_CCMP then WPA_ALG_CCMP
      else if cipher = WPA_CIPHER_GCMP then WPA_ALG_GCMP
      else if cipher = WPA_CIPHER_TKIP then WPA_ALG_TKIP
      else if cipher = WPA_CIPHER_WEP104 \<or> cipher = WPA_CIPHER_WEP40 then WPA_ALG_WEP
      else WPA_ALG_NONE)"

definition wpa_cipher_to_suite_driver :: "u32 \<Rightarrow> wpa_cipher" where
  "wpa_cipher_to_suite_driver cipher =
     (if cipher = WPA_CIPHER_NONE then CIPHER_NONE
      else if cipher = WPA_CIPHER_WEP40 then CIPHER_WEP40
      else if cipher = WPA_CIPHER_WEP104 then CIPHER_WEP104
      else if cipher = WPA_CIPHER_CCMP then CIPHER_CCMP
      else if cipher = WPA_CIPHER_GCMP then CIPHER_GCMP
      else CIPHER_TKIP)"

definition wpa_cipher_valid_pairwise :: "u32 \<Rightarrow> bool" where
  "wpa_cipher_valid_pairwise cipher \<longleftrightarrow>
     cipher = WPA_CIPHER_CCMP \<or> cipher = WPA_CIPHER_GCMP \<or> cipher = WPA_CIPHER_TKIP"

definition wpa_pick_pairwise_cipher :: "u32 \<Rightarrow> bool \<Rightarrow> u32" where
  "wpa_pick_pairwise_cipher ciphers none_allowed =
     (if ciphers AND WPA_CIPHER_CCMP \<noteq> 0 then WPA_CIPHER_CCMP
      else if ciphers AND WPA_CIPHER_GCMP \<noteq> 0 then WPA_CIPHER_GCMP
      else if ciphers AND WPA_CIPHER_TKIP \<noteq> 0 then WPA_CIPHER_TKIP
      else if none_allowed \<and> ciphers AND WPA_CIPHER_NONE \<noteq> 0 then WPA_CIPHER_NONE
      else -1)"

definition wpa_pick_group_cipher :: "u32 \<Rightarrow> u32" where
  "wpa_pick_group_cipher ciphers =
     (if ciphers AND WPA_CIPHER_CCMP \<noteq> 0 then WPA_CIPHER_CCMP
      else if ciphers AND WPA_CIPHER_GCMP \<noteq> 0 then WPA_CIPHER_GCMP
      else if ciphers AND WPA_CIPHER_TKIP \<noteq> 0 then WPA_CIPHER_TKIP
      else if ciphers AND WPA_CIPHER_WEP104 \<noteq> 0 then WPA_CIPHER_WEP104
      else if ciphers AND WPA_CIPHER_WEP40 \<noteq> 0 then WPA_CIPHER_WEP40
      else -1)"

definition wpa_select_ap_group_cipher :: "u32 \<Rightarrow> u32 \<Rightarrow> u32 \<Rightarrow> u32" where
  "wpa_select_ap_group_cipher wpa wpa_pairwise rsn_pairwise =
     (let pairwise = (if wpa AND 1 \<noteq> 0 then wpa_pairwise else 0) OR (if wpa AND 2 \<noteq> 0 then rsn_pairwise else 0)
      in if pairwise AND WPA_CIPHER_TKIP \<noteq> 0 then WPA_CIPHER_TKIP
         else if pairwise AND (WPA_CIPHER_CCMP OR WPA_CIPHER_GCMP) = WPA_CIPHER_GCMP then WPA_CIPHER_GCMP
         else WPA_CIPHER_CCMP)"

section \<open>Text form\<close>

definition wpa_cipher_txt :: "u32 \<Rightarrow> string" where
  "wpa_cipher_txt cipher =
     (if cipher = WPA_CIPHER_NONE then ''NONE''
      else if cipher = WPA_CIPHER_WEP40 then ''WEP-40''
      else if cipher = WPA_CIPHER_WEP104 then ''WEP-104''
      else if cipher = WPA_CIPHER_TKIP then ''TKIP''
      else if cipher = WPA_CIPHER_CCMP then ''CCMP''
      else if cipher = WPA_CIPHER_CCMP OR WPA_CIPHER_TKIP then ''CCMP+TKIP''
      else if cipher = WPA_CIPHER_GCMP then ''GCMP''
      else ''UNKNOWN'')"

definition wpa_key_mgmt_txt :: "build_config \<Rightarrow> u32 \<Rightarrow> u32 \<Rightarrow> string" where
  "wpa_key_mgmt_txt cfg key_mgmt proto =
     (if key_mgmt = WPA_KEY_MGMT_IEEE8021X then
        (if proto = WPA_PROTO_RSN OR WPA_PROTO_WPA then ''WPA2+WPA/IEEE 802.1X/EAP''
         else if proto = WPA_PROTO_RSN then ''WPA2/IEEE 802.1X/EAP'' else ''WPA/IEEE 802.1X/EAP'')
      else if key_mgmt = WPA_KEY_MGMT_PSK then
        (if proto = WPA_PROTO_RSN OR WPA_PROTO_WPA then ''WPA2-PSK+WPA-PSK''
         else if proto = WPA_PROTO_RSN then ''WPA2-PSK'' else ''WPA-PSK'')
      else if key_mgmt = WPA_KEY_MGMT_NONE then ''NONE''
      else if key_mgmt = WPA_KEY_MGMT_IEEE8021X_NO_WPA then ''IEEE 802.1X (no WPA)''
      else if CONFIG_IEEE80211R cfg \<and> key_mgmt = WPA_KEY_MGMT_FT_IEEE8021X then ''FT-EAP''
      else if CONFIG_IEEE80211R cfg \<and> key_mgmt = WPA_KEY_MGMT_FT_PSK then ''FT-PSK''
      else if CONFIG_IEEE80211W cfg \<and> key_mgmt = WPA_KEY_MGMT_IEEE8021X_SHA256 then ''WPA2-EAP-SHA256''
      else if CONFIG_IEEE80211W cfg \<and> key_mgmt = WPA_KEY_MGMT_PSK_SHA256 then ''WPA2-PSK-SHA256''
      else ''UNKNOWN'')"

text \<open>The names of \<open>wpa_parse_cipher\<close> and \<open>wpa_write_ciphers\<close>, which list them in the same order.\<close>

definition cipher_names :: "(u32 \<times> string) list" where
  "cipher_names = [(WPA_CIPHER_CCMP, ''CCMP''), (WPA_CIPHER_GCMP, ''GCMP''), (WPA_CIPHER_TKIP, ''TKIP''),
     (WPA_CIPHER_WEP104, ''WEP104''), (WPA_CIPHER_WEP40, ''WEP40''), (WPA_CIPHER_NONE, ''NONE'')]"

text \<open>The chain of comparisons on a word whose end has been overwritten by NUL: the bit, 0 for none.\<close>

fun cipher_of_word :: "(u32 \<times> string) list \<Rightarrow> bytes \<Rightarrow> u32 option" where
  "cipher_of_word [] w = Some 0"
| "cipher_of_word ((f, n) # t) w = do {
     r \<leftarrow> os_strcmp (w @ [0]) (c_lit n);
     if r = 0 then Some f else cipher_of_word t w }"

definition is_blank :: "u8 \<Rightarrow> bool" where
  "is_blank c \<longleftrightarrow> c = 32 \<or> c = 9"

function wpa_parse_cipher_loop :: "bytes \<Rightarrow> u32 \<Rightarrow> u32 option" where
  "wpa_parse_cipher_loop start val = do {
     c \<leftarrow> c_read start 0;
     if c = 0 then Some val
     else do {
       let start' = dropWhile is_blank start;
       c \<leftarrow> c_read start' 0;
       if c = 0 then Some val
       else do {
         let word = takeWhile (\<lambda>c. \<not> is_blank c \<and> c \<noteq> 0) start';
         e \<leftarrow> c_read start' (length word);
         f \<leftarrow> cipher_of_word cipher_names word;
         if f = 0 then Some (-1)
         else if e = 0 then Some (val OR f)
         else wpa_parse_cipher_loop (drop (length word + 1) start') (val OR f) } } }"
  by pat_completeness auto
termination
proof (relation "measure (\<lambda>(start, val). length start)")
  fix start :: bytes and c d e :: u8 and val f s' w
  assume "c_read start 0 = Some c" and s: "s' = dropWhile is_blank start"
  then have "start \<noteq> []" by (cases start) simp_all
  moreover have "length s' \<le> length start" by (simp add: s length_dropWhile_le)
  ultimately show "((drop (length w + 1) s', val OR f), start, val) \<in> measure (\<lambda>(start, val). length start)"
    by (cases start) auto
qed simp

declare wpa_parse_cipher_loop.simps [simp del]

text \<open>\<open>mem\<close> is the result of \<open>os_strdup\<close>.\<close>

definition wpa_parse_cipher :: "bool \<Rightarrow> bytes \<Rightarrow> u32 option" where
  "wpa_parse_cipher mem value = (if \<not> mem then Some (-1) else do {
     n \<leftarrow> os_strlen value;
     wpa_parse_cipher_loop (take (n + 1) value) 0 })"

fun wpa_write_ciphers_loop :: "(u32 \<times> string) list \<Rightarrow> bytes \<Rightarrow> nat \<Rightarrow> u32 \<Rightarrow> bytes \<Rightarrow> int \<times> bytes" where
  "wpa_write_ciphers_loop [] b pos ciphers delim = (int pos, b)"
| "wpa_write_ciphers_loop ((f, n) # t) b pos ciphers delim =
     (if ciphers AND f \<noteq> 0 then
        (let txt = (if pos = 0 then [] else c_str delim) @ lit n; b' = snprintf_at b pos txt
         in if length txt \<ge> length b - pos then (-1, b')
            else wpa_write_ciphers_loop t b' (pos + length txt) ciphers delim)
      else wpa_write_ciphers_loop t b pos ciphers delim)"

definition wpa_write_ciphers :: "bytes \<Rightarrow> u32 \<Rightarrow> bytes \<Rightarrow> int \<times> bytes" where
  "wpa_write_ciphers b ciphers delim = wpa_write_ciphers_loop cipher_names b 0 ciphers delim"

section \<open>The text form is a round trip\<close>

text \<open>The words separated by blanks; the flag tells whether the first one is at the start.\<close>

fun cipher_text :: "bool \<Rightarrow> string list \<Rightarrow> bytes" where
  "cipher_text first [] = []"
| "cipher_text first (n # ns) = (if first then [] else [32]) @ lit n @ cipher_text False ns"

definition selected :: "u32 \<Rightarrow> (u32 \<times> string) list \<Rightarrow> (u32 \<times> string) list" where
  "selected c t = filter (\<lambda>(f, n). c AND f \<noteq> 0) t"

lemma selected_simps [simp]:
  "selected c [] = []" "selected c ((f, n) # t) = (if c AND f \<noteq> 0 then (f, n) # selected c t else selected c t)"
  by (simp_all add: selected_def)

lemma write_ciphers_loop_correct:
  assumes "\<forall>(f, n) \<in> set t. n \<noteq> []" "pos = 0 \<or> pos < length b \<and> b ! pos = 0"
    and "pos + length (cipher_text (pos = 0) (map snd (selected c t))) < length b"
  shows "\<exists>b'. wpa_write_ciphers_loop t b pos c [32, 0] =
      (int (pos + length (cipher_text (pos = 0) (map snd (selected c t)))), b') \<and> length b' = length b \<and>
    (let e = pos + length (cipher_text (pos = 0) (map snd (selected c t))) in
     take e b' = take pos b @ cipher_text (pos = 0) (map snd (selected c t)) \<and> (e = 0 \<or> b' ! e = 0))"
  using assms
proof (induction t arbitrary: b pos)
  case (Cons fn t)
  obtain f n where fn: "fn = (f, n)" by (cases fn)
  show ?case
  proof (cases "c AND f = 0")
    case True
    with Cons.IH [of pos b] Cons.prems show ?thesis by (simp add: fn)
  next
    case False
    define tx where "tx = (if pos = 0 then [] else c_str [32, 0]) @ lit n"
    define rest where "rest = cipher_text False (map snd (selected c t))"
    define p where "p = pos + length tx"
    define bb where "bb = snprintf_at b pos tx"
    have joined: "cipher_text (pos = 0) (map snd (selected c (fn # t))) = tx @ rest"
      using False by (simp add: fn tx_def rest_def)
    have fit: "p + length rest < length b" using Cons.prems(3) by (simp add: joined p_def)
    have b: "bb = take pos b @ tx @ 0 # drop (p + 1) b"
      using fit snprintf_at_fits [of pos tx b] by (simp add: bb_def p_def)
    have p: "0 < p" using Cons.prems(1) by (simp add: fn lit_def tx_def p_def)
    have bb: "bb ! p = 0" "take p bb = take pos b @ tx" "length bb = length b"
      using fit by (simp_all add: b p_def nth_append)
    obtain b' where IH: "wpa_write_ciphers_loop t bb p c [32, 0] = (int (p + length rest), b')"
      "length b' = length bb" "take (p + length rest) b' = take p bb @ rest" "b' ! (p + length rest) = 0"
      using Cons.IH [of p bb] Cons.prems(1) p fit bb by (auto simp: Let_def rest_def)
    have room: "\<not> length b - pos \<le> length tx" using fit by (simp add: p_def)
    have run: "wpa_write_ciphers_loop (fn # t) b pos c [32, 0] = wpa_write_ciphers_loop t bb p c [32, 0]"
      unfolding fn wpa_write_ciphers_loop.simps Let_def tx_def [symmetric]
      using False room by (simp add: bb_def p_def)
    show ?thesis
      using IH bb p unfolding run joined Let_def by (simp add: p_def add.assoc)
  qed
qed simp

lemma cipher_of_word_names:
  "(f, n) \<in> set cipher_names \<Longrightarrow> cipher_of_word cipher_names (lit n) = Some f"
  by (auto simp: cipher_names_def lit_def c_lit_def of_char_of)

lemma cipher_names_ok:
  assumes "(f, n) \<in> set cipher_names"
  shows "f \<noteq> 0" "n \<noteq> []" "\<forall>c \<in> set (lit n). \<not> is_blank c \<and> c \<noteq> 0"
  using assms by (auto simp: cipher_names_def lit_def is_blank_def)

lemma parse_cipher_word:
  assumes "(f, n) \<in> set cipher_names" "is_blank d \<or> d = 0"
  shows "wpa_parse_cipher_loop (lit n @ d # r) v =
    (if d = 0 then Some (v OR f) else wpa_parse_cipher_loop r (v OR f))"
proof -
  note ok = cipher_names_ok [OF assms(1)]
  obtain x xs where l: "lit n = x # xs" using ok(2) by (cases n) (simp_all add: lit_def)
  have x: "\<not> is_blank x" "x \<noteq> 0" using ok(3) by (simp_all add: l)
  have tw: "takeWhile (\<lambda>c. \<not> is_blank c \<and> c \<noteq> 0) (lit n @ d # r) = lit n"
    using ok(3) assms(2) by (subst takeWhile_append2) auto
  have dw: "dropWhile is_blank (lit n @ d # r) = lit n @ d # r" using x by (simp add: l)
  show ?thesis
    using ok(1) x tw by (subst wpa_parse_cipher_loop.simps)
      (simp add: dw cipher_of_word_names [OF assms(1), unfolded l] Let_def l nth_append)
qed

lemma parse_cipher_text:
  assumes "set t \<subseteq> set cipher_names" "t \<noteq> []"
  shows "wpa_parse_cipher_loop (cipher_text True (map snd t) @ 0 # r) v = Some (fold (OR) (map fst t) v)"
  using assms
proof (induction t arbitrary: v)
  case (Cons fn t)
  obtain f n where fn: "fn = (f, n)" by (cases fn)
  then have m: "(f, n) \<in> set cipher_names" using Cons.prems(1) by simp
  show ?case
  proof (cases t)
    case Nil
    then show ?thesis using parse_cipher_word [OF m, of 0 r v] by (simp add: fn or.commute)
  next
    case (Cons gm t')
    have "cipher_text False (map snd t) = 32 # cipher_text True (map snd t)" by (simp add: Cons)
    then show ?thesis
      using parse_cipher_word [OF m, of 32 "cipher_text True (map snd t) @ 0 # r" v] Cons.IH [of "v OR f"] Cons.prems Cons
      by (simp add: fn is_blank_def or.commute)
  qed
qed simp

lemma lit_cipher_text_nonzero: "set t \<subseteq> set cipher_names \<Longrightarrow> 0 \<notin> set (cipher_text b (map snd t))"
proof (induction t arbitrary: b)
  case (Cons fn t)
  then have "\<forall>c \<in> set (lit (snd fn)). c \<noteq> 0" using cipher_names_ok(3) [of "fst fn" "snd fn"] by simp
  with Cons show ?case by auto
qed simp

lemma length_cipher_text: "length (cipher_text True (map snd (selected c cipher_names))) \<le> 32"
  by (simp add: cipher_names_def lit_def)

lemma fold_selected:
  assumes "c AND NOT 0x5F = 0"
  shows "fold (OR) (map fst (selected c cipher_names)) 0 = c"
proof -
  note c = assms [unfolded word32_eq_iff bit_and_iff bit_not_iff, simplified]
  have sel: "c AND 1 = 0 \<longleftrightarrow> \<not> bit c 0" "c AND 2 = 0 \<longleftrightarrow> \<not> bit c 1" "c AND 4 = 0 \<longleftrightarrow> \<not> bit c 2"
    "c AND 8 = 0 \<longleftrightarrow> \<not> bit c 3" "c AND 16 = 0 \<longleftrightarrow> \<not> bit c 4" "c AND 64 = 0 \<longleftrightarrow> \<not> bit c 6"
    using and_exp_eq_0_iff_not_bit [of c 0] and_exp_eq_0_iff_not_bit [of c 1] and_exp_eq_0_iff_not_bit [of c 2]
      and_exp_eq_0_iff_not_bit [of c 3] and_exp_eq_0_iff_not_bit [of c 4] and_exp_eq_0_iff_not_bit [of c 6] by simp_all
  show ?thesis
    by (cases "bit c 0"; cases "bit c 1"; cases "bit c 2"; cases "bit c 3"; cases "bit c 4"; cases "bit c 6";
        simp add: cipher_names_def sel; use c in \<open>simp add: word32_eq_iff bit_or_iff\<close>)
qed

text \<open>
  The text of a cipher list reads back: for every non-empty set of the six ciphers \<open>wpa_write_ciphers\<close>
  with a blank as delimiter fits a buffer of 33 bytes, returns the length of the text, and
  \<open>wpa_parse_cipher\<close> of the buffer returns the set.
\<close>

theorem cipher_list_roundtrip:
  assumes "c \<noteq> 0" "c AND NOT 0x5F = 0" "33 \<le> length b"
  shows "\<exists>n b'. wpa_write_ciphers b c [32, 0] = (int n, b') \<and> 0 < n \<and> n \<le> 32 \<and> length b' = length b \<and>
    b' ! n = 0 \<and> wpa_parse_cipher True b' = Some c"
proof -
  let ?t = "selected c cipher_names"
  let ?x = "cipher_text True (map snd ?t)"
  have sub: "set ?t \<subseteq> set cipher_names" by (auto simp: selected_def)
  have ne: "?t \<noteq> []" using fold_selected [OF assms(2)] assms(1) by auto
  have len: "length ?x \<le> 32" by (rule length_cipher_text)
  have pos: "?x \<noteq> []" using ne sub cipher_names_ok(2) by (cases ?t) (auto simp: lit_def)
  obtain b' where b': "wpa_write_ciphers b c [32, 0] = (int (length ?x), b')" "length b' = length b"
    "take (length ?x) b' = ?x" "b' ! length ?x = 0"
    using write_ciphers_loop_correct [of cipher_names 0 b c] cipher_names_ok(2) len assms(3) pos
    by (fastforce simp: wpa_write_ciphers_def Let_def)
  have split: "b' = ?x @ 0 # drop (Suc (length ?x)) b'"
    using id_take_nth_drop [of "length ?x" b'] b' len assms(3) by simp
  have nz: "0 \<notin> set ?x" using lit_cipher_text_nonzero [OF sub] .
  have "c_str b' = ?x" by (subst split) (use nz in \<open>auto simp: c_str_def takeWhile_tail\<close>)
  moreover have "0 \<in> set b'" by (subst split) simp
  ultimately have "wpa_parse_cipher True b' = wpa_parse_cipher_loop (?x @ 0 # []) 0"
    using c_str_take [of b'] by (simp add: wpa_parse_cipher_def)
  with parse_cipher_text [OF sub ne, of "[]" 0] fold_selected [OF assms(2)] b' len pos show ?thesis
    by (intro exI [of _ "length ?x"] exI [of _ b']) simp
qed

theorem cipher_list_roundtrip_witness:
  "\<exists>n b'. wpa_write_ciphers (replicate 40 1) 0x18 [32, 0] = (int n, b') \<and> 0 < n \<and> n \<le> 32 \<and>
    length b' = length (replicate 40 (1 :: u8)) \<and> b' ! n = 0 \<and> wpa_parse_cipher True b' = Some 0x18"
  by (rule cipher_list_roundtrip) simp_all

end
