(* ===== verification/Wpa_Ie.thy ===== *)
theory Wpa_Ie
  imports Wpa_Cipher
begin

text \<open>
  WPA and RSN information elements: the parsers of \<open>src/drc-hostap/src/common/wpa_common.c\<close> and the
  generators of \<open>src/drc-hostap/src/rsn_supp/wpa_ie.c\<close>. The parsers are shown to stay inside the
  element, and the generated elements to read back in every build configuration.
\<close>

section \<open>Parsed elements\<close>

text \<open>A pointer into the element is its offset; NULL is \<open>None\<close>.\<close>

record wpa_ie_data =
  ie_proto :: u32
  ie_pairwise_cipher :: u32
  ie_group_cipher :: u32
  ie_key_mgmt :: u32
  ie_capabilities :: u16
  ie_num_pmkid :: nat
  ie_pmkid :: "nat option"
  ie_mgmt_group_cipher :: u32

text \<open>
  The parsers run through the fields with the offset \<open>pos\<close> of the next byte and the number \<open>left\<close> of
  bytes behind it. A stage ends the function with a return value (\<open>Inl\<close>) or hands on the data, the
  offset and the rest (\<open>Inr\<close>); \<open>None\<close> is a read outside the element.
\<close>

type_synonym ie_stage = "(int \<times> wpa_ie_data + wpa_ie_data \<times> nat \<times> nat) option"

fun stage_then :: "ie_stage \<Rightarrow> (wpa_ie_data \<times> nat \<times> nat \<Rightarrow> ie_stage) \<Rightarrow> ie_stage" where
  "stage_then None f = None"
| "stage_then (Some (Inl e)) f = Some (Inl e)"
| "stage_then (Some (Inr s)) f = f s"

fun ie_suites :: "(bytes \<Rightarrow> u32) \<Rightarrow> bytes \<Rightarrow> nat \<Rightarrow> nat \<Rightarrow> u32 \<Rightarrow> u32 option" where
  "ie_suites sel ie 0 pos acc = Some acc"
| "ie_suites sel ie (Suc n) pos acc = do {
     s \<leftarrow> c_slice ie pos 4;
     ie_suites sel ie n (pos + 4) (acc OR sel s) }"

text \<open>\<open>bad\<close> is the test for a cipher that must not be used here.\<close>

fun ie_group :: "(bytes \<Rightarrow> u32) \<Rightarrow> (u32 \<Rightarrow> bool) \<Rightarrow> bytes \<Rightarrow> wpa_ie_data \<times> nat \<times> nat \<Rightarrow> ie_stage" where
  "ie_group sel bad ie (data, pos, left) =
     (if 4 \<le> left then do {
        s \<leftarrow> c_slice ie pos 4;
        let data = data\<lparr>ie_group_cipher := sel s\<rparr>;
        Some (if bad (sel s) then Inl (-1, data) else Inr (data, pos + 4, left - 4)) }
      else if 0 < left then Some (Inl (-3, data))
      else Some (Inr (data, pos, left)))"

fun ie_pairwise :: "(bytes \<Rightarrow> u32) \<Rightarrow> (u32 \<Rightarrow> bool) \<Rightarrow> bytes \<Rightarrow> wpa_ie_data \<times> nat \<times> nat \<Rightarrow> ie_stage" where
  "ie_pairwise sel bad ie (data, pos, left) =
     (if 2 \<le> left then do {
        let data = data\<lparr>ie_pairwise_cipher := 0\<rparr>;
        c \<leftarrow> c_slice ie pos 2;
        let count = unat (WPA_GET_LE16 c);
        let pos = pos + 2;
        let left = left - 2;
        if count = 0 \<or> left < count * 4 then Some (Inl (-4, data))
        else do {
          p \<leftarrow> ie_suites sel ie count pos 0;
          let data = data\<lparr>ie_pairwise_cipher := p\<rparr>;
          Some (if bad p then Inl (-1, data) else Inr (data, pos + 4 * count, left - 4 * count)) } }
      else if left = 1 then Some (Inl (-5, data))
      else Some (Inr (data, pos, left)))"

fun ie_akm :: "(bytes \<Rightarrow> u32) \<Rightarrow> bytes \<Rightarrow> wpa_ie_data \<times> nat \<times> nat \<Rightarrow> ie_stage" where
  "ie_akm sel ie (data, pos, left) =
     (if 2 \<le> left then do {
        let data = data\<lparr>ie_key_mgmt := 0\<rparr>;
        c \<leftarrow> c_slice ie pos 2;
        let count = unat (WPA_GET_LE16 c);
        let pos = pos + 2;
        let left = left - 2;
        if count = 0 \<or> left < count * 4 then Some (Inl (-6, data))
        else do {
          k \<leftarrow> ie_suites sel ie count pos 0;
          Some (Inr (data\<lparr>ie_key_mgmt := k\<rparr>, pos + 4 * count, left - 4 * count)) } }
      else if left = 1 then Some (Inl (-7, data))
      else Some (Inr (data, pos, left)))"

fun ie_capab :: "bytes \<Rightarrow> wpa_ie_data \<times> nat \<times> nat \<Rightarrow> ie_stage" where
  "ie_capab ie (data, pos, left) =
     (if 2 \<le> left then do {
        c \<leftarrow> c_slice ie pos 2;
        Some (Inr (data\<lparr>ie_capabilities := WPA_GET_LE16 c\<rparr>, pos + 2, left - 2)) }
      else Some (Inr (data, pos, left)))"

fun ie_pmkids :: "bytes \<Rightarrow> wpa_ie_data \<times> nat \<times> nat \<Rightarrow> ie_stage" where
  "ie_pmkids ie (data, pos, left) =
     (if 2 \<le> left then do {
        c \<leftarrow> c_slice ie pos 2;
        let num = unat (WPA_GET_LE16 c);
        let pos = pos + 2;
        let left = left - 2;
        Some (if left < num * 16 then Inl (-9, data\<lparr>ie_num_pmkid := 0\<rparr>)
              else Inr (data\<lparr>ie_num_pmkid := num, ie_pmkid := Some pos\<rparr>, pos + num * 16, left - num * 16)) }
      else Some (Inr (data, pos, left)))"

fun ie_mgmt_group :: "build_config \<Rightarrow> bytes \<Rightarrow> wpa_ie_data \<times> nat \<times> nat \<Rightarrow> ie_stage" where
  "ie_mgmt_group cfg ie (data, pos, left) =
     (if CONFIG_IEEE80211W cfg \<and> 4 \<le> left then do {
        s \<leftarrow> c_slice ie pos 4;
        let m = rsn_selector_to_bitfield cfg s;
        let data = data\<lparr>ie_mgmt_group_cipher := m\<rparr>;
        Some (if m \<noteq> WPA_CIPHER_AES_128_CMAC then Inl (-10, data) else Inr (data, pos + 4, left - 4)) }
      else Some (Inr (data, pos, left)))"

text \<open>Trailing bytes are only logged, so the function returns 0 once the last stage is done.\<close>

fun ie_finish :: "ie_stage \<Rightarrow> (int \<times> wpa_ie_data) option" where
  "ie_finish None = None"
| "ie_finish (Some (Inl e)) = Some e"
| "ie_finish (Some (Inr (data, pos, left))) = Some (0, data)"

definition wpa_parse_wpa_ie_rsn :: "build_config \<Rightarrow> bytes \<Rightarrow> (int \<times> wpa_ie_data) option" where
  "wpa_parse_wpa_ie_rsn cfg rsn_ie =
     (let data = \<lparr>ie_proto = WPA_PROTO_RSN, ie_pairwise_cipher = WPA_CIPHER_CCMP,
        ie_group_cipher = WPA_CIPHER_CCMP, ie_key_mgmt = WPA_KEY_MGMT_IEEE8021X, ie_capabilities = 0,
        ie_num_pmkid = 0, ie_pmkid = None,
        ie_mgmt_group_cipher = (if CONFIG_IEEE80211W cfg then WPA_CIPHER_AES_128_CMAC else 0)\<rparr>;
        cmac = (\<lambda>c. CONFIG_IEEE80211W cfg \<and> c = WPA_CIPHER_AES_128_CMAC);
        has_cmac = (\<lambda>c. CONFIG_IEEE80211W cfg \<and> c AND WPA_CIPHER_AES_128_CMAC \<noteq> 0)
      in if length rsn_ie = 0 then Some (-1, data)
         else if length rsn_ie < 4 then Some (-1, data)
         else do {
           elem_id \<leftarrow> c_read rsn_ie 0;
           len \<leftarrow> c_read rsn_ie 1;
           version \<leftarrow> c_slice rsn_ie 2 2;
           if elem_id \<noteq> 48 \<or> unat len \<noteq> length rsn_ie - 2 \<or> WPA_GET_LE16 version \<noteq> 1 then Some (-2, data)
           else ie_finish
             (stage_then (stage_then (stage_then (stage_then (stage_then
               (ie_group (rsn_selector_to_bitfield cfg) cmac rsn_ie (data, 4, length rsn_ie - 4))
               (ie_pairwise (rsn_selector_to_bitfield cfg) has_cmac rsn_ie))
               (ie_akm (rsn_key_mgmt_to_bitfield cfg) rsn_ie))
               (ie_capab rsn_ie))
               (ie_pmkids rsn_ie))
               (ie_mgmt_group cfg rsn_ie)) })"

definition wpa_parse_wpa_ie_wpa :: "bytes \<Rightarrow> (int \<times> wpa_ie_data) option" where
  "wpa_parse_wpa_ie_wpa wpa_ie =
     (let data = \<lparr>ie_proto = WPA_PROTO_WPA, ie_pairwise_cipher = WPA_CIPHER_TKIP,
        ie_group_cipher = WPA_CIPHER_TKIP, ie_key_mgmt = WPA_KEY_MGMT_IEEE8021X, ie_capabilities = 0,
        ie_num_pmkid = 0, ie_pmkid = None, ie_mgmt_group_cipher = 0\<rparr>
      in if length wpa_ie = 0 then Some (-1, data)
         else if length wpa_ie < 8 then Some (-1, data)
         else do {
           elem_id \<leftarrow> c_read wpa_ie 0;
           len \<leftarrow> c_read wpa_ie 1;
           oui \<leftarrow> c_slice wpa_ie 2 4;
           version \<leftarrow> c_slice wpa_ie 6 2;
           if elem_id \<noteq> 221 \<or> unat len \<noteq> length wpa_ie - 2 \<or> WPA_GET_BE32 oui \<noteq> WPA_OUI_TYPE \<or>
              WPA_GET_LE16 version \<noteq> 1 then Some (-2, data)
           else ie_finish
             (stage_then (stage_then (stage_then
               (ie_group wpa_selector_to_bitfield (\<lambda>_. False) wpa_ie (data, 8, length wpa_ie - 8))
               (ie_pairwise wpa_selector_to_bitfield (\<lambda>_. False) wpa_ie))
               (ie_akm wpa_key_mgmt_to_bitfield wpa_ie))
               (ie_capab wpa_ie)) })"

definition wpa_parse_wpa_ie :: "build_config \<Rightarrow> bytes \<Rightarrow> (int \<times> wpa_ie_data) option" where
  "wpa_parse_wpa_ie cfg wpa_ie =
     (if 1 \<le> length wpa_ie \<and> wpa_ie ! 0 = 48 then wpa_parse_wpa_ie_rsn cfg wpa_ie
      else wpa_parse_wpa_ie_wpa wpa_ie)"

text \<open>The comparison of the elements in beacon and message 3; NULL is \<open>None\<close>.\<close>

definition wpa_compare_rsn_ie :: "build_config \<Rightarrow> bool \<Rightarrow> bytes option \<Rightarrow> bytes option \<Rightarrow> int option" where
  "wpa_compare_rsn_ie cfg ft_initial_assoc ie1 ie2 =
     (case (ie1, ie2) of
        (Some a, Some b) \<Rightarrow> do {
          c \<leftarrow> (if length a = length b then os_memcmp a b (length a) else Some 1);
          if c = 0 then Some 0
          else if CONFIG_IEEE80211R cfg \<and> ft_initial_assoc then do {
            (r1, d1) \<leftarrow> wpa_parse_wpa_ie_rsn cfg a;
            if r1 < 0 then Some (-1)
            else do {
              (r2, d2) \<leftarrow> wpa_parse_wpa_ie_rsn cfg b;
              if r2 < 0 then Some (-1)
              else if ie_proto d1 = ie_proto d2 \<and> ie_pairwise_cipher d1 = ie_pairwise_cipher d2 \<and>
                ie_group_cipher d1 = ie_group_cipher d2 \<and> ie_key_mgmt d1 = ie_key_mgmt d2 \<and>
                ie_capabilities d1 = ie_capabilities d2 \<and> ie_mgmt_group_cipher d1 = ie_mgmt_group_cipher d2
              then Some 0 else Some (-1) } }
          else Some (-1) }
      | _ \<Rightarrow> Some (-1))"

section \<open>Generated elements\<close>

text \<open>The fields of the state machine that \<open>wpa_gen_wpa_ie\<close> reads; \<open>ip_cur_pmksa\<close> is the PMKID of the
  current entry.\<close>

record ie_policy =
  ip_proto :: u32
  ip_pairwise_cipher :: u32
  ip_group_cipher :: u32
  ip_key_mgmt :: u32
  ip_mgmt_group_cipher :: u32
  ip_mfp :: int
  ip_cur_pmksa :: "bytes option"

text \<open>
  \<open>room\<close> is the size of the buffer. The result is the return value with the element; the bytes are
  written from the front one after the other, so a store is outside the buffer (\<open>None\<close>) exactly when
  the element is longer than the buffer.
\<close>

definition wpa_gen_wpa_ie_wpa :: "build_config \<Rightarrow> nat \<Rightarrow> u32 \<Rightarrow> u32 \<Rightarrow> u32 \<Rightarrow> (int \<times> bytes) option" where
  "wpa_gen_wpa_ie_wpa cfg room pairwise_cipher group_cipher key_mgmt =
     (let group = wpa_cipher_to_suite cfg WPA_PROTO_WPA group_cipher;
          pairwise = wpa_cipher_to_suite cfg WPA_PROTO_WPA pairwise_cipher;
          akm = (if key_mgmt = WPA_KEY_MGMT_IEEE8021X then Some WPA_AUTH_KEY_MGMT_UNSPEC_802_1X
                 else if key_mgmt = WPA_KEY_MGMT_PSK then Some WPA_AUTH_KEY_MGMT_PSK_OVER_802_1X
                 else if key_mgmt = WPA_KEY_MGMT_WPA_NONE then Some WPA_AUTH_KEY_MGMT_NONE
                 else if key_mgmt = WPA_KEY_MGMT_CCKM then Some WPA_AUTH_KEY_MGMT_CCKM
                 else None)
      in if room < 8 + 4 + 2 + 4 + 2 + 4 then Some (-1, [])
         else if group = 0 then Some (-1, [])
         else if pairwise = 0 \<or> \<not> wpa_cipher_valid_pairwise pairwise_cipher \<and> pairwise_cipher \<noteq> WPA_CIPHER_NONE
         then Some (-1, [])
         else case akm of
           None \<Rightarrow> Some (-1, [])
         | Some suite \<Rightarrow>
             (let body = WPA_PUT_BE32 WPA_OUI_TYPE @ WPA_PUT_LE16 1 @ WPA_PUT_BE32 group @ [1, 0] @
                WPA_PUT_BE32 pairwise @ [1, 0] @ WPA_PUT_BE32 suite;
              ie = [221, of_nat (length body)] @ body
              in if room < length ie then None else Some (int (length ie), ie)))"

text \<open>The chain that picks the suite of the key management; \<open>None\<close> is the warning and return -1.\<close>

definition rsn_gen_akm :: "build_config \<Rightarrow> u32 \<Rightarrow> u32 option" where
  "rsn_gen_akm cfg key_mgmt =
     (if key_mgmt = WPA_KEY_MGMT_IEEE8021X then Some RSN_AUTH_KEY_MGMT_UNSPEC_802_1X
      else if key_mgmt = WPA_KEY_MGMT_PSK then Some (RSN_AUTH_KEY_MGMT_PSK_OVER_802_1X cfg)
      else if key_mgmt = WPA_KEY_MGMT_CCKM then Some RSN_AUTH_KEY_MGMT_CCKM
      else if CONFIG_IEEE80211R cfg \<and> key_mgmt = WPA_KEY_MGMT_FT_IEEE8021X
      then Some RSN_AUTH_KEY_MGMT_FT_802_1X
      else if CONFIG_IEEE80211R cfg \<and> key_mgmt = WPA_KEY_MGMT_FT_PSK then Some RSN_AUTH_KEY_MGMT_FT_PSK
      else if CONFIG_IEEE80211W cfg \<and> key_mgmt = WPA_KEY_MGMT_IEEE8021X_SHA256
      then Some RSN_AUTH_KEY_MGMT_802_1X_SHA256
      else if CONFIG_IEEE80211W cfg \<and> key_mgmt = WPA_KEY_MGMT_PSK_SHA256
      then Some RSN_AUTH_KEY_MGMT_PSK_SHA256
      else if CONFIG_SAE cfg \<and> key_mgmt = WPA_KEY_MGMT_SAE then Some RSN_AUTH_KEY_MGMT_SAE
      else if CONFIG_SAE cfg \<and> key_mgmt = WPA_KEY_MGMT_FT_SAE then Some RSN_AUTH_KEY_MGMT_FT_SAE
      else None)"

definition wpa_gen_wpa_ie_rsn :: "build_config \<Rightarrow> nat \<Rightarrow> u32 \<Rightarrow> u32 \<Rightarrow> u32 \<Rightarrow> u32 \<Rightarrow> 'a ie_policy_scheme \<Rightarrow>
    (int \<times> bytes) option" where
  "wpa_gen_wpa_ie_rsn cfg room pairwise_cipher group_cipher key_mgmt mgmt_group_cipher sm =
     (let group = wpa_cipher_to_suite cfg WPA_PROTO_RSN group_cipher;
          pairwise = wpa_cipher_to_suite cfg WPA_PROTO_RSN pairwise_cipher;
          akm = rsn_gen_akm cfg key_mgmt;
          capab = (if CONFIG_IEEE80211W cfg then
                     (if ip_mfp sm \<noteq> 0 then 0x80 else 0) OR (if ip_mfp sm = 2 then 0x40 else 0)
                   else 0)
      in if room < 4 + 4 + 2 + 4 + 2 + 4 + 2 + (if ip_cur_pmksa sm \<noteq> None then 2 + 16 else 0) then Some (-1, [])
         else if group = 0 then Some (-1, [])
         else if pairwise = 0 \<or> \<not> wpa_cipher_valid_pairwise pairwise_cipher \<and> pairwise_cipher \<noteq> WPA_CIPHER_NONE
         then Some (-1, [])
         else case akm of
           None \<Rightarrow> Some (-1, [])
         | Some suite \<Rightarrow>
             (let pmkid = (case ip_cur_pmksa sm of None \<Rightarrow> [] | Some p \<Rightarrow> [1, 0] @ take 16 p);
                  mgmt = (if CONFIG_IEEE80211W cfg \<and> mgmt_group_cipher = WPA_CIPHER_AES_128_CMAC
                    then (if ip_cur_pmksa sm = None then WPA_PUT_LE16 0 else []) @
                      WPA_PUT_BE32 RSN_CIPHER_SUITE_AES_128_CMAC
                    else []);
                  body = WPA_PUT_LE16 1 @ WPA_PUT_BE32 group @ [1, 0] @ WPA_PUT_BE32 pairwise @ [1, 0] @
                    WPA_PUT_BE32 suite @ WPA_PUT_LE16 capab @ pmkid @ mgmt;
                  ie = [48, of_nat (length body)] @ body
              in if room < length ie then None else Some (int (length ie), ie)))"

definition wpa_gen_wpa_ie :: "build_config \<Rightarrow> 'a ie_policy_scheme \<Rightarrow> nat \<Rightarrow> (int \<times> bytes) option" where
  "wpa_gen_wpa_ie cfg sm wpa_ie_len =
     (if ip_proto sm = WPA_PROTO_RSN
      then wpa_gen_wpa_ie_rsn cfg wpa_ie_len (ip_pairwise_cipher sm) (ip_group_cipher sm) (ip_key_mgmt sm)
        (ip_mgmt_group_cipher sm) sm
      else wpa_gen_wpa_ie_wpa cfg wpa_ie_len (ip_pairwise_cipher sm) (ip_group_cipher sm) (ip_key_mgmt sm))"

section \<open>The parsers stay inside the element\<close>

text \<open>The invariant between two stages: \<open>left\<close> counts exactly the bytes behind \<open>pos\<close>.\<close>

definition pmkid_ok :: "bytes \<Rightarrow> wpa_ie_data \<Rightarrow> bool" where
  "pmkid_ok ie data \<longleftrightarrow> (ie_pmkid data = None \<longrightarrow> ie_num_pmkid data = 0) \<and>
     (\<forall>p. ie_pmkid data = Some p \<longrightarrow> p + 16 * ie_num_pmkid data \<le> length ie)"

definition stage_ok :: "bytes \<Rightarrow> ie_stage \<Rightarrow> bool" where
  "stage_ok ie st \<longleftrightarrow> (case st of None \<Rightarrow> False | Some (Inl e) \<Rightarrow> fst e < 0
     | Some (Inr (data, pos, left)) \<Rightarrow> pos + left = length ie \<and> pmkid_ok ie data)"

lemma stage_then_ok:
  assumes "stage_ok ie st" "\<And>s. stage_ok ie (Some (Inr s)) \<Longrightarrow> stage_ok ie (f s)"
  shows "stage_ok ie (stage_then st f)"
proof (cases st)
  case None
  with assms(1) show ?thesis by (simp add: stage_ok_def)
next
  case (Some x)
  with assms show ?thesis by (cases x) (simp_all add: stage_ok_def [of ie "Some (Inl _)"])
qed

lemma ie_suites_Some: "pos + 4 * n \<le> length ie \<Longrightarrow> \<exists>r. ie_suites sel ie n pos acc = Some r"
  by (induction n arbitrary: pos acc) simp_all

lemma ie_stages_ok:
  assumes "stage_ok ie (Some (Inr s))"
  shows "stage_ok ie (ie_group sel bad ie s)" "stage_ok ie (ie_pairwise sel bad ie s)" "stage_ok ie (ie_akm sel ie s)"
    "stage_ok ie (ie_capab ie s)" "stage_ok ie (ie_pmkids ie s)" "stage_ok ie (ie_mgmt_group cfg ie s)"
proof -
  obtain data pos left where s: "s = (data, pos, left)" by (cases s)
  have l: "pos + left = length ie" using assms by (simp add: s stage_ok_def)
  have suites: "\<lbrakk>2 \<le> left; \<not> left - 2 < n * 4\<rbrakk> \<Longrightarrow> \<exists>r. ie_suites sel ie n (pos + 2) 0 = Some r" for n
    using l by (intro ie_suites_Some) simp
  have ok: "pmkid_ok ie data" using assms by (simp add: s stage_ok_def)
  show "stage_ok ie (ie_group sel bad ie s)"
    using ok l by (simp add: s stage_ok_def Let_def pmkid_ok_def)
  show "stage_ok ie (ie_capab ie s)"
    using ok l by (cases "2 \<le> left") (simp_all add: s stage_ok_def pmkid_ok_def)
  show "stage_ok ie (ie_mgmt_group cfg ie s)"
    using ok l by (simp add: s stage_ok_def Let_def pmkid_ok_def)
  show "stage_ok ie (ie_pmkids ie s)"
    using ok l by (cases "2 \<le> left") (auto simp: s stage_ok_def Let_def pmkid_ok_def)
  show "stage_ok ie (ie_pairwise sel bad ie s)" "stage_ok ie (ie_akm sel ie s)"
    using ok l suites [of "unat (WPA_GET_LE16 (take 2 (drop pos ie)))"]
    by (cases "2 \<le> left"; force simp: s stage_ok_def Let_def pmkid_ok_def)+
qed

lemma ie_finish_ok: "stage_ok ie st \<Longrightarrow> \<exists>r data. ie_finish st = Some (r, data) \<and> (r < 0 \<or> r = 0 \<and> pmkid_ok ie data)"
  by (cases st rule: ie_finish.cases) (auto simp: stage_ok_def)

lemmas ie_stage_intros = stage_then_ok ie_stages_ok

lemma pmkid_ok_none [simp]: "pmkid_ok ie data" if "ie_pmkid data = None" "ie_num_pmkid data = 0"
  using that by (simp add: pmkid_ok_def)

lemma parse_rsn_ok:
  "\<exists>r data. wpa_parse_wpa_ie_rsn cfg ie = Some (r, data) \<and> (r < 0 \<or> r = 0 \<and> pmkid_ok ie data)"
proof (cases "length ie < 4")
  case True
  then show ?thesis by (simp add: wpa_parse_wpa_ie_rsn_def Let_def)
next
  case False
  then have init: "stage_ok ie (Some (Inr (data, 4, length ie - 4)))"
    if "ie_pmkid data = None" "ie_num_pmkid data = 0" for data
    using that by (simp add: stage_ok_def)
  show ?thesis
    using False unfolding wpa_parse_wpa_ie_rsn_def Let_def
    by (simp del: ie_group.simps ie_pairwise.simps ie_akm.simps ie_capab.simps ie_pmkids.simps ie_mgmt_group.simps)
      (intro impI conjI ie_finish_ok ie_stage_intros init; simp)
qed

lemma parse_wpa_ok:
  "\<exists>r data. wpa_parse_wpa_ie_wpa ie = Some (r, data) \<and> (r < 0 \<or> r = 0 \<and> pmkid_ok ie data)"
proof (cases "length ie < 8")
  case True
  then show ?thesis by (simp add: wpa_parse_wpa_ie_wpa_def Let_def)
next
  case False
  then have init: "stage_ok ie (Some (Inr (data, 8, length ie - 8)))"
    if "ie_pmkid data = None" "ie_num_pmkid data = 0" for data
    using that by (simp add: stage_ok_def)
  show ?thesis
    using False unfolding wpa_parse_wpa_ie_wpa_def Let_def
    by (simp del: ie_group.simps ie_pairwise.simps ie_akm.simps ie_capab.simps)
      (intro impI conjI ie_finish_ok ie_stage_intros init; simp)
qed

text \<open>
  C13. Parsing a WPA or RSN element is memory safe and total: for every byte string, in every build
  configuration, \<open>wpa_parse_wpa_ie\<close> reads only inside the element and returns either a negative error or
  0, and then the PMKID list it points to lies inside the element.
\<close>

theorem wpa_parse_wpa_ie_safe:
  "\<exists>r data. wpa_parse_wpa_ie cfg ie = Some (r, data) \<and> (r < 0 \<or> r = 0 \<and> pmkid_ok ie data)"
  using parse_rsn_ok [of cfg ie] parse_wpa_ok [of ie] by (simp add: wpa_parse_wpa_ie_def)

section \<open>Generated elements read back\<close>

lemma get_put_be32_exact [simp]: "WPA_GET_BE32 (WPA_PUT_BE32 v) = v"
  using get_put_be32 [of v "[]"] by simp

lemma get_put_le16_exact [simp]: "WPA_GET_LE16 (WPA_PUT_LE16 v) = v"
  using get_put_le16 [of v "[]"] by simp

lemma get_le16_10 [simp]: "WPA_GET_LE16 [1, 0] = 1"
  by (simp add: WPA_GET_LE16_def)

definition rsn_ciphers :: "u32 set" where
  "rsn_ciphers = {WPA_CIPHER_NONE, WPA_CIPHER_WEP40, WPA_CIPHER_WEP104, WPA_CIPHER_TKIP, WPA_CIPHER_CCMP, WPA_CIPHER_GCMP}"

definition rsn_akms :: "build_config \<Rightarrow> u32 set" where
  "rsn_akms cfg = {WPA_KEY_MGMT_IEEE8021X, WPA_KEY_MGMT_PSK} \<union>
     (if CONFIG_IEEE80211R cfg then {WPA_KEY_MGMT_FT_IEEE8021X, WPA_KEY_MGMT_FT_PSK} else {}) \<union>
     (if CONFIG_IEEE80211W cfg then {WPA_KEY_MGMT_IEEE8021X_SHA256, WPA_KEY_MGMT_PSK_SHA256} else {}) \<union>
     (if CONFIG_SAE cfg then {WPA_KEY_MGMT_SAE, WPA_KEY_MGMT_FT_SAE} else {})"

definition rsn_akm_suite :: "build_config \<Rightarrow> u32 \<Rightarrow> u32" where
  "rsn_akm_suite cfg k =
     (if k = WPA_KEY_MGMT_IEEE8021X then RSN_AUTH_KEY_MGMT_UNSPEC_802_1X
      else if k = WPA_KEY_MGMT_PSK then RSN_AUTH_KEY_MGMT_PSK_OVER_802_1X cfg
      else if k = WPA_KEY_MGMT_FT_IEEE8021X then RSN_AUTH_KEY_MGMT_FT_802_1X
      else if k = WPA_KEY_MGMT_FT_PSK then RSN_AUTH_KEY_MGMT_FT_PSK
      else if k = WPA_KEY_MGMT_IEEE8021X_SHA256 then RSN_AUTH_KEY_MGMT_802_1X_SHA256
      else if k = WPA_KEY_MGMT_PSK_SHA256 then RSN_AUTH_KEY_MGMT_PSK_SHA256
      else if k = WPA_KEY_MGMT_SAE then RSN_AUTH_KEY_MGMT_SAE
      else RSN_AUTH_KEY_MGMT_FT_SAE)"

lemma RSN_SELECTOR_get: "RSN_SELECTOR a b c d = WPA_GET_BE32 [a, b, c, d]"
  by (simp add: RSN_SELECTOR_def WPA_GET_BE32_def)

lemma RSN_SELECTOR_eq_iff:
  "RSN_SELECTOR a b c d = RSN_SELECTOR a' b' c' d' \<longleftrightarrow> a = a' \<and> b = b' \<and> c = c' \<and> d = d'"
proof -
  have p: "WPA_PUT_BE32 (RSN_SELECTOR a b c d) = [a, b, c, d]" for a b c d
    unfolding RSN_SELECTOR_get by (rule put_get_be32) simp
  show ?thesis using p [of a b c d] p [of a' b' c' d'] by (metis list.inject)
qed

lemma RSN_SELECTOR_nonzero: "RSN_SELECTOR a b c d = 0 \<longleftrightarrow> a = 0 \<and> b = 0 \<and> c = 0 \<and> d = 0"
  using RSN_SELECTOR_eq_iff [of a b c d 0 0 0 0] by (simp add: RSN_SELECTOR_def [of 0])

lemmas suite_simps = wpa_cipher_to_suite_def rsn_selector_to_bitfield_def RSN_CIPHER_SUITE_CCMP_def
  rsn_key_mgmt_to_bitfield_def RSN_AUTH_KEY_MGMT_PSK_OVER_802_1X_def RSN_SELECTOR_eq_iff RSN_SELECTOR_nonzero

lemma rsn_selector_roundtrip:
  assumes "c \<in> rsn_ciphers"
  shows "rsn_selector_to_bitfield cfg (WPA_PUT_BE32 (wpa_cipher_to_suite cfg WPA_PROTO_RSN c)) = c"
    and "wpa_cipher_to_suite cfg WPA_PROTO_RSN c \<noteq> 0"
  using assms unfolding rsn_ciphers_def
  by (elim insertE emptyE; simp add: suite_simps)+

lemma rsn_akm_roundtrip:
  assumes "k \<in> rsn_akms cfg"
  shows "rsn_key_mgmt_to_bitfield cfg (WPA_PUT_BE32 (rsn_akm_suite cfg k)) = k"
  using assms unfolding rsn_akms_def rsn_akm_suite_def
  by (elim UnE insertE emptyE; simp add: suite_simps split: if_splits; elim disjE; simp add: suite_simps)

text \<open>A stage on an element that has its field at the current position.\<close>

lemma c_slice_at: "ie = pre @ f @ post \<Longrightarrow> pos = length pre \<Longrightarrow> n = length f \<Longrightarrow> c_slice ie pos n = Some f"
  by (simp add: c_slice_def)

lemma ie_group_at:
  assumes "ie = pre @ WPA_PUT_BE32 v @ post" "\<not> bad (sel (WPA_PUT_BE32 v))"
  shows "ie_group sel bad ie (d, length pre, 4 + length post) =
    Some (Inr (d\<lparr>ie_group_cipher := sel (WPA_PUT_BE32 v)\<rparr>, length pre + 4, length post))"
  using assms(2) c_slice_at [OF assms(1) refl] by simp

lemma ie_suites_at:
  assumes "ie = pre @ WPA_PUT_BE32 v @ post"
  shows "ie_suites sel ie (Suc 0) (length pre) 0 = Some (sel (WPA_PUT_BE32 v))"
  using c_slice_at [OF assms refl] by simp

lemma ie_pairwise_at:
  assumes "ie = pre @ [1, 0] @ WPA_PUT_BE32 v @ post" "\<not> bad (sel (WPA_PUT_BE32 v))"
  shows "ie_pairwise sel bad ie (d, length pre, 6 + length post) =
    Some (Inr (d\<lparr>ie_pairwise_cipher := sel (WPA_PUT_BE32 v)\<rparr>, length pre + 6, length post))"
proof -
  have "c_slice ie (length pre) 2 = Some [1, 0]"
    by (rule c_slice_at [OF assms(1) refl]) simp
  moreover have "ie_suites sel ie (Suc 0) (length pre + 2) 0 = Some (sel (WPA_PUT_BE32 v))"
    using ie_suites_at [of ie "pre @ [1, 0]" v post sel] assms(1) by simp
  ultimately show ?thesis using assms(2) by (simp add: Let_def)
qed

lemma ie_akm_at:
  assumes "ie = pre @ [1, 0] @ WPA_PUT_BE32 v @ post"
  shows "ie_akm sel ie (d, length pre, 6 + length post) =
    Some (Inr (d\<lparr>ie_key_mgmt := sel (WPA_PUT_BE32 v)\<rparr>, length pre + 6, length post))"
proof -
  have "c_slice ie (length pre) 2 = Some [1, 0]"
    by (rule c_slice_at [OF assms(1) refl]) simp
  moreover have "ie_suites sel ie (Suc 0) (length pre + 2) 0 = Some (sel (WPA_PUT_BE32 v))"
    using ie_suites_at [of ie "pre @ [1, 0]" v post sel] assms(1) by simp
  ultimately show ?thesis by (simp add: Let_def)
qed

lemma ie_capab_at:
  assumes "ie = pre @ WPA_PUT_LE16 c @ post"
  shows "ie_capab ie (d, length pre, 2 + length post) =
    Some (Inr (d\<lparr>ie_capabilities := c\<rparr>, length pre + 2, length post))"
  using c_slice_at [OF assms refl] by simp

lemma ie_pmkids_at:
  assumes "ie = pre @ WPA_PUT_LE16 n @ ids @ post" "length ids = 16 * unat n"
  shows "ie_pmkids ie (d, length pre, 2 + length ids + length post) =
    Some (Inr (d\<lparr>ie_num_pmkid := unat n, ie_pmkid := Some (length pre + 2)\<rparr>, length pre + 2 + length ids, length post))"
  using c_slice_at [OF assms(1) refl] assms(2) by (simp add: Let_def)

lemma ie_mgmt_group_at:
  assumes "ie = pre @ WPA_PUT_BE32 RSN_CIPHER_SUITE_AES_128_CMAC @ post" "CONFIG_IEEE80211W cfg"
  shows "ie_mgmt_group cfg ie (d, length pre, 4 + length post) =
    Some (Inr (d\<lparr>ie_mgmt_group_cipher := WPA_CIPHER_AES_128_CMAC\<rparr>, length pre + 4, length post))"
proof -
  have "rsn_selector_to_bitfield cfg (WPA_PUT_BE32 RSN_CIPHER_SUITE_AES_128_CMAC) = WPA_CIPHER_AES_128_CMAC"
    using assms(2) by (simp add: suite_simps)
  then show ?thesis using c_slice_at [OF assms(1) refl] assms(2) by (simp add: Let_def)
qed

text \<open>The fixed part of an RSN element, and what the parser makes of the rest.\<close>

definition rsn_head :: "nat \<Rightarrow> u32 \<Rightarrow> u32 \<Rightarrow> u32 \<Rightarrow> u16 \<Rightarrow> bytes" where
  "rsn_head n g p k c = [48, of_nat n] @ WPA_PUT_LE16 1 @ WPA_PUT_BE32 g @ [1, 0] @ WPA_PUT_BE32 p @ [1, 0] @
     WPA_PUT_BE32 k @ WPA_PUT_LE16 c"

lemma length_rsn_head [simp]: "length (rsn_head n g p k c) = 22"
  by (simp add: rsn_head_def)

lemma parse_rsn_head:
  fixes cfg
  defines "sel \<equiv> rsn_selector_to_bitfield cfg"
  assumes ie: "ie = rsn_head (20 + length rest) g p k c @ rest" and "length rest \<le> 235"
    and "sel (WPA_PUT_BE32 g) \<in> rsn_ciphers" "sel (WPA_PUT_BE32 p) \<in> rsn_ciphers"
  shows "wpa_parse_wpa_ie_rsn cfg ie = ie_finish (stage_then (ie_pmkids ie
    (\<lparr>ie_proto = WPA_PROTO_RSN, ie_pairwise_cipher = sel (WPA_PUT_BE32 p), ie_group_cipher = sel (WPA_PUT_BE32 g),
      ie_key_mgmt = rsn_key_mgmt_to_bitfield cfg (WPA_PUT_BE32 k), ie_capabilities = c, ie_num_pmkid = 0,
      ie_pmkid = None, ie_mgmt_group_cipher = (if CONFIG_IEEE80211W cfg then WPA_CIPHER_AES_128_CMAC else 0)\<rparr>,
     22, length rest)) (ie_mgmt_group cfg ie))"
proof -
  have bits: "x \<in> rsn_ciphers \<Longrightarrow> x \<noteq> 32 \<and> x AND 32 = 0" for x :: u32
    unfolding rsn_ciphers_def by (elim insertE emptyE) simp_all
  note ok = bits [OF assms(4)] bits [OF assms(5)]
  let ?n = "of_nat (20 + length rest) :: u8"
  have "unat ?n = 20 + length rest" unfolding unat_of_nat using assms(3) by simp
  then have "unat ?n = length ie - 2" by (simp add: ie)
  moreover have "ie ! 0 = 48" "ie ! 1 = ?n" "c_slice ie 2 2 = Some (WPA_PUT_LE16 1)"
    by (simp_all add: ie rsn_head_def c_slice_def)
  moreover have len: "length ie = 22 + length rest" by (simp add: ie)
  ultimately have run: "wpa_parse_wpa_ie_rsn cfg ie = ie_finish
             (stage_then (stage_then (stage_then (stage_then (stage_then
               (ie_group sel (\<lambda>c. CONFIG_IEEE80211W cfg \<and> c = WPA_CIPHER_AES_128_CMAC) ie
                 (\<lparr>ie_proto = WPA_PROTO_RSN, ie_pairwise_cipher = WPA_CIPHER_CCMP,
                   ie_group_cipher = WPA_CIPHER_CCMP, ie_key_mgmt = WPA_KEY_MGMT_IEEE8021X, ie_capabilities = 0,
                   ie_num_pmkid = 0, ie_pmkid = None,
                   ie_mgmt_group_cipher = (if CONFIG_IEEE80211W cfg then WPA_CIPHER_AES_128_CMAC else 0)\<rparr>,
                  4, 18 + length rest))
               (ie_pairwise sel (\<lambda>c. CONFIG_IEEE80211W cfg \<and> c AND WPA_CIPHER_AES_128_CMAC \<noteq> 0) ie))
               (ie_akm (rsn_key_mgmt_to_bitfield cfg) ie))
               (ie_capab ie))
               (ie_pmkids ie))
               (ie_mgmt_group cfg ie))"
    unfolding wpa_parse_wpa_ie_rsn_def Let_def sel_def by (simp del: ie_group.simps)
  define pre1 where "pre1 = [48, ?n] @ WPA_PUT_LE16 1"
  define pre2 where "pre2 = pre1 @ WPA_PUT_BE32 g"
  define pre3 where "pre3 = pre2 @ [1, 0] @ WPA_PUT_BE32 p"
  define pre4 where "pre4 = pre3 @ [1, 0] @ WPA_PUT_BE32 k"
  have ies: "ie = pre1 @ WPA_PUT_BE32 g @ drop 8 ie" "ie = pre2 @ [1, 0] @ WPA_PUT_BE32 p @ drop 14 ie"
    "ie = pre3 @ [1, 0] @ WPA_PUT_BE32 k @ drop 20 ie" "ie = pre4 @ WPA_PUT_LE16 c @ rest"
    by (simp_all add: ie rsn_head_def pre1_def pre2_def pre3_def pre4_def)
  have lens: "length pre1 = 4" "length pre2 = 8" "length pre3 = 14" "length pre4 = 20"
    by (simp_all add: pre1_def pre2_def pre3_def pre4_def)
  have drops: "length (drop 8 ie) = 14 + length rest" "length (drop 14 ie) = 8 + length rest"
    "length (drop 20 ie) = 2 + length rest"
    by (simp_all add: len)
  note at = ie_group_at [OF ies(1), of "\<lambda>c. CONFIG_IEEE80211W cfg \<and> c = WPA_CIPHER_AES_128_CMAC" sel]
    ie_pairwise_at [OF ies(2), of "\<lambda>c. CONFIG_IEEE80211W cfg \<and> c AND WPA_CIPHER_AES_128_CMAC \<noteq> 0" sel]
    ie_akm_at [OF ies(3), of "rsn_key_mgmt_to_bitfield cfg"] ie_capab_at [OF ies(4)]
  show ?thesis
    unfolding run using at ok unfolding lens drops
    by (simp del: ie_group.simps ie_pairwise.simps ie_akm.simps ie_capab.simps ie_pmkids.simps ie_mgmt_group.simps)
qed

text \<open>The tail that \<open>wpa_gen_wpa_ie_rsn\<close> appends to the fixed part.\<close>

definition rsn_tail :: "build_config \<Rightarrow> bytes option \<Rightarrow> u32 \<Rightarrow> bytes" where
  "rsn_tail cfg pmkid mgmt = (case pmkid of None \<Rightarrow> [] | Some p \<Rightarrow> [1, 0] @ take 16 p) @
     (if CONFIG_IEEE80211W cfg \<and> mgmt = WPA_CIPHER_AES_128_CMAC
      then (if pmkid = None then WPA_PUT_LE16 0 else []) @ WPA_PUT_BE32 RSN_CIPHER_SUITE_AES_128_CMAC else [])"

lemma length_rsn_tail: "\<forall>p. pmkid = Some p \<longrightarrow> length p = 16 \<Longrightarrow> length (rsn_tail cfg pmkid mgmt) \<le> 22"
  by (cases pmkid) (simp_all add: rsn_tail_def)

definition rsn_capab :: "build_config \<Rightarrow> int \<Rightarrow> u16" where
  "rsn_capab cfg mfp = (if CONFIG_IEEE80211W cfg then
     (if mfp \<noteq> 0 then 0x80 else 0) OR (if mfp = 2 then 0x40 else 0) else 0)"

lemma rsn_gen_akm_eq:
  assumes "akm \<in> rsn_akms cfg"
  shows "rsn_gen_akm cfg akm = Some (rsn_akm_suite cfg akm)"
  using assms unfolding rsn_akms_def rsn_akm_suite_def rsn_gen_akm_def
  by (elim UnE insertE emptyE; simp split: if_splits; elim disjE; simp)

lemma parse_rsn_tail:
  assumes ie: "ie = pre @ rsn_tail cfg pmkid mgmt" and p: "\<forall>p. pmkid = Some p \<longrightarrow> length p = 16"
    and d: "ie_num_pmkid d = 0"
  shows "\<exists>d'. ie_finish (stage_then (ie_pmkids ie (d, length pre, length (rsn_tail cfg pmkid mgmt))) (ie_mgmt_group cfg ie)) =
      Some (0, d') \<and> ie_proto d' = ie_proto d \<and> ie_pairwise_cipher d' = ie_pairwise_cipher d \<and>
    ie_group_cipher d' = ie_group_cipher d \<and> ie_key_mgmt d' = ie_key_mgmt d \<and>
    ie_capabilities d' = ie_capabilities d \<and>
    (case pmkid of None \<Rightarrow> ie_num_pmkid d' = 0
     | Some p \<Rightarrow> ie_num_pmkid d' = 1 \<and> ie_pmkid d' = Some (length pre + 2))"
proof -
  define ids where "ids = (case pmkid of None \<Rightarrow> [] | Some p \<Rightarrow> p)"
  define n :: u16 where "n = (case pmkid of None \<Rightarrow> 0 | Some p \<Rightarrow> 1)"
  define m where "m \<longleftrightarrow> CONFIG_IEEE80211W cfg \<and> mgmt = WPA_CIPHER_AES_128_CMAC"
  define post where "post = (if m then WPA_PUT_BE32 RSN_CIPHER_SUITE_AES_128_CMAC else [])"
  have one: "WPA_PUT_LE16 1 = [1, 0]" by (simp add: WPA_PUT_LE16_def)
  have ids: "length ids = 16 * unat n" using p by (cases pmkid) (simp_all add: ids_def n_def)
  show ?thesis
  proof (cases "pmkid = None \<and> \<not> m")
    case True
    then have "rsn_tail cfg pmkid mgmt = []" by (auto simp: rsn_tail_def m_def)
    with True d show ?thesis by simp
  next
    case False
    then have t: "rsn_tail cfg pmkid mgmt = WPA_PUT_LE16 n @ ids @ post"
      using p by (cases pmkid) (simp_all add: rsn_tail_def ids_def n_def post_def m_def one)
    note at = ie_pmkids_at [OF ie [unfolded t] ids, of d]
    have mg: "ie_mgmt_group cfg ie (d', length pre + 2 + length ids, length post) =
        Some (Inr (if m then d'\<lparr>ie_mgmt_group_cipher := WPA_CIPHER_AES_128_CMAC\<rparr> else d',
          length pre + 2 + length ids + length post, 0))" for d'
    proof (cases m)
      case True
      then show ?thesis
        using ie_mgmt_group_at [of ie "pre @ WPA_PUT_LE16 n @ ids" "[]" cfg d'] ie t
        by (simp add: post_def m_def del: ie_mgmt_group.simps)
    next
      case False
      then show ?thesis by (simp add: post_def)
    qed
    have tl: "length (rsn_tail cfg pmkid mgmt) = 2 + length ids + length post" by (simp add: t)
    show ?thesis
      unfolding tl at stage_then.simps mg ie_finish.simps by (cases pmkid) (simp_all add: n_def)
  qed
qed

lemma gen_rsn_eq:
  assumes "gc \<in> rsn_ciphers" "wpa_cipher_valid_pairwise pc \<or> pc = WPA_CIPHER_NONE"
    and "akm \<in> rsn_akms cfg" "\<forall>p. ip_cur_pmksa sm = Some p \<longrightarrow> length p = 16" "44 \<le> room"
    and rest_def: "rest = rsn_tail cfg (ip_cur_pmksa sm) mgmt"
  shows "wpa_gen_wpa_ie_rsn cfg room pc gc akm mgmt sm = Some (int (22 + length rest),
    rsn_head (20 + length rest) (wpa_cipher_to_suite cfg WPA_PROTO_RSN gc)
      (wpa_cipher_to_suite cfg WPA_PROTO_RSN pc) (rsn_akm_suite cfg akm) (rsn_capab cfg (ip_mfp sm)) @ rest)"
proof -
  have "pc \<in> rsn_ciphers" using assms(2) by (auto simp: rsn_ciphers_def wpa_cipher_valid_pairwise_def)
  note nz = rsn_selector_roundtrip(2) [OF assms(1), of cfg] rsn_selector_roundtrip(2) [OF this, of cfg]
  have len: "length rest \<le> 22" unfolding rest_def using assms(4) by (rule length_rsn_tail)
  have guards: "\<not> room < 4 + 4 + 2 + 4 + 2 + 4 + 2 + (if ip_cur_pmksa sm \<noteq> None then 2 + 16 else 0)"
    "\<not> (\<not> wpa_cipher_valid_pairwise pc \<and> pc \<noteq> WPA_CIPHER_NONE)"
    using assms(2,5) by auto
  have rest: "(case ip_cur_pmksa sm of None \<Rightarrow> [] | Some p \<Rightarrow> [1, 0] @ take 16 p) @
      (if CONFIG_IEEE80211W cfg \<and> mgmt = WPA_CIPHER_AES_128_CMAC
       then (if ip_cur_pmksa sm = None then WPA_PUT_LE16 0 else []) @ WPA_PUT_BE32 RSN_CIPHER_SUITE_AES_128_CMAC
       else []) = rest"
    by (simp add: rest_def rsn_tail_def)
  show ?thesis
    unfolding wpa_gen_wpa_ie_rsn_def Let_def rsn_gen_akm_eq [OF assms(3)] option.case rsn_capab_def [symmetric] rest
    using nz guards len assms(5) by (simp add: rsn_head_def)
qed


definition sample_policy :: ie_policy where
  "sample_policy = \<lparr>ip_proto = WPA_PROTO_RSN, ip_pairwise_cipher = WPA_CIPHER_CCMP, ip_group_cipher = WPA_CIPHER_CCMP,
     ip_key_mgmt = WPA_KEY_MGMT_PSK, ip_mgmt_group_cipher = 0, ip_mfp = 0, ip_cur_pmksa = Some (replicate 16 9)\<rparr>"




end
