(* ===== verification/Key_Data.thy ===== *)
theory Key_Data
  imports Wpa_Cipher
begin

text \<open>
  The key data of EAPOL-Key frames (second part of \<open>src/drc-hostap/src/rsn_supp/wpa_ie.c\<close>): the parser that
  splits it into elements and key data encapsulations.
\<close>

section \<open>Parsed key data\<close>

text \<open>A pointer with its length is a pair of offset and length, NULL is \<open>None\<close>.\<close>

record wpa_eapol_ie_parse =
  kd_wpa_ie :: "(nat \<times> nat) option"
  kd_rsn_ie :: "(nat \<times> nat) option"
  kd_pmkid :: "nat option"
  kd_gtk :: "(nat \<times> nat) option"
  kd_mac_addr :: "(nat \<times> nat) option"
  kd_smk :: "(nat \<times> nat) option"
  kd_nonce :: "(nat \<times> nat) option"
  kd_lifetime :: "(nat \<times> nat) option"
  kd_error :: "(nat \<times> nat) option"
  kd_igtk :: "(nat \<times> nat) option"
  kd_mdie :: "(nat \<times> nat) option"
  kd_ftie :: "(nat \<times> nat) option"
  kd_reassoc_deadline :: "nat option"
  kd_key_lifetime :: "nat option"
  kd_lnkid :: "(nat \<times> nat) option"
  kd_ext_capab :: "(nat \<times> nat) option"
  kd_supp_rates :: "(nat \<times> nat) option"
  kd_ext_supp_rates :: "(nat \<times> nat) option"
  kd_ht_capabilities :: "(nat \<times> nat) option"
  kd_vht_capabilities :: "(nat \<times> nat) option"
  kd_qosinfo :: u8
  kd_aid :: u16

definition kd_empty :: wpa_eapol_ie_parse where
  "kd_empty = \<lparr>kd_wpa_ie = None, kd_rsn_ie = None, kd_pmkid = None, kd_gtk = None, kd_mac_addr = None,
     kd_smk = None, kd_nonce = None, kd_lifetime = None, kd_error = None, kd_igtk = None, kd_mdie = None,
     kd_ftie = None, kd_reassoc_deadline = None, kd_key_lifetime = None, kd_lnkid = None, kd_ext_capab = None,
     kd_supp_rates = None, kd_ext_supp_rates = None, kd_ht_capabilities = None, kd_vht_capabilities = None,
     kd_qosinfo = 0, kd_aid = 0\<rparr>"

abbreviation (input) RSN_KEY_DATA_GROUPKEY :: u32 where "RSN_KEY_DATA_GROUPKEY \<equiv> RSN_SELECTOR 0x00 0x0f 0xac 1"
abbreviation (input) RSN_KEY_DATA_MAC_ADDR :: u32 where "RSN_KEY_DATA_MAC_ADDR \<equiv> RSN_SELECTOR 0x00 0x0f 0xac 3"
abbreviation (input) RSN_KEY_DATA_PMKID :: u32 where "RSN_KEY_DATA_PMKID \<equiv> RSN_SELECTOR 0x00 0x0f 0xac 4"
abbreviation (input) RSN_KEY_DATA_SMK :: u32 where "RSN_KEY_DATA_SMK \<equiv> RSN_SELECTOR 0x00 0x0f 0xac 5"
abbreviation (input) RSN_KEY_DATA_NONCE :: u32 where "RSN_KEY_DATA_NONCE \<equiv> RSN_SELECTOR 0x00 0x0f 0xac 6"
abbreviation (input) RSN_KEY_DATA_LIFETIME :: u32 where "RSN_KEY_DATA_LIFETIME \<equiv> RSN_SELECTOR 0x00 0x0f 0xac 7"
abbreviation (input) RSN_KEY_DATA_ERROR :: u32 where "RSN_KEY_DATA_ERROR \<equiv> RSN_SELECTOR 0x00 0x0f 0xac 8"
abbreviation (input) RSN_KEY_DATA_IGTK :: u32 where "RSN_KEY_DATA_IGTK \<equiv> RSN_SELECTOR 0x00 0x0f 0xac 9"

text \<open>The four bytes at an offset as a selector, read only where the source reads them.\<close>

definition selector_at :: "bytes \<Rightarrow> nat \<Rightarrow> u32 option" where
  "selector_at buf pos = map_option WPA_GET_BE32 (c_slice buf pos 4)"

text \<open>A key data encapsulation of more than two bytes with the given selector.\<close>

definition kde_is :: "bytes \<Rightarrow> nat \<Rightarrow> nat \<Rightarrow> u32 \<Rightarrow> bool option" where
  "kde_is buf pos l sel = (if l > 4 + 2 then map_option (\<lambda>s. s = sel) (selector_at buf (pos + 2)) else Some False)"

definition wpa_parse_generic :: "build_config \<Rightarrow> bytes \<Rightarrow> nat \<Rightarrow> wpa_eapol_ie_parse \<Rightarrow>
    (int \<times> wpa_eapol_ie_parse) option" where
  "wpa_parse_generic cfg buf pos ie = do {
     l \<leftarrow> map_option unat (c_read buf (pos + 1));
     if l = 0 then Some (1, ie)
     else do {
       wpa \<leftarrow> (if l \<ge> 6 then do {
          s \<leftarrow> selector_at buf (pos + 2);
          if s = WPA_OUI_TYPE then do {
            a \<leftarrow> c_read buf (pos + 6);
            if a = 1 then map_option (\<lambda>b. b = 0) (c_read buf (pos + 7)) else Some False }
          else Some False }
        else Some False);
       if wpa then Some (0, ie\<lparr>kd_wpa_ie := Some (pos, l + 2)\<rparr>)
       else do {
         pmkid \<leftarrow> (if pos + 1 + 4 < length buf \<and> l \<ge> 4 + 16
           then map_option (\<lambda>s. s = RSN_KEY_DATA_PMKID) (selector_at buf (pos + 2)) else Some False);
         if pmkid then Some (0, ie\<lparr>kd_pmkid := Some (pos + 6)\<rparr>)
         else do {
           gtk \<leftarrow> kde_is buf pos l RSN_KEY_DATA_GROUPKEY;
           mac \<leftarrow> kde_is buf pos l RSN_KEY_DATA_MAC_ADDR;
           smk \<leftarrow> kde_is buf pos l RSN_KEY_DATA_SMK;
           nonce \<leftarrow> kde_is buf pos l RSN_KEY_DATA_NONCE;
           lifetime \<leftarrow> kde_is buf pos l RSN_KEY_DATA_LIFETIME;
           err \<leftarrow> kde_is buf pos l RSN_KEY_DATA_ERROR;
           igtk \<leftarrow> kde_is buf pos l RSN_KEY_DATA_IGTK;
           let span = Some (pos + 6, l - 4);
           Some (0,
             if gtk then ie\<lparr>kd_gtk := span\<rparr>
             else if mac then ie\<lparr>kd_mac_addr := span\<rparr>
             else if CONFIG_PEERKEY cfg \<and> smk then ie\<lparr>kd_smk := span\<rparr>
             else if CONFIG_PEERKEY cfg \<and> nonce then ie\<lparr>kd_nonce := span\<rparr>
             else if CONFIG_PEERKEY cfg \<and> lifetime then ie\<lparr>kd_lifetime := span\<rparr>
             else if CONFIG_PEERKEY cfg \<and> err then ie\<lparr>kd_error := span\<rparr>
             else if CONFIG_IEEE80211W cfg \<and> igtk then ie\<lparr>kd_igtk := span\<rparr>
             else ie) } } } }"

text \<open>One element: the chain on its identifier. The value is 0 to go on, as \<open>ret\<close> in the source.\<close>

definition key_data_element :: "build_config \<Rightarrow> bytes \<Rightarrow> nat \<Rightarrow> u8 \<Rightarrow> nat \<Rightarrow> wpa_eapol_ie_parse \<Rightarrow>
    (int \<times> wpa_eapol_ie_parse) option" where
  "key_data_element cfg buf pos eid l ie =
     (if eid = 48 then Some (0, ie\<lparr>kd_rsn_ie := Some (pos, l + 2)\<rparr>)
      else if eid = 54 then Some (0, ie\<lparr>kd_mdie := Some (pos, l + 2)\<rparr>)
      else if eid = 55 then Some (0, ie\<lparr>kd_ftie := Some (pos, l + 2)\<rparr>)
      else if eid = 56 \<and> l \<ge> 5 then do {
        t \<leftarrow> c_read buf (pos + 2);
        Some (0, if t = 1 then ie\<lparr>kd_reassoc_deadline := Some pos\<rparr>
                 else if t = 2 then ie\<lparr>kd_key_lifetime := Some pos\<rparr>
                 else ie) }
      else if eid = 101 then Some (0, if l \<ge> 18 then ie\<lparr>kd_lnkid := Some (pos, l + 2)\<rparr> else ie)
      else if eid = 127 then Some (0, ie\<lparr>kd_ext_capab := Some (pos, l + 2)\<rparr>)
      else if eid = 1 then Some (0, ie\<lparr>kd_supp_rates := Some (pos, l + 2)\<rparr>)
      else if eid = 50 then Some (0, ie\<lparr>kd_ext_supp_rates := Some (pos, l + 2)\<rparr>)
      else if eid = 45 then Some (0, ie\<lparr>kd_ht_capabilities := Some (pos + 2, l)\<rparr>)
      else if eid = 197 then
        (if l \<ge> 2 then do {
           a \<leftarrow> c_slice buf (pos + 2) 2;
           Some (0, ie\<lparr>kd_aid := WPA_GET_LE16 a\<rparr>) }
         else Some (0, ie))
      else if eid = 191 then Some (0, ie\<lparr>kd_vht_capabilities := Some (pos + 2, l)\<rparr>)
      else if eid = 46 \<and> l \<ge> 1 then do {
        q \<leftarrow> c_read buf (pos + 2);
        Some (0, ie\<lparr>kd_qosinfo := q\<rparr>) }
      else if eid = 221 then wpa_parse_generic cfg buf pos ie
      else Some (0, ie))"

function parse_ies_loop :: "build_config \<Rightarrow> bytes \<Rightarrow> nat \<Rightarrow> wpa_eapol_ie_parse \<Rightarrow> (int \<times> wpa_eapol_ie_parse) option" where
  "parse_ies_loop cfg buf pos ie =
     (if pos + 1 < length buf then do {
        eid \<leftarrow> c_read buf pos;
        l \<leftarrow> map_option unat (c_read buf (pos + 1));
        if eid = 0xdd \<and> (pos = length buf - 1 \<or> l = 0) then Some (0, ie)
        else if length buf < pos + 2 + l then Some (-1, ie)
        else do {
          (ret, ie) \<leftarrow> key_data_element cfg buf pos eid l ie;
          if ret < 0 then Some (ret, ie)
          else if ret > 0 then Some (0, ie)
          else parse_ies_loop cfg buf (pos + 2 + l) ie } }
      else Some (0, ie))"
  by pat_completeness auto
termination
  by (relation "measure (\<lambda>(cfg, buf, pos, ie). length buf - pos)") auto

declare parse_ies_loop.simps [simp del]

definition wpa_supplicant_parse_ies :: "build_config \<Rightarrow> bytes \<Rightarrow> (int \<times> wpa_eapol_ie_parse) option" where
  "wpa_supplicant_parse_ies cfg buf = parse_ies_loop cfg buf 0 kd_empty"

section \<open>Every pointer stays inside the key data\<close>

definition kd_spans :: "wpa_eapol_ie_parse \<Rightarrow> (nat \<times> nat) option list" where
  "kd_spans ie = [kd_wpa_ie ie, kd_rsn_ie ie, map_option (\<lambda>p. (p, 16)) (kd_pmkid ie), kd_gtk ie, kd_mac_addr ie,
     kd_smk ie, kd_nonce ie, kd_lifetime ie, kd_error ie, kd_igtk ie, kd_mdie ie, kd_ftie ie,
     map_option (\<lambda>p. (p, 7)) (kd_reassoc_deadline ie), map_option (\<lambda>p. (p, 7)) (kd_key_lifetime ie),
     kd_lnkid ie, kd_ext_capab ie, kd_supp_rates ie, kd_ext_supp_rates ie, kd_ht_capabilities ie,
     kd_vht_capabilities ie]"

definition span_in :: "nat \<Rightarrow> (nat \<times> nat) option \<Rightarrow> bool" where
  "span_in n s \<longleftrightarrow> (case s of None \<Rightarrow> True | Some (off, len) \<Rightarrow> off + len \<le> n)"

definition kd_inside :: "nat \<Rightarrow> wpa_eapol_ie_parse \<Rightarrow> bool" where
  "kd_inside n ie \<longleftrightarrow> list_all (span_in n) (kd_spans ie)"

lemma span_in_simps [simp]: "span_in n None" "span_in n (Some (off, len)) \<longleftrightarrow> off + len \<le> n"
  by (simp_all add: span_in_def)

lemma kd_empty_inside: "kd_inside n kd_empty"
  by (simp add: kd_inside_def kd_spans_def kd_empty_def)

lemma selector_at_Some: "pos + 4 \<le> length buf \<Longrightarrow> \<exists>s. selector_at buf pos = Some s"
  by (simp add: selector_at_def)

lemma kde_is_eq: "pos + 2 + l \<le> length buf \<Longrightarrow>
    kde_is buf pos l sel = Some (6 < l \<and> WPA_GET_BE32 (take 4 (drop (pos + 2) buf)) = sel)"
  by (simp add: kde_is_def selector_at_def)

lemma kd_inside_update:
  assumes "kd_inside n ie"
  shows "off + len \<le> n \<Longrightarrow> kd_inside n (ie\<lparr>kd_wpa_ie := Some (off, len)\<rparr>)"
    "off + len \<le> n \<Longrightarrow> kd_inside n (ie\<lparr>kd_rsn_ie := Some (off, len)\<rparr>)"
    "off + 16 \<le> n \<Longrightarrow> kd_inside n (ie\<lparr>kd_pmkid := Some off\<rparr>)"
    "off + len \<le> n \<Longrightarrow> kd_inside n (ie\<lparr>kd_gtk := Some (off, len)\<rparr>)"
    "off + len \<le> n \<Longrightarrow> kd_inside n (ie\<lparr>kd_mac_addr := Some (off, len)\<rparr>)"
    "off + len \<le> n \<Longrightarrow> kd_inside n (ie\<lparr>kd_smk := Some (off, len)\<rparr>)"
    "off + len \<le> n \<Longrightarrow> kd_inside n (ie\<lparr>kd_nonce := Some (off, len)\<rparr>)"
    "off + len \<le> n \<Longrightarrow> kd_inside n (ie\<lparr>kd_lifetime := Some (off, len)\<rparr>)"
    "off + len \<le> n \<Longrightarrow> kd_inside n (ie\<lparr>kd_error := Some (off, len)\<rparr>)"
    "off + len \<le> n \<Longrightarrow> kd_inside n (ie\<lparr>kd_igtk := Some (off, len)\<rparr>)"
    "off + len \<le> n \<Longrightarrow> kd_inside n (ie\<lparr>kd_mdie := Some (off, len)\<rparr>)"
    "off + len \<le> n \<Longrightarrow> kd_inside n (ie\<lparr>kd_ftie := Some (off, len)\<rparr>)"
    "off + 7 \<le> n \<Longrightarrow> kd_inside n (ie\<lparr>kd_reassoc_deadline := Some off\<rparr>)"
    "off + 7 \<le> n \<Longrightarrow> kd_inside n (ie\<lparr>kd_key_lifetime := Some off\<rparr>)"
    "off + len \<le> n \<Longrightarrow> kd_inside n (ie\<lparr>kd_lnkid := Some (off, len)\<rparr>)"
    "off + len \<le> n \<Longrightarrow> kd_inside n (ie\<lparr>kd_ext_capab := Some (off, len)\<rparr>)"
    "off + len \<le> n \<Longrightarrow> kd_inside n (ie\<lparr>kd_supp_rates := Some (off, len)\<rparr>)"
    "off + len \<le> n \<Longrightarrow> kd_inside n (ie\<lparr>kd_ext_supp_rates := Some (off, len)\<rparr>)"
    "off + len \<le> n \<Longrightarrow> kd_inside n (ie\<lparr>kd_ht_capabilities := Some (off, len)\<rparr>)"
    "off + len \<le> n \<Longrightarrow> kd_inside n (ie\<lparr>kd_vht_capabilities := Some (off, len)\<rparr>)"
    "kd_inside n (ie\<lparr>kd_qosinfo := q\<rparr>)" "kd_inside n (ie\<lparr>kd_aid := a\<rparr>)"
  using assms by (simp_all add: kd_inside_def kd_spans_def)

lemma parse_generic_inside:
  assumes "kd_inside (length buf) ie" "pos + 2 + unat (buf ! (pos + 1)) \<le> length buf"
  shows "\<exists>r ie'. wpa_parse_generic cfg buf pos ie = Some (r, ie') \<and> 0 \<le> r \<and> kd_inside (length buf) ie'"
proof -
  define l where "l = unat (buf ! (pos + 1))"
  have l: "pos + 2 + l \<le> length buf" using assms(2) by (simp add: l_def)
  have rd: "map_option unat (c_read buf (pos + 1)) = Some l" using l by (simp add: l_def)
  define s where "s = WPA_GET_BE32 (take 4 (drop (pos + 2) buf))"
  have sel: "4 \<le> l \<Longrightarrow> selector_at buf (pos + 2) = Some s" using l by (simp add: selector_at_def s_def)
  define w where "w \<longleftrightarrow> l \<ge> 6 \<and> s = WPA_OUI_TYPE \<and> buf ! (pos + 6) = 1 \<and> buf ! (pos + 7) = 0"
  have w: "(if l \<ge> 6 then do {
          s \<leftarrow> selector_at buf (pos + 2);
          if s = WPA_OUI_TYPE then do {
            a \<leftarrow> c_read buf (pos + 6);
            if a = 1 then map_option (\<lambda>b. b = 0) (c_read buf (pos + 7)) else Some False }
          else Some False }
        else Some False) = Some w"
  proof (cases "6 \<le> l")
    case True
    then have "pos + 6 < length buf" "pos + 7 < length buf" using l by simp_all
    then show ?thesis using True sel [simplified] by (simp add: w_def)
  qed (simp add: w_def)
  define pk where "pk \<longleftrightarrow> pos + 1 + 4 < length buf \<and> l \<ge> 4 + 16 \<and> s = RSN_KEY_DATA_PMKID"
  have pk: "(if pos + 1 + 4 < length buf \<and> l \<ge> 4 + 16
      then map_option (\<lambda>s. s = RSN_KEY_DATA_PMKID) (selector_at buf (pos + 2)) else Some False) = Some pk"
    using sel by (auto simp: pk_def)
  note b = kde_is_eq [OF l, folded s_def]
  have spans: "6 < l \<Longrightarrow> pos + 6 + (l - 4) \<le> length buf" "w \<Longrightarrow> pos + (l + 2) \<le> length buf"
    "pk \<Longrightarrow> pos + 6 + 16 \<le> length buf"
    using l by (simp_all add: w_def pk_def)
  show ?thesis
    unfolding wpa_parse_generic_def rd Option.bind.bind_lunit w pk b Let_def
    using assms(1) spans by (simp add: kd_inside_update del: add_2_eq_Suc')
qed

lemma key_data_element_inside:
  assumes "kd_inside (length buf) ie" "pos + 2 + l \<le> length buf" "l = unat (buf ! (pos + 1))"
  shows "\<exists>r ie'. key_data_element cfg buf pos eid l ie = Some (r, ie') \<and> 0 \<le> r \<and> kd_inside (length buf) ie'"
  using assms parse_generic_inside [OF assms(1), of pos cfg]
  unfolding key_data_element_def by (simp add: kd_inside_update)

text \<open>
  Both sides of the handshake parse key data with the same loop around their own chain on the identifier of an
  element. The locale states the loop once: the law of the chain is that it stays inside the buffer.
\<close>

locale element_loop =
  fixes element :: "bytes \<Rightarrow> nat \<Rightarrow> u8 \<Rightarrow> nat \<Rightarrow> wpa_eapol_ie_parse \<Rightarrow> (int \<times> wpa_eapol_ie_parse) option"
    and loop :: "bytes \<Rightarrow> nat \<Rightarrow> wpa_eapol_ie_parse \<Rightarrow> (int \<times> wpa_eapol_ie_parse) option"
  assumes loop_unfold: "loop buf pos ie =
     (if pos + 1 < length buf then do {
        eid \<leftarrow> c_read buf pos;
        l \<leftarrow> map_option unat (c_read buf (pos + 1));
        if eid = 0xdd \<and> (pos = length buf - 1 \<or> l = 0) then Some (0, ie)
        else if length buf < pos + 2 + l then Some (-1, ie)
        else do {
          (ret, ie) \<leftarrow> element buf pos eid l ie;
          if ret < 0 then Some (ret, ie)
          else if ret > 0 then Some (0, ie)
          else loop buf (pos + 2 + l) ie } }
      else Some (0, ie))"
    and element_inside: "kd_inside (length buf) ie \<Longrightarrow> pos + 2 + l \<le> length buf \<Longrightarrow> l = unat (buf ! (pos + 1)) \<Longrightarrow>
      \<exists>r ie'. element buf pos eid l ie = Some (r, ie') \<and> 0 \<le> r \<and> kd_inside (length buf) ie'"
begin

lemma loop_end: "length buf \<le> pos + 1 \<Longrightarrow> loop buf pos ie = Some (0, ie)"
  by (subst loop_unfold) simp

lemma loop_padding:
  assumes "pos + 1 < length buf" "buf ! pos = 0xdd" "buf ! (pos + 1) = 0"
  shows "loop buf pos ie = Some (0, ie)"
  using assms by (subst loop_unfold) simp

lemma loop_element:
  assumes "pos + 1 < length buf" "pos + 2 + unat (buf ! (pos + 1)) \<le> length buf"
    and "\<not> (buf ! pos = 0xdd \<and> unat (buf ! (pos + 1)) = 0)"
    and "element buf pos (buf ! pos) (unat (buf ! (pos + 1))) ie = Some (r, ie')" "0 \<le> r"
  shows "loop buf pos ie = (if r > 0 then Some (0, ie') else loop buf (pos + 2 + unat (buf ! (pos + 1))) ie')"
proof -
  have rd: "c_read buf pos = Some (buf ! pos)" "map_option unat (c_read buf (pos + 1)) = Some (unat (buf ! (pos + 1)))"
    using assms(1) by simp_all
  have "pos \<noteq> length buf - 1" using assms(1) by simp
  then show ?thesis unfolding loop_unfold [of buf pos ie] rd using assms by auto
qed

lemma loop_inside:
  "kd_inside (length buf) ie \<Longrightarrow>
    \<exists>r ie'. loop buf pos ie = Some (r, ie') \<and> (r = 0 \<or> r = -1) \<and> kd_inside (length buf) ie'"
proof (induction "length buf - pos" arbitrary: pos ie rule: less_induct)
  case less
  define l where "l = unat (buf ! (pos + 1))"
  show ?case
  proof (cases "pos + 1 < length buf \<and> pos + 2 + l \<le> length buf \<and> \<not> (buf ! pos = 0xdd \<and> l = 0)")
    case False
    then show ?thesis using less.prems by (subst loop_unfold) (auto simp: l_def)
  next
    case True
    obtain r ie' where e: "element buf pos (buf ! pos) l ie = Some (r, ie')" "0 \<le> r" "kd_inside (length buf) ie'"
      using element_inside [OF less.prems, of pos l "buf ! pos"] True by (auto simp: l_def)
    have unf: "loop buf pos ie = (if r > 0 then Some (0, ie') else loop buf (pos + 2 + l) ie')"
      using loop_element [of pos buf ie r ie'] True e by (simp add: l_def)
    have "\<exists>r' i'. loop buf (pos + 2 + l) ie' = Some (r', i') \<and> (r' = 0 \<or> r' = -1) \<and> kd_inside (length buf) i'"
      using True e(3) by (intro less.hyps) auto
    with unf e(3) show ?thesis by auto
  qed
qed

end

interpretation supp: element_loop "key_data_element cfg" "parse_ies_loop cfg" for cfg
  by unfold_locales (rule parse_ies_loop.simps, rule key_data_element_inside)

text \<open>
  C14. Reading the key data of an EAPOL-Key frame is memory safe and ends: for every byte string
  \<open>wpa_supplicant_parse_ies\<close> reads only inside the buffer, returns 0 or -1, and every element and
  key data encapsulation it reports (GTK, PMKID, MAC address, RSN element and the others) lies
  inside the buffer.
\<close>

theorem wpa_supplicant_parse_ies_safe:
  "\<exists>r ie. wpa_supplicant_parse_ies cfg buf = Some (r, ie) \<and> (r = 0 \<or> r = -1) \<and> kd_inside (length buf) ie"
  unfolding wpa_supplicant_parse_ies_def by (rule supp.loop_inside [OF kd_empty_inside])

end
