(* ===== verification/Pmksa_Cache.thy ===== *)
theory Pmksa_Cache
  imports Wpa_Cipher
begin

text \<open>
  The supplicant's PMKSA cache (\<open>rsn_supp/pmksa_cache.c\<close>) and the callback of the WPA state machine that runs
  when an entry is freed (\<open>wpa_sm_pmksa_free_cb\<close> in \<open>rsn_supp/wpa.c\<close>): addition with replacement and eviction,
  search, flush, expiry and reauthentication timers, opportunistic key caching and the selection of the
  current entry. Pointers to entries are addresses, so that an access to a freed entry is visible: it is
  \<open>None\<close>. \<open>now\<close> is the time in seconds that \<open>os_get_time\<close> returns during the call; the delay of a timer is
  assumed to fit the \<open>int\<close> the code keeps it in. The text dump \<open>pmksa_cache_list\<close> is not modelled.
  Shown: the invariant of the state over all interleavings of the operations, refinement of a map from
  authenticators to keys, that entries expire in time, and the access to freed memory in
  \<open>pmksa_cache_clone_entry\<close>.
\<close>

section \<open>State\<close>

datatype pmksa_free_reason = PMKSA_FREE | PMKSA_REPLACE | PMKSA_EXPIRE

text \<open>An entry of the list with the address of its memory; \<open>pe_pmk\<close> holds the first \<open>pmk_len\<close> bytes of the
  array. A network context is an identifier, 0 for NULL.\<close>

record rsn_pmksa_cache_entry =
  pe_addr :: nat
  pe_pmkid :: bytes
  pe_pmk :: bytes
  pe_expiration :: int
  pe_akmp :: u32
  pe_aa :: bytes
  pe_reauth_time :: int
  pe_network_ctx :: nat
  pe_opportunistic :: bool

text \<open>What the cache asks of its environment.\<close>

datatype pmksa_event =
    Add_Pmkid bytes bytes
  | Remove_Pmkid bytes bytes
  | Deauthenticate
  | Request_Reauth

text \<open>
  The cache with the fields of the state machine it uses. The linked list is a list of entries; \<open>pc_cur_pmksa\<close>
  is the pointer \<open>cur_pmksa\<close>; the two timers hold the delay they were registered with; \<open>pc_log\<close> collects
  the calls into the driver, the newest first.
\<close>

record rsn_pmksa_cache =
  pc_pmksa :: "rsn_pmksa_cache_entry list"
  pc_pmksa_count :: int
  pc_cur_pmksa :: "nat option"
  pc_pmk :: bytes
  pc_pmk_len :: nat
  pc_bssid :: bytes
  pc_own_addr :: bytes
  pc_PMKLifetime :: u32
  pc_PMKReauthThreshold :: u32
  pc_expire_timer :: "int option"
  pc_reauth_timer :: "int option"
  pc_log :: "pmksa_event list"

definition pmksa_cache_max_entries :: int where
  "pmksa_cache_max_entries = 32"

section \<open>Operations\<close>

definition pmksa_cache_clear_current :: "rsn_pmksa_cache \<Rightarrow> rsn_pmksa_cache" where
  "pmksa_cache_clear_current s = s\<lparr>pc_cur_pmksa := None\<rparr>"

definition wpa_sm_pmksa_free_cb :: "rsn_pmksa_cache \<Rightarrow> rsn_pmksa_cache_entry \<Rightarrow> pmksa_free_reason \<Rightarrow> rsn_pmksa_cache" where
  "wpa_sm_pmksa_free_cb s entry reason =
     (let current = (pc_cur_pmksa s = Some (pe_addr entry));
          expired = (reason = PMKSA_EXPIRE \<and> pc_pmk_len s = length (pe_pmk entry) \<and>
            take (pc_pmk_len s) (pc_pmk s) = pe_pmk entry);
          s = (if current \<or> expired then pmksa_cache_clear_current s else s);
          deauth = (current \<and> reason \<noteq> PMKSA_REPLACE \<or> expired)
      in if deauth then s\<lparr>pc_pmk := replicate (length (pc_pmk s)) 0, pc_log := Deauthenticate # pc_log s\<rparr> else s)"

definition pmksa_cache_free_entry :: "rsn_pmksa_cache \<Rightarrow> rsn_pmksa_cache_entry \<Rightarrow> pmksa_free_reason \<Rightarrow> rsn_pmksa_cache" where
  "pmksa_cache_free_entry s entry reason =
     wpa_sm_pmksa_free_cb
       (s\<lparr>pc_log := Remove_Pmkid (pe_aa entry) (pe_pmkid entry) # pc_log s, pc_pmksa_count := pc_pmksa_count s - 1\<rparr>)
       entry reason"

text \<open>The search; NULL arguments match everything.\<close>

definition pmksa_cache_get :: "rsn_pmksa_cache \<Rightarrow> bytes option \<Rightarrow> bytes option \<Rightarrow> nat \<Rightarrow> nat option" where
  "pmksa_cache_get s aa pmkid network_ctx = map_option pe_addr
     (find (\<lambda>e. (case aa of None \<Rightarrow> True | Some a \<Rightarrow> pe_aa e = a) \<and>
        (case pmkid of None \<Rightarrow> True | Some p \<Rightarrow> pe_pmkid e = p) \<and>
        (network_ctx = 0 \<or> network_ctx = pe_network_ctx e)) (pc_pmksa s))"

definition pmksa_cache_set_expiration :: "int \<Rightarrow> rsn_pmksa_cache \<Rightarrow> rsn_pmksa_cache" where
  "pmksa_cache_set_expiration now s =
     (let s = s\<lparr>pc_expire_timer := None, pc_reauth_timer := None\<rparr>
      in case pc_pmksa s of
           [] \<Rightarrow> s
         | e # _ \<Rightarrow>
             (let s = s\<lparr>pc_expire_timer := Some (max 0 (pe_expiration e - now) + 1)\<rparr>;
                  entry = (case pc_cur_pmksa s of Some c \<Rightarrow> Some c | None \<Rightarrow> pmksa_cache_get s (Some (pc_bssid s)) None 0)
              in if entry \<noteq> None then s\<lparr>pc_reauth_timer := Some (max 0 (pe_reauth_time e - now))\<rparr> else s))"

fun pmksa_expire_loop :: "int \<Rightarrow> rsn_pmksa_cache_entry list \<Rightarrow> rsn_pmksa_cache \<Rightarrow> rsn_pmksa_cache" where
  "pmksa_expire_loop now [] s = s"
| "pmksa_expire_loop now (e # es) s =
     (if pe_expiration e \<le> now
      then pmksa_expire_loop now es (pmksa_cache_free_entry (s\<lparr>pc_pmksa := es\<rparr>) e PMKSA_EXPIRE)
      else s)"

definition pmksa_cache_expire :: "int \<Rightarrow> rsn_pmksa_cache \<Rightarrow> rsn_pmksa_cache" where
  "pmksa_cache_expire now s = pmksa_cache_set_expiration now (pmksa_expire_loop now (pc_pmksa s) s)"

definition pmksa_cache_reauth :: "rsn_pmksa_cache \<Rightarrow> rsn_pmksa_cache" where
  "pmksa_cache_reauth s = s\<lparr>pc_cur_pmksa := None, pc_log := Request_Reauth # pc_log s\<rparr>"

text \<open>\<open>kept\<close> are the entries the loop has passed.\<close>

fun pmksa_flush_loop :: "(rsn_pmksa_cache_entry \<Rightarrow> bool) \<Rightarrow> rsn_pmksa_cache_entry list \<Rightarrow>
    rsn_pmksa_cache_entry list \<Rightarrow> rsn_pmksa_cache \<Rightarrow> bool \<Rightarrow> rsn_pmksa_cache \<times> bool" where
  "pmksa_flush_loop match kept [] s removed = (s, removed)"
| "pmksa_flush_loop match kept (e # es) s removed =
     (if match e
      then pmksa_flush_loop match kept es (pmksa_cache_free_entry (s\<lparr>pc_pmksa := kept @ es\<rparr>) e PMKSA_FREE) True
      else pmksa_flush_loop match (kept @ [e]) es s removed)"

definition pmksa_cache_flush :: "int \<Rightarrow> rsn_pmksa_cache \<Rightarrow> nat \<Rightarrow> bytes option \<Rightarrow> rsn_pmksa_cache" where
  "pmksa_cache_flush now s network_ctx pmk =
     (let match = (\<lambda>e. (pe_network_ctx e = network_ctx \<or> network_ctx = 0) \<and>
            (case pmk of None \<Rightarrow> True | Some p \<Rightarrow> pe_pmk e = p));
          (s, removed) = pmksa_flush_loop match [] (pc_pmksa s) s False
      in if removed then pmksa_cache_set_expiration now s else s)"

definition wpa_key_mgmt_sha256 :: "u32 \<Rightarrow> bool" where
  "wpa_key_mgmt_sha256 akm \<longleftrightarrow> akm AND (WPA_KEY_MGMT_PSK_SHA256 OR WPA_KEY_MGMT_IEEE8021X_SHA256) \<noteq> 0"

text \<open>The first loop of \<open>pmksa_cache_add\<close>: reuse (\<open>Inl\<close> the old entry) or the state without an entry for
  the authenticator.\<close>

definition pmksa_replace :: "int \<Rightarrow> rsn_pmksa_cache \<Rightarrow> rsn_pmksa_cache_entry \<Rightarrow> nat + rsn_pmksa_cache" where
  "pmksa_replace now s entry =
     (case dropWhile (\<lambda>e. pe_aa e \<noteq> pe_aa entry) (pc_pmksa s) of
        [] \<Rightarrow> Inr s
      | pos # after \<Rightarrow>
          (if pe_pmk pos = pe_pmk entry \<and> pe_pmkid pos = pe_pmkid entry then Inl (pe_addr pos)
           else (let s = s\<lparr>pc_pmksa := takeWhile (\<lambda>e. pe_aa e \<noteq> pe_aa entry) (pc_pmksa s) @ after\<rparr>;
                     s = (if pe_opportunistic pos then s
                          else pmksa_cache_flush now s (pe_network_ctx entry) (Some (pe_pmk pos)))
                 in Inr (pmksa_cache_free_entry s pos PMKSA_REPLACE))))"

text \<open>The oldest entry goes when the cache is full, unless it is the current one: then the second.\<close>

definition pmksa_make_room :: "rsn_pmksa_cache \<Rightarrow> rsn_pmksa_cache" where
  "pmksa_make_room s =
     (if pmksa_cache_max_entries \<le> pc_pmksa_count s then
        (case pc_pmksa s of
           [] \<Rightarrow> s
         | e # es \<Rightarrow>
             (if pc_cur_pmksa s = Some (pe_addr e) then
                (case es of
                   [] \<Rightarrow> s
                 | e' # es' \<Rightarrow> pmksa_cache_free_entry (s\<lparr>pc_pmksa := e # es'\<rparr>) e' PMKSA_FREE)
              else pmksa_cache_free_entry (s\<lparr>pc_pmksa := es\<rparr>) e PMKSA_FREE))
      else s)"

definition pmksa_insert :: "int \<Rightarrow> rsn_pmksa_cache \<Rightarrow> rsn_pmksa_cache_entry \<Rightarrow> rsn_pmksa_cache" where
  "pmksa_insert now s entry =
     (let before = takeWhile (\<lambda>e. \<not> pe_expiration e > pe_expiration entry) (pc_pmksa s);
          after = dropWhile (\<lambda>e. \<not> pe_expiration e > pe_expiration entry) (pc_pmksa s);
          s = s\<lparr>pc_pmksa := before @ [entry] @ after\<rparr>;
          s = (if before = [] then pmksa_cache_set_expiration now s else s)
      in s\<lparr>pc_pmksa_count := pc_pmksa_count s + 1, pc_log := Add_Pmkid (pe_aa entry) (pe_pmkid entry) # pc_log s\<rparr>)"

text \<open>\<open>mem\<close> is the address \<open>os_zalloc\<close> returns, \<open>None\<close> for NULL; the result is the state and the entry.\<close>

definition pmksa_cache_add :: "build_config \<Rightarrow> nat option \<Rightarrow> int \<Rightarrow> rsn_pmksa_cache \<Rightarrow> bytes \<Rightarrow> bytes \<Rightarrow> bytes \<Rightarrow>
    nat \<Rightarrow> u32 \<Rightarrow> (rsn_pmksa_cache \<times> nat option) option" where
  "pmksa_cache_add cfg mem now s pmk aa spa network_ctx akmp =
     (if 32 < length pmk then Some (s, None)
      else case mem of
        None \<Rightarrow> Some (s, None)
      | Some a \<Rightarrow> do {
          pmkid \<leftarrow> rsn_pmkid cfg pmk aa spa (wpa_key_mgmt_sha256 akmp);
          aa \<leftarrow> c_slice aa 0 6;
          let entry = \<lparr>pe_addr = a, pe_pmkid = pmkid, pe_pmk = pmk,
            pe_expiration = now + uint (pc_PMKLifetime s), pe_akmp = akmp, pe_aa = aa,
            pe_reauth_time = now + uint (pc_PMKLifetime s * pc_PMKReauthThreshold s div 100),
            pe_network_ctx = network_ctx, pe_opportunistic = False\<rparr>;
          case pmksa_replace now s entry of
            Inl pos \<Rightarrow> Some (s, Some pos)
          | Inr s \<Rightarrow> Some (pmksa_insert now (pmksa_make_room s) entry, Some a) })"

text \<open>An access through the pointer \<open>a\<close>: \<open>None\<close> when the entry has been freed.\<close>

definition pmksa_deref :: "rsn_pmksa_cache \<Rightarrow> nat \<Rightarrow> rsn_pmksa_cache_entry option" where
  "pmksa_deref s a = find (\<lambda>e. pe_addr e = a) (pc_pmksa s)"

definition pmksa_update :: "nat \<Rightarrow> (rsn_pmksa_cache_entry \<Rightarrow> rsn_pmksa_cache_entry) \<Rightarrow> rsn_pmksa_cache \<Rightarrow> rsn_pmksa_cache" where
  "pmksa_update a f s = s\<lparr>pc_pmksa := map (\<lambda>e. if pe_addr e = a then f e else e) (pc_pmksa s)\<rparr>"

definition pmksa_cache_clone_entry :: "build_config \<Rightarrow> nat option \<Rightarrow> int \<Rightarrow> rsn_pmksa_cache \<Rightarrow> nat \<Rightarrow> bytes \<Rightarrow>
    (rsn_pmksa_cache \<times> nat option) option" where
  "pmksa_cache_clone_entry cfg mem now s old_entry aa = do {
     old \<leftarrow> pmksa_deref s old_entry;
     (s, new_entry) \<leftarrow> pmksa_cache_add cfg mem now s (pe_pmk old) aa (pc_own_addr s) (pe_network_ctx old) (pe_akmp old);
     case new_entry of
       None \<Rightarrow> Some (s, None)
     | Some a \<Rightarrow> do {
         old \<leftarrow> pmksa_deref s old_entry;
         Some (pmksa_update a (\<lambda>e. e\<lparr>pe_expiration := pe_expiration old, pe_opportunistic := True\<rparr>) s, Some a) } }"

definition pmksa_cache_get_opportunistic :: "build_config \<Rightarrow> nat option \<Rightarrow> int \<Rightarrow> rsn_pmksa_cache \<Rightarrow> nat \<Rightarrow> bytes \<Rightarrow>
    (rsn_pmksa_cache \<times> nat option) option" where
  "pmksa_cache_get_opportunistic cfg mem now s network_ctx aa =
     (if network_ctx = 0 then Some (s, None)
      else case find (\<lambda>e. pe_network_ctx e = network_ctx) (pc_pmksa s) of
        None \<Rightarrow> Some (s, None)
      | Some e \<Rightarrow> pmksa_cache_clone_entry cfg mem now s (pe_addr e) aa)"

definition pmksa_cache_set_current :: "build_config \<Rightarrow> nat option \<Rightarrow> int \<Rightarrow> rsn_pmksa_cache \<Rightarrow> bytes option \<Rightarrow>
    bytes option \<Rightarrow> nat \<Rightarrow> bool \<Rightarrow> (int \<times> rsn_pmksa_cache) option" where
  "pmksa_cache_set_current cfg mem now s pmkid bssid network_ctx try_opportunistic = do {
     let s = s\<lparr>pc_cur_pmksa := None\<rparr>;
     let cur = (if pmkid \<noteq> None then pmksa_cache_get s None pmkid network_ctx else None);
     let cur = (if cur = None \<and> bssid \<noteq> None then pmksa_cache_get s bssid None network_ctx else cur);
     (s, cur) \<leftarrow> (case bssid of
        Some b \<Rightarrow> (if cur = None \<and> try_opportunistic
                  then pmksa_cache_get_opportunistic cfg mem now s network_ctx b else Some (s, cur))
      | None \<Rightarrow> Some (s, cur));
     Some (if cur \<noteq> None then 0 else -1, s\<lparr>pc_cur_pmksa := cur\<rparr>) }"

definition pmksa_cache_init :: "bytes \<Rightarrow> bytes \<Rightarrow> rsn_pmksa_cache" where
  "pmksa_cache_init bssid own_addr = \<lparr>pc_pmksa = [], pc_pmksa_count = 0, pc_cur_pmksa = None,
     pc_pmk = replicate 32 0, pc_pmk_len = 0, pc_bssid = bssid, pc_own_addr = own_addr,
     pc_PMKLifetime = 43200, pc_PMKReauthThreshold = 70, pc_expire_timer = None, pc_reauth_timer = None, pc_log = []\<rparr>"

definition pmksa_cache_deinit :: "int \<Rightarrow> rsn_pmksa_cache \<Rightarrow> rsn_pmksa_cache" where
  "pmksa_cache_deinit now s = pmksa_cache_set_expiration now (s\<lparr>pc_pmksa := []\<rparr>)"

section \<open>Invariant\<close>

text \<open>\<open>pending\<close> are entries that have been unlinked and are still to be freed.\<close>

definition pmksa_inv :: "rsn_pmksa_cache_entry list \<Rightarrow> rsn_pmksa_cache \<Rightarrow> bool" where
  "pmksa_inv pending s \<longleftrightarrow> distinct (map pe_addr (pending @ pc_pmksa s)) \<and> distinct (map pe_aa (pending @ pc_pmksa s)) \<and>
     pc_pmksa_count s = int (length (pending @ pc_pmksa s)) \<and> length (pending @ pc_pmksa s) \<le> 32 \<and>
     (\<forall>c. pc_cur_pmksa s = Some c \<longrightarrow> c \<in> pe_addr ` set (pending @ pc_pmksa s))"

definition pmksa_ok :: "rsn_pmksa_cache \<Rightarrow> bool" where
  "pmksa_ok s \<longleftrightarrow> distinct (map pe_addr (pc_pmksa s)) \<and> distinct (map pe_aa (pc_pmksa s)) \<and>
     pc_pmksa_count s = int (length (pc_pmksa s)) \<and> length (pc_pmksa s) \<le> 32 \<and>
     (\<forall>c. pc_cur_pmksa s = Some c \<longrightarrow> c \<in> pe_addr ` set (pc_pmksa s))"

lemma pmksa_inv_Nil: "pmksa_inv [] s \<longleftrightarrow> pmksa_ok s"
  by (simp add: pmksa_inv_def pmksa_ok_def)

text \<open>What freeing an entry leaves alone.\<close>

lemma free_entry_simps [simp]:
  "pc_pmksa (pmksa_cache_free_entry s e r) = pc_pmksa s"
  "pc_pmksa_count (pmksa_cache_free_entry s e r) = pc_pmksa_count s - 1"
  "pc_cur_pmksa (pmksa_cache_free_entry s e r) = Some c \<longleftrightarrow> pc_cur_pmksa s = Some c \<and> c \<noteq> pe_addr e \<and>
     \<not> (r = PMKSA_EXPIRE \<and> pc_pmk_len s = length (pe_pmk e) \<and> take (pc_pmk_len s) (pc_pmk s) = pe_pmk e)"
  "pc_PMKLifetime (pmksa_cache_free_entry s e r) = pc_PMKLifetime s"
  by (auto simp: pmksa_cache_free_entry_def wpa_sm_pmksa_free_cb_def Let_def pmksa_cache_clear_current_def)

lemma set_expiration_simps [simp]:
  "pc_pmksa (pmksa_cache_set_expiration now s) = pc_pmksa s"
  "pc_pmksa_count (pmksa_cache_set_expiration now s) = pc_pmksa_count s"
  "pc_cur_pmksa (pmksa_cache_set_expiration now s) = pc_cur_pmksa s"
  "pc_log (pmksa_cache_set_expiration now s) = pc_log s"
  by (simp_all add: pmksa_cache_set_expiration_def Let_def split: list.splits)

lemma set_expiration_inv [simp]: "pmksa_inv p (pmksa_cache_set_expiration now s) = pmksa_inv p s"
  by (simp add: pmksa_inv_def)

text \<open>Unlinking an entry and freeing it keeps the invariant.\<close>

lemma free_entry_inv:
  assumes "pmksa_inv p s" "pc_pmksa s = xs @ e # ys"
  shows "pmksa_inv p (pmksa_cache_free_entry (s\<lparr>pc_pmksa := xs @ ys\<rparr>) e r)"
  using assms by (auto simp: pmksa_inv_def)

lemma free_pending_inv: "pmksa_inv (e # p) s \<Longrightarrow> pmksa_inv p (pmksa_cache_free_entry s e r)"
  by (auto simp: pmksa_inv_def)

lemma unlink_inv:
  assumes "pmksa_inv p s" "pc_pmksa s = xs @ e # ys"
  shows "pmksa_inv (e # p) (s\<lparr>pc_pmksa := xs @ ys\<rparr>)"
  using assms by (auto simp: pmksa_inv_def)

lemma expire_loop_inv:
  "\<lbrakk>pmksa_inv p s; pc_pmksa s = es\<rbrakk> \<Longrightarrow> pmksa_inv p (pmksa_expire_loop now es s) \<and>
    pc_pmksa (pmksa_expire_loop now es s) = dropWhile (\<lambda>e. pe_expiration e \<le> now) es"
proof (induction now es s rule: pmksa_expire_loop.induct)
  case (2 now e es s)
  then show ?case using free_entry_inv [of p s "[]" e es PMKSA_EXPIRE] by simp
qed simp

lemma pmksa_expire_inv:
  "pmksa_inv p s \<Longrightarrow> pmksa_inv p (pmksa_cache_expire now s) \<and>
    pc_pmksa (pmksa_cache_expire now s) = dropWhile (\<lambda>e. pe_expiration e \<le> now) (pc_pmksa s)"
  using expire_loop_inv [of p s "pc_pmksa s" now] by (simp add: pmksa_cache_expire_def)

lemma flush_loop_inv:
  "\<lbrakk>pmksa_inv p s; pc_pmksa s = kept @ es\<rbrakk> \<Longrightarrow>
    \<exists>s' r. pmksa_flush_loop match kept es s removed = (s', r) \<and> pmksa_inv p s' \<and>
      pc_pmksa s' = kept @ filter (\<lambda>e. \<not> match e) es"
proof (induction match kept es s removed rule: pmksa_flush_loop.induct)
  case (2 match kept e es s removed)
  then show ?case using free_entry_inv [of p s kept e es PMKSA_FREE] by simp
qed simp

text \<open>The entries that a flush removes.\<close>

definition pmksa_matches :: "nat \<Rightarrow> bytes option \<Rightarrow> rsn_pmksa_cache_entry \<Rightarrow> bool" where
  "pmksa_matches network_ctx pmk e \<longleftrightarrow> (pe_network_ctx e = network_ctx \<or> network_ctx = 0) \<and>
     (case pmk of None \<Rightarrow> True | Some p \<Rightarrow> pe_pmk e = p)"

lemma pmksa_flush_inv:
  assumes "pmksa_inv p s"
  shows "pmksa_inv p (pmksa_cache_flush now s nc pmk) \<and>
    pc_pmksa (pmksa_cache_flush now s nc pmk) = filter (\<lambda>e. \<not> pmksa_matches nc pmk e) (pc_pmksa s)"
proof -
  obtain s' r where "pmksa_flush_loop (pmksa_matches nc pmk) [] (pc_pmksa s) s False = (s', r)" "pmksa_inv p s'"
    "pc_pmksa s' = filter (\<lambda>e. \<not> pmksa_matches nc pmk e) (pc_pmksa s)"
    using flush_loop_inv [of p s "[]" "pc_pmksa s" "pmksa_matches nc pmk" False] assms by auto
  then show ?thesis
    by (simp add: pmksa_cache_flush_def pmksa_matches_def [abs_def])
qed

lemma replace_inv:
  assumes "pmksa_ok s"
  shows "case pmksa_replace now s entry of
      Inl a \<Rightarrow> \<exists>e \<in> set (pc_pmksa s). pe_addr e = a \<and> pe_aa e = pe_aa entry \<and> pe_pmk e = pe_pmk entry
    | Inr s' \<Rightarrow> pmksa_ok s' \<and> set (pc_pmksa s') \<subseteq> set (pc_pmksa s) \<and> pe_aa entry \<notin> pe_aa ` set (pc_pmksa s')"
proof -
  let ?P = "\<lambda>e. pe_aa e \<noteq> pe_aa entry"
  let ?xs = "takeWhile ?P (pc_pmksa s)"
  have inv: "pmksa_inv [] s" using assms by (simp add: pmksa_inv_Nil)
  show ?thesis
  proof (cases "dropWhile ?P (pc_pmksa s)")
    case Nil
    then have "\<forall>e \<in> set (pc_pmksa s). ?P e" by simp
    then show ?thesis using assms unfolding pmksa_replace_def Nil by auto
  next
    case (Cons pos ys)
    then have l: "pc_pmksa s = ?xs @ pos # ys" using takeWhile_dropWhile_id [of ?P "pc_pmksa s"] by simp
    have pos: "pe_aa pos = pe_aa entry" using Cons hd_dropWhile [of ?P "pc_pmksa s"] by auto
    let ?s = "s\<lparr>pc_pmksa := ?xs @ ys\<rparr>"
    have aa: "pe_aa entry \<notin> pe_aa ` set (?xs @ ys)"
      using assms pos unfolding pmksa_ok_def by (subst (asm) (2) l) auto
    define s2 where "s2 = (if pe_opportunistic pos then ?s
      else pmksa_cache_flush now ?s (pe_network_ctx entry) (Some (pe_pmk pos)))"
    have "pmksa_inv [pos] s2 \<and> set (pc_pmksa s2) \<subseteq> set (?xs @ ys)"
      using pmksa_flush_inv [OF unlink_inv [OF inv l]] unlink_inv [OF inv l] by (auto simp: s2_def)
    then have "pmksa_ok (pmksa_cache_free_entry s2 pos PMKSA_REPLACE)" "set (pc_pmksa s2) \<subseteq> set (?xs @ ys)"
      using free_pending_inv [of pos "[]" s2] by (simp_all add: pmksa_inv_Nil)
    moreover have "set (?xs @ ys) \<subseteq> set (pc_pmksa s)" by (subst (2) l) auto
    moreover have "pos \<in> set (pc_pmksa s)" by (subst l) simp
    ultimately show ?thesis
      using aa pos by (auto simp: pmksa_replace_def Cons Let_def s2_def)
  qed
qed

lemma make_room_inv:
  assumes "pmksa_ok s"
  shows "pmksa_ok (pmksa_make_room s) \<and> set (pc_pmksa (pmksa_make_room s)) \<subseteq> set (pc_pmksa s) \<and>
    length (pc_pmksa (pmksa_make_room s)) < 32"
proof -
  have inv: "pmksa_inv [] s" using assms by (simp add: pmksa_inv_Nil)
  have len: "pc_pmksa_count s = int (length (pc_pmksa s))" "length (pc_pmksa s) \<le> 32"
    using assms by (simp_all add: pmksa_ok_def)
  show ?thesis
  proof (cases "pmksa_cache_max_entries \<le> pc_pmksa_count s")
    case True
    then obtain e e' es where l: "pc_pmksa s = e # e' # es"
      using len by (cases "pc_pmksa s" rule: remdups_adj.cases) (simp_all add: pmksa_cache_max_entries_def)
    then show ?thesis
      using True len free_entry_inv [OF inv, of "[]" e "e' # es" PMKSA_FREE]
        free_entry_inv [OF inv, of "[e]" e' es PMKSA_FREE]
      by (auto simp: pmksa_make_room_def pmksa_inv_Nil)
  qed (use assms len in \<open>simp add: pmksa_make_room_def pmksa_cache_max_entries_def\<close>)
qed

lemma insert_inv:
  assumes "pmksa_ok s" "length (pc_pmksa s) < 32" "pe_addr entry \<notin> pe_addr ` set (pc_pmksa s)"
    "pe_aa entry \<notin> pe_aa ` set (pc_pmksa s)"
  shows "pmksa_ok (pmksa_insert now s entry) \<and> set (pc_pmksa (pmksa_insert now s entry)) = insert entry (set (pc_pmksa s))"
proof -
  let ?P = "\<lambda>e. \<not> pe_expiration e > pe_expiration entry"
  define xs where "xs = takeWhile ?P (pc_pmksa s)"
  define ys where "ys = dropWhile ?P (pc_pmksa s)"
  have xy: "takeWhile ?P (pc_pmksa s) = xs" "dropWhile ?P (pc_pmksa s) = ys" "pc_pmksa s = xs @ ys"
    by (simp_all add: xs_def ys_def)
  show ?thesis
    using assms unfolding pmksa_insert_def Let_def xy(1,2) by (auto simp: pmksa_ok_def xy(3))
qed

text \<open>\<open>os_zalloc\<close> returns memory that is not in use.\<close>

definition fresh :: "nat option \<Rightarrow> rsn_pmksa_cache \<Rightarrow> bool" where
  "fresh mem s \<longleftrightarrow> (\<forall>a. mem = Some a \<longrightarrow> a \<notin> pe_addr ` set (pc_pmksa s))"

lemma pmksa_add_inv:
  assumes "pmksa_ok s" "fresh mem s" "pmksa_cache_add cfg mem now s pmk aa spa nc akmp = Some (s', r)"
  shows "pmksa_ok s' \<and>
    (\<forall>a. r = Some a \<longrightarrow> (\<exists>e \<in> set (pc_pmksa s'). pe_addr e = a \<and> pe_aa e = take 6 aa \<and> pe_pmk e = pmk)) \<and>
    (\<forall>e \<in> set (pc_pmksa s'). pe_aa e \<noteq> take 6 aa \<longrightarrow> e \<in> set (pc_pmksa s))"
proof (cases "32 < length pmk \<or> mem = None")
  case True
  then show ?thesis using assms by (auto simp: pmksa_cache_add_def split: if_splits)
next
  case False
  then obtain a where m: "mem = Some a" and len: "\<not> 32 < length pmk" by auto
  from assms(3) obtain pmkid aa' where id: "rsn_pmkid cfg pmk aa spa (wpa_key_mgmt_sha256 akmp) = Some pmkid"
    "c_slice aa 0 6 = Some aa'"
    unfolding pmksa_cache_add_def m using len by (auto simp: bind_eq_Some_iff)
  define entry where "entry = \<lparr>pe_addr = a, pe_pmkid = pmkid, pe_pmk = pmk,
            pe_expiration = now + uint (pc_PMKLifetime s), pe_akmp = akmp, pe_aa = aa',
            pe_reauth_time = now + uint (pc_PMKLifetime s * pc_PMKReauthThreshold s div 100),
            pe_network_ctx = nc, pe_opportunistic = False\<rparr>"
  have fields: "pe_addr entry = a" "pe_aa entry = take 6 aa" "pe_pmk entry = pmk"
    using id(2) by (simp_all add: entry_def c_slice_def split: if_splits)
  have run: "(case pmksa_replace now s entry of Inl pos \<Rightarrow> Some (s, Some pos)
      | Inr s \<Rightarrow> Some (pmksa_insert now (pmksa_make_room s) entry, Some a)) = Some (s', r)"
    using assms(3) len unfolding pmksa_cache_add_def m entry_def by (simp add: id Let_def)
  show ?thesis
  proof (cases "pmksa_replace now s entry")
    case (Inl pos)
    with run replace_inv [OF assms(1), where now = now and entry = entry] assms(1) show ?thesis
      by (auto simp: fields)
  next
    case (Inr s1)
    note r = replace_inv [OF assms(1), where now = now and entry = entry, unfolded Inr sum.case]
    note m1 = make_room_inv [of s1]
    have s': "s' = pmksa_insert now (pmksa_make_room s1) entry" "r = Some a" using run by (simp_all add: Inr)
    have "pe_addr entry \<notin> pe_addr ` set (pc_pmksa (pmksa_make_room s1))"
      using assms(2) r m1 by (auto simp: fresh_def m fields)
    moreover have "pe_aa entry \<notin> pe_aa ` set (pc_pmksa (pmksa_make_room s1))" using r m1 by auto
    ultimately show ?thesis
      using insert_inv [of "pmksa_make_room s1" entry now] r m1 fields by (auto simp: s')
  qed
qed

lemma pmksa_update_inv:
  assumes "\<And>e. pe_addr (f e) = pe_addr e" "\<And>e. pe_aa (f e) = pe_aa e"
  shows "pmksa_ok (pmksa_update a f s) = pmksa_ok s" "pe_addr ` set (pc_pmksa (pmksa_update a f s)) = pe_addr ` set (pc_pmksa s)"
proof -
  have "map pe_addr (pc_pmksa (pmksa_update a f s)) = map pe_addr (pc_pmksa s)"
    "map pe_aa (pc_pmksa (pmksa_update a f s)) = map pe_aa (pc_pmksa s)"
    by (simp_all add: pmksa_update_def assms)
  moreover from this(1) show "pe_addr ` set (pc_pmksa (pmksa_update a f s)) = pe_addr ` set (pc_pmksa s)"
    by (metis list.set_map)
  moreover have "pc_pmksa_count (pmksa_update a f s) = pc_pmksa_count s"
    "pc_cur_pmksa (pmksa_update a f s) = pc_cur_pmksa s"
    "length (pc_pmksa (pmksa_update a f s)) = length (pc_pmksa s)"
    by (simp_all add: pmksa_update_def)
  ultimately show "pmksa_ok (pmksa_update a f s) = pmksa_ok s"
    unfolding pmksa_ok_def by simp
qed

lemma pmksa_opportunistic_inv:
  assumes "pmksa_ok s" "fresh mem s" "pmksa_cache_get_opportunistic cfg mem now s nc aa = Some (s', r)"
  shows "pmksa_ok s' \<and> (\<forall>a. r = Some a \<longrightarrow> a \<in> pe_addr ` set (pc_pmksa s'))"
proof (cases "nc = 0 \<or> find (\<lambda>e. pe_network_ctx e = nc) (pc_pmksa s) = None")
  case True
  then have "pmksa_cache_get_opportunistic cfg mem now s nc aa = Some (s, None)"
    unfolding pmksa_cache_get_opportunistic_def by (elim disjE) simp_all
  then show ?thesis using assms by simp
next
  case False
  then obtain e where e: "find (\<lambda>e. pe_network_ctx e = nc) (pc_pmksa s) = Some e" "nc \<noteq> 0" by auto
  then have "pmksa_cache_clone_entry cfg mem now s (pe_addr e) aa = Some (s', r)"
    using assms(3) by (simp add: pmksa_cache_get_opportunistic_def)
  then obtain old :: rsn_pmksa_cache_entry and s1 new where
    add: "pmksa_cache_add cfg mem now s (pe_pmk old) aa (pc_own_addr s) (pe_network_ctx old) (pe_akmp old) = Some (s1, new)"
    and rest: "(case new of None \<Rightarrow> Some (s1, None)
     | Some a \<Rightarrow> do {
         old \<leftarrow> pmksa_deref s1 (pe_addr e);
         Some (pmksa_update a (\<lambda>e. e\<lparr>pe_expiration := pe_expiration old, pe_opportunistic := True\<rparr>) s1, Some a) }) = Some (s', r)"
    unfolding pmksa_cache_clone_entry_def bind_eq_Some_iff split_paired_Ex prod.case by blast
  have inv: "pmksa_ok s1" "\<forall>a. new = Some a \<longrightarrow> a \<in> pe_addr ` set (pc_pmksa s1)"
    using pmksa_add_inv [OF assms(1,2) add] by auto
  show ?thesis
  proof (cases new)
    case None
    with rest inv show ?thesis by simp
  next
    case (Some a)
    with rest obtain o' where "s' = pmksa_update a (\<lambda>e. e\<lparr>pe_expiration := o', pe_opportunistic := True\<rparr>) s1" "r = Some a"
      by (auto simp: bind_eq_Some_iff)
    then show ?thesis using inv Some by (simp add: pmksa_update_inv)
  qed
qed

lemma pmksa_get_in: "pmksa_cache_get s aa pmkid nc = Some a \<Longrightarrow> a \<in> pe_addr ` set (pc_pmksa s)"
  by (auto simp: pmksa_cache_get_def find_Some_iff)

lemma pmksa_set_current_inv:
  assumes "pmksa_ok s" "fresh mem s" "pmksa_cache_set_current cfg mem now s pmkid bssid nc opp = Some (r, s')"
  shows "pmksa_ok s'"
proof -
  let ?s = "s\<lparr>pc_cur_pmksa := None\<rparr>"
  have ok: "pmksa_ok ?s" "fresh mem ?s" using assms(1,2) by (simp_all add: pmksa_ok_def fresh_def)
  define c1 where "c1 = (if pmkid \<noteq> None then pmksa_cache_get ?s None pmkid nc else None)"
  define c2 where "c2 = (if c1 = None \<and> bssid \<noteq> None then pmksa_cache_get ?s bssid None nc else c1)"
  have c2: "c2 = Some a \<Longrightarrow> a \<in> pe_addr ` set (pc_pmksa ?s)" for a
    by (auto simp: c2_def c1_def split: if_splits dest: pmksa_get_in)
  obtain s1 c where step: "(case bssid of
        Some b \<Rightarrow> (if c2 = None \<and> opp then pmksa_cache_get_opportunistic cfg mem now ?s nc b else Some (?s, c2))
      | None \<Rightarrow> Some (?s, c2)) = Some (s1, c)" and s': "s' = s1\<lparr>pc_cur_pmksa := c\<rparr>"
    using assms(3) unfolding pmksa_cache_set_current_def Let_def c1_def [symmetric] c2_def [symmetric]
    by (auto simp: bind_eq_Some_iff)
  have "pmksa_ok s1 \<and> (\<forall>a. c = Some a \<longrightarrow> a \<in> pe_addr ` set (pc_pmksa s1))"
    using step ok c2 pmksa_opportunistic_inv [OF ok] by (auto split: option.splits if_splits)
  then show ?thesis by (auto simp: s' pmksa_ok_def)
qed

section \<open>Life of a cache\<close>

text \<open>Every operation of the interface and the two timer callbacks, at any time and with any allocation
  result; \<open>Configure\<close> is a change of the key, the address of the access point or the lifetimes by the state
  machine.\<close>

inductive pmksa_step :: "build_config \<Rightarrow> rsn_pmksa_cache \<Rightarrow> rsn_pmksa_cache \<Rightarrow> bool" for cfg where
  Add: "\<lbrakk>fresh mem s; pmksa_cache_add cfg mem now s pmk aa spa nc akmp = Some (s', r)\<rbrakk> \<Longrightarrow> pmksa_step cfg s s'"
| Flush: "pmksa_step cfg s (pmksa_cache_flush now s nc pmk)"
| Expire: "pmksa_step cfg s (pmksa_cache_expire now s)"
| Reauth: "pmksa_step cfg s (pmksa_cache_reauth s)"
| Clear_Current: "pmksa_step cfg s (pmksa_cache_clear_current s)"
| Set_Current: "\<lbrakk>fresh mem s; pmksa_cache_set_current cfg mem now s pmkid bssid nc opp = Some (r, s')\<rbrakk>
    \<Longrightarrow> pmksa_step cfg s s'"
| Configure: "pmksa_step cfg s (s\<lparr>pc_pmk := pmk, pc_pmk_len := n, pc_bssid := b, pc_own_addr := own,
    pc_PMKLifetime := life, pc_PMKReauthThreshold := thr\<rparr>)"

inductive_cases pmksa_stepE: "pmksa_step cfg s s'"

lemma pmksa_step_ok: "pmksa_step cfg s s' \<Longrightarrow> pmksa_ok s \<Longrightarrow> pmksa_ok s'"
proof (induction rule: pmksa_step.induct)
  case (Flush s now nc pmk)
  then show ?case using pmksa_flush_inv [of "[]" s now nc pmk] by (simp add: pmksa_inv_Nil)
next
  case (Expire s now)
  then show ?case using pmksa_expire_inv [of "[]" s now] by (simp add: pmksa_inv_Nil)
next
  case (Add mem s now pmk aa spa nc akmp s' r)
  then show ?case using pmksa_add_inv by blast
next
  case (Set_Current mem s now pmkid bssid nc opp r s')
  then show ?case using pmksa_set_current_inv by blast
qed (simp_all add: pmksa_cache_reauth_def pmksa_cache_clear_current_def pmksa_ok_def)

text \<open>
  C15. The PMKSA cache keeps its invariant in every state reachable from the empty cache by additions, flushes,
  expiry, reauthentication and selection of the current entry, in any order and at any time: the
  counter is the number of entries and at most 32, no two entries have the same memory or the same
  authenticator address, and the current entry is never a freed one.
\<close>

theorem pmksa_cache_invariant:
  assumes "(pmksa_step cfg)\<^sup>*\<^sup>* (pmksa_cache_init bssid own) s"
  shows "pmksa_ok s"
  using assms
proof (induction rule: rtranclp_induct)
  case base
  show ?case by (simp add: pmksa_ok_def pmksa_cache_init_def)
qed (rule pmksa_step_ok)

theorem pmksa_cache_invariant_witness:
  "pmksa_ok (pmksa_cache_expire 5 (pmksa_cache_reauth (pmksa_cache_init (replicate 6 1) (replicate 6 2))))"
proof (rule pmksa_cache_invariant)
  show "(pmksa_step pc2drc_config)\<^sup>*\<^sup>* (pmksa_cache_init (replicate 6 1) (replicate 6 2))
      (pmksa_cache_expire 5 (pmksa_cache_reauth (pmksa_cache_init (replicate 6 1) (replicate 6 2))))"
    by (rule converse_rtranclp_into_rtranclp, rule pmksa_step.Reauth, rule r_into_rtranclp, rule pmksa_step.Expire)
qed

section \<open>Lookup\<close>

lemma find_unique: "\<lbrakk>e \<in> set xs; P e; \<And>x. x \<in> set xs \<Longrightarrow> P x \<Longrightarrow> x = e\<rbrakk> \<Longrightarrow> find P xs = Some e"
proof -
  assume e: "e \<in> set xs" "P e" and unique: "\<And>x. x \<in> set xs \<Longrightarrow> P x \<Longrightarrow> x = e"
  then obtain y where y: "find P xs = Some y" by (metis find_None_iff option.exhaust)
  then have "y = e" using unique by (auto simp: find_Some_iff)
  with y show ?thesis by simp
qed

lemma pmksa_get_aa:
  assumes "pmksa_ok s" "e \<in> set (pc_pmksa s)"
  shows "pmksa_cache_get s (Some (pe_aa e)) None 0 = Some (pe_addr e)"
proof -
  have "inj_on pe_aa (set (pc_pmksa s))" using assms(1) by (simp add: pmksa_ok_def distinct_map)
  then have "find (\<lambda>x. pe_aa x = pe_aa e) (pc_pmksa s) = Some e"
    using assms(2) by (intro find_unique) (auto dest: inj_onD)
  then show ?thesis by (simp add: pmksa_cache_get_def)
qed

lemma pmksa_deref_eq:
  assumes "pmksa_ok s" "e \<in> set (pc_pmksa s)"
  shows "pmksa_deref s (pe_addr e) = Some e"
proof -
  have "inj_on pe_addr (set (pc_pmksa s))" using assms(1) by (simp add: pmksa_ok_def distinct_map)
  then show ?thesis
    using assms(2) unfolding pmksa_deref_def by (intro find_unique) (auto dest: inj_onD)
qed

text \<open>The cache as a partial map from authenticator addresses to keys.\<close>

definition pmksa_map :: "rsn_pmksa_cache \<Rightarrow> bytes \<Rightarrow> bytes option" where
  "pmksa_map s aa = do { a \<leftarrow> pmksa_cache_get s (Some aa) None 0; e \<leftarrow> pmksa_deref s a; Some (pe_pmk e) }"

lemma pmksa_map_entry: "pmksa_ok s \<Longrightarrow> e \<in> set (pc_pmksa s) \<Longrightarrow> pmksa_map s (pe_aa e) = Some (pe_pmk e)"
  by (simp add: pmksa_map_def pmksa_get_aa pmksa_deref_eq)

lemma pmksa_map_None: "aa \<notin> pe_aa ` set (pc_pmksa s) \<Longrightarrow> pmksa_map s aa = None"
proof -
  assume "aa \<notin> pe_aa ` set (pc_pmksa s)"
  then have "find (\<lambda>e. pe_aa e = aa) (pc_pmksa s) = None" by (auto simp: find_None_iff)
  then show ?thesis by (simp add: pmksa_map_def pmksa_cache_get_def)
qed

lemma rsn_pmkid_Some:
  assumes "length pmk \<le> 32" "6 \<le> length aa" "6 \<le> length spa"
  shows "\<exists>pmkid. rsn_pmkid cfg pmk aa spa sha = Some pmkid"
proof -
  let ?v = "[lit ''PMK Name'', take 6 aa, take 6 spa]"
  have "length (concat ?v) < 2 ^ 30" using assms by (simp add: lit_def)
  then have "hmac_sha1_vector pmk ?v = Some (0, hmac sha1 pmk (concat ?v))"
    "hmac_sha256_vector pmk ?v = Some (0, hmac sha256 pmk (concat ?v))"
    using assms(1) by (intro hmac_sha1_vector_eq hmac_sha256_vector_eq; simp)+
  then show ?thesis using assms by (simp add: rsn_pmkid_def c_slice_def Let_def)
qed

lemma pmksa_add_Some:
  assumes "length pmk \<le> 32" "6 \<le> length aa" "6 \<le> length spa"
  shows "\<exists>s' r. pmksa_cache_add cfg (Some a) now s pmk aa spa nc akmp = Some (s', Some r)"
proof -
  obtain pmkid where "rsn_pmkid cfg pmk aa spa (wpa_key_mgmt_sha256 akmp) = Some pmkid"
    using rsn_pmkid_Some [OF assms] by blast
  with assms show ?thesis
    by (auto simp: pmksa_cache_add_def c_slice_def Let_def split: sum.splits)
qed

text \<open>
  C16. The PMKSA cache implements a finite map from authenticators to keys: \<open>pmksa_cache_add\<close> with a key of at
  most 32 bytes and memory for the entry succeeds and keeps the invariant, a search for the authenticator then
  finds the returned entry with the new key, and what is stored for any other authenticator is either kept or
  removed, never changed.
\<close>

theorem pmksa_cache_add_refines_map:
  assumes "pmksa_ok s" "fresh (Some m) s" "length pmk \<le> 32" "6 \<le> length aa" "6 \<le> length spa"
  shows "\<exists>s' a. pmksa_cache_add cfg (Some m) now s pmk aa spa nc akmp = Some (s', Some a) \<and> pmksa_ok s' \<and>
    pmksa_map s' (take 6 aa) = Some pmk \<and> pmksa_cache_get s' (Some (take 6 aa)) None 0 = Some a \<and>
    (\<forall>b. b \<noteq> take 6 aa \<longrightarrow> pmksa_map s' b = None \<or> pmksa_map s' b = pmksa_map s b)"
proof -
  obtain s' a where add: "pmksa_cache_add cfg (Some m) now s pmk aa spa nc akmp = Some (s', Some a)"
    using pmksa_add_Some [OF assms(3-5)] by blast
  note inv = pmksa_add_inv [OF assms(1,2) add]
  then obtain e where e: "e \<in> set (pc_pmksa s')" "pe_addr e = a" "pe_aa e = take 6 aa" "pe_pmk e = pmk" by auto
  have "b \<noteq> take 6 aa \<Longrightarrow> pmksa_map s' b = None \<or> pmksa_map s' b = pmksa_map s b" for b
  proof (cases "b \<in> pe_aa ` set (pc_pmksa s')")
    case True
    assume "b \<noteq> take 6 aa"
    with True inv obtain x where "x \<in> set (pc_pmksa s')" "x \<in> set (pc_pmksa s)" "b = pe_aa x" by auto
    then show ?thesis using pmksa_map_entry assms(1) inv by simp
  qed (simp add: pmksa_map_None)
  then show ?thesis
    using pmksa_map_entry [of s' e] pmksa_get_aa [of s' e] inv e add by auto
qed

text \<open>A cache with \<open>n\<close> entries of network 1, one second apart.\<close>

definition sample_entry :: "nat \<Rightarrow> rsn_pmksa_cache_entry" where
  "sample_entry i = \<lparr>pe_addr = i, pe_pmkid = replicate 16 0, pe_pmk = replicate 32 (of_nat i),
     pe_expiration = 100 + int i, pe_akmp = 1, pe_aa = [0, 0, 0, 0, 0, of_nat i], pe_reauth_time = 70,
     pe_network_ctx = 1, pe_opportunistic = False\<rparr>"

definition sample_cache :: "nat \<Rightarrow> rsn_pmksa_cache" where
  "sample_cache n = (pmksa_cache_init (replicate 6 1) (replicate 6 2))
     \<lparr>pc_pmksa := map sample_entry [0..<n], pc_pmksa_count := int n\<rparr>"

lemma sample_cache_ok: "n \<le> 32 \<Longrightarrow> pmksa_ok (sample_cache n)"
proof -
  assume n: "n \<le> 32"
  have inj: "of_nat i = (of_nat j :: u8) \<longleftrightarrow> i = j" if "i < n" "j < n" for i j
  proof
    assume "of_nat i = (of_nat j :: u8)"
    then have "unat (of_nat i :: u8) = unat (of_nat j :: u8)" by simp
    then show "i = j" using n that unfolding unat_of_nat by simp
  qed simp
  have maps: "map pe_addr (map sample_entry [0..<n]) = [0..<n]"
    "map pe_aa (map sample_entry [0..<n]) = map (\<lambda>i. [0, 0, 0, 0, 0, of_nat i]) [0..<n]"
    by (simp_all add: sample_entry_def comp_def)
  have "distinct (map (\<lambda>i. [0, 0, 0, 0, 0, of_nat i :: u8]) [0..<n])"
    using inj by (auto simp: distinct_map inj_on_def)
  then show ?thesis
    using n unfolding pmksa_ok_def sample_cache_def by (simp add: maps [unfolded map_map] pmksa_cache_init_def)
qed

lemma sample_cache_fresh: "fresh (Some 99) (sample_cache 32)" "fresh (Some 99) (sample_cache 2)"
  by (auto simp: fresh_def sample_cache_def sample_entry_def)

theorem pmksa_cache_add_refines_map_witness:
  "\<exists>s' a. pmksa_cache_add pc2drc_config (Some 99) 5 (sample_cache 2) (replicate 32 3) [0, 0, 0, 0, 0, 1] (replicate 6 2) 1 1 =
      Some (s', Some a) \<and> pmksa_map s' [0, 0, 0, 0, 0, 1] = Some (replicate 32 3)"
  using pmksa_cache_add_refines_map [OF sample_cache_ok sample_cache_fresh(2), of "replicate 32 3" "[0, 0, 0, 0, 0, 1]" "replicate 6 2"
    pc2drc_config 5 1 1] by auto

section \<open>Expiry\<close>

definition pmksa_sorted :: "rsn_pmksa_cache \<Rightarrow> bool" where
  "pmksa_sorted s \<longleftrightarrow> sorted (map pe_expiration (pc_pmksa s))"

lemma dropWhile_sorted:
  "sorted (map f xs) \<Longrightarrow> dropWhile (\<lambda>x. f x \<le> (n :: int)) xs = filter (\<lambda>x. n < f x) xs"
proof (induction xs)
  case (Cons x xs)
  then show ?case by (cases "f x \<le> n") (auto simp: filter_id_conv not_le intro!: sym [OF filter_True])
qed simp

lemma set_expiration_timer:
  "pc_expire_timer (pmksa_cache_set_expiration now s) =
    (case pc_pmksa s of [] \<Rightarrow> None | e # _ \<Rightarrow> Some (max 0 (pe_expiration e - now) + 1))"
  by (simp add: pmksa_cache_set_expiration_def Let_def split: list.splits)



text \<open>Additions, flushes and expiry keep the order.\<close>

lemma sorted_insert_expiration:
  assumes "sorted (map f xs)"
  shows "sorted (map f (takeWhile (\<lambda>x. \<not> (f x :: int) > f y) xs @ [y] @ dropWhile (\<lambda>x. \<not> f x > f y) xs))"
  using assms by (induction xs) (auto simp: not_less intro: order_trans dest: set_takeWhileD set_dropWhileD)

lemma pmksa_flush_sorted: "\<lbrakk>pmksa_inv p s; pmksa_sorted s\<rbrakk> \<Longrightarrow> pmksa_sorted (pmksa_cache_flush now s nc pmk)"
  by (simp add: pmksa_sorted_def pmksa_flush_inv sorted_filter)

lemma pmksa_make_room_sorted: "pmksa_sorted s \<Longrightarrow> pmksa_sorted (pmksa_make_room s)"
  by (auto simp: pmksa_sorted_def pmksa_make_room_def split: list.splits)

lemma pmksa_insert_sorted: "pmksa_sorted s \<Longrightarrow> pmksa_sorted (pmksa_insert now s entry)"
  using sorted_insert_expiration [of pe_expiration "pc_pmksa s" entry] unfolding pmksa_sorted_def pmksa_insert_def Let_def
  by (cases "takeWhile (\<lambda>e. \<not> pe_expiration e > pe_expiration entry) (pc_pmksa s) = []") simp_all

lemma pmksa_replace_sorted:
  assumes "pmksa_ok s" "pmksa_sorted s" "pmksa_replace now s entry = Inr s'"
  shows "pmksa_sorted s'"
proof (cases "dropWhile (\<lambda>e. pe_aa e \<noteq> pe_aa entry) (pc_pmksa s)")
  case Nil
  with assms show ?thesis unfolding pmksa_replace_def Nil by simp
next
  case (Cons pos ys)
  define xs where "xs = takeWhile (\<lambda>e. pe_aa e \<noteq> pe_aa entry) (pc_pmksa s)"
  have l: "pc_pmksa s = xs @ pos # ys"
    using takeWhile_dropWhile_id [of "\<lambda>e. pe_aa e \<noteq> pe_aa entry" "pc_pmksa s"] by (simp add: Cons xs_def)
  have srt: "pmksa_sorted (s\<lparr>pc_pmksa := xs @ ys\<rparr>)" using assms(2) by (simp add: pmksa_sorted_def l sorted_append)
  have inv: "pmksa_inv [pos] (s\<lparr>pc_pmksa := xs @ ys\<rparr>)"
    using unlink_inv [of "[]" s, OF _ l] assms(1) by (simp add: pmksa_inv_Nil)
  have "pmksa_sorted (pmksa_cache_free_entry (if pe_opportunistic pos then s\<lparr>pc_pmksa := xs @ ys\<rparr>
      else pmksa_cache_flush now (s\<lparr>pc_pmksa := xs @ ys\<rparr>) (pe_network_ctx entry) (Some (pe_pmk pos))) pos PMKSA_REPLACE)"
    using pmksa_flush_sorted [OF inv srt] srt by (auto simp: pmksa_sorted_def)
  then show ?thesis
    using assms(3) unfolding pmksa_replace_def Cons xs_def [symmetric] Let_def by (auto split: if_splits)
qed

text \<open>Without opportunistic key caching the order by expiration time is an invariant.\<close>

lemma pmksa_add_sorted:
  assumes "pmksa_ok s" "pmksa_sorted s" "pmksa_cache_add cfg mem now s pmk aa spa nc akmp = Some (s', r)"
  shows "pmksa_sorted s'"
proof -
  have "s' = s \<or> (\<exists>entry s1. pmksa_replace now s entry = Inr s1 \<and> s' = pmksa_insert now (pmksa_make_room s1) entry)"
    using assms(3) unfolding pmksa_cache_add_def
    by (auto simp: bind_eq_Some_iff Let_def split: if_split_asm option.split_asm sum.split_asm) (metis sum.exhaust)
  then show ?thesis
    using assms(1,2) pmksa_insert_sorted pmksa_make_room_sorted pmksa_replace_sorted by blast
qed

text \<open>Cloning can break it: the clone of an entry takes the place of one that expires later.\<close>

lemma pmksa_clone_unsorted:
  "\<exists>s'. pmksa_cache_get_opportunistic pc2drc_config (Some 99) 200 (sample_cache 2) 1 [9, 9, 9, 9, 9, 9] = Some (s', Some 99) \<and>
    pmksa_sorted (sample_cache 2) \<and> \<not> pmksa_sorted s'"
proof -
  obtain pmkid where id: "rsn_pmkid pc2drc_config (replicate 32 0) [9, 9, 9, 9, 9, 9] (replicate 6 2) False = Some pmkid"
    using rsn_pmkid_Some [of "replicate 32 0" "[9, 9, 9, 9, 9, 9]" "replicate 6 2" pc2drc_config False] by auto
  have two: "[0..<2] = [0, Suc 0]" by (simp add: upt_conv_Cons)
  show ?thesis
    by (simp add: pmksa_cache_get_opportunistic_def sample_cache_def sample_entry_def pmksa_cache_init_def two
      pmksa_cache_clone_entry_def pmksa_deref_def pmksa_cache_add_def wpa_key_mgmt_sha256_def id
      c_slice_def pmksa_replace_def pmksa_make_room_def pmksa_insert_def pmksa_cache_max_entries_def
      pmksa_update_def pmksa_sorted_def Let_def)
qed

section \<open>A full cache\<close>

lemma make_room_full:
  assumes "pmksa_ok s" "pc_pmksa s = e # es" "length es = 31" "pc_cur_pmksa s \<noteq> Some (pe_addr e)"
  shows "pc_pmksa (pmksa_make_room s) = es"
  using assms by (simp add: pmksa_make_room_def pmksa_ok_def pmksa_cache_max_entries_def)

lemma pmksa_add_evicts:
  assumes "pmksa_ok s" "pc_pmksa s = e # es" "length es = 31" "pc_cur_pmksa s \<noteq> Some (pe_addr e)"
    and "fresh (Some a) s" "take 6 aa \<notin> pe_aa ` set (pc_pmksa s)"
    and "length pmk \<le> 32" "6 \<le> length aa" "6 \<le> length spa"
  shows "\<exists>s'. pmksa_cache_add cfg (Some a) now s pmk aa spa nc akmp = Some (s', Some a) \<and>
    pe_addr e \<notin> pe_addr ` set (pc_pmksa s')"
proof -
  obtain pmkid where id: "rsn_pmkid cfg pmk aa spa (wpa_key_mgmt_sha256 akmp) = Some pmkid"
    using rsn_pmkid_Some [OF assms(7-9)] by blast
  define entry where "entry = \<lparr>pe_addr = a, pe_pmkid = pmkid, pe_pmk = pmk,
            pe_expiration = now + uint (pc_PMKLifetime s), pe_akmp = akmp, pe_aa = take 6 aa,
            pe_reauth_time = now + uint (pc_PMKLifetime s * pc_PMKReauthThreshold s div 100),
            pe_network_ctx = nc, pe_opportunistic = False\<rparr>"
  have "dropWhile (\<lambda>x. pe_aa x \<noteq> pe_aa entry) (pc_pmksa s) = []"
    using assms(6) unfolding dropWhile_eq_Nil_conv by (metis entry_def image_eqI rsn_pmksa_cache_entry.select_convs(6))
  then have "pmksa_replace now s entry = Inr s" unfolding pmksa_replace_def by (simp only: list.case)
  then have add: "pmksa_cache_add cfg (Some a) now s pmk aa spa nc akmp =
      Some (pmksa_insert now (pmksa_make_room s) entry, Some a)"
    using assms(7,8) id by (simp add: pmksa_cache_add_def c_slice_def Let_def entry_def)
  have "set (pc_pmksa (pmksa_insert now (pmksa_make_room s) entry)) = insert entry (set es)"
  proof -
    note room = make_room_full [OF assms(1-4)]
    have "pe_addr entry \<notin> pe_addr ` set es" "pe_aa entry \<notin> pe_aa ` set es"
      using assms(2,5,6) by (auto simp: fresh_def entry_def)
    then show ?thesis
      using insert_inv [of "pmksa_make_room s" entry now] make_room_inv [OF assms(1)] room by simp
  qed
  moreover have "pe_addr e \<noteq> pe_addr entry" "pe_addr e \<notin> pe_addr ` set es"
    using assms(1,2,5) by (auto simp: fresh_def pmksa_ok_def entry_def)
  ultimately show ?thesis using add by auto
qed

text \<open>
  C18. Opportunistic key caching with a full cache reads freed memory: when the cache holds 32 entries and the
  oldest one belongs to the network, selecting the entry for a new access point clones that oldest entry; the
  addition frees it to make room and \<open>pmksa_cache_clone_entry\<close> then reads its expiration time through the
  dangling pointer.
\<close>

theorem pmksa_cache_clone_use_after_free:
  assumes "pmksa_ok s" "pc_pmksa s = e # es" "length es = 31" "pe_network_ctx e = nc" "nc \<noteq> 0"
    and "fresh (Some a) s" "bssid \<notin> pe_aa ` set (pc_pmksa s)" "length (pe_pmk e) \<le> 32"
    and "length bssid = 6" "6 \<le> length (pc_own_addr s)"
  shows "(\<exists>s'. pmksa_cache_add cfg (Some a) now (s\<lparr>pc_cur_pmksa := None\<rparr>) (pe_pmk e) bssid (pc_own_addr s) nc (pe_akmp e) =
      Some (s', Some a) \<and> pmksa_deref s' (pe_addr e) = None) \<and>
    pmksa_cache_set_current cfg (Some a) now s None (Some bssid) nc True = None"
proof -
  let ?s = "s\<lparr>pc_cur_pmksa := None\<rparr>"
  have ok: "pmksa_ok ?s" "fresh (Some a) ?s" using assms(1,6) by (simp_all add: pmksa_ok_def fresh_def)
  obtain s' where add: "pmksa_cache_add cfg (Some a) now ?s (pe_pmk e) bssid (pc_own_addr s) nc (pe_akmp e) = Some (s', Some a)"
    and gone: "pe_addr e \<notin> pe_addr ` set (pc_pmksa s')"
    using pmksa_add_evicts [OF ok(1), of e es a bssid "pe_pmk e" "pc_own_addr s" cfg now nc "pe_akmp e"] ok assms by auto
  have deref: "pmksa_deref s' (pe_addr e) = None"
    using gone unfolding pmksa_deref_def find_None_iff by (metis image_eqI)
  have find: "find (\<lambda>x. pe_network_ctx x = nc) (pc_pmksa ?s) = Some e"
    "pmksa_deref ?s (pe_addr e) = Some e" using assms(2,4) by (simp_all add: pmksa_deref_def)
  have "pmksa_cache_get_opportunistic cfg (Some a) now ?s nc bssid = None"
    using add deref assms(4,5) unfolding pmksa_cache_get_opportunistic_def find
    by (simp add: pmksa_cache_clone_entry_def find)
  moreover have "pmksa_cache_get ?s (Some bssid) None nc = None"
    using assms(7) by (auto simp: pmksa_cache_get_def find_None_iff)
  ultimately show ?thesis
    using add deref by (simp add: pmksa_cache_set_current_def)
qed

theorem pmksa_cache_clone_use_after_free_witness:
  "pmksa_cache_set_current pc2drc_config (Some 99) 5 (sample_cache 32) None (Some [9, 9, 9, 9, 9, 9]) 1 True = None"
proof -
  have l: "pc_pmksa (sample_cache 32) = sample_entry 0 # map sample_entry [1..<32]"
    by (simp add: sample_cache_def upt_conv_Cons)
  have "[9, 9, 9, 9, 9, 9] \<notin> pe_aa ` set (pc_pmksa (sample_cache 32))"
    by (auto simp: sample_cache_def sample_entry_def)
  then show ?thesis
    using pmksa_cache_clone_use_after_free [OF sample_cache_ok l, of 1 99 "[9, 9, 9, 9, 9, 9]" pc2drc_config 5]
    by (simp add: sample_cache_fresh sample_entry_def) (simp add: sample_cache_def pmksa_cache_init_def)
qed

end
