(* ===== verification/Pmksa_Auth.thy ===== *)
theory Pmksa_Auth
  imports Pmksa_Cache
begin

text \<open>
  The authenticator's PMKSA cache (\<open>src/drc-hostap/src/ap/pmksa_cache_auth.c\<close>) with the callback and the wrappers of
  \<open>ap/wpa_auth.c\<close>. The entries are on a heap of their own and are linked twice, in the list of all entries and in the
  chain of their hash value, as in the code; every access goes through the heap, so that the use of a freed entry is
  \<open>None\<close>, and so is a loop that does not end. Addresses are compared over 6 and PMKIDs over 16 bytes, the lengths
  that the arrays have. Shown: the invariant of the two structures over all sequences of calls, refinement of a list of
  entries, the bound on their number, and the loop of \<open>pmksa_cache_get_okc\<close> that does not end.
\<close>

section \<open>State\<close>

text \<open>An entry with its two links: \<open>next\<close> for the list of all entries, \<open>hnext\<close> for the chain of its hash value. A pointer is an
  address or \<open>None\<close> for NULL. The RADIUS Class attributes are \<open>None\<close> while \<open>attr\<close> is NULL.\<close>

record auth_pmksa_entry =
  pa_next :: "nat option"
  pa_hnext :: "nat option"
  pa_pmkid :: bytes
  pa_pmk :: bytes
  pa_pmk_len :: nat
  pa_expiration :: int
  pa_akmp :: u32
  pa_spa :: bytes
  pa_identity :: "bytes option"
  pa_cui :: "bytes option"
  pa_class :: "bytes list option"
  pa_eap_type_authsrv :: u8
  pa_vlan_id :: int
  pa_opportunistic :: bool

text \<open>The cache: the heap of entries, the hash table, the head of the list, the timer with the delay it was registered with, and
  the pointer \<open>pmksa\<close> of the station, which the callback \<open>free_cb\<close> clears.\<close>

record auth_pmksa_cache =
  ap_heap :: "nat \<rightharpoonup> auth_pmksa_entry"
  ap_pmkid :: "nat option list"
  ap_pmksa :: "nat option"
  ap_count :: int
  ap_timer :: "int option"
  ap_sta :: "nat option"

text \<open>The fields of the EAPOL state machine (and of its station) that an entry keeps.\<close>

record eapol_session =
  es_identity :: "bytes option"
  es_cui :: "bytes option"
  es_class :: "bytes list option"
  es_eap_type_authsrv :: u8
  es_vlan_id :: int

definition auth_pmksa_max_entries :: int where
  "auth_pmksa_max_entries = 1024"

definition dot11RSNAConfigPMKLifetime :: int where
  "dot11RSNAConfigPMKLifetime = 43200"

definition PMKID_HASH_SIZE :: nat where
  "PMKID_HASH_SIZE = 128"

definition PMKID_HASH :: "bytes \<Rightarrow> nat" where
  "PMKID_HASH pmkid = unat (pmkid ! 0 AND 0x7f)"

section \<open>Links\<close>

datatype link = Next | Hnext

fun link_of :: "link \<Rightarrow> auth_pmksa_entry \<Rightarrow> nat option" where
  "link_of Next e = pa_next e"
| "link_of Hnext e = pa_hnext e"

fun set_link :: "link \<Rightarrow> nat option \<Rightarrow> auth_pmksa_entry \<Rightarrow> auth_pmksa_entry" where
  "set_link Next p e = e\<lparr>pa_next := p\<rparr>"
| "set_link Hnext p e = e\<lparr>pa_hnext := p\<rparr>"

text \<open>The loop that takes an entry out of one of its lists; the result is the head of the list and the heap.\<close>

partial_function (option) unlink_loop :: "link \<Rightarrow> nat \<Rightarrow> nat option \<Rightarrow> nat option \<Rightarrow> nat option \<Rightarrow> (nat \<rightharpoonup> auth_pmksa_entry) \<Rightarrow>
    (nat option \<times> (nat \<rightharpoonup> auth_pmksa_entry)) option" where
  "unlink_loop l entry head prev pos h =
     (case pos of
        None \<Rightarrow> Some (head, h)
      | Some p \<Rightarrow> do {
          e \<leftarrow> h p;
          if p = entry then
            (case prev of
               Some q \<Rightarrow> do { f \<leftarrow> h q; Some (head, h(q \<mapsto> set_link l (link_of l e) f)) }
             | None \<Rightarrow> Some (link_of l e, h))
          else unlink_loop l entry head (Some p) (link_of l e) h })"

section \<open>Operations\<close>

definition auth_pmksa_free_cb :: "auth_pmksa_cache \<Rightarrow> nat \<Rightarrow> auth_pmksa_cache" where
  "auth_pmksa_free_cb c entry = (if ap_sta c = Some entry then c\<lparr>ap_sta := None\<rparr> else c)"

definition auth_pmksa_free_entry :: "auth_pmksa_cache \<Rightarrow> nat \<Rightarrow> auth_pmksa_cache option" where
  "auth_pmksa_free_entry c entry = do {
     let c = auth_pmksa_free_cb (c\<lparr>ap_count := ap_count c - 1\<rparr>) entry;
     e \<leftarrow> ap_heap c entry;
     bucket \<leftarrow> c_read (ap_pmkid c) (PMKID_HASH (pa_pmkid e));
     (head, h) \<leftarrow> unlink_loop Hnext entry bucket None bucket (ap_heap c);
     let c = c\<lparr>ap_pmkid := (ap_pmkid c)[PMKID_HASH (pa_pmkid e) := head], ap_heap := h\<rparr>;
     (head, h) \<leftarrow> unlink_loop Next entry (ap_pmksa c) None (ap_pmksa c) (ap_heap c);
     Some (c\<lparr>ap_pmksa := head, ap_heap := h(entry := None)\<rparr>) }"

definition auth_pmksa_set_expiration :: "int \<Rightarrow> auth_pmksa_cache \<Rightarrow> auth_pmksa_cache option" where
  "auth_pmksa_set_expiration now c =
     (case ap_pmksa c of
        None \<Rightarrow> Some (c\<lparr>ap_timer := None\<rparr>)
      | Some p \<Rightarrow> do {
          e \<leftarrow> ap_heap c p;
          Some (c\<lparr>ap_timer := Some (max 0 (pa_expiration e - now) + 1)\<rparr>) })"

partial_function (option) auth_pmksa_expire_loop :: "int \<Rightarrow> auth_pmksa_cache \<Rightarrow> auth_pmksa_cache option" where
  "auth_pmksa_expire_loop now c =
     (case ap_pmksa c of
        None \<Rightarrow> Some c
      | Some p \<Rightarrow> do {
          e \<leftarrow> ap_heap c p;
          if pa_expiration e \<le> now then do {
            c \<leftarrow> auth_pmksa_free_entry c p;
            auth_pmksa_expire_loop now c }
          else Some c })"

definition auth_pmksa_expire :: "int \<Rightarrow> auth_pmksa_cache \<Rightarrow> auth_pmksa_cache option" where
  "auth_pmksa_expire now c = do {
     c \<leftarrow> auth_pmksa_expire_loop now c;
     auth_pmksa_set_expiration now c }"

text \<open>Copies; \<open>mem i\<close> says whether the i-th allocation succeeds. The copy of the attributes stops at the first that fails.\<close>

fun copy_attrs :: "(nat \<Rightarrow> bool) \<Rightarrow> nat \<Rightarrow> bytes list \<Rightarrow> bytes list" where
  "copy_attrs mem i [] = []"
| "copy_attrs mem i (a # as) = (if mem i then a # copy_attrs mem (Suc i) as else [])"

definition radius_copy_class :: "(nat \<Rightarrow> bool) \<Rightarrow> bytes list option \<Rightarrow> bytes list option \<Rightarrow> bytes list option" where
  "radius_copy_class mem dst src =
     (case src of None \<Rightarrow> dst | Some attrs \<Rightarrow> if mem 2 then Some (copy_attrs mem 3 attrs) else None)"

definition radius_free_class :: "bytes list option \<Rightarrow> bytes list option" where
  "radius_free_class c = None"

definition pmksa_cache_from_eapol_data :: "(nat \<Rightarrow> bool) \<Rightarrow> auth_pmksa_entry \<Rightarrow> eapol_session option \<Rightarrow> auth_pmksa_entry" where
  "pmksa_cache_from_eapol_data mem entry eapol =
     (case eapol of
        None \<Rightarrow> entry
      | Some s \<Rightarrow> entry\<lparr>pa_identity := (if es_identity s \<noteq> None then if mem 0 then es_identity s else None else pa_identity entry),
          pa_cui := (if es_cui s \<noteq> None then if mem 1 then es_cui s else None else pa_cui entry),
          pa_class := radius_copy_class mem (pa_class entry) (es_class s),
          pa_eap_type_authsrv := es_eap_type_authsrv s, pa_vlan_id := es_vlan_id s\<rparr>)"

definition pmksa_cache_to_eapol_data :: "(nat \<Rightarrow> bool) \<Rightarrow> auth_pmksa_entry \<Rightarrow> eapol_session \<Rightarrow> eapol_session" where
  "pmksa_cache_to_eapol_data mem entry s =
     s\<lparr>es_identity := (if pa_identity entry \<noteq> None then if mem 0 then pa_identity entry else None else es_identity s),
       es_cui := (if pa_cui entry \<noteq> None then if mem 1 then pa_cui entry else None else es_cui s),
       es_class := radius_copy_class mem (radius_free_class (es_class s)) (pa_class entry),
       es_eap_type_authsrv := pa_eap_type_authsrv entry, es_vlan_id := pa_vlan_id entry\<rparr>"

text \<open>The search for the place of a new entry: the last one that does not expire later, and the one behind it.\<close>

partial_function (option) link_pos :: "(nat \<rightharpoonup> auth_pmksa_entry) \<Rightarrow> int \<Rightarrow> nat option \<Rightarrow> nat option \<Rightarrow> (nat option \<times> nat option) option" where
  "link_pos h t prev pos =
     (case pos of
        None \<Rightarrow> Some (prev, pos)
      | Some p \<Rightarrow> do {
          e \<leftarrow> h p;
          if pa_expiration e > t then Some (prev, pos) else link_pos h t (Some p) (pa_next e) })"

definition auth_pmksa_link_entry :: "int \<Rightarrow> auth_pmksa_cache \<Rightarrow> nat \<Rightarrow> auth_pmksa_cache option" where
  "auth_pmksa_link_entry now c entry = do {
     e \<leftarrow> ap_heap c entry;
     (prev, pos) \<leftarrow> link_pos (ap_heap c) (pa_expiration e) None (ap_pmksa c);
     c \<leftarrow> (case prev of
         None \<Rightarrow> Some (c\<lparr>ap_heap := (ap_heap c)(entry \<mapsto> e\<lparr>pa_next := ap_pmksa c\<rparr>), ap_pmksa := Some entry\<rparr>)
       | Some q \<Rightarrow> do {
           f \<leftarrow> ap_heap c q;
           Some (c\<lparr>ap_heap := (ap_heap c)(entry \<mapsto> e\<lparr>pa_next := pa_next f\<rparr>, q \<mapsto> f\<lparr>pa_next := Some entry\<rparr>)\<rparr>) });
     e \<leftarrow> ap_heap c entry;
     bucket \<leftarrow> c_read (ap_pmkid c) (PMKID_HASH (pa_pmkid e));
     let c = c\<lparr>ap_heap := (ap_heap c)(entry \<mapsto> e\<lparr>pa_hnext := bucket\<rparr>),
       ap_pmkid := (ap_pmkid c)[PMKID_HASH (pa_pmkid e) := Some entry], ap_count := ap_count c + 1\<rparr>;
     if prev = None then auth_pmksa_set_expiration now c else Some c }"

text \<open>The search; NULL arguments match everything.\<close>

definition pmksa_match :: "bytes option \<Rightarrow> bytes option \<Rightarrow> auth_pmksa_entry \<Rightarrow> bool" where
  "pmksa_match spa pmkid e \<longleftrightarrow> (spa = None \<or> spa = Some (pa_spa e)) \<and> (pmkid = None \<or> pmkid = Some (pa_pmkid e))"

partial_function (option) auth_get_loop :: "nat option \<Rightarrow> link \<Rightarrow> (auth_pmksa_entry \<Rightarrow> bool) \<Rightarrow> (nat \<rightharpoonup> auth_pmksa_entry) \<Rightarrow> nat option option" where
  "auth_get_loop pos l match h =
     (case pos of
        None \<Rightarrow> Some None
      | Some p \<Rightarrow> do {
          e \<leftarrow> h p;
          if match e then Some (Some p) else auth_get_loop (link_of l e) l match h })"

definition pmksa_cache_auth_get :: "auth_pmksa_cache \<Rightarrow> bytes option \<Rightarrow> bytes option \<Rightarrow> nat option option" where
  "pmksa_cache_auth_get c spa pmkid =
     (case pmkid of
        Some i \<Rightarrow> do {
          bucket \<leftarrow> c_read (ap_pmkid c) (PMKID_HASH i);
          auth_get_loop bucket Hnext (pmksa_match spa pmkid) (ap_heap c) }
      | None \<Rightarrow> auth_get_loop (ap_pmksa c) Next (pmksa_match spa pmkid) (ap_heap c))"

text \<open>\<open>addr\<close> is what the allocation of the entry returns.\<close>

definition auth_pmksa_new :: "bytes \<Rightarrow> bytes \<Rightarrow> bytes \<Rightarrow> int \<Rightarrow> u32 \<Rightarrow> auth_pmksa_entry" where
  "auth_pmksa_new pmk pmkid spa expiration akmp =
     \<lparr>pa_next = None, pa_hnext = None, pa_pmkid = pmkid, pa_pmk = pmk @ replicate (32 - length pmk) 0, pa_pmk_len = length pmk,
       pa_expiration = expiration, pa_akmp = akmp, pa_spa = spa, pa_identity = None, pa_cui = None, pa_class = None,
       pa_eap_type_authsrv = 0, pa_vlan_id = 0, pa_opportunistic = False\<rparr>"

definition pmksa_cache_auth_add :: "build_config \<Rightarrow> nat option \<Rightarrow> (nat \<Rightarrow> bool) \<Rightarrow> int \<Rightarrow> auth_pmksa_cache \<Rightarrow> bytes \<Rightarrow> bytes \<Rightarrow> bytes \<Rightarrow> int \<Rightarrow>
    eapol_session option \<Rightarrow> u32 \<Rightarrow> (nat option \<times> auth_pmksa_cache) option" where
  "pmksa_cache_auth_add cfg addr mem now c pmk aa spa session_timeout eapol akmp =
     (if length pmk > 32 then Some (None, c)
      else case addr of
        None \<Rightarrow> Some (None, c)
      | Some a \<Rightarrow> do {
          pmkid \<leftarrow> rsn_pmkid cfg pmk aa spa (wpa_key_mgmt_sha256 akmp);
          let expiration = now + (if session_timeout > 0 then session_timeout else dot11RSNAConfigPMKLifetime);
          let entry = pmksa_cache_from_eapol_data mem (auth_pmksa_new pmk pmkid spa expiration akmp) eapol;
          let c = c\<lparr>ap_heap := (ap_heap c)(a \<mapsto> entry)\<rparr>;
          pos \<leftarrow> pmksa_cache_auth_get c (Some spa) None;
          c \<leftarrow> (case pos of None \<Rightarrow> Some c | Some p \<Rightarrow> auth_pmksa_free_entry c p);
          c \<leftarrow> (case ap_pmksa c of
              Some p \<Rightarrow> if ap_count c \<ge> auth_pmksa_max_entries then auth_pmksa_free_entry c p else Some c
            | None \<Rightarrow> Some c);
          c \<leftarrow> auth_pmksa_link_entry now c a;
          Some (Some a, c) })"

definition pmksa_cache_add_okc :: "nat option \<Rightarrow> (nat \<Rightarrow> bool) \<Rightarrow> int \<Rightarrow> auth_pmksa_cache \<Rightarrow> auth_pmksa_entry \<Rightarrow> bytes \<Rightarrow>
    (nat option \<times> auth_pmksa_cache) option" where
  "pmksa_cache_add_okc addr mem now c old pmkid =
     (case addr of
        None \<Rightarrow> Some (None, c)
      | Some a \<Rightarrow> do {
          let entry = (auth_pmksa_new (take (pa_pmk_len old) (pa_pmk old)) pmkid (pa_spa old) (pa_expiration old) (pa_akmp old))
            \<lparr>pa_identity := (if mem 0 then pa_identity old else None), pa_cui := (if mem 1 then pa_cui old else None),
              pa_class := radius_copy_class mem None (pa_class old), pa_eap_type_authsrv := pa_eap_type_authsrv old,
              pa_vlan_id := pa_vlan_id old, pa_opportunistic := True\<rparr>;
          c \<leftarrow> auth_pmksa_link_entry now (c\<lparr>ap_heap := (ap_heap c)(a \<mapsto> entry)\<rparr>) a;
          Some (Some a, c) })"

text \<open>The search for an entry by the PMKID it would have at this access point: one round of the loop, which returns (\<open>Inl\<close>) or
  goes on with a pointer (\<open>Inr\<close>), the same one when the station's address differs; and the loop.\<close>

definition okc_round :: "build_config \<Rightarrow> (nat \<rightharpoonup> auth_pmksa_entry) \<Rightarrow> bytes \<Rightarrow> bytes \<Rightarrow> bytes \<Rightarrow> nat option \<Rightarrow> (nat option + nat option) option" where
  "okc_round cfg h aa spa pmkid pos =
     (case pos of
        None \<Rightarrow> Some (Inl None)
      | Some p \<Rightarrow> do {
          e \<leftarrow> h p;
          if pa_spa e \<noteq> spa then Some (Inr pos)
          else do {
            new_pmkid \<leftarrow> rsn_pmkid cfg (take (pa_pmk_len e) (pa_pmk e)) aa spa (wpa_key_mgmt_sha256 (pa_akmp e));
            Some (if new_pmkid = pmkid then Inl pos else Inr (pa_next e)) } })"

partial_function (option) okc_loop :: "build_config \<Rightarrow> (nat \<rightharpoonup> auth_pmksa_entry) \<Rightarrow> bytes \<Rightarrow> bytes \<Rightarrow> bytes \<Rightarrow> nat option \<Rightarrow> nat option option" where
  "okc_loop cfg h aa spa pmkid pos = do {
     r \<leftarrow> okc_round cfg h aa spa pmkid pos;
     case r of Inl found \<Rightarrow> Some found | Inr pos \<Rightarrow> okc_loop cfg h aa spa pmkid pos }"

definition pmksa_cache_get_okc :: "build_config \<Rightarrow> auth_pmksa_cache \<Rightarrow> bytes \<Rightarrow> bytes \<Rightarrow> bytes \<Rightarrow> nat option option" where
  "pmksa_cache_get_okc cfg c aa spa pmkid = okc_loop cfg (ap_heap c) aa spa pmkid (ap_pmksa c)"

definition pmksa_cache_auth_init :: "auth_pmksa_cache" where
  "pmksa_cache_auth_init = \<lparr>ap_heap = Map.empty, ap_pmkid = replicate PMKID_HASH_SIZE None, ap_pmksa = None, ap_count = 0,
     ap_timer = None, ap_sta = None\<rparr>"

text \<open>All entries are freed; the callback is not called.\<close>

partial_function (option) auth_deinit_loop :: "nat option \<Rightarrow> (nat \<rightharpoonup> auth_pmksa_entry) \<Rightarrow> (nat \<rightharpoonup> auth_pmksa_entry) option" where
  "auth_deinit_loop entry h =
     (case entry of
        None \<Rightarrow> Some h
      | Some p \<Rightarrow> do { e \<leftarrow> h p; auth_deinit_loop (pa_next e) (h(p := None)) })"

definition pmksa_cache_auth_deinit :: "auth_pmksa_cache \<Rightarrow> auth_pmksa_cache option" where
  "pmksa_cache_auth_deinit c = do {
     h \<leftarrow> auth_deinit_loop (ap_pmksa c) (ap_heap c);
     Some (c\<lparr>ap_heap := h, ap_timer := None, ap_pmkid := replicate PMKID_HASH_SIZE None\<rparr>) }"

section \<open>The authenticator's interface\<close>

definition wpa_auth_sta_clear_pmksa :: "auth_pmksa_cache \<Rightarrow> nat \<Rightarrow> int \<times> auth_pmksa_cache" where
  "wpa_auth_sta_clear_pmksa c entry = (if ap_sta c \<noteq> Some entry then (-1, c) else (0, c\<lparr>ap_sta := None\<rparr>))"

definition wpa_auth_pmksa_remove :: "auth_pmksa_cache \<Rightarrow> bytes \<Rightarrow> auth_pmksa_cache option" where
  "wpa_auth_pmksa_remove c sta_addr = do {
     pmksa \<leftarrow> pmksa_cache_auth_get c (Some sta_addr) None;
     case pmksa of None \<Rightarrow> Some c | Some p \<Rightarrow> auth_pmksa_free_entry c p }"

section \<open>Lists in the heap\<close>

type_synonym pmksa_heap = "nat \<rightharpoonup> auth_pmksa_entry"

text \<open>The entries from one pointer to another along a link.\<close>

fun segment :: "link \<Rightarrow> pmksa_heap \<Rightarrow> nat option \<Rightarrow> nat list \<Rightarrow> nat option \<Rightarrow> bool" where
  "segment l h p [] q \<longleftrightarrow> p = q"
| "segment l h p (a # as) q \<longleftrightarrow> p = Some a \<and> (case h a of None \<Rightarrow> False | Some e \<Rightarrow> segment l h (link_of l e) as q)"

abbreviation "chain l h p as \<equiv> segment l h p as None"

lemma segment_append: "segment l h p (as @ bs) q \<longleftrightarrow> (\<exists>r. segment l h p as r \<and> segment l h r bs q)"
  by (induction as arbitrary: p) (auto split: option.split)

lemma segment_cong:
  assumes "\<And>a. a \<in> set as \<Longrightarrow> map_option (link_of l) (h a) = map_option (link_of l) (h' a)"
  shows "segment l h p as q = segment l h' p as q"
  using assms
proof (induction as arbitrary: p)
  case (Cons a as)
  have a: "map_option (link_of l) (h a) = map_option (link_of l) (h' a)" using Cons.prems by simp
  have "segment l h r as q = segment l h' r as q" for r using Cons.prems by (intro Cons.IH) simp
  with a show ?case by (cases "h a"; cases "h' a") simp_all
qed simp

lemma segment_upd [simp]: "u \<notin> set as \<Longrightarrow> segment l (h(u := v)) p as q = segment l h p as q"
  by (rule segment_cong) auto

lemma segment_dom: "segment l h p as q \<Longrightarrow> a \<in> set as \<Longrightarrow> h a \<noteq> None"
  by (induction as arbitrary: p) (auto split: option.splits)

lemma segment_None [simp]: "chain l h None as \<longleftrightarrow> as = []"
  by (cases as) auto

lemma chain_Some: "chain l h (Some p) as \<longleftrightarrow> (\<exists>e bs. as = p # bs \<and> h p = Some e \<and> chain l h (link_of l e) bs)"
  by (cases as) (auto split: option.split)

text \<open>The entry without its links; heaps that agree on it differ in links only.\<close>

definition payload :: "pmksa_heap \<Rightarrow> nat \<Rightarrow> auth_pmksa_entry option" where
  "payload h a = map_option (\<lambda>e. e\<lparr>pa_next := None, pa_hnext := None\<rparr>) (h a)"

fun other :: "link \<Rightarrow> link" where
  "other Next = Hnext" | "other Hnext = Next"

text \<open>Heaps that agree but for one link.\<close>

definition relinked :: "link \<Rightarrow> pmksa_heap \<Rightarrow> pmksa_heap \<Rightarrow> bool" where
  "relinked l h h' \<longleftrightarrow> payload h' = payload h \<and> (\<forall>a. map_option (link_of (other l)) (h' a) = map_option (link_of (other l)) (h a))"

lemma link_simps [simp]: "link_of l (set_link l p e) = p" "link_of (other l) (set_link l p e) = link_of (other l) e"
  "(set_link l p e)\<lparr>pa_next := None, pa_hnext := None\<rparr> = e\<lparr>pa_next := None, pa_hnext := None\<rparr>"
  by (cases l; simp)+

lemma relinked_refl [simp]: "relinked l h h"
  by (simp add: relinked_def)

lemma relinked_upd: "h q = Some f \<Longrightarrow> relinked l h (h(q \<mapsto> set_link l p f))"
  by (auto simp: relinked_def payload_def fun_eq_iff)

lemma relinked_chain: "relinked l h h' \<Longrightarrow> segment (other l) h' p as q = segment (other l) h p as q"
  by (rule segment_cong) (simp add: relinked_def)

lemma payload_dom: "payload h' = payload h \<Longrightarrow> h' a = None \<longleftrightarrow> h a = None"
  by (metis payload_def map_option_is_None)

lemma unlink_loop_correct:
  assumes "segment l h head ys pos" "chain l h pos zs" "distinct (ys @ zs)" "x \<notin> set ys"
  shows "\<exists>head' h'. unlink_loop l x head (if ys = [] then None else Some (last ys)) pos h = Some (head', h') \<and>
    chain l h' head' (ys @ remove1 x zs) \<and> relinked l h h' \<and> (\<forall>a. a \<notin> set (ys @ zs) \<longrightarrow> h' a = h a)"
  using assms
proof (induction zs arbitrary: ys pos)
  case Nil
  then show ?case by (subst unlink_loop.simps) (simp add: segment_append)
next
  case (Cons z zs)
  obtain e where e: "pos = Some z" "h z = Some e" "chain l h (link_of l e) zs" using Cons.prems(2) by (auto split: option.splits)
  show ?case
  proof (cases "z = x")
    case False
    have "segment l h head (ys @ [z]) (link_of l e)" using Cons.prems(1) e by (simp add: segment_append)
    from Cons.IH [OF this e(3)] False Cons.prems show ?thesis
      using e by (subst unlink_loop.simps) simp
  next
    case True
    show ?thesis
    proof (cases ys rule: rev_cases)
      case Nil
      then show ?thesis using True e by (subst unlink_loop.simps) simp
    next
      case (snoc ws q)
      obtain f where f: "segment l h head ws (Some q)" "h q = Some f" "link_of l f = pos"
        using Cons.prems(1) snoc by (auto simp: segment_append split: option.splits)
      define h' where "h' = h(q \<mapsto> set_link l (link_of l e) f)"
      have "segment l h' head ws (Some q)" "chain l h' (link_of l e) zs"
        using f(1) e(3) Cons.prems(3) snoc by (simp_all add: h'_def)
      then have "chain l h' head (ys @ zs)" using snoc by (simp add: segment_append h'_def)
      then show ?thesis
        using True e f snoc relinked_upd [of h q f l] by (subst unlink_loop.simps) (simp add: h'_def)
    qed
  qed
qed

lemma unlink_correct:
  assumes "chain l h head xs" "distinct xs"
  shows "\<exists>head' h'. unlink_loop l x head None head h = Some (head', h') \<and> chain l h' head' (remove1 x xs) \<and> relinked l h h' \<and> (\<forall>a. a \<notin> set xs \<longrightarrow> h' a = h a)"
  using unlink_loop_correct [of l h head "[]" head xs x] assms by simp

lemma get_loop_correct:
  "chain l h p xs \<Longrightarrow> auth_get_loop p l match h = Some (find (\<lambda>a. match (the (h a))) xs)"
proof (induction xs arbitrary: p)
  case Nil
  then show ?case by (subst auth_get_loop.simps) simp
next
  case (Cons a xs)
  then show ?case by (subst auth_get_loop.simps) (auto split: option.splits)
qed

lemma link_pos_correct:
  assumes "chain Next h pos zs"
  shows "\<exists>ys ws. zs = ys @ ws \<and> (\<forall>y \<in> set ys. pa_expiration (the (h y)) \<le> t) \<and> (ws \<noteq> [] \<longrightarrow> pa_expiration (the (h (hd ws))) > t) \<and>
    (\<exists>pos'. link_pos h t prev pos = Some (if ys = [] then prev else Some (last ys), pos') \<and> segment Next h pos ys pos' \<and> chain Next h pos' ws)"
  using assms
proof (induction zs arbitrary: pos prev)
  case Nil
  then show ?case by (subst link_pos.simps) simp
next
  case (Cons z zs)
  obtain e where e: "pos = Some z" "h z = Some e" "chain Next h (pa_next e) zs" using Cons.prems by (auto split: option.splits)
  show ?case
  proof (cases "pa_expiration e > t")
    case True
    then show ?thesis using e by (subst link_pos.simps) (intro exI [of _ "[]"] exI [of _ "z # zs"], simp)
  next
    case False
    obtain ys ws pos' where r: "zs = ys @ ws" "\<forall>y \<in> set ys. pa_expiration (the (h y)) \<le> t" "ws \<noteq> [] \<longrightarrow> pa_expiration (the (h (hd ws))) > t"
      "link_pos h t (Some z) (pa_next e) = Some (if ys = [] then Some z else Some (last ys), pos')" "segment Next h (pa_next e) ys pos'"
      "chain Next h pos' ws" using Cons.IH [OF e(3), of "Some z"] by auto
    have "link_pos h t prev pos = link_pos h t (Some z) (pa_next e)" using e False by (subst link_pos.simps) simp
    then show ?thesis
      using r e False by (intro exI [of _ "z # ys"] exI [of _ ws]) auto
  qed
qed

lemma deinit_loop_correct:
  assumes "chain Next h p xs" "distinct xs"
  shows "auth_deinit_loop p h = Some (\<lambda>a. if a \<in> set xs then None else h a)"
  using assms
proof (induction xs arbitrary: p h)
  case Nil
  then show ?case by (subst auth_deinit_loop.simps) simp
next
  case (Cons a xs)
  obtain e where e: "p = Some a" "h a = Some e" "chain Next h (pa_next e) xs" using Cons.prems(1) by (auto split: option.splits)
  have "chain Next (h(a := None)) (pa_next e) xs" using e(3) Cons.prems(2) by simp
  then have "auth_deinit_loop (pa_next e) (h(a := None)) = Some (\<lambda>b. if b \<in> set xs then None else (h(a := None)) b)"
    by (rule Cons.IH) (use Cons.prems(2) in simp)
  moreover have "auth_deinit_loop p h = auth_deinit_loop (pa_next e) (h(a := None))"
    using e by (subst auth_deinit_loop.simps) simp
  moreover have "(\<lambda>b. if b \<in> set xs then None else (h(a := None)) b) = (\<lambda>b. if b \<in> set (a # xs) then None else h b)" by auto
  ultimately show ?case by (simp only:)
qed

section \<open>The invariant\<close>

abbreviation "expires h a \<equiv> pa_expiration (the (h a))"

abbreviation "bucket_of h a \<equiv> PMKID_HASH (pa_pmkid (the (h a)))"

definition pmksa_entry_wf :: "auth_pmksa_entry \<Rightarrow> bool" where
  "pmksa_entry_wf e \<longleftrightarrow> length (pa_pmkid e) = 16 \<and> length (pa_spa e) = 6 \<and> length (pa_pmk e) = 32 \<and> pa_pmk_len e \<le> 32"

text \<open>The list holds every entry once, in the order of expiration; each chain of the hash table holds the entries of its hash value; the
  station's pointer is an entry of the list.\<close>

definition pmksa_rep :: "auth_pmksa_cache \<Rightarrow> nat list \<Rightarrow> nat list list \<Rightarrow> bool" where
  "pmksa_rep c xs bs \<longleftrightarrow> chain Next (ap_heap c) (ap_pmksa c) xs \<and> distinct xs \<and> sorted (map (expires (ap_heap c)) xs) \<and>
     (\<forall>a \<in> set xs. pmksa_entry_wf (the (ap_heap c a))) \<and> ap_count c = int (length xs) \<and>
     length (ap_pmkid c) = 128 \<and> length bs = 128 \<and>
     (\<forall>i < 128. chain Hnext (ap_heap c) (ap_pmkid c ! i) (bs ! i) \<and> distinct (bs ! i) \<and>
       set (bs ! i) = {a \<in> set xs. bucket_of (ap_heap c) a = i}) \<and>
     (\<forall>p. ap_sta c = Some p \<longrightarrow> p \<in> set xs)"

definition auth_pmksa_ok :: "auth_pmksa_cache \<Rightarrow> bool" where
  "auth_pmksa_ok c \<longleftrightarrow> (\<exists>xs bs. pmksa_rep c xs bs \<and> dom (ap_heap c) = set xs)"

lemma hash_less: "PMKID_HASH p < 128"
proof -
  have "(p ! 0 AND 0x7f) \<le> (0x7f :: u8)" by (rule word_and_le1)
  then show ?thesis by (simp add: PMKID_HASH_def word_le_nat_alt)
qed

lemma payload_fields:
  assumes "payload h' a = payload h a" "h a \<noteq> None"
  shows "pa_expiration (the (h' a)) = pa_expiration (the (h a))" "pa_pmkid (the (h' a)) = pa_pmkid (the (h a))"
    "pa_spa (the (h' a)) = pa_spa (the (h a))" "pmksa_entry_wf (the (h' a)) = pmksa_entry_wf (the (h a))"
    "pa_pmk (the (h' a)) = pa_pmk (the (h a))" "pa_akmp (the (h' a)) = pa_akmp (the (h a))" "pa_pmk_len (the (h' a)) = pa_pmk_len (the (h a))"
proof -
  obtain e e' where e: "h a = Some e" "h' a = Some e'" "e'\<lparr>pa_next := None, pa_hnext := None\<rparr> = e\<lparr>pa_next := None, pa_hnext := None\<rparr>"
    using assms by (cases "h a"; cases "h' a") (auto simp: payload_def)
  obtain n n' m m' where "e' = e\<lparr>pa_next := n, pa_hnext := m\<rparr>"
    using e(3) by (cases e; cases e') auto
  then show "pa_expiration (the (h' a)) = pa_expiration (the (h a))" "pa_pmkid (the (h' a)) = pa_pmkid (the (h a))"
    "pa_spa (the (h' a)) = pa_spa (the (h a))" "pmksa_entry_wf (the (h' a)) = pmksa_entry_wf (the (h a))"
    "pa_pmk (the (h' a)) = pa_pmk (the (h a))" "pa_akmp (the (h' a)) = pa_akmp (the (h a))" "pa_pmk_len (the (h' a)) = pa_pmk_len (the (h a))"
    using e by (simp_all add: pmksa_entry_wf_def)
qed

lemma rep_dom: "pmksa_rep c xs bs \<Longrightarrow> a \<in> set xs \<Longrightarrow> ap_heap c a \<noteq> None"
  by (auto simp: pmksa_rep_def dest: segment_dom)

lemma sorted_remove1: "sorted (map f xs) \<Longrightarrow> sorted (map f (remove1 x xs))"
  by (induction xs) (auto dest: notin_set_remove1)

text \<open>An entry is freed.\<close>

lemma free_entry_rep:
  assumes rep: "pmksa_rep c xs bs" and x: "x \<in> set xs"
  shows "\<exists>c' bs'. auth_pmksa_free_entry c x = Some c' \<and> pmksa_rep c' (remove1 x xs) bs' \<and> ap_heap c' x = None \<and>
    (\<forall>a. a \<noteq> x \<longrightarrow> payload (ap_heap c') a = payload (ap_heap c) a)"
proof -
  obtain e where e: "ap_heap c x = Some e" using rep_dom [OF rep x] by auto
  define i where "i = PMKID_HASH (pa_pmkid e)"
  have i: "i < 128" by (simp add: i_def hash_less)
  have d: "distinct xs" "chain Next (ap_heap c) (ap_pmksa c) xs" "length (ap_pmkid c) = 128" "length bs = 128"
    using rep by (simp_all add: pmksa_rep_def)
  have b: "\<And>j. j < 128 \<Longrightarrow> chain Hnext (ap_heap c) (ap_pmkid c ! j) (bs ! j) \<and> distinct (bs ! j) \<and> set (bs ! j) = {a \<in> set xs. bucket_of (ap_heap c) a = j}"
    using rep by (simp add: pmksa_rep_def)
  obtain hd1 h1 where h1: "unlink_loop Hnext x (ap_pmkid c ! i) None (ap_pmkid c ! i) (ap_heap c) = Some (hd1, h1)"
    "chain Hnext h1 hd1 (remove1 x (bs ! i))" "relinked Hnext (ap_heap c) h1" "\<forall>a. a \<notin> set (bs ! i) \<longrightarrow> h1 a = ap_heap c a"
    using unlink_correct [of Hnext "ap_heap c" "ap_pmkid c ! i" "bs ! i" x] b [OF i] by auto
  have "chain Next h1 (ap_pmksa c) xs" using relinked_chain [OF h1(3), of "ap_pmksa c" xs None] d(2) by simp
  then obtain hd2 h2 where h2: "unlink_loop Next x (ap_pmksa c) None (ap_pmksa c) h1 = Some (hd2, h2)"
    "chain Next h2 hd2 (remove1 x xs)" "relinked Next h1 h2" using unlink_correct [of Next h1 "ap_pmksa c" xs x] d(1) by blast
  have pay: "payload h2 = payload (ap_heap c)" using h1(3) h2(3) by (simp add: relinked_def)
  define c' where "c' = (auth_pmksa_free_cb (c\<lparr>ap_count := ap_count c - 1\<rparr>) x)\<lparr>ap_pmkid := (ap_pmkid c)[i := hd1], ap_pmksa := hd2, ap_heap := h2(x := None)\<rparr>"
  have eq: "auth_pmksa_free_entry c x = Some c'"
    using e h1(1) h2(1) d(3) i by (simp add: auth_pmksa_free_entry_def auth_pmksa_free_cb_def c'_def i_def Let_def)
  have heap: "ap_heap c' = h2(x := None)" by (simp add: c'_def)
  have x': "x \<notin> set (remove1 x xs)" using d(1) by simp
  have f: "expires (ap_heap c') a = expires (ap_heap c) a" "bucket_of (ap_heap c') a = bucket_of (ap_heap c) a"
    "pmksa_entry_wf (the (ap_heap c' a)) = pmksa_entry_wf (the (ap_heap c a))" if "a \<in> set xs" "a \<noteq> x" for a
    using payload_fields [of h2 a "ap_heap c"] pay that rep_dom [OF rep that(1)] by (simp_all add: heap)
  have chains: "chain Hnext (ap_heap c') (ap_pmkid c' ! j) ((bs[i := remove1 x (bs ! i)]) ! j) \<and> distinct ((bs[i := remove1 x (bs ! i)]) ! j) \<and>
      set ((bs[i := remove1 x (bs ! i)]) ! j) = {a \<in> set (remove1 x xs). bucket_of (ap_heap c') a = j}" if j: "j < 128" for j
  proof -
    have "bucket_of (ap_heap c) x = i" using e by (simp add: i_def)
    then have set: "{a \<in> set (remove1 x xs). bucket_of (ap_heap c') a = j} = set (bs ! j) - {x}"
      using f(2) d(1) b [OF j] by auto
    have hn: "segment Hnext h2 p as q = segment Hnext h1 p as q" for p as q using relinked_chain [OF h2(3)] by simp
    show ?thesis
    proof (cases "j = i")
      case True
      then show ?thesis using h1(2) b [OF i] i d(3,4) set by (simp add: c'_def hn)
    next
      case False
      have nx: "x \<notin> set (bs ! j)" using b [OF j] False e by (auto simp: i_def)
      have "set (bs ! i) \<inter> set (bs ! j) = {}" using b [OF j] b [OF i] False by auto
      then have "segment Hnext h1 (ap_pmkid c ! j) (bs ! j) None = segment Hnext (ap_heap c) (ap_pmkid c ! j) (bs ! j) None"
        using h1(4) by (intro segment_cong) auto
      then have "chain Hnext h1 (ap_pmkid c ! j) (bs ! j)" using b [OF j] by simp
      then show ?thesis using False b [OF j] set nx by (simp add: c'_def hn)
    qed
  qed
  have "sorted (map (expires (ap_heap c')) (remove1 x xs))"
  proof -
    have "map (expires (ap_heap c')) (remove1 x xs) = map (expires (ap_heap c)) (remove1 x xs)"
      using f(1) d(1) by (auto simp: map_eq_conv)
    moreover have "sorted (map (expires (ap_heap c)) (remove1 x xs))" using rep by (simp add: pmksa_rep_def sorted_remove1)
    ultimately show ?thesis by (simp only:)
  qed
  moreover have "\<forall>a \<in> set (remove1 x xs). pmksa_entry_wf (the (ap_heap c' a))" using f(3) rep d(1) by (auto simp: pmksa_rep_def)
  moreover have "chain Next (ap_heap c') (ap_pmksa c') (remove1 x xs)" using h2(2) x' by (simp add: c'_def)
  moreover have "ap_count c' = int (length (remove1 x xs))"
  proof -
    have "0 < length xs" "ap_count c = int (length xs)" using x rep by (auto simp: pmksa_rep_def)
    then show ?thesis using x by (simp add: c'_def auth_pmksa_free_cb_def length_remove1 of_nat_diff Suc_leI)
  qed
  moreover have "\<forall>p. ap_sta c' = Some p \<longrightarrow> p \<in> set (remove1 x xs)" using rep d(1) by (auto simp: c'_def auth_pmksa_free_cb_def pmksa_rep_def)
  moreover have "length (ap_pmkid c') = 128" "length (bs[i := remove1 x (bs ! i)]) = 128" using d by (simp_all add: c'_def)
  ultimately have "pmksa_rep c' (remove1 x xs) (bs[i := remove1 x (bs ! i)])" using d(1) chains unfolding pmksa_rep_def by simp
  moreover have "\<forall>a. a \<noteq> x \<longrightarrow> payload (ap_heap c') a = payload (ap_heap c) a" using fun_cong [OF pay] by (simp add: heap payload_def)
  ultimately show ?thesis using eq heap by auto
qed

text \<open>An entry is linked behind all that do not expire later.\<close>

definition exp_insert :: "('a \<Rightarrow> int) \<Rightarrow> 'a \<Rightarrow> 'a list \<Rightarrow> 'a list" where
  "exp_insert f a xs = takeWhile (\<lambda>x. f x \<le> f a) xs @ a # dropWhile (\<lambda>x. f x \<le> f a) xs"

lemma exp_insert_split:
  assumes "\<forall>y \<in> set ys. f y \<le> f a" "ws \<noteq> [] \<longrightarrow> f (hd ws) > f a"
  shows "exp_insert f a (ys @ ws) = ys @ a # ws"
  using assms by (cases ws) (simp_all add: exp_insert_def takeWhile_append2 dropWhile_append2)

lemma exp_insert_obtain:
  obtains ys ws where "xs = ys @ ws" "exp_insert f a xs = ys @ a # ws" "\<forall>y \<in> set ys. f y \<le> f a" "ws \<noteq> [] \<longrightarrow> f (hd ws) > f a"
proof -
  have "\<forall>y \<in> set (takeWhile (\<lambda>x. f x \<le> f a) xs). f y \<le> f a" by (auto dest: set_takeWhileD)
  moreover have "dropWhile (\<lambda>x. f x \<le> f a) xs \<noteq> [] \<longrightarrow> f (hd (dropWhile (\<lambda>x. f x \<le> f a) xs)) > f a"
    using hd_dropWhile [of "\<lambda>x. f x \<le> f a" xs] by fastforce
  ultimately show ?thesis using that [of "takeWhile (\<lambda>x. f x \<le> f a) xs" "dropWhile (\<lambda>x. f x \<le> f a) xs"] by (simp add: exp_insert_def)
qed

lemma exp_insert_set [simp]: "set (exp_insert f a xs) = insert a (set xs)" "length (exp_insert f a xs) = Suc (length xs)"
  "distinct (exp_insert f a xs) \<longleftrightarrow> a \<notin> set xs \<and> distinct xs"
  by (rule exp_insert_obtain [of xs f a]; auto)+

lemma exp_insert_sorted: "sorted (map f xs) \<Longrightarrow> sorted (map f (exp_insert f a xs))"
proof -
  assume s: "sorted (map f xs)"
  obtain ys ws where x: "xs = ys @ ws" "exp_insert f a xs = ys @ a # ws" "\<forall>y \<in> set ys. f y \<le> f a" "ws \<noteq> [] \<longrightarrow> f (hd ws) > f a"
    by (rule exp_insert_obtain)
  then have "f a \<le> f w" if "w \<in> set ws" for w
    using s that by (cases ws) (auto simp: sorted_append)
  then show ?thesis using s x by (auto simp: sorted_append)
qed

lemma chain_insert:
  assumes "segment Next h head ys pos" "chain Next h pos ws" "distinct (ys @ ws)" "a \<notin> set (ys @ ws)" "h a = Some e"
  shows "ys = [] \<Longrightarrow> chain Next (h(a \<mapsto> e\<lparr>pa_next := head\<rparr>)) (Some a) (a # ws)"
    and "ys \<noteq> [] \<Longrightarrow> \<exists>f. h (last ys) = Some f \<and>
      chain Next (h(a \<mapsto> e\<lparr>pa_next := pa_next f\<rparr>, last ys \<mapsto> f\<lparr>pa_next := Some a\<rparr>)) head (ys @ a # ws)"
proof -
  show "ys = [] \<Longrightarrow> chain Next (h(a \<mapsto> e\<lparr>pa_next := head\<rparr>)) (Some a) (a # ws)" using assms by simp
  assume "ys \<noteq> []"
  then obtain vs q where ys: "ys = vs @ [q]" by (cases ys rule: rev_cases) auto
  then obtain f where f: "segment Next h head vs (Some q)" "h q = Some f" "pa_next f = pos"
    using assms(1) by (auto simp: segment_append split: option.splits)
  then show "\<exists>f. h (last ys) = Some f \<and> chain Next (h(a \<mapsto> e\<lparr>pa_next := pa_next f\<rparr>, last ys \<mapsto> f\<lparr>pa_next := Some a\<rparr>)) head (ys @ a # ws)"
    using assms ys by (simp add: segment_append)
qed

lemma set_expiration_rep:
  assumes "pmksa_rep c xs bs"
  shows "\<exists>t. auth_pmksa_set_expiration now c = Some (c\<lparr>ap_timer := t\<rparr>)"
  using assms by (cases xs) (auto simp: auth_pmksa_set_expiration_def pmksa_rep_def split: option.splits)

lemma rep_timer [simp]: "pmksa_rep (c\<lparr>ap_timer := t\<rparr>) xs bs = pmksa_rep c xs bs"
  by (simp add: pmksa_rep_def)

lemma link_entry_rep:
  assumes rep: "pmksa_rep c xs bs" and a: "a \<notin> set xs" "ap_heap c a = Some e" "pmksa_entry_wf e"
  shows "\<exists>c' bs'. auth_pmksa_link_entry now c a = Some c' \<and> pmksa_rep c' (exp_insert (expires (ap_heap c)) a xs) bs' \<and>
    payload (ap_heap c') = payload (ap_heap c) \<and> ap_sta c' = ap_sta c"
proof -
  have r: "chain Next (ap_heap c) (ap_pmksa c) xs" "distinct xs" "length (ap_pmkid c) = 128" "length bs = 128" "sorted (map (expires (ap_heap c)) xs)"
    "ap_count c = int (length xs)"
    using rep by (simp_all add: pmksa_rep_def)
  have b: "\<And>j. j < 128 \<Longrightarrow> chain Hnext (ap_heap c) (ap_pmkid c ! j) (bs ! j) \<and> distinct (bs ! j) \<and> set (bs ! j) = {x \<in> set xs. bucket_of (ap_heap c) x = j}"
    using rep by (simp add: pmksa_rep_def)
  obtain ys ws pos where s: "xs = ys @ ws" "\<forall>y \<in> set ys. expires (ap_heap c) y \<le> pa_expiration e" "ws \<noteq> [] \<longrightarrow> expires (ap_heap c) (hd ws) > pa_expiration e"
    "link_pos (ap_heap c) (pa_expiration e) None (ap_pmksa c) = Some (if ys = [] then None else Some (last ys), pos)"
    "segment Next (ap_heap c) (ap_pmksa c) ys pos" "chain Next (ap_heap c) pos ws"
    using link_pos_correct [OF r(1), of "pa_expiration e" None] by auto
  define i where "i = PMKID_HASH (pa_pmkid e)"
  have i: "i < 128" by (simp add: i_def hash_less)
  let ?xs = "exp_insert (expires (ap_heap c)) a xs"
  have xs': "?xs = ys @ a # ws" using s(1-3) a(2) by (simp add: exp_insert_split)
  define q where "q = last ys"
  define fq where "fq = the (ap_heap c q)"
  define h1 where "h1 = (if ys = [] then (ap_heap c)(a \<mapsto> e\<lparr>pa_next := ap_pmksa c\<rparr>)
    else (ap_heap c)(a \<mapsto> e\<lparr>pa_next := pa_next fq\<rparr>, q \<mapsto> fq\<lparr>pa_next := Some a\<rparr>))"
  define hd1 where "hd1 = (if ys = [] then Some a else ap_pmksa c)"
  have q: "ys \<noteq> [] \<Longrightarrow> q \<in> set xs" "ys \<noteq> [] \<Longrightarrow> q \<noteq> a" using s(1) a(1) by (auto simp: q_def)
  have qh: "ys \<noteq> [] \<Longrightarrow> ap_heap c q = Some fq" using rep_dom [OF rep q(1)] by (auto simp: fq_def)
  have ch1: "chain Next h1 hd1 (ys @ a # ws)"
    using chain_insert [OF s(5,6), of a e] r(2) a(1,2) s(1) qh by (auto simp: h1_def hd1_def q_def)
  have rel1: "relinked Next (ap_heap c) h1"
    using a(2) qh q by (auto simp: h1_def relinked_def payload_def fun_eq_iff)
  obtain e1 where e1: "h1 a = Some e1" "pa_pmkid e1 = pa_pmkid e" using a(2) q by (cases "ys = []") (auto simp: h1_def)
  define h2 where "h2 = h1(a \<mapsto> e1\<lparr>pa_hnext := ap_pmkid c ! i\<rparr>)"
  have rel2: "relinked Hnext h1 h2" using relinked_upd [of h1 a e1 Hnext "ap_pmkid c ! i"] e1(1) by (simp add: h2_def)
  have pay: "payload h2 = payload (ap_heap c)" using rel1 rel2 by (simp add: relinked_def)
  define c2 where "c2 = c\<lparr>ap_pmksa := hd1, ap_heap := h2, ap_pmkid := (ap_pmkid c)[i := Some a], ap_count := ap_count c + 1\<rparr>"
  define c1 where "c1 = c\<lparr>ap_heap := h1, ap_pmksa := hd1\<rparr>"
  have case1: "(case if ys = [] then None else Some (last ys) of
         None \<Rightarrow> Some (c\<lparr>ap_heap := (ap_heap c)(a \<mapsto> e\<lparr>pa_next := ap_pmksa c\<rparr>), ap_pmksa := Some a\<rparr>)
       | Some q \<Rightarrow> do {
           f \<leftarrow> ap_heap c q;
           Some (c\<lparr>ap_heap := (ap_heap c)(a \<mapsto> e\<lparr>pa_next := pa_next f\<rparr>, q \<mapsto> f\<lparr>pa_next := Some a\<rparr>)\<rparr>) }) = Some c1"
    using qh by (cases "ys = []"; cases c) (simp_all add: c1_def h1_def hd1_def q_def)
  have eq: "auth_pmksa_link_entry now c a = (if ys = [] then auth_pmksa_set_expiration now c2 else Some c2)"
    unfolding auth_pmksa_link_entry_def a(2) s(4) Option.bind.bind_lunit prod.case case1
    using e1 r(3) i by (simp add: c1_def c2_def h2_def i_def Let_def)
  have f: "expires h2 x = expires (ap_heap c) x" "bucket_of h2 x = bucket_of (ap_heap c) x" "pmksa_entry_wf (the (h2 x)) = pmksa_entry_wf (the (ap_heap c x))"
    if "x \<in> insert a (set xs)" for x
    using payload_fields [of h2 x "ap_heap c"] pay that rep_dom [OF rep, of x] a(2) by auto
  have chains: "chain Hnext h2 (ap_pmkid c2 ! j) ((bs[i := a # bs ! i]) ! j) \<and> distinct ((bs[i := a # bs ! i]) ! j) \<and>
      set ((bs[i := a # bs ! i]) ! j) = {x \<in> set ?xs. bucket_of h2 x = j}" if j: "j < 128" for j
  proof -
    have "chain Hnext h1 (ap_pmkid c ! j) (bs ! j)" using relinked_chain [OF rel1] b [OF j] by simp
    moreover have na: "a \<notin> set (bs ! j)" using b [OF j] a(1) by auto
    ultimately have "chain Hnext h2 (ap_pmkid c ! j) (bs ! j)" by (simp add: h2_def)
    moreover have "set ((bs[i := a # bs ! i]) ! j) = {x \<in> set ?xs. bucket_of h2 x = j}"
      using b [OF j] f(2) r(4) i j a(2) by (cases "j = i") (auto simp: i_def)
    ultimately show ?thesis
      using b [OF j] na r(3,4) i j by (cases "j = i") (simp_all add: c2_def h2_def)
  qed
  have "sorted (map (expires h2) ?xs)"
  proof -
    have "map (expires h2) ?xs = map (expires (ap_heap c)) ?xs" using f(1) by (auto simp: map_eq_conv)
    moreover have "sorted (map (expires (ap_heap c)) ?xs)" by (rule exp_insert_sorted [OF r(5)])
    ultimately show ?thesis by (simp only:)
  qed
  moreover have "chain Next h2 hd1 ?xs" using relinked_chain [OF rel2] ch1 by (simp add: xs')
  moreover have "\<forall>x \<in> set ?xs. pmksa_entry_wf (the (h2 x))" using f(3) a(2,3) rep by (auto simp: pmksa_rep_def)
  ultimately have rep2: "pmksa_rep c2 ?xs (bs[i := a # bs ! i])"
    using chains r a(1) rep unfolding pmksa_rep_def by (simp add: c2_def)
  then obtain t where t: "auth_pmksa_set_expiration now c2 = Some (c2\<lparr>ap_timer := t\<rparr>)" using set_expiration_rep by blast
  show ?thesis
    using eq t rep2 pay by (auto simp: c2_def)
qed

section \<open>Operations keep the invariant\<close>

lemma okE:
  assumes "auth_pmksa_ok c"
  obtains xs bs where "pmksa_rep c xs bs" "dom (ap_heap c) = set xs"
  using assms by (auto simp: auth_pmksa_ok_def)

lemma payload_domD: "(\<forall>a. a \<noteq> x \<longrightarrow> payload h' a = payload h a) \<Longrightarrow> h' x = None \<Longrightarrow> dom h' = dom h - {x}"
  by (auto simp: payload_def) (metis map_option_is_None option.distinct(1) option.exhaust)+

lemma init_ok: "auth_pmksa_ok pmksa_cache_auth_init"
  unfolding auth_pmksa_ok_def
  by (intro exI [of _ "[]"] exI [of _ "replicate 128 []"]) (simp add: pmksa_rep_def pmksa_cache_auth_init_def PMKID_HASH_SIZE_def)

lemma free_entry_ok:
  assumes "pmksa_rep c xs bs" "dom (ap_heap c) = set xs" "x \<in> set xs"
  shows "\<exists>c' bs'. auth_pmksa_free_entry c x = Some c' \<and> pmksa_rep c' (remove1 x xs) bs' \<and> dom (ap_heap c') = set (remove1 x xs) \<and>
    (\<forall>a. a \<noteq> x \<longrightarrow> payload (ap_heap c') a = payload (ap_heap c) a)"
proof -
  obtain c' bs' where c: "auth_pmksa_free_entry c x = Some c'" "pmksa_rep c' (remove1 x xs) bs'" "ap_heap c' x = None"
    "\<forall>a. a \<noteq> x \<longrightarrow> payload (ap_heap c') a = payload (ap_heap c) a" using free_entry_rep [OF assms(1,3)] by auto
  then show ?thesis using payload_domD [OF c(4,3)] assms by (auto simp: pmksa_rep_def)
qed

lemma expire_loop_ok:
  assumes "pmksa_rep c xs bs" "dom (ap_heap c) = set xs"
  shows "\<exists>c' bs'. auth_pmksa_expire_loop now c = Some c' \<and> pmksa_rep c' (dropWhile (\<lambda>x. expires (ap_heap c) x \<le> now) xs) bs' \<and>
    dom (ap_heap c') = set (dropWhile (\<lambda>x. expires (ap_heap c) x \<le> now) xs) \<and>
    (\<forall>a \<in> dom (ap_heap c'). payload (ap_heap c') a = payload (ap_heap c) a)"
  using assms
proof (induction xs arbitrary: c bs)
  case Nil
  then show ?case by (subst auth_pmksa_expire_loop.simps) (auto simp: pmksa_rep_def)
next
  case (Cons x xs)
  obtain e where e: "ap_pmksa c = Some x" "ap_heap c x = Some e" using Cons.prems(1) by (auto simp: pmksa_rep_def split: option.splits)
  show ?case
  proof (cases "pa_expiration e \<le> now")
    case False
    then show ?thesis using e Cons.prems by (subst auth_pmksa_expire_loop.simps) auto
  next
    case True
    obtain c1 bs1 where c1: "auth_pmksa_free_entry c x = Some c1" "pmksa_rep c1 xs bs1" "dom (ap_heap c1) = set xs"
      "\<forall>a. a \<noteq> x \<longrightarrow> payload (ap_heap c1) a = payload (ap_heap c) a" using free_entry_ok [OF Cons.prems, of x] by auto
    have x: "x \<notin> set xs" using Cons.prems(1) by (simp add: pmksa_rep_def)
    have "expires (ap_heap c1) a = expires (ap_heap c) a" if "a \<in> set xs" for a
    proof (rule payload_fields(1))
      have "a \<noteq> x" using x that by blast
      then show "payload (ap_heap c1) a = payload (ap_heap c) a" using c1(4) by blast
      show "ap_heap c a \<noteq> None" using rep_dom [OF Cons.prems(1), of a] that by simp
    qed
    then have dw: "dropWhile (\<lambda>x. expires (ap_heap c1) x \<le> now) xs = dropWhile (\<lambda>x. expires (ap_heap c) x \<le> now) xs"
      by (intro dropWhile_cong) auto
    have "auth_pmksa_expire_loop now c = auth_pmksa_expire_loop now c1"
      using e True c1(1) by (subst auth_pmksa_expire_loop.simps) simp
    moreover have "a \<noteq> x" if "a \<in> set (dropWhile (\<lambda>x. expires (ap_heap c) x \<le> now) xs)" for a
      using x that by (auto dest: set_dropWhileD)
    ultimately show ?thesis using Cons.IH [OF c1(2,3)] e True c1(4) by (auto simp: dw)
  qed
qed

lemma sorted_dropWhile: "sorted (map f xs) \<Longrightarrow> x \<in> set (dropWhile (\<lambda>x. f x \<le> (t :: int)) xs) \<Longrightarrow> f x > t"
  by (induction xs) (auto split: if_splits)

lemma sorted_keep: "x \<in> set xs \<Longrightarrow> f x > (t :: int) \<Longrightarrow> x \<in> set (dropWhile (\<lambda>x. f x \<le> t) xs)"
  by (induction xs) auto

lemma expire_ok:
  assumes "auth_pmksa_ok c"
  shows "\<exists>c'. auth_pmksa_expire now c = Some c' \<and> auth_pmksa_ok c' \<and> dom (ap_heap c') = {a \<in> dom (ap_heap c). expires (ap_heap c) a > now} \<and>
    (\<forall>a \<in> dom (ap_heap c'). payload (ap_heap c') a = payload (ap_heap c) a)"
proof -
  obtain xs bs where r: "pmksa_rep c xs bs" "dom (ap_heap c) = set xs" using assms by (rule okE)
  let ?ys = "dropWhile (\<lambda>x. expires (ap_heap c) x \<le> now) xs"
  obtain c1 bs1 where c1: "auth_pmksa_expire_loop now c = Some c1" "pmksa_rep c1 ?ys bs1" "dom (ap_heap c1) = set ?ys"
    "\<forall>a \<in> dom (ap_heap c1). payload (ap_heap c1) a = payload (ap_heap c) a" using expire_loop_ok [OF r, of now] by blast
  obtain t where "auth_pmksa_set_expiration now c1 = Some (c1\<lparr>ap_timer := t\<rparr>)" using set_expiration_rep [OF c1(2)] by blast
  then have "auth_pmksa_expire now c = Some (c1\<lparr>ap_timer := t\<rparr>)" using c1(1) by (simp add: auth_pmksa_expire_def)
  moreover have "auth_pmksa_ok (c1\<lparr>ap_timer := t\<rparr>)" using c1(2,3) by (auto simp: auth_pmksa_ok_def)
  moreover have "set ?ys = {a \<in> set xs. expires (ap_heap c) a > now}"
    using r(1) sorted_dropWhile [of "expires (ap_heap c)" xs] sorted_keep [of _ xs now "expires (ap_heap c)"] by (auto simp: pmksa_rep_def dest: set_dropWhileD)
  ultimately show ?thesis using c1(3,4) r(2) by auto
qed

lemma get_correct:
  assumes "auth_pmksa_ok c"
  shows "\<exists>r. pmksa_cache_auth_get c spa pmkid = Some r \<and>
    (case r of None \<Rightarrow> \<forall>a e. ap_heap c a = Some e \<longrightarrow> \<not> pmksa_match spa pmkid e
     | Some a \<Rightarrow> \<exists>e. ap_heap c a = Some e \<and> pmksa_match spa pmkid e)"
proof -
  obtain xs bs where r: "pmksa_rep c xs bs" "dom (ap_heap c) = set xs" using assms by (rule okE)
  have found: "case find (\<lambda>a. pmksa_match spa pmkid (the (ap_heap c a))) ys of None \<Rightarrow> \<forall>a e. ap_heap c a = Some e \<longrightarrow> \<not> pmksa_match spa pmkid e
     | Some a \<Rightarrow> \<exists>e. ap_heap c a = Some e \<and> pmksa_match spa pmkid e"
    if sub: "set ys \<subseteq> set xs" and hit: "\<And>a e. ap_heap c a = Some e \<Longrightarrow> pmksa_match spa pmkid e \<Longrightarrow> a \<in> set ys" for ys
  proof (cases "find (\<lambda>a. pmksa_match spa pmkid (the (ap_heap c a))) ys")
    case None
    then have miss: "\<not> pmksa_match spa pmkid (the (ap_heap c a))" if "a \<in> set ys" for a using that by (simp add: find_None_iff)
    have "\<not> pmksa_match spa pmkid e" if "ap_heap c a = Some e" for a e using that hit [OF that] miss [of a] by auto
    then show ?thesis using None by simp
  next
    case (Some a)
    then have "a \<in> set ys" "pmksa_match spa pmkid (the (ap_heap c a))" by (auto simp: find_Some_iff)
    moreover obtain e where "ap_heap c a = Some e" using rep_dom [OF r(1), of a] sub \<open>a \<in> set ys\<close> by auto
    ultimately show ?thesis using Some by simp
  qed
  show ?thesis
  proof (cases pmkid)
    case None
    have "chain Next (ap_heap c) (ap_pmksa c) xs" using r(1) by (simp add: pmksa_rep_def)
    from get_loop_correct [OF this] show ?thesis using None found [of xs] r(2) by (auto simp: pmksa_cache_auth_get_def)
  next
    case (Some i)
    have b: "chain Hnext (ap_heap c) (ap_pmkid c ! PMKID_HASH i) (bs ! PMKID_HASH i)"
      "set (bs ! PMKID_HASH i) = {a \<in> set xs. bucket_of (ap_heap c) a = PMKID_HASH i}" "length (ap_pmkid c) = 128"
      using r(1) hash_less [of i] by (simp_all add: pmksa_rep_def)
    have "a \<in> set (bs ! PMKID_HASH i)" if "ap_heap c a = Some e" "pmksa_match spa pmkid e" for a e
      using that Some r(2) b(2) by (auto simp: pmksa_match_def)
    then show ?thesis
      using get_loop_correct [OF b(1), of "pmksa_match spa pmkid"] found [of "bs ! PMKID_HASH i"] b hash_less [of i] Some
      by (auto simp: pmksa_cache_auth_get_def)
  qed
qed

section \<open>The cache as a list of entries\<close>

text \<open>What the cache holds: its entries without their links, in the order of the list.\<close>

definition pmksa_view :: "auth_pmksa_cache \<Rightarrow> auth_pmksa_entry list \<Rightarrow> bool" where
  "pmksa_view c es \<longleftrightarrow> (\<exists>xs bs. pmksa_rep c xs bs \<and> dom (ap_heap c) = set xs \<and> es = map (\<lambda>a. the (payload (ap_heap c) a)) xs)"

fun remove_first :: "('a \<Rightarrow> bool) \<Rightarrow> 'a list \<Rightarrow> 'a list" where
  "remove_first P [] = []"
| "remove_first P (x # xs) = (if P x then xs else x # remove_first P xs)"

lemma view_ok: "auth_pmksa_ok c \<longleftrightarrow> (\<exists>es. pmksa_view c es)"
  by (auto simp: auth_pmksa_ok_def pmksa_view_def)

lemma payload_match: "h a \<noteq> None \<Longrightarrow> pmksa_match spa pmkid (the (payload h a)) = pmksa_match spa pmkid (the (h a))"
  "h a \<noteq> None \<Longrightarrow> pa_expiration (the (payload h a)) = pa_expiration (the (h a))"
  by (auto simp: payload_def pmksa_match_def)

lemma map_remove_first:
  assumes "find P xs = Some x" "distinct xs" "\<And>a. a \<in> set xs \<Longrightarrow> Q (f a) = P a"
  shows "map f (remove1 x xs) = remove_first Q (map f xs)"
  using assms
proof (induction xs)
  case (Cons a xs)
  then have "P a \<or> a \<noteq> x" by (auto simp: find_Some_iff split: if_splits)
  with Cons show ?case by (auto split: if_splits)
qed simp

lemma remove_first_miss: "find P xs = None \<Longrightarrow> remove_first P xs = xs"
  by (induction xs) (auto split: if_splits)

lemma find_map: "(\<And>a. a \<in> set xs \<Longrightarrow> Q (f a) = P a) \<Longrightarrow> (find Q (map f xs) = None) = (find P xs = None)"
  by (induction xs) auto

lemma map_exp_insert:
  assumes "\<And>x. x \<in> insert a (set xs) \<Longrightarrow> g (f x) = e x"
  shows "map f (exp_insert e a xs) = exp_insert g (f a) (map f xs)"
proof -
  obtain ys ws where x: "xs = ys @ ws" "exp_insert e a xs = ys @ a # ws" "\<forall>y \<in> set ys. e y \<le> e a" "ws \<noteq> [] \<longrightarrow> e (hd ws) > e a"
    by (rule exp_insert_obtain)
  have "exp_insert g (f a) (map f ys @ map f ws) = map f ys @ f a # map f ws"
    using x assms by (intro exp_insert_split) (auto simp: hd_map)
  then show ?thesis using x by simp
qed

text \<open>A cache in which a new entry has been allocated but is not yet linked.\<close>

definition pending :: "auth_pmksa_cache \<Rightarrow> nat \<Rightarrow> auth_pmksa_entry \<Rightarrow> auth_pmksa_entry list \<Rightarrow> bool" where
  "pending c a e es \<longleftrightarrow> (\<exists>xs bs. pmksa_rep c xs bs \<and> a \<notin> set xs \<and> ap_heap c a = Some e \<and> dom (ap_heap c) = insert a (set xs) \<and>
     es = map (\<lambda>a. the (payload (ap_heap c) a)) xs)"

lemma alloc_pending:
  assumes "pmksa_view c es" "ap_heap c a = None"
  shows "pending (c\<lparr>ap_heap := (ap_heap c)(a \<mapsto> e)\<rparr>) a e es"
proof -
  obtain xs bs where r: "pmksa_rep c xs bs" "dom (ap_heap c) = set xs" "es = map (\<lambda>a. the (payload (ap_heap c) a)) xs"
    using assms(1) by (auto simp: pmksa_view_def)
  have a: "a \<notin> set xs" using r(2) assms(2) by auto
  have eq: "((ap_heap c)(a \<mapsto> e)) x = ap_heap c x" if "x \<in> set xs" for x using that a by auto
  have bs: "a \<notin> set (bs ! i)" if "i < 128" for i using r(1) that a by (simp add: pmksa_rep_def)
  have "map (expires ((ap_heap c)(a \<mapsto> e))) xs = map (expires (ap_heap c)) xs" using a by auto
  then have m: "sorted (map (expires ((ap_heap c)(a \<mapsto> e))) xs)" using r(1) by (simp only: pmksa_rep_def)
  have "pmksa_rep (c\<lparr>ap_heap := (ap_heap c)(a \<mapsto> e)\<rparr>) xs bs"
    using r(1) a bs m unfolding pmksa_rep_def by (simp add: eq del: fun_upd_apply cong: conj_cong)
  then show ?thesis using a r by (auto simp: pending_def payload_def intro!: exI [of _ xs] exI [of _ bs])
qed

lemma pending_free:
  assumes "pmksa_rep c xs bs" "a \<notin> set xs" "ap_heap c a = Some e" "dom (ap_heap c) = insert a (set xs)" "p \<in> set xs"
  shows "\<exists>c' e'. auth_pmksa_free_entry c p = Some c' \<and> pending c' a e' (map (\<lambda>a. the (payload (ap_heap c) a)) (remove1 p xs)) \<and>
    payload (ap_heap c') a = payload (ap_heap c) a"
proof -
  obtain c' bs' where c: "auth_pmksa_free_entry c p = Some c'" "pmksa_rep c' (remove1 p xs) bs'" "ap_heap c' p = None"
    "\<forall>a. a \<noteq> p \<longrightarrow> payload (ap_heap c') a = payload (ap_heap c) a" using free_entry_rep [OF assms(1,5)] by auto
  have d: "distinct xs" "a \<noteq> p" using assms by (auto simp: pmksa_rep_def)
  then have pa: "payload (ap_heap c') a = payload (ap_heap c) a" using c(4) by simp
  then obtain e' where e': "ap_heap c' a = Some e'" using assms(3) by (auto simp: payload_def)
  have "dom (ap_heap c') = insert a (set (remove1 p xs))" using payload_domD [OF c(4,3)] assms(4) d by auto
  moreover have "map (\<lambda>a. the (payload (ap_heap c) a)) (remove1 p xs) = map (\<lambda>a. the (payload (ap_heap c') a)) (remove1 p xs)"
    using c(4) d by (auto simp: map_eq_conv)
  ultimately have "pending c' a e' (map (\<lambda>a. the (payload (ap_heap c) a)) (remove1 p xs))"
    unfolding pending_def using c(2) e' assms(2) by (intro exI [of _ "remove1 p xs"] exI [of _ bs']) (auto dest: notin_set_remove1)
  then show ?thesis using c(1) pa by blast
qed

text \<open>The entry of the same station is freed.\<close>

lemma pending_replace:
  assumes "pending c a e es"
  shows "\<exists>r c' e'. pmksa_cache_auth_get c (Some spa) None = Some r \<and> (case r of None \<Rightarrow> Some c | Some p \<Rightarrow> auth_pmksa_free_entry c p) = Some c' \<and>
    pending c' a e' (remove_first (\<lambda>e. pa_spa e = spa) es) \<and> payload (ap_heap c') a = payload (ap_heap c) a"
proof -
  obtain xs bs where r: "pmksa_rep c xs bs" "a \<notin> set xs" "ap_heap c a = Some e" "dom (ap_heap c) = insert a (set xs)"
    "es = map (\<lambda>a. the (payload (ap_heap c) a)) xs" using assms by (auto simp: pending_def)
  let ?P = "\<lambda>a. pmksa_match (Some spa) None (the (ap_heap c a))"
  have ch: "chain Next (ap_heap c) (ap_pmksa c) xs" "distinct xs" using r(1) by (simp_all add: pmksa_rep_def)
  have get: "pmksa_cache_auth_get c (Some spa) None = Some (find ?P xs)" using get_loop_correct [OF ch(1)] by (simp add: pmksa_cache_auth_get_def)
  have Q: "(pa_spa (the (payload (ap_heap c) x)) = spa) = ?P x" if "x \<in> set xs" for x
    using rep_dom [OF r(1) that] by (auto simp: payload_def pmksa_match_def)
  show ?thesis
  proof (cases "find ?P xs")
    case None
    then have "remove_first (\<lambda>e. pa_spa e = spa) es = es"
      using find_map [of xs "\<lambda>e. pa_spa e = spa" "\<lambda>a. the (payload (ap_heap c) a)" ?P] Q r(5) by (intro remove_first_miss) simp
    then show ?thesis using get None assms by auto
  next
    case (Some p)
    then have "p \<in> set xs" by (auto simp: find_Some_iff)
    from pending_free [OF r(1-4) this] show ?thesis
      using get Some map_remove_first [OF Some ch(2), of "\<lambda>e. pa_spa e = spa" "\<lambda>a. the (payload (ap_heap c) a)"] Q r(5) by auto
  qed
qed

text \<open>The oldest entry is freed when the cache is full.\<close>

definition pmksa_evict :: "auth_pmksa_entry list \<Rightarrow> auth_pmksa_entry list" where
  "pmksa_evict es = (if 1024 \<le> length es then tl es else es)"

lemma pending_evict:
  assumes "pending c a e es"
  shows "\<exists>c' e'. (case ap_pmksa c of Some p \<Rightarrow> if ap_count c \<ge> auth_pmksa_max_entries then auth_pmksa_free_entry c p else Some c | None \<Rightarrow> Some c) = Some c' \<and>
    pending c' a e' (pmksa_evict es) \<and> payload (ap_heap c') a = payload (ap_heap c) a"
proof -
  obtain xs bs where r: "pmksa_rep c xs bs" "a \<notin> set xs" "ap_heap c a = Some e" "dom (ap_heap c) = insert a (set xs)"
    "es = map (\<lambda>a. the (payload (ap_heap c) a)) xs" using assms by (auto simp: pending_def)
  have n: "ap_count c = int (length xs)" using r(1) by (simp add: pmksa_rep_def)
  show ?thesis
  proof (cases xs)
    case Nil
    then have "ap_pmksa c = None" using r(1) by (simp add: pmksa_rep_def)
    then show ?thesis using assms Nil r(5) by (auto simp: pmksa_evict_def)
  next
    case (Cons p ps)
    then have p: "ap_pmksa c = Some p" using r(1) by (simp add: pmksa_rep_def)
    show ?thesis
    proof (cases "1024 \<le> length xs")
      case True
      then show ?thesis
        using pending_free [OF r(1-4), of p] Cons p n r(5) by (auto simp: pmksa_evict_def auth_pmksa_max_entries_def)
    next
      case False
      then show ?thesis using assms p n r(5) by (auto simp: pmksa_evict_def auth_pmksa_max_entries_def)
    qed
  qed
qed

lemma pending_link:
  assumes "pending c a e es" "pmksa_entry_wf e"
  shows "\<exists>c'. auth_pmksa_link_entry now c a = Some c' \<and> pmksa_view c' (exp_insert pa_expiration (the (payload (ap_heap c) a)) es) \<and> ap_heap c' a \<noteq> None"
proof -
  obtain xs bs where r: "pmksa_rep c xs bs" "a \<notin> set xs" "ap_heap c a = Some e" "dom (ap_heap c) = insert a (set xs)"
    "es = map (\<lambda>a. the (payload (ap_heap c) a)) xs" using assms by (auto simp: pending_def)
  obtain c' bs' where c: "auth_pmksa_link_entry now c a = Some c'" "pmksa_rep c' (exp_insert (expires (ap_heap c)) a xs) bs'"
    "payload (ap_heap c') = payload (ap_heap c)" using link_entry_rep [OF r(1-3) assms(2), of now] by blast
  have d: "dom (ap_heap c') = dom (ap_heap c)" using payload_dom [OF c(3)] by (auto simp: dom_def)
  have "exp_insert pa_expiration (the (payload (ap_heap c) a)) es = map (\<lambda>a. the (payload (ap_heap c') a)) (exp_insert (expires (ap_heap c)) a xs)"
    unfolding r(5) c(3)
  proof (rule map_exp_insert [symmetric])
    fix x assume "x \<in> insert a (set xs)"
    then have "ap_heap c x \<noteq> None" using r(4) by auto
    then show "pa_expiration (the (payload (ap_heap c) x)) = expires (ap_heap c) x" by (rule payload_match(2))
  qed
  then have "pmksa_view c' (exp_insert pa_expiration (the (payload (ap_heap c) a)) es)"
    unfolding pmksa_view_def using c(2) d r(4) by auto
  moreover have "ap_heap c' a \<noteq> None" using payload_dom [OF c(3)] r(3) by simp
  ultimately show ?thesis using c(1) by blast
qed

lemma rsn_pmkid_length:
  assumes "length pmk \<le> 32" "length aa = 6" "length spa = 6"
  shows "\<exists>pmkid. rsn_pmkid cfg pmk aa spa sha = Some pmkid \<and> length pmkid = 16"
proof -
  let ?v = "[lit ''PMK Name'', aa, spa]"
  have "length (concat ?v) < 2 ^ 30" using assms by (simp add: lit_def)
  then have "hmac_sha1_vector pmk ?v = Some (0, hmac sha1 pmk (concat ?v))"
    "hmac_sha256_vector pmk ?v = Some (0, hmac sha256 pmk (concat ?v))"
    using assms(1) by (intro hmac_sha1_vector_eq hmac_sha256_vector_eq; simp)+
  then show ?thesis using assms by (simp add: rsn_pmkid_def c_slice_def Let_def length_hmac)
qed

lemma new_entry_payload: "(pmksa_cache_from_eapol_data mem (auth_pmksa_new pmk pmkid spa t akmp) eapol)\<lparr>pa_next := None, pa_hnext := None\<rparr> =
    pmksa_cache_from_eapol_data mem (auth_pmksa_new pmk pmkid spa t akmp) eapol"
  by (simp add: pmksa_cache_from_eapol_data_def auth_pmksa_new_def split: option.split)

lemma new_entry_wf: "length pmk \<le> 32 \<Longrightarrow> length pmkid = 16 \<Longrightarrow> length spa = 6 \<Longrightarrow>
    pmksa_entry_wf (pmksa_cache_from_eapol_data mem (auth_pmksa_new pmk pmkid spa t akmp) eapol)"
  by (simp add: pmksa_cache_from_eapol_data_def auth_pmksa_new_def pmksa_entry_wf_def split: option.split)

lemma payload_wf: "payload h' a = payload h a \<Longrightarrow> h a = Some e \<Longrightarrow> h' a = Some e' \<Longrightarrow> pmksa_entry_wf e' = pmksa_entry_wf e"
  using payload_fields(4) [of h' a h] by simp

lemma add_refines:
  assumes "pmksa_view c es" "ap_heap c a = None" "length pmk \<le> 32" "length aa = 6" "length spa = 6"
  shows "\<exists>pmkid c'. rsn_pmkid cfg pmk aa spa (wpa_key_mgmt_sha256 akmp) = Some pmkid \<and>
    pmksa_cache_auth_add cfg (Some a) mem now c pmk aa spa session_timeout eapol akmp = Some (Some a, c') \<and>
    pmksa_view c' (exp_insert pa_expiration
      (pmksa_cache_from_eapol_data mem (auth_pmksa_new pmk pmkid spa (now + (if session_timeout > 0 then session_timeout else 43200)) akmp) eapol)
      (pmksa_evict (remove_first (\<lambda>e. pa_spa e = spa) es)))"
proof -
  obtain pmkid where pmkid: "rsn_pmkid cfg pmk aa spa (wpa_key_mgmt_sha256 akmp) = Some pmkid" "length pmkid = 16"
    using rsn_pmkid_length [OF assms(3-5)] by blast
  define e where "e = pmksa_cache_from_eapol_data mem (auth_pmksa_new pmk pmkid spa (now + (if session_timeout > 0 then session_timeout else 43200)) akmp) eapol"
  have e: "pmksa_entry_wf e" "e\<lparr>pa_next := None, pa_hnext := None\<rparr> = e" using new_entry_wf [OF assms(3) pmkid(2) assms(5)] new_entry_payload by (simp_all add: e_def)
  define c0 where "c0 = c\<lparr>ap_heap := (ap_heap c)(a \<mapsto> e)\<rparr>"
  have p0: "pending c0 a e es" unfolding c0_def by (rule alloc_pending [OF assms(1,2)])
  have h0: "payload (ap_heap c0) a = Some e" using e(2) by (simp add: c0_def payload_def)
  obtain r c1 e1 where c1: "pmksa_cache_auth_get c0 (Some spa) None = Some r" "(case r of None \<Rightarrow> Some c0 | Some p \<Rightarrow> auth_pmksa_free_entry c0 p) = Some c1"
    "pending c1 a e1 (remove_first (\<lambda>e. pa_spa e = spa) es)" "payload (ap_heap c1) a = Some e" using pending_replace [OF p0, of spa] h0 by auto
  obtain c2 e2 where c2: "(case ap_pmksa c1 of Some p \<Rightarrow> if ap_count c1 \<ge> auth_pmksa_max_entries then auth_pmksa_free_entry c1 p else Some c1 | None \<Rightarrow> Some c1) = Some c2"
    "pending c2 a e2 (pmksa_evict (remove_first (\<lambda>e. pa_spa e = spa) es))" "payload (ap_heap c2) a = Some e" using pending_evict [OF c1(3)] c1(4) by auto
  have "ap_heap c2 a = Some e2" using c2(2) by (auto simp: pending_def)
  then have "pmksa_entry_wf e2" using payload_wf [of "ap_heap c2" a "ap_heap c0" e e2] c2(3) h0 e(1) by (simp add: c0_def)
  from pending_link [OF c2(2) this, of now] obtain c3 where c3: "auth_pmksa_link_entry now c2 a = Some c3"
    "pmksa_view c3 (exp_insert pa_expiration e (pmksa_evict (remove_first (\<lambda>e. pa_spa e = spa) es)))" using c2(3) by auto
  have "pmksa_cache_auth_add cfg (Some a) mem now c pmk aa spa session_timeout eapol akmp = Some (Some a, c3)"
    using assms(3) c1(2) c2(1) unfolding pmksa_cache_auth_add_def option.case pmkid(1) Option.bind.bind_lunit Let_def dot11RSNAConfigPMKLifetime_def e_def [symmetric] c0_def [symmetric] c1(1)
    by (simp add: c3(1))
  then show ?thesis using pmkid(1) c3(2) by (auto simp: e_def)
qed

lemma remove_first_length: "length (remove_first P xs) \<le> length xs"
  by (induction xs) auto

lemma view_count: "pmksa_view c es \<Longrightarrow> ap_count c = int (length es)"
  by (auto simp: pmksa_view_def pmksa_rep_def)

lemma add_okc_refines:
  assumes "pmksa_view c es" "ap_heap c a = None" "pmksa_entry_wf old" "length pmkid = 16"
  shows "\<exists>c' e. pmksa_cache_add_okc (Some a) mem now c old pmkid = Some (Some a, c') \<and> pmksa_view c' (exp_insert pa_expiration e es) \<and>
    pa_pmkid e = pmkid \<and> pa_pmk_len e = pa_pmk_len old \<and> take (pa_pmk_len e) (pa_pmk e) = take (pa_pmk_len old) (pa_pmk old) \<and> pa_spa e = pa_spa old \<and> pa_opportunistic e"
proof -
  define e where "e = (auth_pmksa_new (take (pa_pmk_len old) (pa_pmk old)) pmkid (pa_spa old) (pa_expiration old) (pa_akmp old))
            \<lparr>pa_identity := (if mem 0 then pa_identity old else None), pa_cui := (if mem 1 then pa_cui old else None),
              pa_class := radius_copy_class mem None (pa_class old), pa_eap_type_authsrv := pa_eap_type_authsrv old,
              pa_vlan_id := pa_vlan_id old, pa_opportunistic := True\<rparr>"
  have e: "pmksa_entry_wf e" using assms(3,4) by (simp add: e_def pmksa_entry_wf_def auth_pmksa_new_def)
  have p: "e\<lparr>pa_next := None, pa_hnext := None\<rparr> = e" by (simp add: e_def auth_pmksa_new_def)
  from pending_link [OF alloc_pending [OF assms(1,2)] e, of now] obtain c' where
    "auth_pmksa_link_entry now (c\<lparr>ap_heap := (ap_heap c)(a \<mapsto> e)\<rparr>) a = Some c'" "pmksa_view c' (exp_insert pa_expiration e es)"
    by (auto simp: payload_def p)
  then show ?thesis
    using assms(3) by (auto simp: pmksa_cache_add_okc_def e_def [symmetric] Let_def intro!: exI [of _ c'] exI [of _ e]) (simp_all add: e_def auth_pmksa_new_def pmksa_entry_wf_def)
qed

section \<open>Opportunistic key caching\<close>

text \<open>The search does not leave an entry of another station.\<close>

lemma okc_loop_stuck:
  assumes "okc_loop cfg h aa spa pmkid pos = Some r"
  shows "okc_round cfg h aa spa pmkid pos \<noteq> Some (Inr pos)"
  using assms
proof (rule okc_loop.raw_induct [where P = "\<lambda>cfg h aa spa pmkid pos r. okc_round cfg h aa spa pmkid pos \<noteq> Some (Inr pos)", rotated])
  fix f cfg h aa spa pmkid pos r
  assume IH: "\<And>cfg h aa spa pmkid pos r. f cfg h aa spa pmkid pos = Some r \<Longrightarrow> okc_round cfg h aa spa pmkid pos \<noteq> Some (Inr pos)"
    and body: "okc_round cfg h aa spa pmkid pos \<bind> (\<lambda>r. case r of Inl found \<Rightarrow> Some found | Inr pos \<Rightarrow> f cfg h aa spa pmkid pos) = Some r"
  show "okc_round cfg h aa spa pmkid pos \<noteq> Some (Inr pos)"
  proof
    assume "okc_round cfg h aa spa pmkid pos = Some (Inr pos)"
    then have "f cfg h aa spa pmkid pos = Some r" using body by simp
    from IH [OF this] show False using \<open>okc_round cfg h aa spa pmkid pos = Some (Inr pos)\<close> by blast
  qed
qed

text \<open>With entries of one station only, it finds the first whose PMKID for this access point matches.\<close>

lemma okc_loop_correct:
  assumes "chain Next h pos xs" "\<forall>x \<in> set xs. pa_spa (the (h x)) = spa \<and> pmksa_entry_wf (the (h x))" "length aa = 6" "length spa = 6"
  shows "okc_loop cfg h aa spa pmkid pos = Some (find (\<lambda>x. rsn_pmkid cfg (take (pa_pmk_len (the (h x))) (pa_pmk (the (h x)))) aa spa
    (wpa_key_mgmt_sha256 (pa_akmp (the (h x)))) = Some pmkid) xs)"
  using assms(1,2)
proof (induction xs arbitrary: pos)
  case Nil
  then show ?case by (subst okc_loop.simps) (simp add: okc_round_def)
next
  case (Cons x xs)
  obtain e where e: "pos = Some x" "h x = Some e" "chain Next h (pa_next e) xs" using Cons.prems(1) by (auto split: option.splits)
  have w: "pa_spa e = spa" "pmksa_entry_wf e" using Cons.prems(2) e(2) by auto
  have "length (take (pa_pmk_len e) (pa_pmk e)) \<le> 32" using w(2) by (simp add: pmksa_entry_wf_def)
  from rsn_pmkid_length [OF this assms(3,4)] obtain i where
    "rsn_pmkid cfg (take (pa_pmk_len e) (pa_pmk e)) aa spa (wpa_key_mgmt_sha256 (pa_akmp e)) = Some i" by blast
  then show ?case using e w Cons.IH [OF e(3)] Cons.prems(2) by (subst okc_loop.simps) (auto simp: okc_round_def)
qed

section \<open>The end\<close>

lemma deinit_ok:
  assumes "auth_pmksa_ok c"
  shows "\<exists>c'. pmksa_cache_auth_deinit c = Some c' \<and> ap_heap c' = Map.empty \<and> ap_timer c' = None"
proof -
  obtain xs bs where r: "pmksa_rep c xs bs" "dom (ap_heap c) = set xs" using assms by (rule okE)
  have "chain Next (ap_heap c) (ap_pmksa c) xs" "distinct xs" using r(1) by (simp_all add: pmksa_rep_def)
  from deinit_loop_correct [OF this] have "auth_deinit_loop (ap_pmksa c) (ap_heap c) = Some Map.empty"
    using r(2) by (auto simp: fun_eq_iff domIff)
  then show ?thesis by (simp add: pmksa_cache_auth_deinit_def)
qed

section \<open>Sequences of operations\<close>

text \<open>The calls into the cache: addition, addition by opportunistic key caching from an entry of the cache, the timer, removal, the choice of
  an entry for the station, and its release.\<close>

datatype auth_pmksa_op =
    Pmksa_Add "nat option" "nat \<Rightarrow> bool" int bytes bytes bytes int "eapol_session option" u32
  | Pmksa_Add_Okc "nat option" "nat \<Rightarrow> bool" int nat bytes
  | Pmksa_Expire int
  | Pmksa_Remove bytes
  | Pmksa_Select "bytes option" "bytes option"
  | Pmksa_Clear nat

fun auth_pmksa_step :: "build_config \<Rightarrow> auth_pmksa_cache \<Rightarrow> auth_pmksa_op \<Rightarrow> auth_pmksa_cache option" where
  "auth_pmksa_step cfg c (Pmksa_Add addr mem now pmk aa spa session_timeout eapol akmp) =
     map_option snd (pmksa_cache_auth_add cfg addr mem now c pmk aa spa session_timeout eapol akmp)"
| "auth_pmksa_step cfg c (Pmksa_Add_Okc addr mem now p pmkid) = do {
     old \<leftarrow> ap_heap c p;
     map_option snd (pmksa_cache_add_okc addr mem now c old pmkid) }"
| "auth_pmksa_step cfg c (Pmksa_Expire now) = auth_pmksa_expire now c"
| "auth_pmksa_step cfg c (Pmksa_Remove spa) = wpa_auth_pmksa_remove c spa"
| "auth_pmksa_step cfg c (Pmksa_Select spa pmkid) = map_option (\<lambda>p. c\<lparr>ap_sta := p\<rparr>) (pmksa_cache_auth_get c spa pmkid)"
| "auth_pmksa_step cfg c (Pmksa_Clear p) = Some (snd (wpa_auth_sta_clear_pmksa c p))"

text \<open>The allocator returns fresh memory, addresses and PMKIDs have their sizes, and an entry to copy is in the cache.\<close>

fun auth_pmksa_op_ok :: "auth_pmksa_cache \<Rightarrow> auth_pmksa_op \<Rightarrow> bool" where
  "auth_pmksa_op_ok c (Pmksa_Add addr mem now pmk aa spa session_timeout eapol akmp) \<longleftrightarrow>
     (case addr of None \<Rightarrow> True | Some a \<Rightarrow> ap_heap c a = None) \<and> length aa = 6 \<and> length spa = 6"
| "auth_pmksa_op_ok c (Pmksa_Add_Okc addr mem now p pmkid) \<longleftrightarrow>
     (case addr of None \<Rightarrow> True | Some a \<Rightarrow> ap_heap c a = None) \<and> ap_heap c p \<noteq> None \<and> length pmkid = 16"
| "auth_pmksa_op_ok c op \<longleftrightarrow> True"

inductive auth_pmksa_reach :: "build_config \<Rightarrow> auth_pmksa_cache \<Rightarrow> bool" for cfg where
  reach_init: "auth_pmksa_reach cfg pmksa_cache_auth_init"
| reach_step: "auth_pmksa_reach cfg c \<Longrightarrow> auth_pmksa_op_ok c op \<Longrightarrow> auth_pmksa_step cfg c op = Some c' \<Longrightarrow> auth_pmksa_reach cfg c'"

lemma rep_sta: "pmksa_rep c xs bs \<Longrightarrow> (\<And>p. s = Some p \<Longrightarrow> p \<in> set xs) \<Longrightarrow> pmksa_rep (c\<lparr>ap_sta := s\<rparr>) xs bs"
  by (simp add: pmksa_rep_def)

lemma get_inside:
  assumes "auth_pmksa_ok c" "dom (ap_heap c) = set xs"
  obtains q where "pmksa_cache_auth_get c spa pmkid = Some q" "\<And>p. q = Some p \<Longrightarrow> p \<in> set xs"
proof -
  obtain q where q: "pmksa_cache_auth_get c spa pmkid = Some q" "case q of None \<Rightarrow> \<forall>a e. ap_heap c a = Some e \<longrightarrow> \<not> pmksa_match spa pmkid e
     | Some a \<Rightarrow> \<exists>e. ap_heap c a = Some e \<and> pmksa_match spa pmkid e" using get_correct [OF assms(1)] by blast
  have "p \<in> set xs" if "q = Some p" for p using q(2) that assms(2) [symmetric] by auto
  then show ?thesis using that q(1) by blast
qed

lemma step_ok:
  assumes ok: "auth_pmksa_ok c" and op: "auth_pmksa_op_ok c op"
  shows "\<exists>c'. auth_pmksa_step cfg c op = Some c' \<and> auth_pmksa_ok c'"
proof -
  obtain es where v: "pmksa_view c es" using ok view_ok by blast
  obtain xs bs where r: "pmksa_rep c xs bs" "dom (ap_heap c) = set xs" using ok by (rule okE)
  show ?thesis
  proof (cases op)
    case (Pmksa_Add addr mem now pmk aa spa session_timeout eapol akmp)
    show ?thesis
    proof (cases "addr = None \<or> length pmk > 32")
      case True
      then show ?thesis using Pmksa_Add ok by (auto simp: pmksa_cache_auth_add_def split: option.split)
    next
      case False
      then obtain a where a: "addr = Some a" "length pmk \<le> 32" by auto
      then show ?thesis
        using add_refines [OF v, of a pmk aa spa cfg akmp mem now session_timeout eapol] op Pmksa_Add view_ok by fastforce
    qed
  next
    case (Pmksa_Add_Okc addr mem now p pmkid)
    then obtain old where old: "ap_heap c p = Some old" using op by auto
    then have "p \<in> set xs" using r(2) by auto
    then have "pmksa_entry_wf old" using r(1) old by (auto simp: pmksa_rep_def)
    note wf = this
    show ?thesis
    proof (cases addr)
      case None
      then show ?thesis using Pmksa_Add_Okc old ok by (simp add: pmksa_cache_add_okc_def)
    next
      case (Some a)
      then obtain c' e where "pmksa_cache_add_okc (Some a) mem now c old pmkid = Some (Some a, c')" "pmksa_view c' (exp_insert pa_expiration e es)"
        using add_okc_refines [OF v _ wf, of a pmkid mem now] op Pmksa_Add_Okc by auto
      then show ?thesis using Pmksa_Add_Okc Some old view_ok by auto
    qed
  next
    case (Pmksa_Expire now)
    then show ?thesis using expire_ok [OF ok, of now] by auto
  next
    case (Pmksa_Remove spa)
    obtain q where q: "pmksa_cache_auth_get c (Some spa) None = Some q" "\<And>p. q = Some p \<Longrightarrow> p \<in> set xs"
      by (rule get_inside [OF ok r(2), of "Some spa" None]) blast
    show ?thesis
    proof (cases q)
      case None
      then show ?thesis using Pmksa_Remove q(1) ok by (simp add: wpa_auth_pmksa_remove_def)
    next
      case (Some p)
      then show ?thesis
        using free_entry_ok [OF r q(2) [OF Some]] Pmksa_Remove q(1) by (auto simp: wpa_auth_pmksa_remove_def auth_pmksa_ok_def)
    qed
  next
    case (Pmksa_Select spa pmkid)
    obtain q where q: "pmksa_cache_auth_get c spa pmkid = Some q" "\<And>p. q = Some p \<Longrightarrow> p \<in> set xs"
      by (rule get_inside [OF ok r(2), of spa pmkid]) blast
    then show ?thesis using Pmksa_Select rep_sta [OF r(1) q(2)] r(2) by (auto simp: auth_pmksa_ok_def)
  next
    case (Pmksa_Clear p)
    then show ?thesis using ok rep_sta [OF r(1), of None] r(2) by (auto simp: wpa_auth_sta_clear_pmksa_def auth_pmksa_ok_def)
  qed
qed

lemma reach_ok: "auth_pmksa_reach cfg c \<Longrightarrow> auth_pmksa_ok c"
proof (induction rule: auth_pmksa_reach.induct)
  case reach_init
  then show ?case by (rule init_ok)
next
  case (reach_step c op c')
  then show ?case using step_ok [of c op cfg] by auto
qed

section \<open>Properties\<close>



text \<open>
  C20. Addition to the authenticator's PMKSA cache as a function on its list of entries: the first entry of the same station is
  dropped, then the entry that expires first if 1024 are left, and the new entry goes behind all that do not expire later. The
  linked list and the hash chains in memory implement this.
\<close>

theorem pmksa_cache_auth_add_refines:
  assumes "pmksa_view c es" "ap_heap c a = None" "length pmk \<le> 32" "length aa = 6" "length spa = 6"
  shows "\<exists>pmkid c'. rsn_pmkid cfg pmk aa spa (wpa_key_mgmt_sha256 akmp) = Some pmkid \<and>
    pmksa_cache_auth_add cfg (Some a) mem now c pmk aa spa session_timeout eapol akmp = Some (Some a, c') \<and>
    pmksa_view c' (exp_insert pa_expiration
      (pmksa_cache_from_eapol_data mem (auth_pmksa_new pmk pmkid spa (now + (if session_timeout > 0 then session_timeout else 43200)) akmp) eapol)
      (pmksa_evict (remove_first (\<lambda>e. pa_spa e = spa) es)))"
  using assms by (rule add_refines)

lemma init_view: "pmksa_view pmksa_cache_auth_init []"
  unfolding pmksa_view_def
  by (intro exI [of _ "[]"] exI [of _ "replicate 128 []"]) (simp add: pmksa_rep_def pmksa_cache_auth_init_def PMKID_HASH_SIZE_def)

theorem pmksa_cache_auth_add_refines_witness:
  "\<exists>pmkid c'. pmksa_cache_auth_add pc2drc_config (Some 7) (\<lambda>_. True) 100 pmksa_cache_auth_init (replicate 32 1) (replicate 6 2) (replicate 6 3) 60 None 1 =
      Some (Some 7, c') \<and> pmksa_view c' [auth_pmksa_new (replicate 32 1) pmkid (replicate 6 3) 160 1]"
  using pmksa_cache_auth_add_refines [OF init_view, of 7 "replicate 32 1" "replicate 6 2" "replicate 6 3" pc2drc_config 1 "\<lambda>_. True" 100 60 None]
  by (auto simp: pmksa_cache_auth_init_def pmksa_evict_def exp_insert_def pmksa_cache_from_eapol_data_def)



text \<open>
  C22. The search by opportunistic key caching does not end when the entry of the cache that expires first belongs to
  another station: one round of the loop comes back to the same pointer, so the lookup never returns. The cache is well
  formed, and the round accesses nothing outside of it.
\<close>

theorem pmksa_cache_get_okc_hangs:
  assumes "pmksa_view c (e # es)" "pa_spa e \<noteq> spa"
  shows "okc_round cfg (ap_heap c) aa spa pmkid (ap_pmksa c) = Some (Inr (ap_pmksa c)) \<and> pmksa_cache_get_okc cfg c aa spa pmkid = None"
proof
  obtain xs bs where x: "pmksa_rep c xs bs" "e # es = map (\<lambda>a. the (payload (ap_heap c) a)) xs" using assms(1) by (auto simp: pmksa_view_def)
  then obtain a as where a: "xs = a # as" "e = the (payload (ap_heap c) a)" by (cases xs) auto
  then obtain e' where "ap_pmksa c = Some a" "ap_heap c a = Some e'" using x(1) by (auto simp: pmksa_rep_def split: option.splits)
  then show r: "okc_round cfg (ap_heap c) aa spa pmkid (ap_pmksa c) = Some (Inr (ap_pmksa c))"
    using a(2) assms(2) by (simp add: payload_def okc_round_def)
  show "pmksa_cache_get_okc cfg c aa spa pmkid = None"
    using okc_loop_stuck [of cfg "ap_heap c" aa spa pmkid "ap_pmksa c"] r by (cases "pmksa_cache_get_okc cfg c aa spa pmkid") (auto simp: pmksa_cache_get_okc_def)
qed

theorem pmksa_cache_get_okc_hangs_witness:
  "\<exists>c. auth_pmksa_reach pc2drc_config c \<and> pmksa_cache_get_okc pc2drc_config c (replicate 6 2) (replicate 6 4) (replicate 16 0) = None"
proof -
  obtain pmkid c where c: "pmksa_cache_auth_add pc2drc_config (Some 7) (\<lambda>_. True) 100 pmksa_cache_auth_init (replicate 32 1) (replicate 6 2) (replicate 6 3) 60 None 1 =
      Some (Some 7, c)" "pmksa_view c [auth_pmksa_new (replicate 32 1) pmkid (replicate 6 3) 160 1]"
    using add_refines [OF init_view, of 7 "replicate 32 1" "replicate 6 2" "replicate 6 3" pc2drc_config 1 "\<lambda>_. True" 100 60 None]
    by (auto simp: pmksa_cache_auth_init_def pmksa_evict_def exp_insert_def pmksa_cache_from_eapol_data_def)
  have "auth_pmksa_reach pc2drc_config c"
    by (rule reach_step [OF reach_init, where op = "Pmksa_Add (Some 7) (\<lambda>_. True) 100 (replicate 32 1) (replicate 6 2) (replicate 6 3) 60 None 1"])
      (use c(1) in \<open>simp_all add: pmksa_cache_auth_init_def\<close>)
  moreover have "pmksa_cache_get_okc pc2drc_config c (replicate 6 2) (replicate 6 4) (replicate 16 0) = None"
    using pmksa_cache_get_okc_hangs [OF c(2), of "replicate 6 4" pc2drc_config "replicate 6 2" "replicate 16 0"] by (simp add: auth_pmksa_new_def numeral_eq_Suc)
  ultimately show ?thesis by blast
qed

end
