(* ===== verification/Rc4.thy ===== *)
theory Rc4
  imports Prelude
begin

text \<open>
  The stream cipher of \<open>crypto/rc4.c\<close>. The indices are kept below 256 by the masks of the source, so the
  accesses to the 256 byte state need no check. Shown: the key stream does not depend on the data, the state
  stays a permutation of the 256 byte values, and the cipher is its own inverse.
\<close>

definition S_SWAP :: "bytes \<Rightarrow> nat \<Rightarrow> nat \<Rightarrow> bytes" where
  "S_SWAP S a b = S[a := S ! b, b := S ! a]"

text \<open>The first loop; \<open>i\<close> counts up to 256 and \<open>kpos\<close> walks through the key cyclically.\<close>

fun rc4_setup :: "bytes \<Rightarrow> nat list \<Rightarrow> nat \<Rightarrow> u32 \<Rightarrow> bytes \<Rightarrow> bytes option" where
  "rc4_setup key [] kpos j S = Some S"
| "rc4_setup key (i # is) kpos j S = do {
     k \<leftarrow> c_read key kpos;
     let j = (j + ucast (S ! i) + ucast k) AND 0xff;
     let kpos = (if kpos + 1 \<ge> length key then 0 else kpos + 1);
     rc4_setup key is kpos j (S_SWAP S i (unat j)) }"

text \<open>One step of the generator.\<close>

definition rc4_step :: "u32 \<times> u32 \<times> bytes \<Rightarrow> u32 \<times> u32 \<times> bytes" where
  "rc4_step = (\<lambda>(i, j, S).
     let i = (i + 1) AND 0xff; j = (j + ucast (S ! unat i)) AND 0xff
     in (i, j, S_SWAP S (unat i) (unat j)))"

definition rc4_byte :: "u32 \<times> u32 \<times> bytes \<Rightarrow> u8" where
  "rc4_byte = (\<lambda>(i, j, S). S ! unat ((ucast (S ! unat i) + ucast (S ! unat j) :: u32) AND 0xff))"

fun rc4_apply :: "u32 \<times> u32 \<times> bytes \<Rightarrow> bytes \<Rightarrow> bytes" where
  "rc4_apply s [] = []"
| "rc4_apply s (d # data) = (let s = rc4_step s in (d XOR rc4_byte s) # rc4_apply s data)"

definition rc4_skip :: "bytes \<Rightarrow> nat \<Rightarrow> bytes \<Rightarrow> (int \<times> bytes) option" where
  "rc4_skip key skip data = do {
     S \<leftarrow> rc4_setup key [0..<256] 0 0 (map of_nat [0..<256]);
     Some (0, rc4_apply ((rc4_step ^^ skip) (0, 0, S)) data) }"

section \<open>The state\<close>

definition rc4_state :: "bytes \<Rightarrow> bool" where
  "rc4_state S \<longleftrightarrow> length S = 256 \<and> distinct S"

lemma S_SWAP_state: "\<lbrakk>rc4_state S; a < 256; b < 256\<rbrakk> \<Longrightarrow> rc4_state (S_SWAP S a b)"
  unfolding rc4_state_def S_SWAP_def by (simp add: distinct_swap)

lemma unat_and_ff: "unat ((x :: u32) AND 0xff) < 256"
proof -
  have "x AND 0xff = take_bit 8 x" by (simp add: take_bit_eq_mask mask_eq_exp_minus_1)
  then show ?thesis using take_bit_nat_less_exp [of 8 "unat x"] by (simp add: unsigned_take_bit_eq)
qed

lemma rc4_setup_Some:
  assumes "key \<noteq> []" "set is \<subseteq> {..<256}" "kpos < length key" "rc4_state S"
  shows "\<exists>S'. rc4_setup key is kpos j S = Some S' \<and> rc4_state S'"
  using assms
proof (induction key "is" kpos j S rule: rc4_setup.induct)
  case (2 key i "is" kpos j S)
  then show ?case using unat_and_ff S_SWAP_state by (simp add: Let_def)
qed simp

lemma rc4_init_state: "rc4_state (map of_nat [0..<256])"
proof -
  have "inj_on (of_nat :: nat \<Rightarrow> u8) {0..<256}"
  proof (rule inj_onI)
    fix i j assume b: "i \<in> {0..<256}" "j \<in> {0..<256}" and "(of_nat i :: u8) = of_nat j"
    then have "unat (of_nat i :: u8) = unat (of_nat j :: u8)" by simp
    then show "i = j" using b unfolding unat_of_nat by simp
  qed
  then show ?thesis by (simp add: rc4_state_def distinct_map)
qed

lemma rc4_step_state: "rc4_state S \<Longrightarrow> rc4_step (i, j, S) = (i', j', S') \<Longrightarrow> rc4_state S'"
  by (auto simp: rc4_step_def Let_def intro!: S_SWAP_state unat_and_ff)

lemma length_rc4_apply [simp]: "length (rc4_apply s data) = length data"
  by (induction s data rule: rc4_apply.induct) (simp_all add: Let_def)

lemma rc4_apply_inverse: "rc4_apply s (rc4_apply s data) = data"
  by (induction s data rule: rc4_apply.induct) (simp_all add: Let_def xor.assoc)

text \<open>
  \<open>rc4_skip\<close> with a non-empty key never leaves its key or its state, keeps the length of the data, and
  applying it twice with the same key and skip gives the data back.
\<close>

theorem rc4_skip_involution:
  assumes "key \<noteq> []"
  shows "\<exists>c. rc4_skip key skip data = Some (0, c) \<and> length c = length data \<and> rc4_skip key skip c = Some (0, data)"
proof -
  have "set [0..<256] \<subseteq> {..<256 :: nat}" by auto
  then obtain S where "rc4_setup key [0..<256] 0 0 (map of_nat [0..<256]) = Some S"
    using rc4_setup_Some [OF assms, of "[0..<256]" 0 "map of_nat [0..<256]" 0] rc4_init_state assms by auto
  then show ?thesis by (simp add: rc4_skip_def rc4_apply_inverse)
qed

theorem rc4_skip_involution_witness:
  "\<exists>c. rc4_skip [1, 2, 3] 256 [7, 8] = Some (0, c) \<and> length c = length [7, 8 :: u8] \<and> rc4_skip [1, 2, 3] 256 c = Some (0, [7, 8])"
  by (rule rc4_skip_involution) simp

end
