(* ===== verification/Wpa_Sm.thy ===== *)
theory Wpa_Sm
  imports Rc4 Pmksa_Cache Key_Data Wpa_Ie
begin

text \<open>
  The supplicant's WPA state machine (\<open>rsn_supp/wpa.c\<close>, \<open>wpa_i.h\<close>) for builds without
  \<open>CONFIG_IEEE80211R\<close>, \<open>CONFIG_TDLS\<close> and \<open>CONFIG_WNM\<close>, as the repository's: reception of EAPOL-Key frames, the
  four-way and the group key handshake, the requests it sends, and the operations by which the rest of the
  supplicant controls it. PeerKey is taken as not enabled: there is no peer (\<open>sm->peerkey\<close> is NULL) and the
  SMK handlers return at once. Every handler maps the state to \<open>Some\<close> state, or to \<open>None\<close> when it would access
  memory outside of an object. Text dumps for the control interface and pre-authentication are not modelled.
\<close>

section \<open>EAPOL-Key frames\<close>

text \<open>\<open>k_data\<close> is everything behind the header in the memory the frame was copied to.\<close>

record wpa_eapol_key =
  k_type :: u8
  k_info :: u16
  k_length :: u16
  k_replay_counter :: bytes
  k_nonce :: bytes
  k_iv :: bytes
  k_rsc :: bytes
  k_id :: bytes
  k_mic :: bytes
  k_data_length :: u16
  k_data :: bytes

definition eapol_key_bytes :: "wpa_eapol_key \<Rightarrow> bytes" where
  "eapol_key_bytes k = [k_type k] @ WPA_PUT_BE16 (k_info k) @ WPA_PUT_BE16 (k_length k) @ k_replay_counter k @
     k_nonce k @ k_iv k @ k_rsc k @ k_id k @ k_mic k @ WPA_PUT_BE16 (k_data_length k) @ k_data k"

definition eapol_key_of :: "bytes \<Rightarrow> wpa_eapol_key" where
  "eapol_key_of b = \<lparr>k_type = b ! 0, k_info = WPA_GET_BE16 (drop 1 b), k_length = WPA_GET_BE16 (drop 3 b),
     k_replay_counter = take 8 (drop 5 b), k_nonce = take 32 (drop 13 b), k_iv = take 16 (drop 45 b),
     k_rsc = take 8 (drop 61 b), k_id = take 8 (drop 69 b), k_mic = take 16 (drop 77 b),
     k_data_length = WPA_GET_BE16 (drop 93 b), k_data = drop 95 b\<rparr>"

abbreviation (input) WPA_KEY_INFO_TYPE_MASK :: u16 where "WPA_KEY_INFO_TYPE_MASK \<equiv> 7"
abbreviation (input) WPA_KEY_INFO_KEY_TYPE :: u16 where "WPA_KEY_INFO_KEY_TYPE \<equiv> 0x0008"
abbreviation (input) WPA_KEY_INFO_KEY_INDEX_MASK :: u16 where "WPA_KEY_INFO_KEY_INDEX_MASK \<equiv> 0x0030"
abbreviation (input) WPA_KEY_INFO_INSTALL :: u16 where "WPA_KEY_INFO_INSTALL \<equiv> 0x0040"
abbreviation (input) WPA_KEY_INFO_TXRX :: u16 where "WPA_KEY_INFO_TXRX \<equiv> 0x0040"
abbreviation (input) WPA_KEY_INFO_ACK :: u16 where "WPA_KEY_INFO_ACK \<equiv> 0x0080"
abbreviation (input) WPA_KEY_INFO_MIC :: u16 where "WPA_KEY_INFO_MIC \<equiv> 0x0100"
abbreviation (input) WPA_KEY_INFO_SECURE :: u16 where "WPA_KEY_INFO_SECURE \<equiv> 0x0200"
abbreviation (input) WPA_KEY_INFO_ERROR :: u16 where "WPA_KEY_INFO_ERROR \<equiv> 0x0400"
abbreviation (input) WPA_KEY_INFO_REQUEST :: u16 where "WPA_KEY_INFO_REQUEST \<equiv> 0x0800"
abbreviation (input) WPA_KEY_INFO_ENCR_KEY_DATA :: u16 where "WPA_KEY_INFO_ENCR_KEY_DATA \<equiv> 0x1000"
abbreviation (input) WPA_KEY_INFO_SMK_MESSAGE :: u16 where "WPA_KEY_INFO_SMK_MESSAGE \<equiv> 0x2000"
abbreviation (input) EAPOL_KEY_TYPE_RSN :: u8 where "EAPOL_KEY_TYPE_RSN \<equiv> 2"
abbreviation (input) EAPOL_KEY_TYPE_WPA :: u8 where "EAPOL_KEY_TYPE_WPA \<equiv> 254"
abbreviation (input) IEEE802_1X_TYPE_EAPOL_START :: u8 where "IEEE802_1X_TYPE_EAPOL_START \<equiv> 1"
abbreviation (input) IEEE802_1X_TYPE_EAPOL_KEY :: u8 where "IEEE802_1X_TYPE_EAPOL_KEY \<equiv> 3"
abbreviation (input) ETH_P_EAPOL :: u16 where "ETH_P_EAPOL \<equiv> 0x888e"

text \<open>A bit of the key information field.\<close>

definition has :: "u16 \<Rightarrow> u16 \<Rightarrow> bool" where
  "has info b \<longleftrightarrow> info AND b \<noteq> 0"

section \<open>State\<close>

datatype wpa_states = WPA_DISCONNECTED | WPA_INTERFACE_DISABLED | WPA_INACTIVE | WPA_SCANNING
  | WPA_AUTHENTICATING | WPA_ASSOCIATING | WPA_ASSOCIATED | WPA_4WAY_HANDSHAKE | WPA_GROUP_HANDSHAKE
  | WPA_COMPLETED

text \<open>Calls into the driver, the link layer and the EAPOL state machine. A key is given by algorithm,
  address (NULL is \<open>None\<close>), index, transmit flag, receive sequence counter and key.\<close>

datatype sm_event =
    Ether_Send bytes u16 bytes
  | Set_Key wpa_alg "bytes option" nat bool bytes bytes
  | Sm_Deauthenticate nat
  | Set_Protection bytes nat nat
  | Port_Valid bool
  | Eap_Success bool
  | Notify_Cached
  | Notify_Tx_Eapol_Key
  | Lower_Layer_Success
  | Cancel_Auth_Timeout
  | Rekey_Offload bytes bytes bytes
  | Preauth_Deinit

text \<open>
  The state machine. \<open>sm_pm\<close> holds the fields that the PMKSA cache shares with it: \<open>pmk\<close>, \<open>pmk_len\<close>,
  \<open>bssid\<close>, \<open>own_addr\<close>, \<open>cur_pmksa\<close> and the cache itself. A key hierarchy \<open>struct wpa_ptk\<close> is its 64
  bytes: KCK, KEK, TK1 and the two MIC keys. \<open>sm_state\<close> is the state that \<open>wpa_sm_set_state\<close> and
  \<open>wpa_sm_get_state\<close> access; timers hold the delay in seconds; \<open>sm_log\<close> collects the calls, newest first.
\<close>

record wpa_sm =
  sm_pm :: rsn_pmksa_cache
  sm_ptk :: bytes
  sm_tptk :: bytes
  sm_ptk_set :: bool
  sm_tptk_set :: bool
  sm_snonce :: bytes
  sm_anonce :: bytes
  sm_renew_snonce :: bool
  sm_rx_replay_counter :: bytes
  sm_rx_replay_counter_set :: bool
  sm_request_counter :: bytes
  sm_eapol :: bool
  sm_preauth_bssid :: bytes
  sm_network_ctx :: nat
  sm_wpa_ptk_rekey :: int
  sm_dot11RSNAConfigSATimeout :: u32
  sm_dot11RSNA4WayHandshakeFailures :: u32
  sm_proto :: u32
  sm_pairwise_cipher :: u32
  sm_group_cipher :: u32
  sm_key_mgmt :: u32
  sm_mgmt_group_cipher :: u32
  sm_rsn_enabled :: u32
  sm_mfp :: int
  sm_assoc_wpa_ie :: "bytes option"
  sm_ap_wpa_ie :: "bytes option"
  sm_ap_rsn_ie :: "bytes option"
  sm_state :: wpa_states
  sm_rekey_timer :: "int option"
  sm_preauth_timer :: "int option"
  sm_log :: "sm_event list"

text \<open>
  What the callbacks of \<open>struct wpa_sm_ctx\<close> and the libraries return during one call: allocation, the
  address of a new cache entry, the time, the BSSID the driver reports, random bytes, whether the driver
  accepts a key, the key of the EAPOL state machine for a length, the elements of the access point in the scan
  results, the current network and the EAPOL version of the configuration.
\<close>

record sm_env =
  env_alloc :: bool
  env_entry :: "nat option"
  env_now :: int
  env_bssid :: "bytes option"
  env_random :: "bytes option"
  env_set_key :: "sm_event \<Rightarrow> bool"
  env_eapol_key :: "nat \<Rightarrow> bytes option"
  env_beacon_ie :: "(bytes option \<times> bytes option) option"
  env_network_ctx :: nat
  env_eapol_version :: u8

abbreviation "sm_bssid sm \<equiv> pc_bssid (sm_pm sm)"
abbreviation "sm_own_addr sm \<equiv> pc_own_addr (sm_pm sm)"
abbreviation "sm_cur_pmksa sm \<equiv> pc_cur_pmksa (sm_pm sm)"
abbreviation "ptk_kck p \<equiv> take 16 p"
abbreviation "ptk_kek p \<equiv> take 16 (drop 16 p)"

definition emit :: "sm_event \<Rightarrow> wpa_sm \<Rightarrow> wpa_sm" where
  "emit e sm = sm\<lparr>sm_log := e # sm_log sm\<rparr>"

definition wpa_sm_set_key :: "sm_env \<Rightarrow> wpa_sm \<Rightarrow> sm_event \<Rightarrow> wpa_sm \<times> bool" where
  "wpa_sm_set_key env sm key = (emit key sm, env_set_key env key)"

definition wpa_sm_set_rekey_offload :: "wpa_sm \<Rightarrow> wpa_sm" where
  "wpa_sm_set_rekey_offload sm = emit (Rekey_Offload (ptk_kek (sm_ptk sm)) (ptk_kck (sm_ptk sm)) (sm_rx_replay_counter sm)) sm"

definition wpa_key_mgmt_wpa_ieee8021x :: "u32 \<Rightarrow> bool" where
  "wpa_key_mgmt_wpa_ieee8021x akm \<longleftrightarrow> akm AND (WPA_KEY_MGMT_IEEE8021X OR WPA_KEY_MGMT_FT_IEEE8021X OR
     WPA_KEY_MGMT_CCKM OR WPA_KEY_MGMT_IEEE8021X_SHA256) \<noteq> 0"

definition wpa_key_mgmt_wpa_psk :: "u32 \<Rightarrow> bool" where
  "wpa_key_mgmt_wpa_psk akm \<longleftrightarrow> akm AND (WPA_KEY_MGMT_PSK OR WPA_KEY_MGMT_FT_PSK OR
     WPA_KEY_MGMT_PSK_SHA256 OR WPA_KEY_MGMT_SAE) \<noteq> 0"

definition wpa_key_mgmt_ft :: "u32 \<Rightarrow> bool" where
  "wpa_key_mgmt_ft akm \<longleftrightarrow> akm AND (WPA_KEY_MGMT_FT_PSK OR WPA_KEY_MGMT_FT_IEEE8021X OR WPA_KEY_MGMT_FT_SAE) \<noteq> 0"

section \<open>Sending\<close>

text \<open>\<open>wpa_alloc_eapol\<close>: the header in front of a zeroed body; \<open>None\<close> is NULL.\<close>

definition wpa_alloc_eapol :: "sm_env \<Rightarrow> u8 \<Rightarrow> u16 \<Rightarrow> (bytes \<times> bytes) option" where
  "wpa_alloc_eapol env t data_len =
     (if env_alloc env then Some ([env_eapol_version env, t] @ WPA_PUT_BE16 data_len, replicate (unat data_len) 0)
      else None)"

definition is_zero_ether_addr :: "bytes \<Rightarrow> bool" where
  "is_zero_ether_addr a \<longleftrightarrow> take 6 a = replicate 6 0"

text \<open>The message is the header with the key frame; the MIC is stored in the frame when one is asked for.\<close>

definition wpa_eapol_key_send :: "build_config \<Rightarrow> sm_env \<Rightarrow> wpa_sm \<Rightarrow> bytes \<Rightarrow> u16 \<Rightarrow> bytes \<Rightarrow> bytes \<Rightarrow>
    wpa_eapol_key \<Rightarrow> bool \<Rightarrow> wpa_sm option" where
  "wpa_eapol_key_send cfg env sm kck ver dest hdr reply with_mic = do {
     let (sm, dest) = (if is_zero_ether_addr dest \<and> is_zero_ether_addr (sm_bssid sm) then
         (case env_bssid env of
            None \<Rightarrow> (sm, dest)
          | Some b \<Rightarrow> (sm\<lparr>sm_pm := (sm_pm sm)\<lparr>pc_bssid := b\<rparr>\<rparr>, b))
       else (sm, dest));
     (r, mic) \<leftarrow> (if with_mic then wpa_eapol_key_mic cfg kck (uint ver) (hdr @ eapol_key_bytes reply)
                  else Some (0, k_mic reply));
     if r \<noteq> 0 then Some sm
     else Some (emit Notify_Tx_Eapol_Key
       (emit (Ether_Send dest ETH_P_EAPOL (hdr @ eapol_key_bytes (reply\<lparr>k_mic := mic\<rparr>))) sm)) }"

text \<open>The zeroed reply of \<open>wpa_sm_alloc_eapol\<close> with room for \<open>n\<close> bytes of key data. The length is a \<open>u16\<close>,
  so larger key data would be written outside of the buffer.\<close>

definition eapol_reply :: "sm_env \<Rightarrow> nat \<Rightarrow> (bytes \<times> wpa_eapol_key) option option" where
  "eapol_reply env n =
     (case wpa_alloc_eapol env IEEE802_1X_TYPE_EAPOL_KEY (of_nat (95 + n)) of
        None \<Rightarrow> Some None
      | Some (hdr, body) \<Rightarrow> if length body < 95 + n then None else Some (Some (hdr, eapol_key_of body)))"

definition reply_type :: "wpa_sm \<Rightarrow> u8" where
  "reply_type sm = (if sm_proto sm = WPA_PROTO_RSN then EAPOL_KEY_TYPE_RSN else EAPOL_KEY_TYPE_WPA)"

definition wpa_sm_key_request :: "build_config \<Rightarrow> sm_env \<Rightarrow> wpa_sm \<Rightarrow> bool \<Rightarrow> bool \<Rightarrow> wpa_sm option" where
  "wpa_sm_key_request cfg env sm err is_pairwise =
     (let ver = (if wpa_key_mgmt_ft (sm_key_mgmt sm) \<or> wpa_key_mgmt_sha256 (sm_key_mgmt sm) then 3
            else if sm_pairwise_cipher sm \<noteq> WPA_CIPHER_TKIP then 2 else 1)
      in case env_bssid env of
           None \<Rightarrow> Some sm
         | Some bssid \<Rightarrow> do {
             r \<leftarrow> eapol_reply env 0;
             case r of
               None \<Rightarrow> Some sm
             | Some (hdr, reply) \<Rightarrow> do {
                 let key_info = WPA_KEY_INFO_REQUEST OR ver OR (if sm_ptk_set sm then WPA_KEY_INFO_MIC else 0) OR
                   (if err then WPA_KEY_INFO_ERROR else 0) OR (if is_pairwise then WPA_KEY_INFO_KEY_TYPE else 0);
                 let reply = reply\<lparr>k_type := reply_type sm, k_info := key_info, k_length := 0,
                   k_replay_counter := sm_request_counter sm, k_data_length := 0\<rparr>;
                 c \<leftarrow> inc_byte_array (sm_request_counter sm) 8;
                 wpa_eapol_key_send cfg env (sm\<lparr>sm_request_counter := c\<rparr>) (ptk_kck (sm_ptk sm)) ver bssid hdr reply
                   (has key_info WPA_KEY_INFO_MIC) } })"

section \<open>Message 1 of the four-way handshake\<close>

definition wpa_sm_set_pmk_from_pmksa :: "wpa_sm \<Rightarrow> wpa_sm option" where
  "wpa_sm_set_pmk_from_pmksa sm =
     (case sm_cur_pmksa sm of
        Some c \<Rightarrow> do {
          e \<leftarrow> pmksa_deref (sm_pm sm) c;
          Some (sm\<lparr>sm_pm := (sm_pm sm)\<lparr>pc_pmk_len := length (pe_pmk e),
            pc_pmk := pe_pmk e @ drop (length (pe_pmk e)) (pc_pmk (sm_pm sm))\<rparr>\<rparr>) }
      | None \<Rightarrow> Some (sm\<lparr>sm_pm := (sm_pm sm)\<lparr>pc_pmk_len := 32, pc_pmk := replicate 32 0\<rparr>\<rparr>))"

text \<open>The search for the PMKID at the start of \<open>wpa_supplicant_get_pmk\<close>, with \<open>abort_cached\<close>.\<close>

definition get_pmk_lookup :: "rsn_pmksa_cache \<Rightarrow> bytes \<Rightarrow> bytes option \<Rightarrow> rsn_pmksa_cache \<times> bool" where
  "get_pmk_lookup pm src_addr pmkid =
     (if pmkid \<noteq> None \<and> pc_cur_pmksa pm = None
      then (let cur = pmksa_cache_get pm (Some src_addr) pmkid 0 in (pm\<lparr>pc_cur_pmksa := cur\<rparr>, cur = None))
      else (pm, False))"

definition pmkid_matches :: "rsn_pmksa_cache \<Rightarrow> bytes option \<Rightarrow> bool option" where
  "pmkid_matches pm pmkid =
     (case (pmkid, pc_cur_pmksa pm) of
        (Some p, Some c) \<Rightarrow> map_option (\<lambda>e. p = pe_pmkid e) (pmksa_deref pm c)
      | _ \<Rightarrow> Some False)"

text \<open>The key of the EAPOL state machine goes into the cache; \<open>Inl\<close> is an early return.\<close>

definition get_pmk_eapol :: "build_config \<Rightarrow> sm_env \<Rightarrow> wpa_sm \<Rightarrow> bytes \<Rightarrow> bytes option \<Rightarrow> bool \<Rightarrow>
    (int + bool \<times> wpa_sm) option" where
  "get_pmk_eapol cfg env sm src_addr pmkid abort =
     (case (case env_eapol_key env 32 of Some k \<Rightarrow> Some k | None \<Rightarrow> env_eapol_key env 16) of
        Some k \<Rightarrow> do {
          let pm = (sm_pm sm)\<lparr>pc_pmk := k @ drop (length k) (pc_pmk (sm_pm sm)), pc_pmk_len := length k\<rparr>;
          (pm, sa) \<leftarrow> (if sm_proto sm = WPA_PROTO_RSN \<and> \<not> wpa_key_mgmt_ft (sm_key_mgmt sm)
            then pmksa_cache_add cfg (env_entry env) (env_now env) pm k src_addr (pc_own_addr pm) (sm_network_ctx sm) (sm_key_mgmt sm)
            else Some (pm, None));
          let abort = (if pc_cur_pmksa pm = None \<and> pmkid \<noteq> None \<and> pmksa_cache_get pm (Some src_addr) pmkid 0 \<noteq> None
            then False else abort);
          let pm = (if pc_cur_pmksa pm = None then pm\<lparr>pc_cur_pmksa := sa\<rparr> else pm);
          Some (Inr (abort, sm\<lparr>sm_pm := pm\<rparr>)) }
      | None \<Rightarrow>
          (if sm_cur_pmksa sm \<noteq> None then Some (Inr (True, sm\<lparr>sm_pm := (sm_pm sm)\<lparr>pc_cur_pmksa := None\<rparr>\<rparr>))
           else if \<not> abort then Some (Inl (-1)) else Some (Inr (abort, sm))))"

definition wpa_supplicant_get_pmk :: "build_config \<Rightarrow> sm_env \<Rightarrow> wpa_sm \<Rightarrow> bytes \<Rightarrow> bytes option \<Rightarrow> (int \<times> wpa_sm) option" where
  "wpa_supplicant_get_pmk cfg env sm src_addr pmkid = do {
     let (pm, abort) = get_pmk_lookup (sm_pm sm) src_addr pmkid;
     let sm = sm\<lparr>sm_pm := pm\<rparr>;
     m \<leftarrow> pmkid_matches pm pmkid;
     res \<leftarrow> (if m then map_option (\<lambda>sm. Inr (abort, emit Notify_Cached sm)) (wpa_sm_set_pmk_from_pmksa sm)
            else if wpa_key_mgmt_wpa_ieee8021x (sm_key_mgmt sm) \<and> sm_eapol sm then get_pmk_eapol cfg env sm src_addr pmkid abort
            else Some (Inr (abort, sm)));
     case res of
       Inl r \<Rightarrow> Some (r, sm)
     | Inr (abort, sm) \<Rightarrow>
         if abort \<and> wpa_key_mgmt_wpa_ieee8021x (sm_key_mgmt sm) \<and> \<not> wpa_key_mgmt_ft (sm_key_mgmt sm)
         then (case wpa_alloc_eapol env IEEE802_1X_TYPE_EAPOL_START 0 of
             Some (hdr, body) \<Rightarrow> Some (-2, emit (Ether_Send (sm_bssid sm) ETH_P_EAPOL (hdr @ body)) sm)
           | None \<Rightarrow> Some (-1, sm))
         else Some (0, sm) }"

definition wpa_supplicant_send_2_of_4 :: "build_config \<Rightarrow> sm_env \<Rightarrow> wpa_sm \<Rightarrow> bytes \<Rightarrow> wpa_eapol_key \<Rightarrow> u16 \<Rightarrow> bytes \<Rightarrow>
    bytes option \<Rightarrow> bytes \<Rightarrow> (int \<times> wpa_sm) option" where
  "wpa_supplicant_send_2_of_4 cfg env sm dst key ver nonce wpa_ie ptk =
     (case wpa_ie of
        None \<Rightarrow> Some (-1, sm)
      | Some ie \<Rightarrow> do {
          r \<leftarrow> eapol_reply env (length ie);
          case r of
            None \<Rightarrow> Some (-1, sm)
          | Some (hdr, reply) \<Rightarrow> do {
              let reply = reply\<lparr>k_type := reply_type sm, k_info := ver OR WPA_KEY_INFO_KEY_TYPE OR WPA_KEY_INFO_MIC,
                k_length := (if sm_proto sm = WPA_PROTO_RSN then 0 else k_length key),
                k_replay_counter := k_replay_counter key, k_data_length := of_nat (length ie), k_data := ie,
                k_nonce := nonce\<rparr>;
              sm \<leftarrow> wpa_eapol_key_send cfg env sm (ptk_kck ptk) ver dst hdr reply True;
              Some (0, sm) } })"

definition wpa_derive_ptk :: "build_config \<Rightarrow> wpa_sm \<Rightarrow> wpa_eapol_key \<Rightarrow> bytes \<Rightarrow> bytes option" where
  "wpa_derive_ptk cfg sm key ptk =
     (let ptk_len = (if sm_pairwise_cipher sm \<noteq> WPA_CIPHER_TKIP then 48 else 64)
      in map_option (\<lambda>p. p @ drop ptk_len ptk)
        (wpa_pmk_to_ptk cfg (take (pc_pmk_len (sm_pm sm)) (pc_pmk (sm_pm sm))) (c_lit ''Pairwise key expansion'')
          (sm_own_addr sm) (sm_bssid sm) (sm_snonce sm) (k_nonce key) ptk_len (wpa_key_mgmt_sha256 (sm_key_mgmt sm))))"

text \<open>Supplicant: swap the MIC keys.\<close>

definition swap_mic_keys :: "bytes \<Rightarrow> bytes" where
  "swap_mic_keys p = take 48 p @ take 8 (drop 56 p) @ take 8 (drop 48 p)"

text \<open>Key data as bytes: NULL is \<open>None\<close> inside.\<close>

definition kd_bytes :: "bytes \<Rightarrow> (nat \<times> nat) option \<Rightarrow> bytes option option" where
  "kd_bytes data s = (case s of None \<Rightarrow> Some None | Some (off, l) \<Rightarrow> map_option Some (c_slice data off l))"

definition process_failed :: "wpa_sm \<Rightarrow> wpa_sm" where
  "process_failed sm = emit (Sm_Deauthenticate 1) sm"

text \<open>The second half, from the SNonce on.\<close>

definition process_1_of_4_reply :: "build_config \<Rightarrow> sm_env \<Rightarrow> wpa_sm \<Rightarrow> wpa_eapol_key \<Rightarrow> u16 \<Rightarrow> wpa_sm option" where
  "process_1_of_4_reply cfg env sm key ver =
     (let sm' = (if sm_renew_snonce sm then
           map_option (\<lambda>r. sm\<lparr>sm_snonce := r, sm_renew_snonce := False\<rparr>) (env_random env) else Some sm)
      in case sm' of
           None \<Rightarrow> Some (process_failed sm)
         | Some sm \<Rightarrow> do {
             ptk \<leftarrow> wpa_derive_ptk cfg sm key (sm_tptk sm);
             let sm = sm\<lparr>sm_tptk := swap_mic_keys ptk, sm_tptk_set := True\<rparr>;
             (r, sm) \<leftarrow> wpa_supplicant_send_2_of_4 cfg env sm (sm_bssid sm) key ver (sm_snonce sm) (sm_assoc_wpa_ie sm) (sm_tptk sm);
             Some (if r \<noteq> 0 then process_failed sm else sm\<lparr>sm_anonce := k_nonce key\<rparr>) })"

definition wpa_supplicant_process_1_of_4 :: "build_config \<Rightarrow> sm_env \<Rightarrow> wpa_sm \<Rightarrow> bytes \<Rightarrow> wpa_eapol_key \<Rightarrow> u16 \<Rightarrow> wpa_sm option" where
  "wpa_supplicant_process_1_of_4 cfg env sm src_addr key ver =
     (if env_network_ctx env = 0 then Some sm
      else do {
        let sm = sm\<lparr>sm_state := WPA_4WAY_HANDSHAKE\<rparr>;
        (r, pmkid) \<leftarrow> (if sm_proto sm = WPA_PROTO_RSN then do {
            data \<leftarrow> c_slice (k_data key) 0 (unat (k_data_length key));
            (r, ie) \<leftarrow> wpa_supplicant_parse_ies cfg data;
            if r < 0 then Some (r, None)
            else map_option (Pair 0) (kd_bytes data (map_option (\<lambda>p. (p, 16)) (kd_pmkid ie))) }
          else Some (0, None));
        if r < 0 then Some (process_failed sm)
        else do {
          (res, sm) \<leftarrow> wpa_supplicant_get_pmk cfg env sm src_addr pmkid;
          if res = -2 then Some sm
          else if res \<noteq> 0 then Some (process_failed sm)
          else process_1_of_4_reply cfg env sm key ver } })"

section \<open>Message 3 of the four-way handshake\<close>

definition wpa_supplicant_key_neg_complete :: "wpa_sm \<Rightarrow> bytes \<Rightarrow> bool \<Rightarrow> wpa_sm option" where
  "wpa_supplicant_key_neg_complete sm addr secure = do {
     let sm = (emit Cancel_Auth_Timeout sm)\<lparr>sm_state := WPA_COMPLETED\<rparr>;
     let sm = (if secure then
         (let sm = emit (Port_Valid True) (emit (Set_Protection addr 3 1) sm);
              sm = (if wpa_key_mgmt_wpa_psk (sm_key_mgmt sm) then emit (Eap_Success True) sm else sm)
          in sm\<lparr>sm_preauth_timer := Some 1\<rparr>)
       else sm);
     case sm_cur_pmksa sm of
       None \<Rightarrow> Some sm
     | Some c \<Rightarrow> do {
         e \<leftarrow> pmksa_deref (sm_pm sm) c;
         Some (if pe_opportunistic e
           then sm\<lparr>sm_pm := pmksa_update c (\<lambda>e. e\<lparr>pe_opportunistic := False\<rparr>) (sm_pm sm)\<rparr> else sm) } }"

definition wpa_supplicant_install_ptk :: "sm_env \<Rightarrow> wpa_sm \<Rightarrow> wpa_eapol_key \<Rightarrow> int \<times> wpa_sm" where
  "wpa_supplicant_install_ptk env sm key =
     (if sm_pairwise_cipher sm = WPA_CIPHER_NONE then (0, sm)
      else if \<not> wpa_cipher_valid_pairwise (sm_pairwise_cipher sm) then (-1, sm)
      else
        (let alg = wpa_cipher_to_alg (sm_pairwise_cipher sm);
             keylen = wpa_cipher_key_len (sm_pairwise_cipher sm);
             rsclen = wpa_cipher_rsc_len (sm_pairwise_cipher sm);
             key_rsc = (if sm_proto sm = WPA_PROTO_RSN then replicate 8 0 else k_rsc key);
             (sm, ok) = wpa_sm_set_key env sm
               (Set_Key alg (Some (sm_bssid sm)) 0 True (take rsclen key_rsc) (take keylen (drop 32 (sm_ptk sm))))
         in if \<not> ok then (-1, sm)
            else (0, if sm_wpa_ptk_rekey sm \<noteq> 0 then sm\<lparr>sm_rekey_timer := Some (sm_wpa_ptk_rekey sm)\<rparr> else sm)))"

text \<open>The algorithm and the length of the receive counter; \<open>None\<close> is the return value -1.\<close>

definition wpa_supplicant_check_group_cipher :: "u32 \<Rightarrow> int \<Rightarrow> int \<Rightarrow> (wpa_alg \<times> nat) option" where
  "wpa_supplicant_check_group_cipher group_cipher keylen maxkeylen =
     (let alg = wpa_cipher_to_alg group_cipher; klen = int (wpa_cipher_key_len group_cipher)
      in if alg = WPA_ALG_NONE then None
         else if keylen \<noteq> klen \<or> maxkeylen < klen then None
         else Some (alg, wpa_cipher_rsc_len group_cipher))"

record wpa_gtk_data =
  gd_alg :: wpa_alg
  gd_tx :: bool
  gd_key_rsc_len :: nat
  gd_keyidx :: nat
  gd_gtk :: bytes
  gd_gtk_len :: nat

definition wpa_supplicant_install_gtk :: "sm_env \<Rightarrow> wpa_sm \<Rightarrow> wpa_gtk_data \<Rightarrow> bytes \<Rightarrow> int \<times> wpa_sm" where
  "wpa_supplicant_install_gtk env sm gd key_rsc =
     (let g = gd_gtk gd;
          gtk = (if sm_group_cipher sm = WPA_CIPHER_TKIP then take 16 g @ take 8 (drop 24 g) @ take 8 (drop 16 g) else g);
          seq = take (gd_key_rsc_len gd) key_rsc;
          k = take (gd_gtk_len gd) gtk;
          (sm, ok) = wpa_sm_set_key env sm
            (if sm_pairwise_cipher sm = WPA_CIPHER_NONE then Set_Key (gd_alg gd) None (gd_keyidx gd) True seq k
             else Set_Key (gd_alg gd) (Some (replicate 6 0xff)) (gd_keyidx gd) (gd_tx gd) seq k)
      in (if ok then 0 else -1, sm))"

definition wpa_supplicant_gtk_tx_bit_workaround :: "wpa_sm \<Rightarrow> bool \<Rightarrow> bool" where
  "wpa_supplicant_gtk_tx_bit_workaround sm tx = (if tx \<and> sm_pairwise_cipher sm \<noteq> WPA_CIPHER_NONE then False else tx)"

definition wpa_supplicant_pairwise_gtk :: "sm_env \<Rightarrow> wpa_sm \<Rightarrow> wpa_eapol_key \<Rightarrow> bytes \<Rightarrow> u16 \<Rightarrow> (int \<times> wpa_sm) option" where
  "wpa_supplicant_pairwise_gtk env sm key gtk key_info =
     (if length gtk < 2 \<or> length gtk - 2 > 32 then Some (-1, sm)
      else
        (let body = drop 2 gtk
         in case wpa_supplicant_check_group_cipher (sm_group_cipher sm) (int (length body)) (int (length body)) of
              None \<Rightarrow> Some (-1, sm)
            | Some (alg, rsclen) \<Rightarrow>
                (let gd = \<lparr>gd_alg = alg, gd_tx = wpa_supplicant_gtk_tx_bit_workaround sm (gtk ! 0 AND 4 \<noteq> 0),
                       gd_key_rsc_len = rsclen, gd_keyidx = unat (gtk ! 0 AND 3),
                       gd_gtk = body @ replicate (32 - length body) 0, gd_gtk_len = length body\<rparr>;
                     (r, sm) = wpa_supplicant_install_gtk env sm gd (k_rsc key)
                 in if r \<noteq> 0 then Some (-1, sm)
                    else do {
                      sm \<leftarrow> wpa_supplicant_key_neg_complete sm (sm_bssid sm) (has key_info WPA_KEY_INFO_SECURE);
                      Some (0, sm) })))"

definition ieee80211w_set_keys :: "build_config \<Rightarrow> sm_env \<Rightarrow> wpa_sm \<Rightarrow> bytes option \<Rightarrow> int \<times> wpa_sm" where
  "ieee80211w_set_keys cfg env sm igtk =
     (if \<not> CONFIG_IEEE80211W cfg \<or> sm_mgmt_group_cipher sm \<noteq> WPA_CIPHER_AES_128_CMAC then (0, sm)
      else case igtk of
        None \<Rightarrow> (0, sm)
      | Some k \<Rightarrow>
          (let keyidx = unat (WPA_GET_LE16 k)
           in if length k \<noteq> 24 then (-1, sm)
              else if keyidx > 4095 then (-1, sm)
              else (let (sm, ok) = wpa_sm_set_key env sm
                      (Set_Key WPA_ALG_IGTK (Some (replicate 6 0xff)) keyidx False (take 6 (drop 2 k)) (take 16 (drop 8 k)))
                    in (if ok then 0 else -1, sm))))"

definition wpa_report_ie_mismatch :: "wpa_sm \<Rightarrow> wpa_sm" where
  "wpa_report_ie_mismatch sm = emit (Sm_Deauthenticate 17) sm"

text \<open>The elements of message 3 against those of the beacon.\<close>

definition wpa_supplicant_validate_ie :: "build_config \<Rightarrow> sm_env \<Rightarrow> wpa_sm \<Rightarrow> bytes option \<Rightarrow> bytes option \<Rightarrow> (int \<times> wpa_sm) option" where
  "wpa_supplicant_validate_ie cfg env sm wpa_ie rsn_ie = do {
     let sm = (if sm_ap_wpa_ie sm = None \<and> sm_ap_rsn_ie sm = None then
         (case env_beacon_ie env of
            None \<Rightarrow> sm
          | Some (w, r) \<Rightarrow> sm\<lparr>sm_ap_wpa_ie := w, sm_ap_rsn_ie := r\<rparr>)
       else sm);
     if wpa_ie = None \<and> rsn_ie = None \<and> (sm_ap_wpa_ie sm \<noteq> None \<or> sm_ap_rsn_ie sm \<noteq> None)
     then Some (-1, wpa_report_ie_mismatch sm)
     else do {
       rsn_differs \<leftarrow> (if rsn_ie \<noteq> None \<and> sm_ap_rsn_ie sm \<noteq> None
         then map_option (\<lambda>c. c \<noteq> 0) (wpa_compare_rsn_ie cfg (wpa_key_mgmt_ft (sm_key_mgmt sm)) (sm_ap_rsn_ie sm) rsn_ie)
         else Some False);
       if wpa_ie \<noteq> None \<and> sm_ap_wpa_ie sm \<noteq> None \<and> wpa_ie \<noteq> sm_ap_wpa_ie sm \<or> rsn_differs
       then Some (-1, wpa_report_ie_mismatch sm)
       else if sm_proto sm = WPA_PROTO_WPA \<and> rsn_ie \<noteq> None \<and> sm_ap_rsn_ie sm = None \<and> sm_rsn_enabled sm \<noteq> 0
       then Some (-1, wpa_report_ie_mismatch sm)
       else Some (0, sm) } }"

definition wpa_supplicant_send_4_of_4 :: "build_config \<Rightarrow> sm_env \<Rightarrow> wpa_sm \<Rightarrow> bytes \<Rightarrow> wpa_eapol_key \<Rightarrow> u16 \<Rightarrow> u16 \<Rightarrow>
    bytes \<Rightarrow> bytes \<Rightarrow> (int \<times> wpa_sm) option" where
  "wpa_supplicant_send_4_of_4 cfg env sm dst key ver key_info kde ptk = do {
     r \<leftarrow> eapol_reply env (length kde);
     case r of
       None \<Rightarrow> Some (-1, sm)
     | Some (hdr, reply) \<Rightarrow> do {
         let reply = reply\<lparr>k_type := reply_type sm,
           k_info := (key_info AND WPA_KEY_INFO_SECURE) OR ver OR WPA_KEY_INFO_KEY_TYPE OR WPA_KEY_INFO_MIC,
           k_length := (if sm_proto sm = WPA_PROTO_RSN then 0 else k_length key),
           k_replay_counter := k_replay_counter key, k_data_length := of_nat (length kde), k_data := kde\<rparr>;
         sm \<leftarrow> wpa_eapol_key_send cfg env sm (ptk_kck ptk) ver dst hdr reply True;
         Some (0, sm) } }"

text \<open>The part after message 4 has been sent: the keys go to the driver.\<close>

definition process_3_of_4_install :: "build_config \<Rightarrow> sm_env \<Rightarrow> wpa_sm \<Rightarrow> wpa_eapol_key \<Rightarrow> bytes option \<Rightarrow> bytes option \<Rightarrow> wpa_sm option" where
  "process_3_of_4_install cfg env sm key gtk igtk =
     (let key_info = k_info key; sm = sm\<lparr>sm_renew_snonce := True\<rparr>;
          (r, sm) = (if has key_info WPA_KEY_INFO_INSTALL then wpa_supplicant_install_ptk env sm key else (0, sm))
      in if r \<noteq> 0 then Some (process_failed sm)
         else do {
           let sm = (if has key_info WPA_KEY_INFO_SECURE
             then emit (Port_Valid True) (emit (Set_Protection (sm_bssid sm) 1 1) sm) else sm);
           let sm = sm\<lparr>sm_state := WPA_GROUP_HANDSHAKE\<rparr>;
           (r, sm) \<leftarrow> (case gtk of None \<Rightarrow> Some (0, sm) | Some g \<Rightarrow> wpa_supplicant_pairwise_gtk env sm key g key_info);
           if r < 0 then Some (process_failed sm)
           else
             (let (r, sm) = ieee80211w_set_keys cfg env sm igtk
              in Some (if r < 0 then process_failed sm
                       else if gtk \<noteq> None then wpa_sm_set_rekey_offload sm else sm)) })"

definition wpa_supplicant_process_3_of_4 :: "build_config \<Rightarrow> sm_env \<Rightarrow> wpa_sm \<Rightarrow> wpa_eapol_key \<Rightarrow> u16 \<Rightarrow> wpa_sm option" where
  "wpa_supplicant_process_3_of_4 cfg env sm key ver = do {
     let sm = sm\<lparr>sm_state := WPA_4WAY_HANDSHAKE\<rparr>;
     let key_info = k_info key;
     data \<leftarrow> c_slice (k_data key) 0 (unat (k_data_length key));
     (r, ie) \<leftarrow> wpa_supplicant_parse_ies cfg data;
     gtk \<leftarrow> kd_bytes data (kd_gtk ie);
     igtk \<leftarrow> kd_bytes data (kd_igtk ie);
     wpa_ie \<leftarrow> kd_bytes data (kd_wpa_ie ie);
     rsn_ie \<leftarrow> kd_bytes data (kd_rsn_ie ie);
     if r < 0 then Some (process_failed sm)
     else if gtk \<noteq> None \<and> \<not> has key_info WPA_KEY_INFO_ENCR_KEY_DATA then Some (process_failed sm)
     else if CONFIG_IEEE80211W cfg \<and> igtk \<noteq> None \<and> \<not> has key_info WPA_KEY_INFO_ENCR_KEY_DATA then Some (process_failed sm)
     else if CONFIG_IEEE80211W cfg \<and> (\<exists>k. igtk = Some k \<and> length k \<noteq> 24) then Some (process_failed sm)
     else do {
       (r, sm) \<leftarrow> wpa_supplicant_validate_ie cfg env sm wpa_ie rsn_ie;
       if r < 0 then Some (process_failed sm)
       else if sm_anonce sm \<noteq> k_nonce key then Some (process_failed sm)
       else if unat (k_length key) \<noteq> wpa_cipher_key_len (sm_pairwise_cipher sm) then Some (process_failed sm)
       else do {
         (r, sm) \<leftarrow> wpa_supplicant_send_4_of_4 cfg env sm (sm_bssid sm) key ver key_info [] (sm_ptk sm);
         if r \<noteq> 0 then Some (process_failed sm)
         else process_3_of_4_install cfg env sm key gtk igtk } } }"

section \<open>Group key handshake\<close>

text \<open>The group key out of the key data; \<open>None\<close> inside is the return value -1.\<close>

definition wpa_supplicant_process_1_of_2_rsn :: "build_config \<Rightarrow> sm_env \<Rightarrow> wpa_sm \<Rightarrow> bytes \<Rightarrow> u16 \<Rightarrow>
    (wpa_gtk_data option \<times> wpa_sm) option" where
  "wpa_supplicant_process_1_of_2_rsn cfg env sm keydata key_info = do {
     (r, ie) \<leftarrow> wpa_supplicant_parse_ies cfg keydata;
     gtk \<leftarrow> kd_bytes keydata (kd_gtk ie);
     igtk \<leftarrow> kd_bytes keydata (kd_igtk ie);
     if r < 0 then Some (None, sm)
     else case gtk of
       None \<Rightarrow> Some (None, sm)
     | Some g \<Rightarrow>
         if \<not> has key_info WPA_KEY_INFO_ENCR_KEY_DATA then Some (None, sm)
         else case wpa_supplicant_check_group_cipher (sm_group_cipher sm) (int (length g) - 2) (int (length g) - 2) of
           None \<Rightarrow> Some (None, sm)
         | Some (alg, rsclen) \<Rightarrow>
             if length g - 2 > 32 then Some (None, sm)
             else
               (let body = drop 2 g;
                    gd = \<lparr>gd_alg = alg, gd_tx = wpa_supplicant_gtk_tx_bit_workaround sm (g ! 0 AND 4 \<noteq> 0),
                      gd_key_rsc_len = rsclen, gd_keyidx = unat (g ! 0 AND 3),
                      gd_gtk = body @ replicate (32 - length body) 0, gd_gtk_len = length body\<rparr>;
                    (r, sm) = ieee80211w_set_keys cfg env sm igtk
                in Some (Some gd, sm)) }"

definition wpa_supplicant_process_1_of_2_wpa :: "sm_env \<Rightarrow> wpa_sm \<Rightarrow> wpa_eapol_key \<Rightarrow> nat \<Rightarrow> u16 \<Rightarrow> nat \<Rightarrow> u16 \<Rightarrow>
    wpa_gtk_data option option" where
  "wpa_supplicant_process_1_of_2_wpa env sm key keydatalen key_info extra_len ver =
     (let gtk_len = unat (k_length key);
          maxkeylen = (if ver = 2 then keydatalen - 8 else keydatalen)
      in if keydatalen > extra_len then Some None
         else if ver = 2 \<and> keydatalen < 8 then Some None
         else case wpa_supplicant_check_group_cipher (sm_group_cipher sm) (int gtk_len) (int maxkeylen) of
           None \<Rightarrow> Some None
         | Some (alg, rsclen) \<Rightarrow> do {
             gtk \<leftarrow> (if ver = 1 then
                 (if keydatalen > 32 then Some None
                  else do {
                    data \<leftarrow> c_slice (k_data key) 0 keydatalen;
                    (r, g) \<leftarrow> rc4_skip (k_iv key @ ptk_kek (sm_ptk sm)) 256 data;
                    Some (if r \<noteq> 0 then None else Some (g @ replicate (32 - length g) 0)) })
               else if ver = 2 then
                 (if keydatalen mod 8 \<noteq> 0 then Some None
                  else if maxkeylen > 32 then Some None
                  else do {
                    (r, g) \<leftarrow> aes_unwrap (env_alloc env) (ptk_kek (sm_ptk sm)) (maxkeylen div 8) (k_data key);
                    Some (if r \<noteq> 0 then None else Some (g @ replicate (32 - length g) 0)) })
               else Some None);
             Some (map_option (\<lambda>g. \<lparr>gd_alg = alg,
               gd_tx = wpa_supplicant_gtk_tx_bit_workaround sm (has key_info WPA_KEY_INFO_TXRX),
               gd_key_rsc_len = rsclen, gd_keyidx = unat (drop_bit 4 (key_info AND WPA_KEY_INFO_KEY_INDEX_MASK)),
               gd_gtk = g, gd_gtk_len = gtk_len\<rparr>) gtk) })"

definition wpa_supplicant_send_2_of_2 :: "build_config \<Rightarrow> sm_env \<Rightarrow> wpa_sm \<Rightarrow> wpa_eapol_key \<Rightarrow> u16 \<Rightarrow> u16 \<Rightarrow> (int \<times> wpa_sm) option" where
  "wpa_supplicant_send_2_of_2 cfg env sm key ver key_info = do {
     r \<leftarrow> eapol_reply env 0;
     case r of
       None \<Rightarrow> Some (-1, sm)
     | Some (hdr, reply) \<Rightarrow> do {
         let reply = reply\<lparr>k_type := reply_type sm,
           k_info := (key_info AND WPA_KEY_INFO_KEY_INDEX_MASK) OR ver OR WPA_KEY_INFO_MIC OR WPA_KEY_INFO_SECURE,
           k_length := (if sm_proto sm = WPA_PROTO_RSN then 0 else k_length key),
           k_replay_counter := k_replay_counter key, k_data_length := 0\<rparr>;
         sm \<leftarrow> wpa_eapol_key_send cfg env sm (ptk_kck (sm_ptk sm)) ver (sm_bssid sm) hdr reply True;
         Some (0, sm) } }"

definition wpa_supplicant_process_1_of_2 :: "build_config \<Rightarrow> sm_env \<Rightarrow> wpa_sm \<Rightarrow> wpa_eapol_key \<Rightarrow> nat \<Rightarrow> u16 \<Rightarrow> wpa_sm option" where
  "wpa_supplicant_process_1_of_2 cfg env sm key extra_len ver = do {
     let rekey = (sm_state sm = WPA_COMPLETED);
     let key_info = k_info key;
     let keydatalen = unat (k_data_length key);
     (gd, sm) \<leftarrow> (if sm_proto sm = WPA_PROTO_RSN then do {
         data \<leftarrow> c_slice (k_data key) 0 keydatalen;
         wpa_supplicant_process_1_of_2_rsn cfg env sm data key_info }
       else map_option (\<lambda>gd. (gd, sm)) (wpa_supplicant_process_1_of_2_wpa env sm key keydatalen key_info extra_len ver));
     let sm = sm\<lparr>sm_state := WPA_GROUP_HANDSHAKE\<rparr>;
     case gd of
       None \<Rightarrow> Some (process_failed sm)
     | Some gd \<Rightarrow>
         (let (r, sm) = wpa_supplicant_install_gtk env sm gd (k_rsc key)
          in if r \<noteq> 0 then Some (process_failed sm)
             else do {
               (r, sm) \<leftarrow> wpa_supplicant_send_2_of_2 cfg env sm key ver key_info;
               if r \<noteq> 0 then Some (process_failed sm)
               else do {
                 sm \<leftarrow> (if rekey then Some ((emit Cancel_Auth_Timeout sm)\<lparr>sm_state := WPA_COMPLETED\<rparr>)
                       else wpa_supplicant_key_neg_complete sm (sm_bssid sm) (has key_info WPA_KEY_INFO_SECURE));
                 Some (wpa_sm_set_rekey_offload sm) } }) }"

section \<open>Reception\<close>

text \<open>The MIC of a received frame under a key: the field is cleared, then computed in place; it stays cleared
  when \<open>wpa_eapol_key_mic\<close> fails. \<open>buf\<close> is the frame, its MIC field at offset 81.\<close>

definition mic_check :: "build_config \<Rightarrow> bytes \<Rightarrow> u16 \<Rightarrow> bytes \<Rightarrow> bytes \<Rightarrow> bool option" where
  "mic_check cfg kck ver mic buf = do {
     (r, m) \<leftarrow> wpa_eapol_key_mic cfg kck (uint ver) (take 81 buf @ replicate 16 0 @ drop 97 buf);
     Some (mic = (if r \<noteq> 0 then replicate 16 0 else m)) }"

definition wpa_supplicant_verify_eapol_key_mic :: "build_config \<Rightarrow> wpa_sm \<Rightarrow> wpa_eapol_key \<Rightarrow> u16 \<Rightarrow> bytes \<Rightarrow> (int \<times> wpa_sm) option" where
  "wpa_supplicant_verify_eapol_key_mic cfg sm key ver buf = do {
     tok \<leftarrow> (if sm_tptk_set sm then mic_check cfg (ptk_kck (sm_tptk sm)) ver (k_mic key) buf else Some False);
     let sm = (if tok then sm\<lparr>sm_tptk_set := False, sm_ptk_set := True, sm_ptk := sm_tptk sm\<rparr> else sm);
     ok \<leftarrow> (if \<not> tok \<and> sm_ptk_set sm then mic_check cfg (ptk_kck (sm_ptk sm)) ver (k_mic key) buf else Some tok);
     if \<not> ok then Some (-1, sm)
     else Some (0, sm\<lparr>sm_rx_replay_counter := k_replay_counter key, sm_rx_replay_counter_set := True\<rparr>) }"

text \<open>Key data lengths are \<open>u16\<close>: subtracting the 8 bytes of the key wrap wraps around below 8.\<close>

definition wpa_supplicant_decrypt_key_data :: "sm_env \<Rightarrow> wpa_sm \<Rightarrow> wpa_eapol_key \<Rightarrow> u16 \<Rightarrow> (int \<times> wpa_eapol_key) option" where
  "wpa_supplicant_decrypt_key_data env sm key ver =
     (let keydatalen = k_data_length key
      in if \<not> sm_ptk_set sm then Some (-1, key)
         else if ver = 1 then do {
           data \<leftarrow> c_slice (k_data key) 0 (unat keydatalen);
           (r, d) \<leftarrow> rc4_skip (k_iv key @ ptk_kek (sm_ptk sm)) 256 data;
           Some (if r \<noteq> 0 then -1 else 0, key\<lparr>k_data := d @ drop (unat keydatalen) (k_data key)\<rparr>) }
         else if ver = 2 \<or> ver = 3 then
           (if unat keydatalen mod 8 \<noteq> 0 then Some (-1, key)
            else if \<not> env_alloc env then Some (-1, key)
            else
              (let keydatalen = keydatalen - 8
               in do {
                 (r, d) \<leftarrow> aes_unwrap (env_alloc env) (ptk_kek (sm_ptk sm)) (unat keydatalen div 8) (k_data key);
                 if r \<noteq> 0 then Some (-1, key)
                 else Some (0, key\<lparr>k_data := d @ drop (unat keydatalen) (k_data key), k_data_length := keydatalen\<rparr>) }))
         else Some (-1, key))"

text \<open>The checks on the descriptor version.\<close>

definition eapol_version_ok :: "build_config \<Rightarrow> wpa_sm \<Rightarrow> u16 \<Rightarrow> u16 \<Rightarrow> bool" where
  "eapol_version_ok cfg sm key_info ver \<longleftrightarrow>
     (ver = 1 \<or> ver = 2 \<or> (CONFIG_IEEE80211W cfg \<and> ver = 3)) \<and>
     (if CONFIG_IEEE80211W cfg \<and> wpa_key_mgmt_sha256 (sm_key_mgmt sm) then ver = 3
      else sm_pairwise_cipher sm = WPA_CIPHER_CCMP \<and> ver \<noteq> 2 \<longrightarrow>
        sm_group_cipher sm \<noteq> WPA_CIPHER_CCMP \<and> \<not> has key_info WPA_KEY_INFO_KEY_TYPE) \<and>
     (sm_pairwise_cipher sm = WPA_CIPHER_GCMP \<longrightarrow> ver = 2)"

text \<open>What follows the checks on the key information: MIC, key data and the dispatch on the message.\<close>

definition rx_eapol_dispatch :: "build_config \<Rightarrow> sm_env \<Rightarrow> wpa_sm \<Rightarrow> bytes \<Rightarrow> wpa_eapol_key \<Rightarrow> u16 \<Rightarrow> nat \<Rightarrow> wpa_sm option" where
  "rx_eapol_dispatch cfg env sm src_addr key ver extra_len =
     (if has (k_info key) WPA_KEY_INFO_KEY_TYPE
      then (if has (k_info key) WPA_KEY_INFO_MIC then wpa_supplicant_process_3_of_4 cfg env sm key ver
            else wpa_supplicant_process_1_of_4 cfg env sm src_addr key ver)
      else if has (k_info key) WPA_KEY_INFO_SMK_MESSAGE then Some sm
      else if has (k_info key) WPA_KEY_INFO_MIC then wpa_supplicant_process_1_of_2 cfg env sm key extra_len ver
      else Some sm)"

definition rx_eapol_key :: "build_config \<Rightarrow> sm_env \<Rightarrow> wpa_sm \<Rightarrow> bytes \<Rightarrow> bytes \<Rightarrow> wpa_eapol_key \<Rightarrow> (int \<times> wpa_sm) option" where
  "rx_eapol_key cfg env sm src_addr buf key = do {
     let key_info = k_info key;
     let ver = key_info AND WPA_KEY_INFO_TYPE_MASK;
     (r, sm) \<leftarrow> (if has key_info WPA_KEY_INFO_MIC then wpa_supplicant_verify_eapol_key_mic cfg sm key ver buf else Some (0, sm));
     if r \<noteq> 0 then Some (-1, sm)
     else if unat (k_data_length key) > length buf - 4 - 95 then Some (-1, sm)
     else do {
       (r, key) \<leftarrow> (if sm_proto sm = WPA_PROTO_RSN \<and> has key_info WPA_KEY_INFO_ENCR_KEY_DATA
         then wpa_supplicant_decrypt_key_data env sm key ver else Some (0, key));
       if r \<noteq> 0 then Some (-1, sm)
       else if has key_info WPA_KEY_INFO_KEY_TYPE \<and> has key_info WPA_KEY_INFO_KEY_INDEX_MASK then Some (-1, sm)
       else map_option (Pair 1) (rx_eapol_dispatch cfg env sm src_addr key ver (unat (k_data_length key))) } }"

definition wpa_sm_rx_eapol :: "build_config \<Rightarrow> sm_env \<Rightarrow> wpa_sm \<Rightarrow> bytes \<Rightarrow> bytes \<Rightarrow> (int \<times> wpa_sm) option" where
  "wpa_sm_rx_eapol cfg env sm src_addr buf =
     (if length buf < 99 then Some (0, sm)
      else if \<not> env_alloc env then Some (-1, sm)
      else
        (let plen = unat (WPA_GET_BE16 (drop 2 buf));
             key = eapol_key_of (drop 4 buf);
             key_info = k_info key;
             ver = key_info AND WPA_KEY_INFO_TYPE_MASK
         in if buf ! 1 \<noteq> IEEE802_1X_TYPE_EAPOL_KEY then Some (0, sm)
            else if plen > length buf - 4 \<or> plen < 95 then Some (0, sm)
            else if k_type key \<noteq> EAPOL_KEY_TYPE_WPA \<and> k_type key \<noteq> EAPOL_KEY_TYPE_RSN then Some (0, sm)
            else
              (let sm = emit Lower_Layer_Success sm
               in if \<not> eapol_version_ok cfg sm key_info ver then Some (-1, sm)
                  else do {
                    c \<leftarrow> os_memcmp (k_replay_counter key) (sm_rx_replay_counter sm) 8;
                    if sm_rx_replay_counter_set sm \<and> c \<le> 0 then Some (-1, sm)
                    else if \<not> has key_info (WPA_KEY_INFO_ACK OR WPA_KEY_INFO_SMK_MESSAGE) then Some (-1, sm)
                    else if has key_info WPA_KEY_INFO_REQUEST then Some (-1, sm)
                    else rx_eapol_key cfg env sm src_addr (take (plen + 4) buf) key })))"

section \<open>Control by the rest of the supplicant\<close>

definition wpa_sm_init :: "wpa_sm" where
  "wpa_sm_init = \<lparr>sm_pm = (pmksa_cache_init (replicate 6 0) (replicate 6 0)), sm_ptk = replicate 64 0,
     sm_tptk = replicate 64 0, sm_ptk_set = False, sm_tptk_set = False, sm_snonce = replicate 32 0,
     sm_anonce = replicate 32 0, sm_renew_snonce = True, sm_rx_replay_counter = replicate 8 0,
     sm_rx_replay_counter_set = False, sm_request_counter = replicate 8 0, sm_eapol = False,
     sm_preauth_bssid = replicate 6 0, sm_network_ctx = 0, sm_wpa_ptk_rekey = 0,
     sm_dot11RSNAConfigSATimeout = 60, sm_dot11RSNA4WayHandshakeFailures = 0, sm_proto = 0,
     sm_pairwise_cipher = 0, sm_group_cipher = 0, sm_key_mgmt = 0, sm_mgmt_group_cipher = 0,
     sm_rsn_enabled = 0, sm_mfp = 0, sm_assoc_wpa_ie = None, sm_ap_wpa_ie = None, sm_ap_rsn_ie = None,
     sm_state = WPA_DISCONNECTED, sm_rekey_timer = None, sm_preauth_timer = None, sm_log = []\<rparr>"

definition wpa_sm_aborted_cached :: "wpa_sm \<Rightarrow> wpa_sm" where
  "wpa_sm_aborted_cached sm = sm\<lparr>sm_pm := (sm_pm sm)\<lparr>pc_cur_pmksa := None\<rparr>\<rparr>"

definition wpa_sm_rekey_ptk :: "build_config \<Rightarrow> sm_env \<Rightarrow> wpa_sm \<Rightarrow> wpa_sm option" where
  "wpa_sm_rekey_ptk cfg env sm = wpa_sm_key_request cfg env sm False True"

definition wpa_sm_notify_assoc :: "wpa_sm \<Rightarrow> bytes \<Rightarrow> wpa_sm" where
  "wpa_sm_notify_assoc sm bssid =
     (let sm = sm\<lparr>sm_pm := (sm_pm sm)\<lparr>pc_bssid := take 6 bssid\<rparr>, sm_rx_replay_counter := replicate 8 0,
            sm_rx_replay_counter_set := False, sm_renew_snonce := True\<rparr>;
          sm = (if sm_preauth_bssid sm = take 6 bssid then emit Preauth_Deinit sm else sm)
      in sm\<lparr>sm_ptk_set := False, sm_tptk_set := False\<rparr>)"

definition wpa_sm_notify_disassoc :: "wpa_sm \<Rightarrow> wpa_sm" where
  "wpa_sm_notify_disassoc sm =
     (let sm = emit Preauth_Deinit sm; sm = sm\<lparr>sm_pm := pmksa_cache_clear_current (sm_pm sm)\<rparr>
      in if sm_state sm = WPA_4WAY_HANDSHAKE
         then sm\<lparr>sm_dot11RSNA4WayHandshakeFailures := sm_dot11RSNA4WayHandshakeFailures sm + 1\<rparr> else sm)"

text \<open>The array has 32 bytes; more are written outside of it.\<close>

definition wpa_sm_set_pmk :: "wpa_sm \<Rightarrow> bytes \<Rightarrow> wpa_sm option" where
  "wpa_sm_set_pmk sm pmk =
     (if length (pc_pmk (sm_pm sm)) < length pmk then None
      else Some (sm\<lparr>sm_pm := (sm_pm sm)\<lparr>pc_pmk_len := length pmk, pc_pmk := pmk @ drop (length pmk) (pc_pmk (sm_pm sm))\<rparr>\<rparr>))"

text \<open>The fields of the network configuration that the modelled code reads; \<open>None\<close> clears them.\<close>

definition wpa_sm_set_config :: "wpa_sm \<Rightarrow> (nat \<times> int) option \<Rightarrow> wpa_sm" where
  "wpa_sm_set_config sm config =
     (case config of
        Some (ctx, rekey) \<Rightarrow> sm\<lparr>sm_network_ctx := ctx, sm_wpa_ptk_rekey := rekey\<rparr>
      | None \<Rightarrow> sm\<lparr>sm_network_ctx := 0, sm_wpa_ptk_rekey := 0\<rparr>)"

definition wpa_sm_set_own_addr :: "wpa_sm \<Rightarrow> bytes \<Rightarrow> wpa_sm" where
  "wpa_sm_set_own_addr sm addr = sm\<lparr>sm_pm := (sm_pm sm)\<lparr>pc_own_addr := take 6 addr\<rparr>\<rparr>"

definition wpa_sm_set_eapol :: "wpa_sm \<Rightarrow> bool \<Rightarrow> wpa_sm" where
  "wpa_sm_set_eapol sm eapol = sm\<lparr>sm_eapol := eapol\<rparr>"

datatype wpa_sm_conf_params = RSNA_PMK_LIFETIME | RSNA_PMK_REAUTH_THRESHOLD | RSNA_SA_TIMEOUT
  | WPA_PARAM_PROTO | WPA_PARAM_PAIRWISE | WPA_PARAM_GROUP | WPA_PARAM_KEY_MGMT | WPA_PARAM_MGMT_GROUP
  | WPA_PARAM_RSN_ENABLED | WPA_PARAM_MFP

fun wpa_sm_set_param :: "build_config \<Rightarrow> wpa_sm \<Rightarrow> wpa_sm_conf_params \<Rightarrow> u32 \<Rightarrow> int \<times> wpa_sm" where
  "wpa_sm_set_param cfg sm RSNA_PMK_LIFETIME v =
     (if v > 0 then (0, sm\<lparr>sm_pm := (sm_pm sm)\<lparr>pc_PMKLifetime := v\<rparr>\<rparr>) else (-1, sm))"
| "wpa_sm_set_param cfg sm RSNA_PMK_REAUTH_THRESHOLD v =
     (if v > 0 \<and> v \<le> 100 then (0, sm\<lparr>sm_pm := (sm_pm sm)\<lparr>pc_PMKReauthThreshold := v\<rparr>\<rparr>) else (-1, sm))"
| "wpa_sm_set_param cfg sm RSNA_SA_TIMEOUT v =
     (if v > 0 then (0, sm\<lparr>sm_dot11RSNAConfigSATimeout := v\<rparr>) else (-1, sm))"
| "wpa_sm_set_param cfg sm WPA_PARAM_PROTO v = (0, sm\<lparr>sm_proto := v\<rparr>)"
| "wpa_sm_set_param cfg sm WPA_PARAM_PAIRWISE v = (0, sm\<lparr>sm_pairwise_cipher := v\<rparr>)"
| "wpa_sm_set_param cfg sm WPA_PARAM_GROUP v = (0, sm\<lparr>sm_group_cipher := v\<rparr>)"
| "wpa_sm_set_param cfg sm WPA_PARAM_KEY_MGMT v = (0, sm\<lparr>sm_key_mgmt := v\<rparr>)"
| "wpa_sm_set_param cfg sm WPA_PARAM_MGMT_GROUP v =
     (0, if CONFIG_IEEE80211W cfg then sm\<lparr>sm_mgmt_group_cipher := v\<rparr> else sm)"
| "wpa_sm_set_param cfg sm WPA_PARAM_RSN_ENABLED v = (0, sm\<lparr>sm_rsn_enabled := v\<rparr>)"
| "wpa_sm_set_param cfg sm WPA_PARAM_MFP v = (0, sm\<lparr>sm_mfp := sint v\<rparr>)"

fun wpa_sm_get_param :: "build_config \<Rightarrow> wpa_sm \<Rightarrow> wpa_sm_conf_params \<Rightarrow> u32" where
  "wpa_sm_get_param cfg sm RSNA_PMK_LIFETIME = pc_PMKLifetime (sm_pm sm)"
| "wpa_sm_get_param cfg sm RSNA_PMK_REAUTH_THRESHOLD = pc_PMKReauthThreshold (sm_pm sm)"
| "wpa_sm_get_param cfg sm RSNA_SA_TIMEOUT = sm_dot11RSNAConfigSATimeout sm"
| "wpa_sm_get_param cfg sm WPA_PARAM_PROTO = sm_proto sm"
| "wpa_sm_get_param cfg sm WPA_PARAM_PAIRWISE = sm_pairwise_cipher sm"
| "wpa_sm_get_param cfg sm WPA_PARAM_GROUP = sm_group_cipher sm"
| "wpa_sm_get_param cfg sm WPA_PARAM_KEY_MGMT = sm_key_mgmt sm"
| "wpa_sm_get_param cfg sm WPA_PARAM_MGMT_GROUP = (if CONFIG_IEEE80211W cfg then sm_mgmt_group_cipher sm else 0)"
| "wpa_sm_get_param cfg sm WPA_PARAM_RSN_ENABLED = sm_rsn_enabled sm"
| "wpa_sm_get_param cfg sm WPA_PARAM_MFP = 0"

text \<open>The policy from which \<open>wpa_gen_wpa_ie\<close> generates the element.\<close>

definition sm_policy :: "wpa_sm \<Rightarrow> ie_policy option" where
  "sm_policy sm = do {
     pmkid \<leftarrow> (case sm_cur_pmksa sm of None \<Rightarrow> Some None
              | Some c \<Rightarrow> map_option (\<lambda>e. Some (pe_pmkid e)) (pmksa_deref (sm_pm sm) c));
     Some \<lparr>ip_proto = sm_proto sm, ip_pairwise_cipher = sm_pairwise_cipher sm, ip_group_cipher = sm_group_cipher sm,
       ip_key_mgmt = sm_key_mgmt sm, ip_mgmt_group_cipher = sm_mgmt_group_cipher sm, ip_mfp = sm_mfp sm,
       ip_cur_pmksa = pmkid\<rparr> }"

text \<open>The result is the return value, the element stored for the caller and the state.\<close>

definition wpa_sm_set_assoc_wpa_ie_default :: "build_config \<Rightarrow> bool \<Rightarrow> wpa_sm \<Rightarrow> nat \<Rightarrow> (int \<times> bytes \<times> wpa_sm) option" where
  "wpa_sm_set_assoc_wpa_ie_default cfg mem sm wpa_ie_len = do {
     p \<leftarrow> sm_policy sm;
     (res, ie) \<leftarrow> wpa_gen_wpa_ie cfg p wpa_ie_len;
     Some (if res < 0 then (-1, ie, sm)
           else if sm_assoc_wpa_ie sm \<noteq> None then (0, ie, sm)
           else if \<not> mem then (-1, ie, sm)
           else (0, ie, sm\<lparr>sm_assoc_wpa_ie := Some ie\<rparr>)) }"

text \<open>The three setters free the old element first; a failed allocation leaves NULL.\<close>

definition stored_ie :: "bool \<Rightarrow> bytes option \<Rightarrow> int \<times> bytes option" where
  "stored_ie mem ie = (if ie = None \<or> ie = Some [] then (0, None) else if mem then (0, ie) else (-1, None))"

definition wpa_sm_set_assoc_wpa_ie :: "bool \<Rightarrow> wpa_sm \<Rightarrow> bytes option \<Rightarrow> int \<times> wpa_sm" where
  "wpa_sm_set_assoc_wpa_ie mem sm ie = (let (r, x) = stored_ie mem ie in (r, sm\<lparr>sm_assoc_wpa_ie := x\<rparr>))"

definition wpa_sm_set_ap_wpa_ie :: "bool \<Rightarrow> wpa_sm \<Rightarrow> bytes option \<Rightarrow> int \<times> wpa_sm" where
  "wpa_sm_set_ap_wpa_ie mem sm ie = (let (r, x) = stored_ie mem ie in (r, sm\<lparr>sm_ap_wpa_ie := x\<rparr>))"

definition wpa_sm_set_ap_rsn_ie :: "bool \<Rightarrow> wpa_sm \<Rightarrow> bytes option \<Rightarrow> int \<times> wpa_sm" where
  "wpa_sm_set_ap_rsn_ie mem sm ie = (let (r, x) = stored_ie mem ie in (r, sm\<lparr>sm_ap_rsn_ie := x\<rparr>))"

definition wpa_sm_parse_own_wpa_ie :: "build_config \<Rightarrow> wpa_sm \<Rightarrow> (int \<times> wpa_ie_data option) option" where
  "wpa_sm_parse_own_wpa_ie cfg sm =
     (case sm_assoc_wpa_ie sm of
        None \<Rightarrow> Some (-1, None)
      | Some ie \<Rightarrow> map_option (\<lambda>(r, d). (if r \<noteq> 0 then -2 else 0, Some d)) (wpa_parse_wpa_ie cfg ie))"

definition wpa_sm_pmf_enabled :: "build_config \<Rightarrow> wpa_sm \<Rightarrow> bool option" where
  "wpa_sm_pmf_enabled cfg sm =
     (case sm_ap_rsn_ie sm of
        None \<Rightarrow> Some False
      | Some ie \<Rightarrow>
          if sm_mfp sm = 0 then Some False
          else map_option (\<lambda>(r, d). r \<ge> 0 \<and> ie_capabilities d AND 0xc0 \<noteq> 0) (wpa_parse_wpa_ie_rsn cfg ie))"

definition wpa_sm_drop_sa :: "wpa_sm \<Rightarrow> wpa_sm" where
  "wpa_sm_drop_sa sm = sm\<lparr>sm_ptk_set := False, sm_tptk_set := False,
     sm_pm := (sm_pm sm)\<lparr>pc_pmk := replicate (length (pc_pmk (sm_pm sm))) 0\<rparr>,
     sm_ptk := replicate (length (sm_ptk sm)) 0, sm_tptk := replicate (length (sm_tptk sm)) 0\<rparr>"

definition wpa_sm_has_ptk :: "wpa_sm \<Rightarrow> bool" where
  "wpa_sm_has_ptk sm = sm_ptk_set sm"

definition wpa_sm_update_replay_ctr :: "wpa_sm \<Rightarrow> bytes \<Rightarrow> wpa_sm" where
  "wpa_sm_update_replay_ctr sm replay_ctr = sm\<lparr>sm_rx_replay_counter := take 8 replay_ctr\<rparr>"

definition wpa_sm_pmksa_cache_flush :: "int \<Rightarrow> wpa_sm \<Rightarrow> nat \<Rightarrow> wpa_sm" where
  "wpa_sm_pmksa_cache_flush now sm network_ctx = sm\<lparr>sm_pm := pmksa_cache_flush now (sm_pm sm) network_ctx None\<rparr>"

end
