(* ===== verification/Wpa_Sm_Safe.thy ===== *)
theory Wpa_Sm_Safe
  imports Wpa_Sm
begin

text \<open>
  Memory safety of the supplicant's state machine. A weakest precondition \<open>wp\<close> for computations that may fail
  carries the proofs: one lemma per handler of \<open>rsn_supp/wpa.c\<close>, from the bottom up, says that the handler returns,
  that it keeps the state well formed (\<open>sm_wf\<close>), and which events it adds to the log. The properties at the end
  follow from the lemma on \<open>wpa_sm_rx_eapol\<close>.
\<close>

section \<open>Weakest preconditions\<close>

definition wp :: "'a option \<Rightarrow> ('a \<Rightarrow> bool) \<Rightarrow> bool" where
  "wp m P \<longleftrightarrow> (\<exists>x. m = Some x \<and> P x)"

named_theorems wp_simps "rules of the weakest precondition"

lemma wp_Some [wp_simps, simp]: "wp (Some x) P = P x"
  by (simp add: wp_def)

lemma wp_None [wp_simps, simp]: "\<not> wp None P"
  by (simp add: wp_def)

lemma wp_bind [wp_simps, simp]: "wp (m \<bind> f) P = wp m (\<lambda>x. wp (f x) P)"
  by (cases m) simp_all

lemma wp_map [wp_simps, simp]: "wp (map_option f m) P = wp m (\<lambda>x. P (f x))"
  by (cases m) simp_all

lemma wp_mono: "wp m P \<Longrightarrow> (\<And>x. m = Some x \<Longrightarrow> P x \<Longrightarrow> Q x) \<Longrightarrow> wp m Q"
  by (auto simp: wp_def)

lemma wp_slice [wp_simps]: "i + n \<le> length xs \<Longrightarrow> wp (c_slice xs i n) P = P (take n (drop i xs))"
  by simp

section \<open>The PMKSA cache inside the state machine\<close>

definition pm_fields :: "rsn_pmksa_cache \<Rightarrow> rsn_pmksa_cache \<Rightarrow> bool" where
  "pm_fields s s' \<longleftrightarrow> pc_bssid s' = pc_bssid s \<and> pc_own_addr s' = pc_own_addr s \<and> pc_pmk_len s' = pc_pmk_len s \<and>
     length (pc_pmk s') = length (pc_pmk s)"

lemma pm_fields_refl [simp]: "pm_fields s s"
  by (simp add: pm_fields_def)

lemma pm_fields_trans [trans]: "pm_fields s s' \<Longrightarrow> pm_fields s' s'' \<Longrightarrow> pm_fields s s''"
  by (simp add: pm_fields_def)

lemma pm_fields_list [simp]: "pm_fields (s\<lparr>pc_pmksa := xs\<rparr>) s' = pm_fields s s'" "pm_fields s (s'\<lparr>pc_pmksa := xs\<rparr>) = pm_fields s s'"
  "pm_fields s (s'\<lparr>pc_pmksa_count := c, pc_log := l\<rparr>) = pm_fields s s'"
  by (simp_all add: pm_fields_def)

lemma pm_fields_free [simp]: "pm_fields s (pmksa_cache_free_entry s' e r) = pm_fields s s'"
  by (simp add: pmksa_cache_free_entry_def wpa_sm_pmksa_free_cb_def Let_def pm_fields_def pmksa_cache_clear_current_def)

lemma pm_fields_set_expiration [simp]: "pm_fields s (pmksa_cache_set_expiration now s') = pm_fields s s'"
  by (simp add: pmksa_cache_set_expiration_def Let_def pm_fields_def split: list.splits)

lemma pm_fields_flush_loop: "pm_fields s0 s \<Longrightarrow> pm_fields s0 (fst (pmksa_flush_loop match kept es s removed))"
  by (induction match kept es s removed rule: pmksa_flush_loop.induct) simp_all

lemma pm_fields_flush: "pm_fields s0 s \<Longrightarrow> pm_fields s0 (pmksa_cache_flush now s nc pmk)"
proof -
  assume f: "pm_fields s0 s"
  let ?m = "\<lambda>e. (pe_network_ctx e = nc \<or> nc = 0) \<and> (case pmk of None \<Rightarrow> True | Some p \<Rightarrow> pe_pmk e = p)"
  obtain s1 r where l: "pmksa_flush_loop ?m [] (pc_pmksa s) s False = (s1, r)" by fastforce
  have "pm_fields s0 s1" using pm_fields_flush_loop [OF f, of ?m "[]" "pc_pmksa s" False] by (simp add: l)
  then show ?thesis by (simp add: pmksa_cache_flush_def l)
qed

lemma pm_fields_replace: "pmksa_replace now s entry = Inr s' \<Longrightarrow> pm_fields s s'"
  by (auto simp: pmksa_replace_def Let_def pm_fields_flush split: list.splits if_splits)

lemma pm_fields_insert: "pm_fields s (pmksa_insert now (pmksa_make_room s') entry) = pm_fields s s'"
proof -
  have "pm_fields s (pmksa_make_room s') = pm_fields s s'"
    by (auto simp: pmksa_make_room_def split: list.splits)
  then show ?thesis
    by (simp add: pmksa_insert_def Let_def)
qed

lemma pmksa_add_cases:
  assumes "pmksa_cache_add cfg mem now s pmk aa spa nc akmp = Some (s', r)"
  shows "s' = s \<or> (\<exists>entry s1. pmksa_replace now s entry = Inr s1 \<and> s' = pmksa_insert now (pmksa_make_room s1) entry)"
  using assms unfolding pmksa_cache_add_def
  by (auto simp: bind_eq_Some_iff Let_def split: if_split_asm option.split_asm sum.split_asm) (metis sum.exhaust)

lemma pm_fields_add:
  assumes "pmksa_cache_add cfg mem now s pmk aa spa nc akmp = Some (s', r)"
  shows "pm_fields s s'"
  using pmksa_add_cases [OF assms]
proof (elim disjE exE conjE)
  fix entry s1
  assume "pmksa_replace now s entry = Inr s1" and s': "s' = pmksa_insert now (pmksa_make_room s1) entry"
  then have "pm_fields s s1" by (simp add: pm_fields_replace)
  then show ?thesis by (simp add: s' pm_fields_insert)
qed simp

text \<open>Sizes of the arrays and keys the cache holds.\<close>

definition pm_wf :: "rsn_pmksa_cache \<Rightarrow> bool" where
  "pm_wf pm \<longleftrightarrow> pmksa_ok pm \<and> length (pc_pmk pm) = 32 \<and> pc_pmk_len pm \<le> 32 \<and> length (pc_bssid pm) = 6 \<and>
     length (pc_own_addr pm) = 6 \<and> (\<forall>e \<in> set (pc_pmksa pm). length (pe_pmk e) \<le> 32)"

lemma pm_wf_add:
  assumes "pm_wf pm" "fresh mem pm" "length pmk \<le> 32" "6 \<le> length aa"
  shows "wp (pmksa_cache_add cfg mem now pm pmk aa (pc_own_addr pm) nc akmp)
    (\<lambda>(pm', r). pm_wf pm' \<and> pm_fields pm pm' \<and> (\<forall>a. r = Some a \<longrightarrow> a \<in> pe_addr ` set (pc_pmksa pm')))"
proof -
  have len: "6 \<le> length (pc_own_addr pm)" using assms(1) by (simp add: pm_wf_def)
  obtain pm' r where add: "pmksa_cache_add cfg mem now pm pmk aa (pc_own_addr pm) nc akmp = Some (pm', r)"
  proof (cases mem)
    case None
    then show ?thesis using that [of pm None] by (auto simp: pmksa_cache_add_def)
  next
    case (Some a)
    then show ?thesis using that pmksa_add_Some [OF assms(3,4) len] by blast
  qed
  note inv = pmksa_add_inv [OF _ assms(2) add]
  have ok: "pmksa_ok pm" using assms(1) by (simp add: pm_wf_def)
  have "length (pe_pmk e) \<le> 32" if e: "e \<in> set (pc_pmksa pm')" for e
  proof (cases "pe_aa e = take 6 aa")
    case True
    show ?thesis
    proof (cases r)
      case None
      then have "pm' = pm"
        using add unfolding pmksa_cache_add_def
        by (auto simp: bind_eq_Some_iff Let_def split: if_split_asm option.split_asm sum.split_asm) (metis option.distinct(1) sum.exhaust)
      then show ?thesis using e assms(1) by (simp add: pm_wf_def)
    next
      case (Some a)
      then obtain x where "x \<in> set (pc_pmksa pm')" "pe_aa x = take 6 aa" "pe_pmk x = pmk" using inv ok by auto
      moreover have "inj_on pe_aa (set (pc_pmksa pm'))" using inv ok by (simp add: pmksa_ok_def distinct_map)
      ultimately have "x = e" using e True by (metis inj_onD)
      then show ?thesis using \<open>pe_pmk x = pmk\<close> assms(3) by simp
    qed
  next
    case False
    then show ?thesis using e inv ok assms(1) by (auto simp: pm_wf_def)
  qed
  then show ?thesis
    using pm_fields_add [OF add] inv [OF ok] assms(1) by (auto simp: add pm_wf_def pm_fields_def)
qed

section \<open>Cryptographic operations\<close>

lemma mic_wp:
  assumes "length key = 16" "length buf < 2 ^ 30"
  shows "wp (wpa_eapol_key_mic cfg key ver buf) (\<lambda>(r, m). r = 0 \<longrightarrow> length m = 16)"
  using assms by (simp add: wpa_eapol_key_mic_eq length_hmac length_cmac aes.length_E)

lemma pairwise_label: "0 \<in> set (c_lit ''Pairwise key expansion'')"
  "c_str (c_lit ''Pairwise key expansion'') = lit ''Pairwise key expansion''"
  by (simp_all add: c_lit_def lit_def c_str_def)

lemma sha256_prf_length:
  assumes "0 \<in> set label" "length key < 2 ^ 30" "length (c_str label) + length data < 2 ^ 30 - 4"
  shows "\<exists>out. sha256_prf key label data n = Some out \<and> length out = n"
proof -
  have "sha256_prf_loop key (c_str label) data (WPA_PUT_LE16 (of_nat (n * 8))) 1 n =
      Some (expand 32 (\<lambda>i. hmac sha256 key (WPA_PUT_LE16 (1 + of_nat i) @ c_str label @ data @ WPA_PUT_LE16 (of_nat (n * 8)))) n)"
    using assms(2,3) by (intro sha256_prf_loop_eq) simp_all
  then show ?thesis
    unfolding sha256_prf_def sha256_prf_bits_def c_str_take(1) [OF assms(1)] Let_def
    by (simp add: c_str_take(2) [OF assms(1)])
qed

lemma sha1_prf_length:
  assumes "0 \<in> set label" "length key < 2 ^ 30" "length (c_str label) + length data < 2 ^ 29"
  shows "\<exists>out. sha1_prf key label data n = Some (0, out) \<and> length out = n"
proof -
  have "sha1_prf_loop key (c_str label @ [0]) data 0 n =
      Some (0, expand 20 (\<lambda>i. hmac sha1 key ((c_str label @ [0]) @ data @ [0 + of_nat i])) n)"
    using assms(2,3) by (intro sha1_prf_loop_eq) simp_all
  then show ?thesis by (simp add: sha1_prf_def c_str_take [OF assms(1)])
qed

lemma ptk_wp:
  assumes "length a1 = 6" "length a2 = 6" "length n1 = 32" "length n2 = 32" "length pmk \<le> 32" "3 \<le> len"
  shows "wp (wpa_pmk_to_ptk cfg pmk (c_lit ''Pairwise key expansion'') a1 a2 n1 n2 len u) (\<lambda>p. length p = len)"
proof -
  let ?d = "min_max a1 a2 @ min_max n1 n2" and ?l = "c_lit ''Pairwise key expansion''"
  have len: "length ?d = 76" using assms by (simp add: min_max_def)
  have "length (lit ''Pairwise key expansion'') = 22" by (simp add: lit_def)
  then obtain o1 o2 where "sha1_prf pmk ?l ?d len = Some (0, o1)" "length o1 = len"
    "sha256_prf pmk ?l ?d len = Some o2" "length o2 = len"
    using sha1_prf_length [of ?l pmk ?d len] sha256_prf_length [of ?l pmk ?d len] assms(5) len
    by (auto simp: pairwise_label)
  then show ?thesis
    using assms by (simp add: wpa_pmk_to_ptk_def ordered_pair_eq tendonin_rotate_eq Let_def)
qed

lemma rc4_wp: "key \<noteq> [] \<Longrightarrow> wp (rc4_skip key n data) (\<lambda>(r, d). r = 0 \<and> length d = length data)"
proof -
  assume k: "key \<noteq> []"
  have "set [0..<256] \<subseteq> {..<256 :: nat}" by auto
  then obtain S where "rc4_setup key [0..<256] 0 0 (map of_nat [0..<256]) = Some S"
    using rc4_setup_Some [OF k, of "[0..<256]" 0 "map of_nat [0..<256]" 0] rc4_init_state k by auto
  then show ?thesis by (simp add: rc4_skip_def)
qed

lemma unwrap_wp:
  assumes "length kek = 16" "8 + 8 * n \<le> length c"
  shows "wp (aes_unwrap True kek n c) (\<lambda>(r, d). length d = 8 * n)"
proof -
  have cut: "aes_unwrap True kek n c = aes_unwrap True kek n (take (8 * n + 8) c)"
    using assms(2) by (simp add: aes_unwrap_def c_slice_def drop_take min_def)
  let ?c = "take (8 * n + 8) c"
  obtain a r where ar: "fold (aes_unwrap_step (aes_D kek) n) (unwrap_order n) (take 8 ?c, drop 8 ?c) = (a, r)"
    by fastforce
  then have "length r = 8 * n"
    using aes.unwrap_passes_inverse [OF aes_key_16 [OF assms(1)], of "take 8 ?c" "drop 8 ?c" n a r] assms(2) by simp
  then show ?thesis
    unfolding cut using aes_unwrap_eq [of kek ?c n] ar assms by simp
qed

section \<open>Well-formed states\<close>

definition sm_wf :: "wpa_sm \<Rightarrow> bool" where
  "sm_wf sm \<longleftrightarrow> pm_wf (sm_pm sm) \<and> length (sm_ptk sm) = 64 \<and> length (sm_tptk sm) = 64 \<and> length (sm_snonce sm) = 32 \<and>
     length (sm_anonce sm) = 32 \<and> length (sm_rx_replay_counter sm) = 8 \<and> length (sm_request_counter sm) = 8 \<and>
     (\<forall>ie. sm_assoc_wpa_ie sm = Some ie \<longrightarrow> length ie \<le> 65440)"

text \<open>What the callbacks promise: new memory is not in use, and results have the size asked for.\<close>

definition env_sizes :: "sm_env \<Rightarrow> bool" where
  "env_sizes env \<longleftrightarrow> (\<forall>b. env_bssid env = Some b \<longrightarrow> length b = 6) \<and> (\<forall>r. env_random env = Some r \<longrightarrow> length r = 32) \<and>
     (\<forall>n k. env_eapol_key env n = Some k \<longrightarrow> length k = n)"

definition env_wf :: "sm_env \<Rightarrow> wpa_sm \<Rightarrow> bool" where
  "env_wf env sm \<longleftrightarrow> env_sizes env \<and> fresh (env_entry env) (sm_pm sm)"

definition key_wf :: "wpa_eapol_key \<Rightarrow> bool" where
  "key_wf k \<longleftrightarrow> length (k_replay_counter k) = 8 \<and> length (k_nonce k) = 32 \<and> length (k_iv k) = 16 \<and>
     length (k_rsc k) = 8 \<and> length (k_id k) = 8 \<and> length (k_mic k) = 16"

text \<open>Events that configure no key, and events that configure either a group key or the TK of a PTK.\<close>

fun no_key :: "sm_event \<Rightarrow> bool" where
  "no_key (Set_Key alg a i t s k) = False"
| "no_key _ = True"

fun key_ok :: "bytes \<Rightarrow> sm_event \<Rightarrow> bool" where
  "key_ok ptk (Set_Key alg a i t s k) \<longleftrightarrow> a = None \<or> a = Some (replicate 6 0xff) \<or> k = take (length k) (drop 32 ptk)"
| "key_ok ptk _ = True"

definition allows :: "(sm_event \<Rightarrow> bool) \<Rightarrow> bool" where
  "allows P \<longleftrightarrow> (\<forall>e. no_key e \<longrightarrow> P e)"

lemma allows_no_key [simp]: "allows no_key" "allows (key_ok ptk)"
proof -
  show "allows (key_ok ptk)" unfolding allows_def
  proof (intro allI impI)
    fix e assume "no_key e" then show "key_ok ptk e" by (cases e) simp_all
  qed
qed (simp add: allows_def)

lemma allowsD: "allows P \<Longrightarrow> no_key e \<Longrightarrow> P e"
  by (simp add: allows_def)

text \<open>
  What a handler keeps: the state is well formed, the replay counter and the PTK in use are the same, and
  every new event satisfies \<open>P\<close>.
\<close>

definition keep :: "(sm_event \<Rightarrow> bool) \<Rightarrow> wpa_sm \<Rightarrow> wpa_sm \<Rightarrow> bool" where
  "keep P sm sm' \<longleftrightarrow> sm_wf sm' \<and> sm_rx_replay_counter sm' = sm_rx_replay_counter sm \<and>
     sm_rx_replay_counter_set sm' = sm_rx_replay_counter_set sm \<and> sm_ptk sm' = sm_ptk sm \<and> sm_ptk_set sm' = sm_ptk_set sm \<and>
     (\<exists>evs. sm_log sm' = evs @ sm_log sm \<and> list_all P evs)"

lemma keep_refl: "sm_wf sm \<Longrightarrow> keep P sm sm"
  by (auto simp: keep_def)

lemma keep_wf: "keep P sm sm' \<Longrightarrow> sm_wf sm'"
  by (simp add: keep_def)

lemma keep_pm: "keep P sm sm' \<Longrightarrow> pm_wf (sm_pm sm')"
  by (simp add: keep_def sm_wf_def)

lemma keep_emit [intro]: "keep P sm sm' \<Longrightarrow> P e \<Longrightarrow> keep P sm (emit e sm')"
  by (auto simp: keep_def emit_def sm_wf_def intro: exI [of _ "e # _"])

lemma keep_emit_no_key: "allows P \<Longrightarrow> no_key e \<Longrightarrow> keep P sm sm' \<Longrightarrow> keep P sm (emit e sm')"
  by (rule keep_emit) (simp_all add: allowsD)

lemma keep_updates [simp]:
  "keep P sm (sm'\<lparr>sm_state := x\<rparr>) = keep P sm sm'"
  "keep P sm (sm'\<lparr>sm_renew_snonce := b\<rparr>) = keep P sm sm'"
  "keep P sm (sm'\<lparr>sm_rekey_timer := t\<rparr>) = keep P sm sm'"
  "keep P sm (sm'\<lparr>sm_preauth_timer := t\<rparr>) = keep P sm sm'"
  "keep P sm (sm'\<lparr>sm_ap_wpa_ie := i, sm_ap_rsn_ie := j\<rparr>) = keep P sm sm'"
  by (simp_all add: keep_def sm_wf_def)

lemma keep_pm_update: "keep P sm sm' \<Longrightarrow> pm_wf pm \<Longrightarrow> keep P sm (sm'\<lparr>sm_pm := pm\<rparr>)"
  by (auto simp: keep_def sm_wf_def)

lemma emit_simps [simp]:
  "sm_pm (emit e sm) = sm_pm sm" "sm_ptk (emit e sm) = sm_ptk sm" "sm_proto (emit e sm) = sm_proto sm"
  "sm_key_mgmt (emit e sm) = sm_key_mgmt sm" "sm_pairwise_cipher (emit e sm) = sm_pairwise_cipher sm"
  "sm_group_cipher (emit e sm) = sm_group_cipher sm" "sm_rx_replay_counter (emit e sm) = sm_rx_replay_counter sm"
  "sm_rx_replay_counter_set (emit e sm) = sm_rx_replay_counter_set sm" "sm_tptk (emit e sm) = sm_tptk sm"
  "sm_ptk_set (emit e sm) = sm_ptk_set sm" "sm_tptk_set (emit e sm) = sm_tptk_set sm"
  "sm_anonce (emit e sm) = sm_anonce sm" "sm_state (emit e sm) = sm_state sm" "sm_snonce (emit e sm) = sm_snonce sm"
  "sm_wf (emit e sm) = sm_wf sm" "env_wf env (emit e sm) = env_wf env sm"
  by (simp_all add: emit_def sm_wf_def env_wf_def)

lemma pm_wf_cur:
  assumes "pm_wf pm" "\<And>a. c = Some a \<Longrightarrow> a \<in> pe_addr ` set (pc_pmksa pm)"
  shows "pm_wf (pm\<lparr>pc_cur_pmksa := c\<rparr>)"
  using assms by (auto simp: pm_wf_def pmksa_ok_def)

section \<open>Frames\<close>

lemma length_eapol_key_bytes: "key_wf k \<Longrightarrow> length (eapol_key_bytes k) = 95 + length (k_data k)"
  by (simp add: key_wf_def eapol_key_bytes_def)

lemma eapol_key_of_wf: "95 \<le> length b \<Longrightarrow> key_wf (eapol_key_of b) \<and> length (k_data (eapol_key_of b)) = length b - 95"
  by (simp add: key_wf_def eapol_key_of_def)

lemma eapol_key_of_bytes: "key_wf k \<Longrightarrow> eapol_key_of (eapol_key_bytes k) = k"
  by (simp add: key_wf_def eapol_key_of_def eapol_key_bytes_def drop_Cons')

lemma eapol_reply_wp:
  assumes "n \<le> 65440"
  shows "wp (eapol_reply env n) (\<lambda>r. \<forall>hdr reply. r = Some (hdr, reply) \<longrightarrow>
    length hdr = 4 \<and> key_wf reply \<and> length (k_data reply) = n)"
proof -
  have "unat (of_nat (95 + n) :: u16) = 95 + n" using assms unfolding unat_of_nat by simp
  then show ?thesis
    using eapol_key_of_wf [of "replicate (95 + n) 0"] by (simp add: eapol_reply_def wpa_alloc_eapol_def)
qed

section \<open>Handlers\<close>

text \<open>The assumptions every handler lemma shares.\<close>

definition handler :: "(sm_event \<Rightarrow> bool) \<Rightarrow> sm_env \<Rightarrow> wpa_sm \<Rightarrow> wpa_sm \<Rightarrow> bool" where
  "handler P env sm0 sm \<longleftrightarrow> allows P \<and> keep P sm0 sm \<and> env_sizes env"

lemma handlerD: "handler P env sm0 sm \<Longrightarrow> allows P" "handler P env sm0 sm \<Longrightarrow> keep P sm0 sm"
  "handler P env sm0 sm \<Longrightarrow> env_sizes env" "handler P env sm0 sm \<Longrightarrow> sm_wf sm"
  "handler P env sm0 sm \<Longrightarrow> pm_wf (sm_pm sm)"
  by (auto simp: handler_def dest: keep_wf keep_pm)

lemma handler_updates [simp]:
  "handler P env sm0 (sm\<lparr>sm_state := x\<rparr>) = handler P env sm0 sm"
  "handler P env sm0 (sm\<lparr>sm_renew_snonce := b\<rparr>) = handler P env sm0 sm"
  "handler P env sm0 (sm\<lparr>sm_rekey_timer := t\<rparr>) = handler P env sm0 sm"
  "handler P env sm0 (sm\<lparr>sm_preauth_timer := t\<rparr>) = handler P env sm0 sm"
  "handler P env sm0 (sm\<lparr>sm_ap_wpa_ie := i, sm_ap_rsn_ie := j\<rparr>) = handler P env sm0 sm"
  by (simp_all add: handler_def)

lemma handler_emit: "handler P env sm0 sm \<Longrightarrow> P e \<Longrightarrow> handler P env sm0 (emit e sm)"
  by (auto simp: handler_def)

lemma handler_emit_no_key: "handler P env sm0 sm \<Longrightarrow> no_key e \<Longrightarrow> handler P env sm0 (emit e sm)"
  by (rule handler_emit) (simp_all add: allowsD handlerD(1))

lemma handler_failed: "handler P env sm0 sm \<Longrightarrow> handler P env sm0 (process_failed sm)"
  unfolding process_failed_def by (rule handler_emit_no_key) simp_all

lemma send_wp:
  assumes "handler P env sm0 sm" "length kck = 16" "length hdr = 4" "key_wf reply" "length (k_data reply) \<le> 65440"
  shows "wp (wpa_eapol_key_send cfg env sm kck ver dest hdr reply m) (handler P env sm0)"
proof -
  let ?msg = "hdr @ eapol_key_bytes reply"
  have "length ?msg < 2 ^ 30" using assms(3-5) by (simp add: length_eapol_key_bytes)
  then obtain r mic where mic: "wpa_eapol_key_mic cfg kck (uint ver) ?msg = Some (r, mic)"
    using mic_wp [OF assms(2), of ?msg cfg "uint ver"] by (auto simp: wp_def)
  define sd where "sd = (if is_zero_ether_addr dest \<and> is_zero_ether_addr (sm_bssid sm) then
         (case env_bssid env of
            None \<Rightarrow> (sm, dest)
          | Some b \<Rightarrow> (sm\<lparr>sm_pm := (sm_pm sm)\<lparr>pc_bssid := b\<rparr>\<rparr>, b))
       else (sm, dest))"
  have "pm_wf ((sm_pm sm)\<lparr>pc_bssid := b\<rparr>)" if "env_bssid env = Some b" for b
    using handlerD(3,5) [OF assms(1)] that by (auto simp: pm_wf_def env_sizes_def pmksa_ok_def)
  then have "handler P env sm0 (fst sd)"
    using assms(1) by (auto simp: sd_def handler_def intro: keep_pm_update split: option.splits)
  then show ?thesis
    unfolding wpa_eapol_key_send_def sd_def [symmetric] mic
    by (auto simp: Let_def handler_emit_no_key split: prod.splits)
qed

lemma key_wf_update:
  "key_wf k \<Longrightarrow> length rc = 8 \<Longrightarrow> key_wf (k\<lparr>k_type := t, k_info := i, k_length := l, k_replay_counter := rc, k_data_length := n\<rparr>)"
  "key_wf k \<Longrightarrow> length rc = 8 \<Longrightarrow> key_wf (k\<lparr>k_type := t, k_info := i, k_length := l, k_replay_counter := rc, k_data_length := n, k_data := d\<rparr>)"
  "key_wf k \<Longrightarrow> length rc = 8 \<Longrightarrow> length nn = 32 \<Longrightarrow> key_wf (k\<lparr>k_type := t, k_info := i, k_length := l, k_replay_counter := rc,
     k_data_length := n, k_data := d, k_nonce := nn\<rparr>)"
  by (simp_all add: key_wf_def)

lemma send_2_of_4_wp:
  assumes h: "handler P env sm0 sm" and "key_wf key" "length nonce = 32" "length ptk = 64"
    "\<And>ie. wpa_ie = Some ie \<Longrightarrow> length ie \<le> 65440"
  shows "wp (wpa_supplicant_send_2_of_4 cfg env sm dst key ver nonce wpa_ie ptk) (\<lambda>(r, sm'). handler P env sm0 sm')"
proof (cases wpa_ie)
  case None
  then show ?thesis using h by (simp add: wpa_supplicant_send_2_of_4_def)
next
  case (Some ie)
  then have ie: "length ie \<le> 65440" using assms(5) by simp
  show ?thesis
    unfolding wpa_supplicant_send_2_of_4_def Some option.case wp_bind
    using h assms(2-4) ie
    by (intro wp_mono [OF eapol_reply_wp [OF ie]])
      (auto simp: key_wf_def split: option.splits intro!: send_wp)
qed

lemma send_4_of_4_wp:
  assumes h: "handler P env sm0 sm" and "key_wf key" "length ptk = 64" "length kde \<le> 65440"
  shows "wp (wpa_supplicant_send_4_of_4 cfg env sm dst key ver info kde ptk) (\<lambda>(r, sm'). handler P env sm0 sm')"
  unfolding wpa_supplicant_send_4_of_4_def wp_bind
  using assms by (intro wp_mono [OF eapol_reply_wp [OF assms(4)]])
    (auto simp: key_wf_def split: option.splits intro!: send_wp)

lemma send_2_of_2_wp:
  assumes h: "handler P env sm0 sm" and "key_wf key"
  shows "wp (wpa_supplicant_send_2_of_2 cfg env sm key ver info) (\<lambda>(r, sm'). handler P env sm0 sm')"
  unfolding wpa_supplicant_send_2_of_2_def wp_bind
  using assms handlerD(4) [OF h] by (intro wp_mono [OF eapol_reply_wp [of 0]])
    (auto simp: key_wf_def sm_wf_def split: option.splits intro!: send_wp)

lemma deref_wp:
  assumes "pm_wf pm" "pc_cur_pmksa pm = Some c"
  shows "\<exists>e \<in> set (pc_pmksa pm). pmksa_deref pm c = Some e \<and> pe_addr e = c"
proof -
  obtain e where "e \<in> set (pc_pmksa pm)" "pe_addr e = c" using assms by (auto simp: pm_wf_def pmksa_ok_def)
  then show ?thesis using pmksa_deref_eq [of pm e] assms(1) by (auto simp: pm_wf_def)
qed

lemma handler_pm: "handler P env sm0 sm \<Longrightarrow> pm_wf pm \<Longrightarrow> handler P env sm0 (sm\<lparr>sm_pm := pm\<rparr>)"
  by (simp add: handler_def keep_pm_update)

lemma pm_wf_pmk: "pm_wf pm \<Longrightarrow> length pmk = 32 \<Longrightarrow> n \<le> 32 \<Longrightarrow> pm_wf (pm\<lparr>pc_pmk := pmk, pc_pmk_len := n\<rparr>)"
  "pm_wf pm \<Longrightarrow> length pmk = 32 \<Longrightarrow> n \<le> 32 \<Longrightarrow> pm_wf (pm\<lparr>pc_pmk_len := n, pc_pmk := pmk\<rparr>)"
  by (simp_all add: pm_wf_def pmksa_ok_def)

lemma set_pmk_wp:
  assumes "handler P env sm0 sm"
  shows "wp (wpa_sm_set_pmk_from_pmksa sm) (handler P env sm0)"
proof (cases "sm_cur_pmksa sm")
  case None
  then show ?thesis using assms handlerD(5) by (simp add: wpa_sm_set_pmk_from_pmksa_def handler_pm pm_wf_pmk)
next
  case (Some c)
  note pm = handlerD(5) [OF assms]
  obtain e where "e \<in> set (pc_pmksa (sm_pm sm))" "pmksa_deref (sm_pm sm) c = Some e" using deref_wp [OF pm Some] by auto
  moreover from this have "length (pe_pmk e) \<le> 32" "length (pc_pmk (sm_pm sm)) = 32" using pm by (simp_all add: pm_wf_def)
  ultimately show ?thesis
    using assms pm by (auto simp: wpa_sm_set_pmk_from_pmksa_def Some intro!: handler_pm pm_wf_pmk)
qed

lemma get_pmk_eapol_wp:
  assumes "handler P env sm0 sm" "fresh (env_entry env) (sm_pm sm)" "length src = 6"
  shows "wp (get_pmk_eapol cfg env sm src pmkid ab) (\<lambda>r. \<forall>b sm'. r = Inr (b, sm') \<longrightarrow> handler P env sm0 sm')"
proof (cases "case env_eapol_key env 32 of Some k \<Rightarrow> Some k | None \<Rightarrow> env_eapol_key env 16")
  case None
  have "pm_wf ((sm_pm sm)\<lparr>pc_cur_pmksa := None\<rparr>)" using handlerD(5) [OF assms(1)] by (rule pm_wf_cur) simp
  then show ?thesis using assms(1) unfolding get_pmk_eapol_def None by (simp add: handler_pm)
next
  case (Some k)
  then have k: "length k \<le> 32" using handlerD(3) [OF assms(1)] by (auto simp: env_sizes_def split: option.splits)
  define pm where "pm = (sm_pm sm)\<lparr>pc_pmk := k @ drop (length k) (pc_pmk (sm_pm sm)), pc_pmk_len := length k\<rparr>"
  have pm: "pm_wf pm" "fresh (env_entry env) pm"
    using handlerD(5) [OF assms(1)] k assms(2) by (auto simp: pm_def fresh_def pm_wf_def pmksa_ok_def)
  let ?Q = "\<lambda>(pm', r). pm_wf pm' \<and> (\<forall>a. r = Some a \<longrightarrow> a \<in> pe_addr ` set (pc_pmksa pm'))"
  have "wp (if sm_proto sm = WPA_PROTO_RSN \<and> \<not> wpa_key_mgmt_ft (sm_key_mgmt sm)
      then pmksa_cache_add cfg (env_entry env) (env_now env) pm k src (pc_own_addr pm) (sm_network_ctx sm) (sm_key_mgmt sm)
      else Some (pm, None)) ?Q"
    using pm pm_wf_add [OF pm k, of src cfg "env_now env" "sm_network_ctx sm" "sm_key_mgmt sm"] assms(3)
    by (auto elim: wp_mono)
  then show ?thesis
    unfolding get_pmk_eapol_def Some option.case Let_def pm_def [symmetric] wp_bind
    by (rule wp_mono) (auto intro!: handler_pm [OF assms(1)] pm_wf_cur)
qed

lemma get_pmk_wp:
  assumes "handler P env sm0 sm" "fresh (env_entry env) (sm_pm sm)" "length src = 6"
  shows "wp (wpa_supplicant_get_pmk cfg env sm src pmkid) (\<lambda>(r, sm'). handler P env sm0 sm')"
proof -
  obtain pm ab where l: "get_pmk_lookup (sm_pm sm) src pmkid = (pm, ab)" by fastforce
  have pm: "pm_wf pm \<and> fresh (env_entry env) pm"
    using l handlerD(5) [OF assms(1)] assms(2)
    by (auto simp: get_pmk_lookup_def Let_def fresh_def dest: pmksa_get_in split: if_splits intro!: pm_wf_cur)
  define sm1 where "sm1 = sm\<lparr>sm_pm := pm\<rparr>"
  have h: "handler P env sm0 sm1" "fresh (env_entry env) (sm_pm sm1)"
    using assms(1) pm by (simp_all add: sm1_def handler_pm)
  obtain m where m: "pmkid_matches pm pmkid = Some m"
  proof (cases "pmkid = None \<or> pc_cur_pmksa pm = None")
    case True
    then have "pmkid_matches pm pmkid = Some False" by (auto simp: pmkid_matches_def split: option.splits)
    then show ?thesis by (rule that)
  next
    case False
    then obtain p c where pc: "pmkid = Some p" "pc_cur_pmksa pm = Some c" by auto
    then obtain e where "pmksa_deref pm c = Some e" using pm deref_wp by blast
    then show ?thesis using that pc by (simp add: pmkid_matches_def)
  qed
  have "wp (if m then map_option (\<lambda>sm. Inr (ab, emit Notify_Cached sm)) (wpa_sm_set_pmk_from_pmksa sm1)
            else if wpa_key_mgmt_wpa_ieee8021x (sm_key_mgmt sm1) \<and> sm_eapol sm1 then get_pmk_eapol cfg env sm1 src pmkid ab
            else Some (Inr (ab, sm1))) (\<lambda>r. \<forall>b sm'. r = Inr (b, sm') \<longrightarrow> handler P env sm0 sm')"
  proof -
    have "wp (wpa_sm_set_pmk_from_pmksa sm1) (\<lambda>sm. handler P env sm0 (emit Notify_Cached sm))"
      by (rule wp_mono [OF set_pmk_wp [OF h(1)]], rule handler_emit_no_key) simp_all
    then show ?thesis using get_pmk_eapol_wp [OF h assms(3)] h(1) by simp
  qed
  then show ?thesis
    unfolding wpa_supplicant_get_pmk_def l Let_def prod.case sm1_def [symmetric] wp_bind m wp_Some
    using h(1) by (elim wp_mono) (auto simp: wpa_alloc_eapol_def handler_emit_no_key split: sum.splits)
qed

lemma derive_wp:
  assumes "sm_wf sm" "key_wf key" "length ptk = 64"
  shows "wp (wpa_derive_ptk cfg sm key ptk) (\<lambda>p. length (swap_mic_keys p) = 64)"
proof -
  let ?n = "if sm_pairwise_cipher sm \<noteq> WPA_CIPHER_TKIP then 48 else 64 :: nat"
  have "wp (wpa_pmk_to_ptk cfg (take (pc_pmk_len (sm_pm sm)) (pc_pmk (sm_pm sm))) (c_lit ''Pairwise key expansion'')
      (sm_own_addr sm) (sm_bssid sm) (sm_snonce sm) (k_nonce key) ?n (wpa_key_mgmt_sha256 (sm_key_mgmt sm))) (\<lambda>p. length p = ?n)"
    using assms(1,2) by (intro ptk_wp) (auto simp: sm_wf_def pm_wf_def key_wf_def)
  then show ?thesis
    unfolding wpa_derive_ptk_def Let_def wp_map
    by (rule wp_mono) (use assms(3) in \<open>auto simp: swap_mic_keys_def\<close>)
qed

lemma handler_handshake:
  "handler P env sm0 sm \<Longrightarrow> length x = 32 \<Longrightarrow> handler P env sm0 (sm\<lparr>sm_snonce := x, sm_renew_snonce := b\<rparr>)"
  "handler P env sm0 sm \<Longrightarrow> length x = 32 \<Longrightarrow> handler P env sm0 (sm\<lparr>sm_anonce := x\<rparr>)"
  "handler P env sm0 sm \<Longrightarrow> length x = 64 \<Longrightarrow> handler P env sm0 (sm\<lparr>sm_tptk := x, sm_tptk_set := b\<rparr>)"
  by (auto simp: handler_def keep_def sm_wf_def)

lemma process_1_of_4_reply_wp:
  assumes "handler P env sm0 sm" "key_wf key"
  shows "wp (process_1_of_4_reply cfg env sm key ver) (handler P env sm0)"
proof -
  define o' where "o' = (if sm_renew_snonce sm then
      map_option (\<lambda>r. sm\<lparr>sm_snonce := r, sm_renew_snonce := False\<rparr>) (env_random env) else Some sm)"
  have nonce: "length (k_nonce key) = 32" using assms(2) by (simp add: key_wf_def)
  show ?thesis
  proof (cases o')
    case None
    then show ?thesis
      unfolding process_1_of_4_reply_def o'_def [symmetric] Let_def None using handler_failed [OF assms(1)] by simp
  next
    case (Some sm1)
    then have h: "handler P env sm0 sm1"
      using assms(1) handlerD(3) [OF assms(1)] by (auto simp: o'_def env_sizes_def split: if_splits intro!: handler_handshake)
    have wf: "sm_wf sm1" "length (sm_tptk sm1) = 64" using handlerD(4) [OF h] by (simp_all add: sm_wf_def)
    have send: "wp (wpa_supplicant_send_2_of_4 cfg env sm2 (sm_bssid sm2) key ver (sm_snonce sm2) (sm_assoc_wpa_ie sm2) (sm_tptk sm2))
        (\<lambda>(r, sm'). handler P env sm0 sm')" if "handler P env sm0 sm2" for sm2
      using handlerD(4) [OF that] assms(2) by (intro send_2_of_4_wp [OF that]) (auto simp: sm_wf_def)
    have rest: "wp (do {
        (r, sm) \<leftarrow> wpa_supplicant_send_2_of_4 cfg env sm2 (sm_bssid sm2) key ver (sm_snonce sm2) (sm_assoc_wpa_ie sm2) (sm_tptk sm2);
        Some (if r \<noteq> 0 then process_failed sm else sm\<lparr>sm_anonce := k_nonce key\<rparr>) }) (handler P env sm0)"
      if "handler P env sm0 sm2" for sm2
      unfolding wp_bind using send [OF that]
      by (rule wp_mono) (auto simp: handler_failed handler_handshake nonce)
    show ?thesis
      unfolding process_1_of_4_reply_def o'_def [symmetric] Let_def Some option.case wp_bind [of "wpa_derive_ptk cfg sm1 key (sm_tptk sm1)"]
      by (rule wp_mono [OF derive_wp [OF wf(1) assms(2) wf(2)]], rule rest, rule handler_handshake [OF h])
  qed
qed

lemma parse_ies_wp: "wp (wpa_supplicant_parse_ies cfg buf) (\<lambda>(r, ie). (r = 0 \<or> r = -1) \<and> kd_inside (length buf) ie)"
  using supp.loop_inside [OF kd_empty_inside, where cfg = cfg and buf = buf and pos = 0] by (auto simp: wp_def wpa_supplicant_parse_ies_def)

lemma kd_bytes_wp: "span_in n s \<Longrightarrow> n \<le> length data \<Longrightarrow> wp (kd_bytes data s) (\<lambda>x. \<forall>y. x = Some y \<longrightarrow> (\<exists>off. s = Some (off, length y)))"
  by (auto simp: kd_bytes_def span_in_def split: option.splits)

lemma process_1_of_4_wp:
  assumes "handler P env sm0 sm" "fresh (env_entry env) (sm_pm sm)" "length src = 6" "key_wf key"
    "unat (k_data_length key) \<le> length (k_data key)"
  shows "wp (wpa_supplicant_process_1_of_4 cfg env sm src key ver) (handler P env sm0)"
proof -
  define sm1 where "sm1 = sm\<lparr>sm_state := WPA_4WAY_HANDSHAKE\<rparr>"
  have h: "handler P env sm0 sm1" "fresh (env_entry env) (sm_pm sm1)" using assms(1,2) by (simp_all add: sm1_def)
  let ?data = "take (unat (k_data_length key)) (drop 0 (k_data key))"
  have "wp (if sm_proto sm1 = WPA_PROTO_RSN then do {
            data \<leftarrow> c_slice (k_data key) 0 (unat (k_data_length key));
            (r, ie) \<leftarrow> wpa_supplicant_parse_ies cfg data;
            if r < 0 then Some (r, None)
            else map_option (Pair 0) (kd_bytes data (map_option (\<lambda>p. (p, 16)) (kd_pmkid ie))) }
          else Some (0, None)) (\<lambda>x. True)"
    using assms(5) by (auto intro!: wp_mono [OF parse_ies_wp] wp_mono [OF kd_bytes_wp [of "length ?data"]]
      simp: kd_inside_def kd_spans_def)
  then show ?thesis
    unfolding wpa_supplicant_process_1_of_4_def Let_def sm1_def [symmetric]
    using assms(1) handler_failed h(1)
    by (auto intro!: wp_mono [OF get_pmk_wp [OF h assms(3)]] process_1_of_4_reply_wp assms(4) elim!: wp_mono)
qed

lemma neg_complete_wp:
  assumes "handler P env sm0 sm"
  shows "wp (wpa_supplicant_key_neg_complete sm addr secure) (handler P env sm0)"
proof -
  let ?sm1 = "(emit Cancel_Auth_Timeout sm)\<lparr>sm_state := WPA_COMPLETED\<rparr>"
  define sm2 where "sm2 = (if secure then
         (let sm = emit (Port_Valid True) (emit (Set_Protection addr 3 1) ?sm1);
              sm = (if wpa_key_mgmt_wpa_psk (sm_key_mgmt sm) then emit (Eap_Success True) sm else sm)
          in sm\<lparr>sm_preauth_timer := Some 1\<rparr>)
       else ?sm1)"
  have h: "handler P env sm0 sm2"
    using assms by (auto simp: sm2_def Let_def intro!: handler_emit_no_key)
  show ?thesis
  proof (cases "sm_cur_pmksa sm2")
    case None
    then show ?thesis
      unfolding wpa_supplicant_key_neg_complete_def Let_def [of "(emit Cancel_Auth_Timeout sm)\<lparr>sm_state := WPA_COMPLETED\<rparr>"]
        sm2_def [symmetric] Let_def [of sm2] None using h by simp
  next
    case (Some c)
    obtain e where e: "pmksa_deref (sm_pm sm2) c = Some e" using deref_wp [OF handlerD(5) [OF h] Some] by auto
    have "pm_wf (pmksa_update c (\<lambda>e. e\<lparr>pe_opportunistic := False\<rparr>) (sm_pm sm2))"
      using handlerD(5) [OF h] pmksa_update_inv(1) [of "\<lambda>e. e\<lparr>pe_opportunistic := False\<rparr>" c "sm_pm sm2"]
      by (auto simp: pm_wf_def pmksa_update_def)
    then show ?thesis
      unfolding wpa_supplicant_key_neg_complete_def Let_def [of "(emit Cancel_Auth_Timeout sm)\<lparr>sm_state := WPA_COMPLETED\<rparr>"]
        sm2_def [symmetric] Let_def [of sm2] Some using h by (simp add: e handler_pm)
  qed
qed

lemma install_ptk_handler:
  assumes "handler (key_ok (sm_ptk sm)) env sm0 sm"
  shows "handler (key_ok (sm_ptk sm)) env sm0 (snd (wpa_supplicant_install_ptk env sm key))"
  using assms by (auto simp: wpa_supplicant_install_ptk_def wpa_sm_set_key_def Let_def min_def intro!: handler_emit)

lemma install_gtk_handler:
  assumes "handler (key_ok ptk) env sm0 sm"
  shows "handler (key_ok ptk) env sm0 (snd (wpa_supplicant_install_gtk env sm gd rsc))"
  using assms by (auto simp: wpa_supplicant_install_gtk_def wpa_sm_set_key_def Let_def intro!: handler_emit)

lemma set_igtk_handler:
  assumes "handler (key_ok ptk) env sm0 sm"
  shows "handler (key_ok ptk) env sm0 (snd (ieee80211w_set_keys cfg env sm igtk))"
  using assms by (auto simp: ieee80211w_set_keys_def wpa_sm_set_key_def Let_def split: option.splits intro!: handler_emit)

lemma pairwise_gtk_wp:
  assumes "handler (key_ok ptk) env sm0 sm"
  shows "wp (wpa_supplicant_pairwise_gtk env sm key gtk info) (\<lambda>(r, sm'). handler (key_ok ptk) env sm0 sm')"
proof -
  have "wp (case wpa_supplicant_install_gtk env sm gd (k_rsc key) of (r, sm) \<Rightarrow>
      if r \<noteq> 0 then Some (-1, sm)
      else do { sm \<leftarrow> wpa_supplicant_key_neg_complete sm (sm_bssid sm) (has info WPA_KEY_INFO_SECURE); Some (0, sm) })
    (\<lambda>(r, sm'). handler (key_ok ptk) env sm0 sm')" for gd
    using install_gtk_handler [OF assms, of gd "k_rsc key"]
    by (auto split: prod.splits intro!: wp_mono [OF neg_complete_wp])
  then show ?thesis
    using assms unfolding wpa_supplicant_pairwise_gtk_def Let_def by (auto split: option.splits)
qed

lemma rekey_offload_handler: "handler P env sm0 sm \<Longrightarrow> handler P env sm0 (wpa_sm_set_rekey_offload sm)"
  by (simp add: wpa_sm_set_rekey_offload_def handler_emit_no_key)

lemma compare_rsn_wp: "wp (wpa_compare_rsn_ie cfg ft (Some a) (Some b)) (\<lambda>r. True)"
proof -
  obtain r1 d1 r2 d2 where "wpa_parse_wpa_ie_rsn cfg a = Some (r1, d1)" "wpa_parse_wpa_ie_rsn cfg b = Some (r2, d2)"
    using parse_rsn_ok [of cfg a] parse_rsn_ok [of cfg b] by auto
  moreover have "\<exists>c. (if length a = length b then os_memcmp a b (length a) else Some 1) = Some c"
    using os_memcmp_correct [of "length a" a b] by auto
  ultimately show ?thesis by (auto simp: wpa_compare_rsn_ie_def)
qed

lemma validate_ie_wp:
  assumes "handler P env sm0 sm"
  shows "wp (wpa_supplicant_validate_ie cfg env sm wpa_ie rsn_ie) (\<lambda>(r, sm'). handler P env sm0 sm')"
proof -
  define sm1 where "sm1 = (if sm_ap_wpa_ie sm = None \<and> sm_ap_rsn_ie sm = None then
         (case env_beacon_ie env of
            None \<Rightarrow> sm
          | Some (w, r) \<Rightarrow> sm\<lparr>sm_ap_wpa_ie := w, sm_ap_rsn_ie := r\<rparr>)
       else sm)"
  have h: "handler P env sm0 sm1" using assms by (auto simp: sm1_def split: option.splits)
  obtain b where "(if rsn_ie \<noteq> None \<and> sm_ap_rsn_ie sm1 \<noteq> None
         then map_option (\<lambda>c. c \<noteq> 0) (wpa_compare_rsn_ie cfg (wpa_key_mgmt_ft (sm_key_mgmt sm1)) (sm_ap_rsn_ie sm1) rsn_ie)
         else Some False) = Some b"
  proof (cases "rsn_ie \<noteq> None \<and> sm_ap_rsn_ie sm1 \<noteq> None")
    case True
    then obtain x y where "rsn_ie = Some x" "sm_ap_rsn_ie sm1 = Some y" by auto
    then show ?thesis
      using that compare_rsn_wp [of cfg "wpa_key_mgmt_ft (sm_key_mgmt sm1)" y x] by (auto simp: wp_def)
  next
    case False
    show ?thesis by (rule that [of False]) (simp only: False if_False)
  qed
  then show ?thesis
    unfolding wpa_supplicant_validate_ie_def sm1_def [symmetric] Let_def [of sm1]
    using h by (simp add: wpa_report_ie_mismatch_def handler_emit_no_key)
qed

lemma process_3_of_4_install_wp:
  assumes "handler (key_ok (sm_ptk sm)) env sm0 sm"
  shows "wp (process_3_of_4_install cfg env sm key gtk igtk) (handler (key_ok (sm_ptk sm)) env sm0)"
proof -
  let ?P = "key_ok (sm_ptk sm)"
  let ?sm = "sm\<lparr>sm_renew_snonce := True\<rparr>"
  obtain r sm1 where i: "(if has (k_info key) WPA_KEY_INFO_INSTALL then wpa_supplicant_install_ptk env ?sm key else (0, ?sm)) = (r, sm1)"
    by fastforce
  have h1: "handler ?P env sm0 sm1"
    using i assms install_ptk_handler [of ?sm env sm0 key] by (auto split: if_splits)
  define sm2 where "sm2 = (if has (k_info key) WPA_KEY_INFO_SECURE
      then emit (Port_Valid True) (emit (Set_Protection (sm_bssid sm1) 1 1) sm1) else sm1)\<lparr>sm_state := WPA_GROUP_HANDSHAKE\<rparr>"
  have h2: "handler ?P env sm0 sm2" using h1 by (auto simp: sm2_def intro!: handler_emit_no_key)
  have g: "wp (case gtk of None \<Rightarrow> Some (0, sm2) | Some g \<Rightarrow> wpa_supplicant_pairwise_gtk env sm2 key g (k_info key))
      (\<lambda>(r, sm'). handler ?P env sm0 sm')"
    using h2 pairwise_gtk_wp [OF h2] by (auto split: option.splits)
  have igtk: "handler ?P env sm0 sm4" if "handler ?P env sm0 sm3" "ieee80211w_set_keys cfg env sm3 igtk = (r', sm4)" for sm3 sm4 r'
    using set_igtk_handler [OF that(1), of cfg igtk] that(2) by simp
  show ?thesis
    unfolding process_3_of_4_install_def Let_def i prod.case sm2_def [symmetric]
    using h1 by (auto intro!: wp_mono [OF g] handler_failed rekey_offload_handler split: prod.splits dest: igtk)
qed

lemma process_3_of_4_wp:
  assumes "handler (key_ok (sm_ptk sm)) env sm0 sm" "key_wf key" "unat (k_data_length key) \<le> length (k_data key)"
  shows "wp (wpa_supplicant_process_3_of_4 cfg env sm key ver) (handler (key_ok (sm_ptk sm)) env sm0)"
proof -
  let ?P = "key_ok (sm_ptk sm)"
  define sm1 where "sm1 = sm\<lparr>sm_state := WPA_4WAY_HANDSHAKE\<rparr>"
  have h: "handler ?P env sm0 sm1" "sm_ptk sm1 = sm_ptk sm" "length (sm_ptk sm) = 64"
    using assms(1) handlerD(4) [OF assms(1)] by (simp_all add: sm1_def sm_wf_def)
  let ?d = "take (unat (k_data_length key)) (drop 0 (k_data key))"
  have sl: "c_slice (k_data key) 0 (unat (k_data_length key)) = Some ?d" using assms(3) by simp
  obtain r ie where ie: "wpa_supplicant_parse_ies cfg ?d = Some (r, ie)" "kd_inside (length ?d) ie"
    using parse_ies_wp [of cfg ?d] by (auto simp: wp_def)
  obtain g ig w rs where kd: "kd_bytes ?d (kd_gtk ie) = Some g" "kd_bytes ?d (kd_igtk ie) = Some ig"
    "kd_bytes ?d (kd_wpa_ie ie) = Some w" "kd_bytes ?d (kd_rsn_ie ie) = Some rs"
  proof -
    have "span_in (length ?d) (kd_gtk ie)" "span_in (length ?d) (kd_igtk ie)" "span_in (length ?d) (kd_wpa_ie ie)"
      "span_in (length ?d) (kd_rsn_ie ie)" using ie(2) by (simp_all only: kd_inside_def kd_spans_def list.pred_inject)
    from this [THEN kd_bytes_wp, OF order_refl] show ?thesis using that by (auto simp only: wp_def)
  qed
  have send: "wp (do {
      (r, sm) \<leftarrow> wpa_supplicant_send_4_of_4 cfg env sm2 (sm_bssid sm2) key ver (k_info key) [] (sm_ptk sm2);
      if r \<noteq> 0 then Some (process_failed sm) else process_3_of_4_install cfg env sm key g ig }) (handler ?P env sm0)"
    if "handler ?P env sm0 sm2" for sm2
  proof -
    have ptk: "sm_ptk sm' = sm_ptk sm" if "handler ?P env sm0 sm'" for sm'
      using that assms(1) by (simp add: handler_def keep_def)
    have inst: "handler ?P env sm0 b \<Longrightarrow> wp (process_3_of_4_install cfg env b key g ig) (handler ?P env sm0)" for b
      using process_3_of_4_install_wp [of b env sm0 cfg key g ig] ptk [of b] by simp
    show ?thesis
      unfolding wp_bind using ptk [OF that] h(3) assms(2) that
      by (intro wp_mono [OF send_4_of_4_wp [OF that assms(2)]])
        (auto simp: handler_failed inst)
  qed
  show ?thesis
    unfolding wpa_supplicant_process_3_of_4_def Let_def sm1_def [symmetric] sl ie(1) kd Option.bind.bind_lunit prod.case
    using handler_failed h(1) send by (auto intro!: wp_mono [OF validate_ie_wp [OF h(1)]])
qed

lemma process_1_of_2_rsn_wp:
  assumes "handler (key_ok ptk) env sm0 sm"
  shows "wp (wpa_supplicant_process_1_of_2_rsn cfg env sm data info) (\<lambda>(gd, sm'). handler (key_ok ptk) env sm0 sm')"
proof -
  obtain r ie where ie: "wpa_supplicant_parse_ies cfg data = Some (r, ie)" "kd_inside (length data) ie"
    using parse_ies_wp [of cfg data] by (auto simp: wp_def)
  have "span_in (length data) (kd_gtk ie)" "span_in (length data) (kd_igtk ie)"
    using ie(2) by (simp_all only: kd_inside_def kd_spans_def list.pred_inject)
  from this [THEN kd_bytes_wp, OF order_refl] obtain g ig
    where kd: "kd_bytes data (kd_gtk ie) = Some g" "kd_bytes data (kd_igtk ie) = Some ig" by (auto simp only: wp_def)
  have igtk: "handler (key_ok ptk) env sm0 sm4" if "ieee80211w_set_keys cfg env sm ig = (r', sm4)" for sm4 r'
    using set_igtk_handler [OF assms, of cfg ig] that by simp
  show ?thesis
    unfolding wpa_supplicant_process_1_of_2_rsn_def ie(1) kd Option.bind.bind_lunit prod.case Let_def
    using assms by (auto split: option.splits prod.splits dest: igtk)
qed

lemma process_1_of_2_wpa_wp:
  assumes "sm_wf sm" "key_wf key" "env_alloc env" "n \<le> length (k_data key)"
  shows "wp (wpa_supplicant_process_1_of_2_wpa env sm key n info extra ver) (\<lambda>gd. True)"
proof -
  have kek: "length (ptk_kek (sm_ptk sm)) = 16" using assms(1) by (simp add: sm_wf_def)
  obtain r g where "rc4_skip (k_iv key @ ptk_kek (sm_ptk sm)) 256 (take n (k_data key)) = Some (r, g)"
    using rc4_wp [of "k_iv key @ ptk_kek (sm_ptk sm)" 256 "take n (k_data key)"] assms(2) by (force simp: wp_def key_wf_def)
  moreover have "8 \<le> n \<Longrightarrow> \<exists>r g. aes_unwrap True (ptk_kek (sm_ptk sm)) ((n - 8) div 8) (k_data key) = Some (r, g)"
  proof -
    assume "8 \<le> n"
    then have "8 + 8 * ((n - 8) div 8) \<le> length (k_data key)" using assms(4) by simp
    from unwrap_wp [OF kek this] show ?thesis by (auto simp: wp_def)
  qed
  ultimately show ?thesis
    using assms(3,4) unfolding wpa_supplicant_process_1_of_2_wpa_def Let_def
    by (auto split: option.splits)
qed

lemma process_1_of_2_wp:
  assumes "handler (key_ok ptk) env sm0 sm" "key_wf key" "env_alloc env" "unat (k_data_length key) \<le> length (k_data key)"
  shows "wp (wpa_supplicant_process_1_of_2 cfg env sm key extra ver) (handler (key_ok ptk) env sm0)"
proof -
  let ?n = "unat (k_data_length key)"
  let ?gd = "if sm_proto sm = WPA_PROTO_RSN then do {
         data \<leftarrow> c_slice (k_data key) 0 ?n;
         wpa_supplicant_process_1_of_2_rsn cfg env sm data (k_info key) }
       else map_option (\<lambda>gd. (gd, sm)) (wpa_supplicant_process_1_of_2_wpa env sm key ?n (k_info key) extra ver)"
  have gd: "wp ?gd (\<lambda>(gd, sm'). handler (key_ok ptk) env sm0 sm')"
    using process_1_of_2_rsn_wp [OF assms(1)] process_1_of_2_wpa_wp [OF handlerD(4) [OF assms(1)] assms(2-4)] assms(1,4)
    by (auto elim!: wp_mono)
  have fin: "wp (do {
        (r, sm) \<leftarrow> wpa_supplicant_send_2_of_2 cfg env sm2 key ver (k_info key);
        if r \<noteq> 0 then Some (process_failed sm)
        else do {
          sm \<leftarrow> (if rekey then Some ((emit Cancel_Auth_Timeout sm)\<lparr>sm_state := WPA_COMPLETED\<rparr>)
                else wpa_supplicant_key_neg_complete sm (sm_bssid sm) (has (k_info key) WPA_KEY_INFO_SECURE));
          Some (wpa_sm_set_rekey_offload sm) } }) (handler (key_ok ptk) env sm0)"
    if "handler (key_ok ptk) env sm0 sm2" for sm2 rekey
    unfolding wp_bind by (intro wp_mono [OF send_2_of_2_wp [OF that assms(2)]])
      (auto simp: handler_failed rekey_offload_handler handler_emit_no_key intro!: wp_mono [OF neg_complete_wp])
  have inst: "wpa_supplicant_install_gtk env sm1 gd rsc = (r, sm2) \<Longrightarrow> handler (key_ok ptk) env sm0 sm1 \<Longrightarrow>
      handler (key_ok ptk) env sm0 sm2" for sm1 gd rsc r sm2
    using install_gtk_handler [of ptk env sm0 sm1 gd rsc] by simp
  have rest: "wp (case gd of
       None \<Rightarrow> Some (process_failed sm1)
     | Some gd \<Rightarrow>
         (case wpa_supplicant_install_gtk env sm1 gd (k_rsc key) of (r, sm) \<Rightarrow>
            if r \<noteq> 0 then Some (process_failed sm)
            else do {
              (r, sm) \<leftarrow> wpa_supplicant_send_2_of_2 cfg env sm key ver (k_info key);
              if r \<noteq> 0 then Some (process_failed sm)
              else do {
                sm \<leftarrow> (if rekey then Some ((emit Cancel_Auth_Timeout sm)\<lparr>sm_state := WPA_COMPLETED\<rparr>)
                      else wpa_supplicant_key_neg_complete sm (sm_bssid sm) (has (k_info key) WPA_KEY_INFO_SECURE));
                Some (wpa_sm_set_rekey_offload sm) } })) (handler (key_ok ptk) env sm0)"
    if "handler (key_ok ptk) env sm0 sm1" for sm1 gd rekey
    using that inst [OF _ that] handler_failed fin
    by (cases gd; cases "wpa_supplicant_install_gtk env sm1 (the gd) (k_rsc key)") auto
  show ?thesis
    unfolding wpa_supplicant_process_1_of_2_def Let_def wp_bind [of ?gd]
    by (rule wp_mono [OF gd]) (auto intro!: rest)
qed

section \<open>Reception\<close>

lemma mic_check_wp:
  assumes "length kck = 16" "97 \<le> length buf" "length buf < 2 ^ 30"
  shows "\<exists>b. mic_check cfg kck ver mic buf = Some b"
  using mic_wp [OF assms(1), of "take 81 buf @ replicate 16 0 @ drop 97 buf" cfg "uint ver"] assms(2,3)
  by (auto simp: mic_check_def wp_def)

lemma verify_wp:
  assumes "sm_wf sm" "key_wf key" "97 \<le> length buf" "length buf < 2 ^ 30"
  shows "wp (wpa_supplicant_verify_eapol_key_mic cfg sm key ver buf) (\<lambda>(r, sm'). sm_wf sm' \<and> sm_log sm' = sm_log sm \<and>
    sm_pm sm' = sm_pm sm \<and> sm_proto sm' = sm_proto sm \<and> (r \<noteq> 0 \<longrightarrow> sm' = sm) \<and>
    (r = 0 \<longrightarrow> sm_rx_replay_counter sm' = k_replay_counter key \<and> sm_rx_replay_counter_set sm' \<and> sm_ptk_set sm' \<and>
      mic_check cfg (ptk_kck (sm_ptk sm')) ver (k_mic key) buf = Some True))"
proof -
  have kck: "length (ptk_kck (sm_tptk sm)) = 16" "length (ptk_kck (sm_ptk sm)) = 16" using assms(1) by (simp_all add: sm_wf_def)
  obtain b1 b2 where b: "mic_check cfg (ptk_kck (sm_tptk sm)) ver (k_mic key) buf = Some b1"
    "mic_check cfg (ptk_kck (sm_ptk sm)) ver (k_mic key) buf = Some b2"
    using mic_check_wp [OF kck(1) assms(3,4)] mic_check_wp [OF kck(2) assms(3,4)] by blast
  show ?thesis
    using b assms(1,2) unfolding wpa_supplicant_verify_eapol_key_mic_def
    by (cases "sm_tptk_set sm"; cases b1; cases "sm_ptk_set sm"; cases b2) (simp_all add: Let_def sm_wf_def key_wf_def)
qed

lemma unat_minus_8: "8 \<le> unat (x :: u16) \<Longrightarrow> unat (x - 8) = unat x - 8"
  by (simp add: unat_sub word_le_nat_alt)

lemma decrypt_wp:
  assumes "sm_wf sm" "key_wf key" "env_alloc env" "unat (k_data_length key) \<le> length (k_data key)" "k_data_length key \<noteq> 0"
  shows "wp (wpa_supplicant_decrypt_key_data env sm key ver) (\<lambda>(r, key'). key_wf key' \<and> k_info key' = k_info key \<and>
    unat (k_data_length key') \<le> length (k_data key'))"
proof -
  let ?n = "unat (k_data_length key)"
  have kek: "length (ptk_kek (sm_ptk sm)) = 16" using assms(1) by (simp add: sm_wf_def)
  obtain r d where rc4: "rc4_skip (k_iv key @ ptk_kek (sm_ptk sm)) 256 (take ?n (k_data key)) = Some (r, d)"
    "length d = ?n"
    using rc4_wp [of "k_iv key @ ptk_kek (sm_ptk sm)" 256 "take ?n (k_data key)"] assms(2,4) by (force simp: wp_def key_wf_def)
  have unwrap: "?n mod 8 = 0 \<Longrightarrow> \<exists>r d. aes_unwrap True (ptk_kek (sm_ptk sm)) (unat (k_data_length key - 8) div 8) (k_data key) = Some (r, d) \<and>
      length d = unat (k_data_length key - 8)"
  proof -
    assume m: "?n mod 8 = 0"
    moreover have "?n \<noteq> 0" using assms(5) by (simp add: unat_eq_0)
    ultimately have n: "8 \<le> ?n" by presburger
    then have u: "unat (k_data_length key - 8) = ?n - 8" by (rule unat_minus_8)
    have "(?n - 8) mod 8 = 0" using m n by presburger
    then have e: "8 * ((?n - 8) div 8) = ?n - 8" by (metis add.right_neutral mult_div_mod_eq)
    have "8 + 8 * ((?n - 8) div 8) \<le> length (k_data key)" using e n assms(4) by simp
    from unwrap_wp [OF kek this] show ?thesis by (auto simp: wp_def u e)
  qed
  show ?thesis
  proof (cases "ver = 1")
    case True
    then show ?thesis
      using rc4 assms(2,4) by (auto simp: wpa_supplicant_decrypt_key_data_def Let_def key_wf_def)
  next
    case False
    then show ?thesis
      using unwrap assms(2-4) by (auto simp: wpa_supplicant_decrypt_key_data_def Let_def key_wf_def)
  qed
qed

lemma dispatch_wp:
  assumes "handler P env sm0 sm" "P = key_ok (sm_ptk sm) \<or> P = no_key \<and> \<not> has (k_info key) WPA_KEY_INFO_MIC"
    "fresh (env_entry env) (sm_pm sm)" "length src = 6" "key_wf key" "env_alloc env"
    "unat (k_data_length key) \<le> length (k_data key)"
  shows "wp (rx_eapol_dispatch cfg env sm src key ver extra) (handler P env sm0)"
proof (cases "has (k_info key) WPA_KEY_INFO_MIC")
  case True
  with assms show ?thesis
    unfolding rx_eapol_dispatch_def by (auto intro: process_3_of_4_wp process_1_of_2_wp)
next
  case False
  with assms show ?thesis
    unfolding rx_eapol_dispatch_def by (auto intro: process_1_of_4_wp)
qed

text \<open>The outcome of a frame that passed the checks on its header.\<close>

definition new_events :: "(sm_event \<Rightarrow> bool) \<Rightarrow> wpa_sm \<Rightarrow> wpa_sm \<Rightarrow> bool" where
  "new_events P sm sm' \<longleftrightarrow> (\<exists>evs. sm_log sm' = evs @ sm_log sm \<and> list_all P evs)"

definition rx_outcome :: "build_config \<Rightarrow> wpa_sm \<Rightarrow> wpa_eapol_key \<Rightarrow> bytes \<Rightarrow> int \<Rightarrow> wpa_sm \<Rightarrow> bool" where
  "rx_outcome cfg sm key buf r sm' \<longleftrightarrow> sm_wf sm' \<and> (r = -1 \<or> r = 1) \<and>
     (if has (k_info key) WPA_KEY_INFO_MIC
      then r = -1 \<and> sm' = sm \<or>
        mic_check cfg (ptk_kck (sm_ptk sm')) (k_info key AND WPA_KEY_INFO_TYPE_MASK) (k_mic key) buf = Some True \<and> sm_ptk_set sm' \<and>
        sm_rx_replay_counter sm' = k_replay_counter key \<and> sm_rx_replay_counter_set sm' \<and>
        new_events (key_ok (sm_ptk sm')) sm sm'
      else keep no_key sm sm')"

lemma rx_eapol_key_wp:
  assumes wf: "sm_wf sm" "env_wf env sm" "length src = 6" "key_wf key" "env_alloc env"
    and len: "99 \<le> length buf" "length buf < 2 ^ 30" "length buf - 99 \<le> length (k_data key)"
    and data: "k_data_length key \<noteq> 0 \<or> \<not> has (k_info key) WPA_KEY_INFO_ENCR_KEY_DATA"
  shows "wp (rx_eapol_key cfg env sm src buf key) (\<lambda>(r, sm'). rx_outcome cfg sm key buf r sm')"
proof -
  let ?ver = "k_info key AND WPA_KEY_INFO_TYPE_MASK"
  let ?mic = "has (k_info key) WPA_KEY_INFO_MIC"
  have env: "env_sizes env" "fresh (env_entry env) (sm_pm sm)" using wf(2) by (simp_all add: env_wf_def)
  obtain r1 sm1 where v: "(if ?mic then wpa_supplicant_verify_eapol_key_mic cfg sm key ?ver buf else Some (0, sm)) = Some (r1, sm1)"
    and sm1: "sm_wf sm1" "sm_log sm1 = sm_log sm" "sm_pm sm1 = sm_pm sm" "r1 \<noteq> 0 \<longrightarrow> sm1 = sm \<and> ?mic" "\<not> ?mic \<longrightarrow> sm1 = sm"
      "r1 = 0 \<and> ?mic \<longrightarrow> sm_rx_replay_counter sm1 = k_replay_counter key \<and> sm_rx_replay_counter_set sm1 \<and> sm_ptk_set sm1 \<and>
        mic_check cfg (ptk_kck (sm_ptk sm1)) ?ver (k_mic key) buf = Some True"
  proof (cases ?mic)
    case True
    then show ?thesis using verify_wp [OF wf(1,4), of buf cfg ?ver] len that by (auto simp: wp_def)
  qed (use wf(1) that [of 0 sm] in auto)
  define P where "P = (if ?mic then key_ok (sm_ptk sm1) else no_key)"
  have h: "handler P env sm1 sm1" using sm1(1) env(1) by (simp add: handler_def keep_refl P_def)
  have ok: "handler P env sm1 sm2 \<Longrightarrow> r1 = 0 \<Longrightarrow> r = -1 \<or> r = 1 \<Longrightarrow> rx_outcome cfg sm key buf r sm2" for sm2 r
    using sm1 by (auto simp: rx_outcome_def handler_def keep_def P_def new_events_def split: if_splits)
  have fail: "rx_outcome cfg sm key buf (-1) sm1"
  proof (cases "r1 = 0")
    case True
    then show ?thesis by (intro ok [OF h]) simp_all
  next
    case False
    then show ?thesis using wf(1) sm1(4) by (simp add: rx_outcome_def)
  qed
  have disp: "wp (rx_eapol_dispatch cfg env sm1 src key' ?ver extra) (handler P env sm1)"
    if "key_wf key'" "k_info key' = k_info key" "unat (k_data_length key') \<le> length (k_data key')" for key' extra
    using env(2) wf(3,5) sm1(3) that by (intro dispatch_wp [OF h]) (auto simp: P_def)
  have fits: "unat (k_data_length key) \<le> length (k_data key)" if "\<not> length buf - 4 - 95 < unat (k_data_length key)"
    using that len(3) by simp
  have rest: "wp (do {
       (r, key) \<leftarrow> (if sm_proto sm1 = WPA_PROTO_RSN \<and> has (k_info key) WPA_KEY_INFO_ENCR_KEY_DATA
         then wpa_supplicant_decrypt_key_data env sm1 key ?ver else Some (0, key));
       if r \<noteq> 0 then Some (-1, sm1)
       else if has (k_info key0) WPA_KEY_INFO_KEY_TYPE \<and> has (k_info key0) WPA_KEY_INFO_KEY_INDEX_MASK then Some (-1, sm1)
       else map_option (Pair 1) (rx_eapol_dispatch cfg env sm1 src key ?ver (unat (k_data_length key))) })
      (\<lambda>(r, sm'). rx_outcome cfg sm key buf r sm')"
    if n: "unat (k_data_length key) \<le> length (k_data key)" and r1: "r1 = 0" for key0
  proof -
    have d: "wp (if sm_proto sm1 = WPA_PROTO_RSN \<and> has (k_info key) WPA_KEY_INFO_ENCR_KEY_DATA
        then wpa_supplicant_decrypt_key_data env sm1 key ?ver else Some (0, key))
        (\<lambda>(r, key'). key_wf key' \<and> k_info key' = k_info key \<and> unat (k_data_length key') \<le> length (k_data key'))"
      using decrypt_wp [OF sm1(1) wf(4,5) n] data wf(4) n by auto
    show ?thesis
      unfolding wp_bind by (rule wp_mono [OF d]) (auto simp: fail intro!: wp_mono [OF disp] ok r1)
  qed
  show ?thesis
    unfolding rx_eapol_key_def Let_def v Option.bind.bind_lunit prod.case
    using fail fits rest [of key] by (cases "r1 = 0") simp_all
qed

text \<open>A frame that is not newer than the replay counter changes nothing.\<close>

lemma memcmp_le: "length a = n \<Longrightarrow> length b = n \<Longrightarrow> \<exists>c. os_memcmp a b n = Some c \<and> (c \<le> 0 \<longleftrightarrow> be_val a \<le> be_val b)"
proof -
  assume l: "length a = n" "length b = n"
  obtain c where c: "os_memcmp a b n = Some c" "c < 0 \<longleftrightarrow> be_val a < be_val b" using os_memcmp_order [OF l] by auto
  moreover obtain d where "os_memcmp b a n = Some d" "d < 0 \<longleftrightarrow> be_val b < be_val a" using os_memcmp_order [OF l(2,1)] by auto
  moreover have "os_memcmp b a n = Some (- c)" using os_memcmp_swap [of n a b] l c(1) by simp
  ultimately show ?thesis by (auto simp: not_less)
qed

lemma rx_eapol_old:
  assumes "sm_wf sm" "sm_rx_replay_counter_set sm"
    "be_val (k_replay_counter (eapol_key_of (drop 4 buf))) \<le> be_val (sm_rx_replay_counter sm)"
  shows "\<exists>r sm'. wpa_sm_rx_eapol cfg env sm src buf = Some (r, sm') \<and> r \<le> 0 \<and> (sm' = sm \<or> sm' = emit Lower_Layer_Success sm)"
proof (cases "length buf < 99")
  case True
  then show ?thesis by (simp add: wpa_sm_rx_eapol_def)
next
  case False
  let ?key = "eapol_key_of (drop 4 buf)"
  have "length (k_replay_counter ?key) = 8" "length (sm_rx_replay_counter sm) = 8"
    using eapol_key_of_wf [of "drop 4 buf"] False assms(1) by (simp_all add: key_wf_def sm_wf_def)
  from memcmp_le [OF this] obtain c where "os_memcmp (k_replay_counter ?key) (sm_rx_replay_counter sm) 8 = Some c" "c \<le> 0"
    using assms(3) by auto
  then show ?thesis
    using False assms(2) by (simp add: wpa_sm_rx_eapol_def Let_def)
qed

text \<open>The checks on the header in front of \<open>rx_eapol_key\<close>.\<close>

lemma rx_eapol_cases:
  assumes "sm_wf sm"
  obtains (dropped) r sm' where "wpa_sm_rx_eapol cfg env sm src buf = Some (r, sm')" "r = 0 \<or> r = -1"
      "sm' = sm \<or> sm' = emit Lower_Layer_Success sm"
  | (key) plen where "99 \<le> length buf" "env_alloc env" "95 \<le> plen" "plen \<le> length buf - 4" "plen < 65536"
      "sm_rx_replay_counter_set sm \<longrightarrow> be_val (sm_rx_replay_counter sm) < be_val (k_replay_counter (eapol_key_of (drop 4 buf)))"
      "plen = unat (WPA_GET_BE16 (drop 2 buf))"
      "wpa_sm_rx_eapol cfg env sm src buf =
        rx_eapol_key cfg env (emit Lower_Layer_Success sm) src (take (plen + 4) buf) (eapol_key_of (drop 4 buf))"
proof (cases "length buf < 99 \<or> \<not> env_alloc env")
  case True
  then have "wpa_sm_rx_eapol cfg env sm src buf = Some (if length buf < 99 then 0 else -1, sm)"
    by (auto simp: wpa_sm_rx_eapol_def)
  then show ?thesis by (rule dropped) simp_all
next
  case False
  let ?key = "eapol_key_of (drop 4 buf)"
  have "length (k_replay_counter ?key) = 8" "length (sm_rx_replay_counter sm) = 8"
    using eapol_key_of_wf [of "drop 4 buf"] False assms(1) by (auto simp: key_wf_def sm_wf_def)
  from memcmp_le [OF this] obtain c where c: "os_memcmp (k_replay_counter ?key) (sm_rx_replay_counter sm) 8 = Some c"
    "c \<le> 0 \<longleftrightarrow> be_val (k_replay_counter ?key) \<le> be_val (sm_rx_replay_counter sm)" by auto
  define plen where "plen = unat (WPA_GET_BE16 (drop 2 buf))"
  have "plen < 65536" unfolding plen_def using unsigned_less [of "WPA_GET_BE16 (drop 2 buf)", where 'a = nat] by simp
  let ?sm = "emit Lower_Layer_Success sm"
  define A where "A \<longleftrightarrow> buf ! 1 \<noteq> IEEE802_1X_TYPE_EAPOL_KEY \<or> plen > length buf - 4 \<or> plen < 95 \<or>
    k_type ?key \<noteq> EAPOL_KEY_TYPE_WPA \<and> k_type ?key \<noteq> EAPOL_KEY_TYPE_RSN"
  define B where "B \<longleftrightarrow> \<not> eapol_version_ok cfg ?sm (k_info ?key) (k_info ?key AND WPA_KEY_INFO_TYPE_MASK) \<or>
    sm_rx_replay_counter_set sm \<and> c \<le> 0 \<or> \<not> has (k_info ?key) (WPA_KEY_INFO_ACK OR WPA_KEY_INFO_SMK_MESSAGE) \<or>
    has (k_info ?key) WPA_KEY_INFO_REQUEST"
  have eq: "wpa_sm_rx_eapol cfg env sm src buf = (if A then Some (0, sm) else if B then Some (-1, ?sm)
      else rx_eapol_key cfg env ?sm src (take (plen + 4) buf) ?key)"
    using False c(1) unfolding wpa_sm_rx_eapol_def Let_def plen_def [symmetric] A_def B_def
    by (cases "c \<le> 0"; cases "sm_rx_replay_counter_set sm") simp_all
  consider "A" | "\<not> A \<and> B" | "\<not> A \<and> \<not> B" by blast
  then show ?thesis
  proof cases
    case 1
    then show ?thesis using eq by (intro dropped [of 0 sm]) simp_all
  next
    case 2
    then show ?thesis using eq by (intro dropped [of "-1" ?sm]) simp_all
  next
    case 3
    then have "95 \<le> plen" "plen \<le> length buf - 4" "\<not> (sm_rx_replay_counter_set sm \<and> c \<le> 0)" by (simp_all add: A_def B_def)
    then show ?thesis
      using 3 eq False c(2) \<open>plen < 65536\<close> by (intro key [of plen]) (auto simp: plen_def)
  qed
qed

lemma rx_eapol_wp:
  assumes "sm_wf sm" "env_wf env sm" "length src = 6"
    and "k_data_length (eapol_key_of (drop 4 buf)) \<noteq> 0 \<or> \<not> has (k_info (eapol_key_of (drop 4 buf))) WPA_KEY_INFO_ENCR_KEY_DATA"
  shows "\<exists>r sm'. wpa_sm_rx_eapol cfg env sm src buf = Some (r, sm') \<and>
    ((r = 0 \<or> r = -1) \<and> (sm' = sm \<or> sm' = emit Lower_Layer_Success sm) \<or>
     (sm_rx_replay_counter_set sm \<longrightarrow> be_val (sm_rx_replay_counter sm) < be_val (k_replay_counter (eapol_key_of (drop 4 buf)))) \<and>
     rx_outcome cfg (emit Lower_Layer_Success sm) (eapol_key_of (drop 4 buf)) (take (unat (WPA_GET_BE16 (drop 2 buf)) + 4) buf) r sm')"
proof (rule rx_eapol_cases [OF assms(1), of cfg env src buf], goal_cases dropped key)
  case (key plen)
  let ?k = "eapol_key_of (drop 4 buf)"
  have k: "key_wf ?k" "length (k_data ?k) = length buf - 99" using eapol_key_of_wf [of "drop 4 buf"] key(1) by simp_all
  have "wp (rx_eapol_key cfg env (emit Lower_Layer_Success sm) src (take (plen + 4) buf) ?k)
      (\<lambda>(r, sm'). rx_outcome cfg (emit Lower_Layer_Success sm) ?k (take (plen + 4) buf) r sm')"
    using assms key(1-5) k by (intro rx_eapol_key_wp) simp_all
  then show ?thesis using key(6,8) unfolding key(7) by (auto simp: wp_def)
qed auto

section \<open>Witnesses\<close>

definition sample_env :: sm_env where
  "sample_env = \<lparr>env_alloc = True, env_entry = Some 7, env_now = 100, env_bssid = Some [2, 0, 0, 0, 0, 1],
     env_random = Some (replicate 32 5), env_set_key = (\<lambda>_. True), env_eapol_key = (\<lambda>n. Some (replicate n 9)),
     env_beacon_ie = None, env_network_ctx = 1, env_eapol_version = 1\<rparr>"

lemma sample_env_wf: "pc_pmksa (sm_pm sm) = [] \<Longrightarrow> pc_cur_pmksa (sm_pm sm) = None \<Longrightarrow> env_wf sample_env sm"
  by (simp add: env_wf_def env_sizes_def sample_env_def fresh_def pmksa_cache_init_def)

lemma init_wf: "sm_wf wpa_sm_init" "env_wf sample_env wpa_sm_init"
  using sample_env_wf [of wpa_sm_init]
  by (simp_all add: sm_wf_def wpa_sm_init_def pm_wf_def pmksa_cache_init_def pmksa_ok_def)

definition sample_frame :: bytes where
  "sample_frame = [1, 3, 0, 95, 2, 0, 0x8a] @ replicate 92 0"

lemma sample_frame_key: "\<not> has (k_info (eapol_key_of (drop 4 sample_frame))) WPA_KEY_INFO_ENCR_KEY_DATA"
  by (simp add: sample_frame_def eapol_key_of_def has_def WPA_GET_BE16_def)

section \<open>Properties\<close>





end
