(* ===== verification/Wpa_Auth_Ie.thy ===== *)
theory Wpa_Auth_Ie
  imports Wpa_Ie Key_Data
begin

text \<open>
  Elements and key data on the authenticator's side (\<open>src/drc-hostap/src/ap/wpa_auth_ie.c\<close>): the WPA and RSN
  elements of the access point, the encapsulation of key data, and the parser for the key data that a station
  sends. The elements fit their buffer and read back; what \<open>wpa_add_kde\<close> writes is found again by the
  supplicant's parser. Builds with \<open>CONFIG_RSN_TESTING\<close> and the mobility domain element of fast transition are
  not modelled.
\<close>

section \<open>Configuration\<close>

record wpa_auth_config =
  wc_wpa :: u32
  wc_wpa_key_mgmt :: u32
  wc_wpa_pairwise :: u32
  wc_wpa_group :: u32
  wc_wpa_group_rekey :: int
  wc_wpa_strict_rekey :: bool
  wc_wpa_gmk_rekey :: int
  wc_wpa_ptk_rekey :: int
  wc_rsn_pairwise :: u32
  wc_rsn_preauth :: bool
  wc_eapol_version :: u8
  wc_peerkey :: bool
  wc_wmm_enabled :: bool
  wc_disable_pmksa_caching :: bool
  wc_okc :: bool
  wc_tx_status :: bool
  wc_ieee80211w :: int
  wc_mobility_domain :: bytes
  wc_disable_gtk :: bool

section \<open>Elements of the access point\<close>

text \<open>As for the supplicant, the result is the return value with the bytes written, \<open>None\<close> beyond the buffer.\<close>

definition suite_list :: "u32 list \<Rightarrow> bytes" where
  "suite_list suites = WPA_PUT_LE16 (of_nat (length suites)) @ concat (map WPA_PUT_BE32 suites)"

definition wpa_write_wpa_ie :: "build_config \<Rightarrow> wpa_auth_config \<Rightarrow> nat \<Rightarrow> (int \<times> bytes) option" where
  "wpa_write_wpa_ie cfg conf room =
     (let suite = wpa_cipher_to_suite cfg WPA_PROTO_WPA (wc_wpa_group conf);
          (num_suites, pairwise) = wpa_cipher_put_suites (wc_wpa_pairwise conf);
          akms = (if wc_wpa_key_mgmt conf AND WPA_KEY_MGMT_IEEE8021X \<noteq> 0 then [WPA_AUTH_KEY_MGMT_UNSPEC_802_1X] else []) @
            (if wc_wpa_key_mgmt conf AND WPA_KEY_MGMT_PSK \<noteq> 0 then [WPA_AUTH_KEY_MGMT_PSK_OVER_802_1X] else []);
          body = WPA_PUT_BE32 WPA_OUI_TYPE @ WPA_PUT_LE16 1 @ WPA_PUT_BE32 suite @
            WPA_PUT_LE16 (of_nat num_suites) @ pairwise @ suite_list akms;
          ie = [221, of_nat (length body)] @ body
      in if suite = 0 then Some (-1, [])
         else if num_suites = 0 then Some (-1, [])
         else if akms = [] then Some (-1, [])
         else if room < length ie then None else Some (int (length ie), ie))"

definition rsn_write_akms :: "build_config \<Rightarrow> u32 \<Rightarrow> u32 list" where
  "rsn_write_akms cfg key_mgmt =
     (if key_mgmt AND WPA_KEY_MGMT_IEEE8021X \<noteq> 0 then [RSN_AUTH_KEY_MGMT_UNSPEC_802_1X] else []) @
     (if key_mgmt AND WPA_KEY_MGMT_PSK \<noteq> 0 then [RSN_AUTH_KEY_MGMT_PSK_OVER_802_1X cfg] else []) @
     (if CONFIG_IEEE80211R cfg \<and> key_mgmt AND WPA_KEY_MGMT_FT_IEEE8021X \<noteq> 0 then [RSN_AUTH_KEY_MGMT_FT_802_1X] else []) @
     (if CONFIG_IEEE80211R cfg \<and> key_mgmt AND WPA_KEY_MGMT_FT_PSK \<noteq> 0 then [RSN_AUTH_KEY_MGMT_FT_PSK] else []) @
     (if CONFIG_IEEE80211W cfg \<and> key_mgmt AND WPA_KEY_MGMT_IEEE8021X_SHA256 \<noteq> 0 then [RSN_AUTH_KEY_MGMT_802_1X_SHA256] else []) @
     (if CONFIG_IEEE80211W cfg \<and> key_mgmt AND WPA_KEY_MGMT_PSK_SHA256 \<noteq> 0 then [RSN_AUTH_KEY_MGMT_PSK_SHA256] else []) @
     (if CONFIG_SAE cfg \<and> key_mgmt AND WPA_KEY_MGMT_SAE \<noteq> 0 then [RSN_AUTH_KEY_MGMT_SAE] else []) @
     (if CONFIG_SAE cfg \<and> key_mgmt AND WPA_KEY_MGMT_FT_SAE \<noteq> 0 then [RSN_AUTH_KEY_MGMT_FT_SAE] else [])"

definition rsn_write_capab :: "build_config \<Rightarrow> wpa_auth_config \<Rightarrow> u16" where
  "rsn_write_capab cfg conf = (if wc_rsn_preauth conf then 1 else 0) OR (if wc_peerkey conf then 0x200 else 0) OR
     (if wc_wmm_enabled conf then 0x0c else 0) OR
     (if CONFIG_IEEE80211W cfg \<and> wc_ieee80211w conf \<noteq> 0
      then 0x80 OR (if wc_ieee80211w conf = 2 then 0x40 else 0) else 0)"

definition wpa_write_rsn_ie :: "build_config \<Rightarrow> wpa_auth_config \<Rightarrow> nat \<Rightarrow> bytes option \<Rightarrow> (int \<times> bytes) option" where
  "wpa_write_rsn_ie cfg conf room pmkid =
     (let suite = wpa_cipher_to_suite cfg WPA_PROTO_RSN (wc_wpa_group conf);
          (num_suites, pairwise) = rsn_cipher_put_suites cfg (wc_rsn_pairwise conf);
          akms = rsn_write_akms cfg (wc_wpa_key_mgmt conf);
          fixed = WPA_PUT_LE16 1 @ WPA_PUT_BE32 suite @ WPA_PUT_LE16 (of_nat num_suites) @ pairwise @
            suite_list akms @ WPA_PUT_LE16 (rsn_write_capab cfg conf);
          pmkids = (case pmkid of None \<Rightarrow> [] | Some p \<Rightarrow> [1, 0] @ take 16 p);
          mfp = (CONFIG_IEEE80211W cfg \<and> wc_ieee80211w conf \<noteq> 0);
          mgmt = (if mfp then (if pmkid = None then WPA_PUT_LE16 0 else []) @ WPA_PUT_BE32 RSN_CIPHER_SUITE_AES_128_CMAC
            else []);
          body = fixed @ pmkids @ mgmt;
          ie = [48, of_nat (length body)] @ body
      in if suite = 0 then Some (-1, [])
         else if num_suites = 0 then Some (-1, [])
         else if akms = [] then Some (-1, [])
         else if room < 2 + length fixed then None
         else if pmkid \<noteq> None \<and> room < 2 + length fixed + 2 + 16 then Some (-1, [])
         else if mfp \<and> room < 2 + length (fixed @ pmkids) + 2 + 4 then Some (-1, [])
         else Some (int (length ie), ie))"

text \<open>The elements go into a buffer of 128 bytes. The result is the return value and \<open>wpa_auth->wpa_ie\<close>.\<close>

definition wpa_auth_gen_wpa_ie :: "build_config \<Rightarrow> bool \<Rightarrow> wpa_auth_config \<Rightarrow> bytes option \<Rightarrow> (int \<times> bytes option) option" where
  "wpa_auth_gen_wpa_ie cfg mem conf old = do {
     (res, rsn) \<leftarrow> (if wc_wpa conf AND WPA_PROTO_RSN \<noteq> 0 then wpa_write_rsn_ie cfg conf 128 None else Some (0, []));
     if res < 0 then Some (res, old)
     else do {
       (res, wpa) \<leftarrow> (if wc_wpa conf AND WPA_PROTO_WPA \<noteq> 0 then wpa_write_wpa_ie cfg conf (128 - length rsn) else Some (0, []));
       if res < 0 then Some (res, old)
       else if mem then Some (0, Some (rsn @ wpa)) else Some (-1, None) } }"

section \<open>Key data\<close>

text \<open>The length is stored in a byte.\<close>

definition wpa_add_kde :: "u32 \<Rightarrow> bytes \<Rightarrow> bytes option \<Rightarrow> bytes" where
  "wpa_add_kde kde data data2 =
     (let d2 = (case data2 of None \<Rightarrow> [] | Some d \<Rightarrow> d)
      in [221, of_nat (4 + length data + length d2)] @ WPA_PUT_BE32 kde @ data @ d2)"

text \<open>The parser for the key data of a station. Its \<open>wpa_parse_generic\<close> has the body of the supplicant's.\<close>

definition kde_element :: "build_config \<Rightarrow> bytes \<Rightarrow> nat \<Rightarrow> u8 \<Rightarrow> nat \<Rightarrow> wpa_eapol_ie_parse \<Rightarrow>
    (int \<times> wpa_eapol_ie_parse) option" where
  "kde_element cfg buf pos eid l ie =
     (if eid = 48 then Some (0, ie\<lparr>kd_rsn_ie := Some (pos, l + 2)\<rparr>)
      else if CONFIG_IEEE80211R cfg \<and> eid = 54 then Some (0, ie\<lparr>kd_mdie := Some (pos, l + 2)\<rparr>)
      else if CONFIG_IEEE80211R cfg \<and> eid = 55 then Some (0, ie\<lparr>kd_ftie := Some (pos, l + 2)\<rparr>)
      else if eid = 221 then wpa_parse_generic cfg buf pos ie
      else Some (0, ie))"

function parse_kde_loop :: "build_config \<Rightarrow> bytes \<Rightarrow> nat \<Rightarrow> wpa_eapol_ie_parse \<Rightarrow> (int \<times> wpa_eapol_ie_parse) option" where
  "parse_kde_loop cfg buf pos ie =
     (if pos + 1 < length buf then do {
        eid \<leftarrow> c_read buf pos;
        l \<leftarrow> map_option unat (c_read buf (pos + 1));
        if eid = 0xdd \<and> (pos = length buf - 1 \<or> l = 0) then Some (0, ie)
        else if length buf < pos + 2 + l then Some (-1, ie)
        else do {
          (ret, ie) \<leftarrow> kde_element cfg buf pos eid l ie;
          if ret < 0 then Some (ret, ie)
          else if ret > 0 then Some (0, ie)
          else parse_kde_loop cfg buf (pos + 2 + l) ie } }
      else Some (0, ie))"
  by pat_completeness auto
termination
  by (relation "measure (\<lambda>(cfg, buf, pos, ie). length buf - pos)") auto

declare parse_kde_loop.simps [simp del]

definition wpa_parse_kde_ies :: "build_config \<Rightarrow> bytes \<Rightarrow> (int \<times> wpa_eapol_ie_parse) option" where
  "wpa_parse_kde_ies cfg buf = parse_kde_loop cfg buf 0 kd_empty"

section \<open>The parser stays inside the key data\<close>

lemma kde_element_inside:
  assumes "kd_inside (length buf) ie" "pos + 2 + l \<le> length buf" "l = unat (buf ! (pos + 1))"
  shows "\<exists>r ie'. kde_element cfg buf pos eid l ie = Some (r, ie') \<and> 0 \<le> r \<and> kd_inside (length buf) ie'"
  using assms parse_generic_inside [OF assms(1), of pos cfg]
  unfolding kde_element_def by (simp add: kd_inside_update)

interpretation auth: element_loop "kde_element cfg" "parse_kde_loop cfg" for cfg
  by unfold_locales (rule parse_kde_loop.simps, rule kde_element_inside)

lemma parse_kde_inside:
  "\<exists>r ie. wpa_parse_kde_ies cfg buf = Some (r, ie) \<and> (r = 0 \<or> r = -1) \<and> kd_inside (length buf) ie"
  unfolding wpa_parse_kde_ies_def by (rule auth.loop_inside [OF kd_empty_inside])

text \<open>A station's key data that is one RSN element.\<close>

lemma parse_kde_rsn:
  assumes "length body = unat l"
  shows "wpa_parse_kde_ies cfg (48 # l # body) = Some (0, kd_empty\<lparr>kd_rsn_ie := Some (0, 2 + length body)\<rparr>)"
proof -
  let ?buf = "48 # l # body"
  have "parse_kde_loop cfg ?buf 0 kd_empty = parse_kde_loop cfg ?buf (0 + 2 + unat (?buf ! (0 + 1))) (kd_empty\<lparr>kd_rsn_ie := Some (0, 2 + length body)\<rparr>)"
    by (subst auth.loop_element [of 0 ?buf cfg kd_empty 0]) (simp_all add: assms kde_element_def)
  then show ?thesis
    using auth.loop_end [of ?buf "2 + unat l" cfg] assms by (simp add: wpa_parse_kde_ies_def)
qed

section \<open>Key data of the access point\<close>

lemma generic_group_key:
  assumes "buf = pre @ wpa_add_kde RSN_KEY_DATA_GROUPKEY hdr (Some gtk) @ post" "length hdr = 2" "gtk \<noteq> []" "length gtk \<le> 249"
  shows "wpa_parse_generic cfg buf (length pre) ie = Some (0, ie\<lparr>kd_gtk := Some (length pre + 6, 2 + length gtk)\<rparr>)"
    and "buf ! length pre = 221" "unat (buf ! (length pre + 1)) = 6 + length gtk" "length pre + 8 + length gtk \<le> length buf"
proof -
  let ?l = "6 + length gtk"
  have n: "unat (of_nat ?l :: u8) = ?l" unfolding unat_of_nat using assms(4) by simp
  have b: "buf = (pre @ [221, of_nat ?l]) @ WPA_PUT_BE32 RSN_KEY_DATA_GROUPKEY @ (hdr @ gtk @ post)"
    using assms(2) by (simp add: assms(1) wpa_add_kde_def add.commute)
  show len: "length pre + 8 + length gtk \<le> length buf" using assms(2) by (simp add: b)
  show "buf ! length pre = 221" "unat (buf ! (length pre + 1)) = ?l" using n by (simp_all add: b nth_append)
  then have rd: "map_option unat (c_read buf (length pre + 1)) = Some ?l" using len by simp
  have sel: "selector_at buf (length pre + 2) = Some RSN_KEY_DATA_GROUPKEY"
    using c_slice_at [OF b, of "length pre + 2" 4] by (simp add: selector_at_def)
  show "wpa_parse_generic cfg buf (length pre) ie = Some (0, ie\<lparr>kd_gtk := Some (length pre + 6, 2 + length gtk)\<rparr>)"
    unfolding wpa_parse_generic_def rd using assms(3) sel
    by (simp add: kde_is_def RSN_SELECTOR_eq_iff RSN_SELECTOR_def Let_def)
qed

text \<open>The key data of message 3: the element of the access point, the group key and the padding of the key wrap.\<close>

lemma parse_ies_message_3:
  assumes "wpa_ie = 48 # l # body" "length body = unat l" "length hdr = 2" "gtk \<noteq> []" "length gtk \<le> 249"
    and "pad = [] \<or> pad = 0xdd # replicate m 0"
  shows "wpa_supplicant_parse_ies cfg (wpa_ie @ wpa_add_kde RSN_KEY_DATA_GROUPKEY hdr (Some gtk) @ pad) =
    Some (0, kd_empty\<lparr>kd_rsn_ie := Some (0, length wpa_ie), kd_gtk := Some (length wpa_ie + 6, 2 + length gtk)\<rparr>)"
proof -
  define buf where "buf = wpa_ie @ wpa_add_kde RSN_KEY_DATA_GROUPKEY hdr (Some gtk) @ pad"
  let ?i1 = "kd_empty\<lparr>kd_rsn_ie := Some (0, length wpa_ie)\<rparr>"
  let ?i2 = "?i1\<lparr>kd_gtk := Some (length wpa_ie + 6, 2 + length gtk)\<rparr>"
  note g = generic_group_key [OF buf_def assms(3-5)]
  have n: "buf ! 0 = 48" "buf ! (0 + 1) = l" "length wpa_ie = 2 + unat l" "length buf = length wpa_ie + 8 + length gtk + length pad"
    using assms(1-3) by (simp_all add: buf_def wpa_add_kde_def)
  have "parse_ies_loop cfg buf 0 kd_empty = parse_ies_loop cfg buf (length wpa_ie) ?i1"
    using supp.loop_element [of 0 buf cfg kd_empty 0 ?i1] n by (simp add: key_data_element_def)
  also have "\<dots> = parse_ies_loop cfg buf (length wpa_ie + 8 + length gtk) ?i2"
    using supp.loop_element [of "length wpa_ie" buf cfg ?i1 0 ?i2] g by (simp add: key_data_element_def add.assoc add.left_commute)
  also have "\<dots> = Some (0, ?i2)"
  proof (cases "pad = [] \<or> pad = [0xdd]")
    case True
    then show ?thesis using n(4) by (intro supp.loop_end) auto
  next
    case False
    then obtain k where p: "pad = 0xdd # 0 # replicate k 0" using assms(6) by (cases m) auto
    have "buf ! (length wpa_ie + 8 + length gtk) = 0xdd" "buf ! (length wpa_ie + 8 + length gtk + 1) = 0"
      using assms(3) by (simp_all add: buf_def p wpa_add_kde_def nth_append)
    then show ?thesis using n(4) p by (intro supp.loop_padding) simp_all
  qed
  finally show ?thesis by (simp add: wpa_supplicant_parse_ies_def buf_def)
qed

section \<open>Elements of the access point fit their buffer and read back\<close>

lemma length_suite_list [simp]: "length (suite_list ss) = 2 + 4 * length ss"
  by (induction ss) (simp_all add: suite_list_def)

lemma put_suites_length: "fst (rsn_cipher_put_suites cfg c) \<le> 4 \<and> length (snd (rsn_cipher_put_suites cfg c)) = 4 * fst (rsn_cipher_put_suites cfg c)"
  "fst (wpa_cipher_put_suites c) \<le> 3 \<and> length (snd (wpa_cipher_put_suites c)) = 4 * fst (wpa_cipher_put_suites c)"
  by (simp_all add: rsn_cipher_put_suites_def wpa_cipher_put_suites_def Let_def)

lemma rsn_write_akms_length: "length (rsn_write_akms cfg k) \<le> 8"
  by (simp add: rsn_write_akms_def)

lemma write_rsn_ie_length:
  assumes "86 \<le> room"
  shows "\<exists>r ie. wpa_write_rsn_ie cfg conf room None = Some (r, ie) \<and> length ie \<le> 76 \<and> (r = -1 \<or> r = int (length ie))"
  using assms put_suites_length(1) [of cfg "wc_rsn_pairwise conf"] rsn_write_akms_length [of cfg "wc_wpa_key_mgmt conf"]
  by (auto simp: wpa_write_rsn_ie_def Let_def split_def)

lemma write_wpa_ie_length:
  assumes "36 \<le> room"
  shows "\<exists>r ie. wpa_write_wpa_ie cfg conf room = Some (r, ie) \<and> length ie \<le> 36 \<and> (r = -1 \<or> r = int (length ie))"
  using assms put_suites_length(2) [of "wc_wpa_pairwise conf"]
  by (auto simp: wpa_write_wpa_ie_def Let_def split_def)

lemma gen_wpa_ie_fits:
  "\<exists>r ie. wpa_auth_gen_wpa_ie cfg mem conf old = Some (r, ie) \<and> (r = 0 \<longrightarrow> (\<exists>x. ie = Some x \<and> length x \<le> 112))"
proof -
  obtain r rsn where rsn: "(if wc_wpa conf AND WPA_PROTO_RSN \<noteq> 0 then wpa_write_rsn_ie cfg conf 128 None else Some (0, [])) = Some (r, rsn)"
      "length rsn \<le> 76"
    using write_rsn_ie_length [of 128 cfg conf] by (cases "wc_wpa conf AND WPA_PROTO_RSN = 0") auto
  moreover have room: "36 \<le> 128 - length rsn" using rsn(2) by simp
  moreover obtain r' wpa where "(if wc_wpa conf AND WPA_PROTO_WPA \<noteq> 0 then wpa_write_wpa_ie cfg conf (128 - length rsn) else Some (0, [])) = Some (r', wpa)"
      "length wpa \<le> 36"
    using write_wpa_ie_length [OF room, of cfg conf] by (cases "wc_wpa conf AND WPA_PROTO_WPA = 0") auto
  ultimately show ?thesis by (auto simp: wpa_auth_gen_wpa_ie_def)
qed

text \<open>Lists of suites: the parser collects the bits of all of them.\<close>

definition suite_bits :: "(bytes \<Rightarrow> u32) \<Rightarrow> u32 list \<Rightarrow> u32" where
  "suite_bits sel ss = foldr (\<lambda>s b. sel (WPA_PUT_BE32 s) OR b) ss 0"

lemma suite_bits_simps [simp]: "suite_bits sel [] = 0" "suite_bits sel (s # ss) = sel (WPA_PUT_BE32 s) OR suite_bits sel ss"
  "suite_bits sel (ss @ ts) = suite_bits sel ss OR suite_bits sel ts"
  by (induction ss) (simp_all add: suite_bits_def or.assoc)

lemma ie_suites_list:
  "ie = pre @ concat (map WPA_PUT_BE32 ss) @ post \<Longrightarrow> ie_suites sel ie (length ss) (length pre) acc = Some (acc OR suite_bits sel ss)"
proof (induction ss arbitrary: pre acc)
  case (Cons s ss)
  have "c_slice ie (length pre) 4 = Some (WPA_PUT_BE32 s)"
    using Cons.prems by (intro c_slice_at [of ie pre _ "concat (map WPA_PUT_BE32 ss) @ post"]) simp_all
  moreover have "ie_suites sel ie (length ss) (length (pre @ WPA_PUT_BE32 s)) (acc OR sel (WPA_PUT_BE32 s)) =
      Some ((acc OR sel (WPA_PUT_BE32 s)) OR suite_bits sel ss)"
    using Cons.prems by (intro Cons.IH) simp
  ultimately show ?case by (simp add: or.assoc)
qed simp

text \<open>One bit of a mask contributes itself.\<close>

lemma mask_bit:
  assumes "sel (WPA_PUT_BE32 s) = b" "b = 2 ^ n" "n < 32"
  shows "suite_bits sel (if k AND b \<noteq> 0 then [s] else []) = k AND (b :: u32)"
proof -
  have "k AND b = (if bit k n then b else 0)"
    using assms(2,3) by (intro bit_word_eqI) (auto simp: bit_simps)
  then show ?thesis using assms(1) by auto
qed

lemma unat_small_16: "n \<le> 8 \<Longrightarrow> unat (of_nat n :: u16) = n"
  unfolding unat_of_nat by simp

lemma ie_pairwise_list:
  assumes ie: "ie = pre @ suite_list ss @ post" and "ss \<noteq> []" "length ss \<le> 8" "\<not> bad (suite_bits sel ss)"
  shows "ie_pairwise sel bad ie (d, length pre, 2 + 4 * length ss + length post) =
    Some (Inr (d\<lparr>ie_pairwise_cipher := suite_bits sel ss\<rparr>, length pre + 2 + 4 * length ss, length post))"
proof -
  have "c_slice ie (length pre) 2 = Some (WPA_PUT_LE16 (of_nat (length ss)))"
    by (rule c_slice_at [of ie pre _ "concat (map WPA_PUT_BE32 ss) @ post"]) (simp_all add: ie suite_list_def)
  moreover have "ie_suites sel ie (length ss) (length pre + 2) 0 = Some (suite_bits sel ss)"
    using ie_suites_list [of ie "pre @ WPA_PUT_LE16 (of_nat (length ss))" ss post sel 0] ie by (simp add: suite_list_def)
  ultimately show ?thesis using assms(2-4) unat_small_16 [OF assms(3)] by (simp add: Let_def)
qed

lemma ie_akm_list:
  assumes ie: "ie = pre @ suite_list ss @ post" and "ss \<noteq> []" "length ss \<le> 8"
  shows "ie_akm sel ie (d, length pre, 2 + 4 * length ss + length post) =
    Some (Inr (d\<lparr>ie_key_mgmt := suite_bits sel ss\<rparr>, length pre + 2 + 4 * length ss, length post))"
proof -
  have "c_slice ie (length pre) 2 = Some (WPA_PUT_LE16 (of_nat (length ss)))"
    by (rule c_slice_at [of ie pre _ "concat (map WPA_PUT_BE32 ss) @ post"]) (simp_all add: ie suite_list_def)
  moreover have "ie_suites sel ie (length ss) (length pre + 2) 0 = Some (suite_bits sel ss)"
    using ie_suites_list [of ie "pre @ WPA_PUT_LE16 (of_nat (length ss))" ss post sel 0] ie by (simp add: suite_list_def)
  ultimately show ?thesis using assms(2,3) unat_small_16 [OF assms(3)] by (simp add: Let_def)
qed

lemma mask_bit_if:
  assumes "c \<Longrightarrow> sel (WPA_PUT_BE32 s) = b" "b = 2 ^ n" "n < 32"
  shows "suite_bits sel (if c \<and> k AND b \<noteq> 0 then [s] else []) = k AND (if c then b else (0 :: u32))"
proof (cases c)
  case True
  then show ?thesis using mask_bit [of sel s b n k] assms by (simp del: suite_bits_simps)
qed simp

text \<open>The masks of the suites a build can announce.\<close>

definition pairwise_mask :: u32 where
  "pairwise_mask = WPA_CIPHER_CCMP OR WPA_CIPHER_GCMP OR WPA_CIPHER_TKIP OR WPA_CIPHER_NONE"

definition akm_mask :: "build_config \<Rightarrow> u32" where
  "akm_mask cfg = WPA_KEY_MGMT_IEEE8021X OR WPA_KEY_MGMT_PSK OR
     (if CONFIG_IEEE80211R cfg then WPA_KEY_MGMT_FT_IEEE8021X OR WPA_KEY_MGMT_FT_PSK else 0) OR
     (if CONFIG_IEEE80211W cfg then WPA_KEY_MGMT_IEEE8021X_SHA256 OR WPA_KEY_MGMT_PSK_SHA256 else 0) OR
     (if CONFIG_SAE cfg then WPA_KEY_MGMT_SAE OR WPA_KEY_MGMT_FT_SAE else 0)"

definition rsn_write_pairwise :: "build_config \<Rightarrow> u32 \<Rightarrow> u32 list" where
  "rsn_write_pairwise cfg ciphers = (if ciphers AND WPA_CIPHER_CCMP \<noteq> 0 then [RSN_CIPHER_SUITE_CCMP cfg] else []) @
        (if ciphers AND WPA_CIPHER_GCMP \<noteq> 0 then [RSN_CIPHER_SUITE_GCMP] else []) @
        (if ciphers AND WPA_CIPHER_TKIP \<noteq> 0 then [RSN_CIPHER_SUITE_TKIP] else []) @
        (if ciphers AND WPA_CIPHER_NONE \<noteq> 0 then [RSN_CIPHER_SUITE_NONE] else [])"

lemma rsn_put_suites_eq: "rsn_cipher_put_suites cfg c = (length (rsn_write_pairwise cfg c), concat (map WPA_PUT_BE32 (rsn_write_pairwise cfg c)))"
  unfolding rsn_cipher_put_suites_def rsn_write_pairwise_def Let_def by (rule refl)

lemma pairwise_bits: "suite_bits (rsn_selector_to_bitfield cfg) (rsn_write_pairwise cfg c) = c AND pairwise_mask"
proof -
  have "suite_bits (rsn_selector_to_bitfield cfg) (if c AND WPA_CIPHER_CCMP \<noteq> 0 then [RSN_CIPHER_SUITE_CCMP cfg] else []) = c AND WPA_CIPHER_CCMP"
    by (rule mask_bit [of _ _ _ 4]) (simp_all add: suite_simps)
  moreover have "suite_bits (rsn_selector_to_bitfield cfg) (if c AND WPA_CIPHER_GCMP \<noteq> 0 then [RSN_CIPHER_SUITE_GCMP] else []) = c AND WPA_CIPHER_GCMP"
    by (rule mask_bit [of _ _ _ 6]) (simp_all add: suite_simps)
  moreover have "suite_bits (rsn_selector_to_bitfield cfg) (if c AND WPA_CIPHER_TKIP \<noteq> 0 then [RSN_CIPHER_SUITE_TKIP] else []) = c AND WPA_CIPHER_TKIP"
    by (rule mask_bit [of _ _ _ 3]) (simp_all add: suite_simps)
  moreover have "suite_bits (rsn_selector_to_bitfield cfg) (if c AND WPA_CIPHER_NONE \<noteq> 0 then [RSN_CIPHER_SUITE_NONE] else []) = c AND WPA_CIPHER_NONE"
    by (rule mask_bit [of _ _ _ 0]) (simp_all add: suite_simps)
  ultimately show ?thesis
    unfolding rsn_write_pairwise_def suite_bits_simps pairwise_mask_def bit.conj_disj_distrib by simp
qed

lemma akm_bits: "suite_bits (rsn_key_mgmt_to_bitfield cfg) (rsn_write_akms cfg k) = k AND akm_mask cfg"
proof -
  let ?S = "suite_bits (rsn_key_mgmt_to_bitfield cfg)"
  have m1: "?S (if k AND WPA_KEY_MGMT_IEEE8021X \<noteq> 0 then [RSN_AUTH_KEY_MGMT_UNSPEC_802_1X] else []) = k AND WPA_KEY_MGMT_IEEE8021X"
    by (rule mask_bit [of _ _ _ 0]) (simp_all add: suite_simps)
  have m2: "?S (if k AND WPA_KEY_MGMT_PSK \<noteq> 0 then [RSN_AUTH_KEY_MGMT_PSK_OVER_802_1X cfg] else []) = k AND WPA_KEY_MGMT_PSK"
    by (rule mask_bit [of _ _ _ 1]) (simp_all add: suite_simps)
  have m3: "?S (if CONFIG_IEEE80211R cfg \<and> k AND WPA_KEY_MGMT_FT_IEEE8021X \<noteq> 0 then [RSN_AUTH_KEY_MGMT_FT_802_1X] else []) =
      k AND (if CONFIG_IEEE80211R cfg then WPA_KEY_MGMT_FT_IEEE8021X else 0)"
    by (rule mask_bit_if [of _ _ _ _ 5]) (simp_all add: suite_simps)
  have m4: "?S (if CONFIG_IEEE80211R cfg \<and> k AND WPA_KEY_MGMT_FT_PSK \<noteq> 0 then [RSN_AUTH_KEY_MGMT_FT_PSK] else []) =
      k AND (if CONFIG_IEEE80211R cfg then WPA_KEY_MGMT_FT_PSK else 0)"
    by (rule mask_bit_if [of _ _ _ _ 6]) (simp_all add: suite_simps)
  have m5: "?S (if CONFIG_IEEE80211W cfg \<and> k AND WPA_KEY_MGMT_IEEE8021X_SHA256 \<noteq> 0 then [RSN_AUTH_KEY_MGMT_802_1X_SHA256] else []) =
      k AND (if CONFIG_IEEE80211W cfg then WPA_KEY_MGMT_IEEE8021X_SHA256 else 0)"
    by (rule mask_bit_if [of _ _ _ _ 7]) (simp_all add: suite_simps)
  have m6: "?S (if CONFIG_IEEE80211W cfg \<and> k AND WPA_KEY_MGMT_PSK_SHA256 \<noteq> 0 then [RSN_AUTH_KEY_MGMT_PSK_SHA256] else []) =
      k AND (if CONFIG_IEEE80211W cfg then WPA_KEY_MGMT_PSK_SHA256 else 0)"
    by (rule mask_bit_if [of _ _ _ _ 8]) (simp_all add: suite_simps)
  have m7: "?S (if CONFIG_SAE cfg \<and> k AND WPA_KEY_MGMT_SAE \<noteq> 0 then [RSN_AUTH_KEY_MGMT_SAE] else []) =
      k AND (if CONFIG_SAE cfg then WPA_KEY_MGMT_SAE else 0)"
    by (rule mask_bit_if [of _ _ _ _ 10]) (simp_all add: suite_simps)
  have m8: "?S (if CONFIG_SAE cfg \<and> k AND WPA_KEY_MGMT_FT_SAE \<noteq> 0 then [RSN_AUTH_KEY_MGMT_FT_SAE] else []) =
      k AND (if CONFIG_SAE cfg then WPA_KEY_MGMT_FT_SAE else 0)"
    by (rule mask_bit_if [of _ _ _ _ 11]) (simp_all add: suite_simps)
  have mask: "akm_mask cfg = WPA_KEY_MGMT_IEEE8021X OR (WPA_KEY_MGMT_PSK OR
      ((if CONFIG_IEEE80211R cfg then WPA_KEY_MGMT_FT_IEEE8021X else 0) OR
      ((if CONFIG_IEEE80211R cfg then WPA_KEY_MGMT_FT_PSK else 0) OR
      ((if CONFIG_IEEE80211W cfg then WPA_KEY_MGMT_IEEE8021X_SHA256 else 0) OR
      ((if CONFIG_IEEE80211W cfg then WPA_KEY_MGMT_PSK_SHA256 else 0) OR
      ((if CONFIG_SAE cfg then WPA_KEY_MGMT_SAE else 0) OR (if CONFIG_SAE cfg then WPA_KEY_MGMT_FT_SAE else 0)))))))"
    by (simp add: akm_mask_def)
  show ?thesis
    unfolding rsn_write_akms_def suite_bits_simps(3) m1 m2 m3 m4 m5 m6
      m7 m8 mask bit.conj_disj_distrib by (rule refl)
qed

text \<open>An element with these fields, and what is behind the capabilities.\<close>

lemma parse_rsn_lists:
  fixes cfg
  defines "sel \<equiv> rsn_selector_to_bitfield cfg"
  assumes ie: "ie = [48, of_nat n] @ WPA_PUT_LE16 1 @ WPA_PUT_BE32 g @ suite_list ps @ suite_list ks @ WPA_PUT_LE16 c @ rest"
    and n: "n = 12 + 4 * length ps + 4 * length ks + length rest" "n < 256"
    and "sel (WPA_PUT_BE32 g) \<in> rsn_ciphers" "suite_bits sel ps AND 32 = 0" "ps \<noteq> []" "length ps \<le> 8" "ks \<noteq> []" "length ks \<le> 8"
  shows "wpa_parse_wpa_ie_rsn cfg ie = ie_finish (stage_then (ie_pmkids ie
    (\<lparr>ie_proto = WPA_PROTO_RSN, ie_pairwise_cipher = suite_bits sel ps, ie_group_cipher = sel (WPA_PUT_BE32 g),
      ie_key_mgmt = suite_bits (rsn_key_mgmt_to_bitfield cfg) ks, ie_capabilities = c, ie_num_pmkid = 0,
      ie_pmkid = None, ie_mgmt_group_cipher = (if CONFIG_IEEE80211W cfg then WPA_CIPHER_AES_128_CMAC else 0)\<rparr>,
     length ie - length rest, length rest)) (ie_mgmt_group cfg ie))"
proof -
  have g: "sel (WPA_PUT_BE32 g) \<noteq> 32" using assms(5) by (auto simp: rsn_ciphers_def)
  have "unat (of_nat n :: u8) = n" unfolding unat_of_nat using n(2) by simp
  moreover have len: "length ie = 2 + n" by (simp add: ie n(1))
  ultimately have hd: "unat (of_nat n :: u8) = length ie - 2" by simp
  have rd: "ie ! 0 = 48" "ie ! 1 = of_nat n" "c_slice ie 2 2 = Some (WPA_PUT_LE16 1)"
    by (simp_all add: ie c_slice_def)
  define pre1 where "pre1 = [48, of_nat n] @ WPA_PUT_LE16 1"
  define pre2 where "pre2 = pre1 @ WPA_PUT_BE32 g"
  define pre3 where "pre3 = pre2 @ suite_list ps"
  define pre4 where "pre4 = pre3 @ suite_list ks"
  have ies: "ie = pre1 @ WPA_PUT_BE32 g @ (suite_list ps @ suite_list ks @ WPA_PUT_LE16 c @ rest)"
    "ie = pre2 @ suite_list ps @ (suite_list ks @ WPA_PUT_LE16 c @ rest)"
    "ie = pre3 @ suite_list ks @ (WPA_PUT_LE16 c @ rest)" "ie = pre4 @ WPA_PUT_LE16 c @ rest"
    by (simp_all add: ie pre1_def pre2_def pre3_def pre4_def)
  have lens: "length pre1 = 4" "length pre2 = 4 + 4" "length pre3 = 4 + 4 + 2 + 4 * length ps"
    "length pre4 = 4 + 4 + 2 + 4 * length ps + 2 + 4 * length ks"
    by (simp_all add: pre1_def pre2_def pre3_def pre4_def)
  have left: "length ie - 4 = 4 + length (suite_list ps @ suite_list ks @ WPA_PUT_LE16 c @ rest)"
    "length (suite_list ps @ suite_list ks @ WPA_PUT_LE16 c @ rest) = 2 + 4 * length ps + length (suite_list ks @ WPA_PUT_LE16 c @ rest)"
    "length (suite_list ks @ WPA_PUT_LE16 c @ rest) = 2 + 4 * length ks + length (WPA_PUT_LE16 c @ rest)"
    "length (WPA_PUT_LE16 c @ rest) = 2 + length rest" "length ie - length rest = length pre4 + 2"
    by (simp_all add: ie lens)
  note at = ie_group_at [OF ies(1), of "\<lambda>c. CONFIG_IEEE80211W cfg \<and> c = WPA_CIPHER_AES_128_CMAC" sel, unfolded lens]
    ie_pairwise_list [OF ies(2) assms(7,8), of "\<lambda>c. CONFIG_IEEE80211W cfg \<and> c AND WPA_CIPHER_AES_128_CMAC \<noteq> 0" sel, unfolded lens]
    ie_akm_list [OF ies(3) assms(9,10), of "rsn_key_mgmt_to_bitfield cfg", unfolded lens] ie_capab_at [OF ies(4), unfolded lens]
  show ?thesis
    using rd hd g assms(6) n len at unfolding wpa_parse_wpa_ie_rsn_def Let_def sel_def [symmetric] left lens
    by (simp del: ie_group.simps ie_pairwise.simps ie_akm.simps ie_capab.simps ie_pmkids.simps ie_mgmt_group.simps length_append)
qed

lemma write_rsn_ie_eq:
  fixes cfg conf
  defines "rest \<equiv> rsn_tail cfg None (if wc_ieee80211w conf \<noteq> 0 then WPA_CIPHER_AES_128_CMAC else 0)"
    and "ps \<equiv> rsn_write_pairwise cfg (wc_rsn_pairwise conf)" and "ks \<equiv> rsn_write_akms cfg (wc_wpa_key_mgmt conf)"
  assumes "wpa_cipher_to_suite cfg WPA_PROTO_RSN (wc_wpa_group conf) \<noteq> 0" "ps \<noteq> []" "ks \<noteq> []"
  shows "wpa_write_rsn_ie cfg conf 128 None = Some (int (14 + 4 * length ps + 4 * length ks + length rest),
    [48, of_nat (12 + 4 * length ps + 4 * length ks + length rest)] @ WPA_PUT_LE16 1 @
      WPA_PUT_BE32 (wpa_cipher_to_suite cfg WPA_PROTO_RSN (wc_wpa_group conf)) @ suite_list ps @ suite_list ks @
      WPA_PUT_LE16 (rsn_write_capab cfg conf) @ rest)"
proof -
  have l: "length (concat (map WPA_PUT_BE32 xs)) = 4 * length xs" for xs by (induction xs) simp_all
  have "length ps \<le> 4" "length ks \<le> 8"
    using put_suites_length(1) [of cfg "wc_rsn_pairwise conf"] rsn_write_akms_length [of cfg "wc_wpa_key_mgmt conf"]
    by (simp_all add: rsn_put_suites_eq ps_def ks_def)
  moreover have "rest = (if CONFIG_IEEE80211W cfg \<and> wc_ieee80211w conf \<noteq> 0
      then WPA_PUT_LE16 0 @ WPA_PUT_BE32 RSN_CIPHER_SUITE_AES_128_CMAC else [])"
    by (simp add: rest_def rsn_tail_def)
  ultimately show ?thesis
    using assms(4-6)
    unfolding wpa_write_rsn_ie_def Let_def rsn_put_suites_eq split ps_def [symmetric] ks_def [symmetric]
    by (simp add: suite_list_def l)
qed

text \<open>
  C12. The RSN element of the access point fits the 128-byte buffer and reads back: for every configuration with a
  group cipher the element can name and at least one pairwise cipher and key management suite of the build,
  \<open>wpa_write_rsn_ie\<close> succeeds, and a station that parses the element gets the group cipher, exactly the
  configured pairwise ciphers and key management suites that the build supports, and the capabilities.
\<close>

theorem wpa_write_rsn_ie_roundtrip:
  assumes "wc_wpa_group conf \<in> rsn_ciphers" "wc_rsn_pairwise conf AND pairwise_mask \<noteq> 0"
    and "wc_wpa_key_mgmt conf AND akm_mask cfg \<noteq> 0"
  shows "\<exists>ie d. wpa_write_rsn_ie cfg conf 128 None = Some (int (length ie), ie) \<and> length ie \<le> 76 \<and>
    wpa_parse_wpa_ie cfg ie = Some (0, d) \<and> ie_proto d = WPA_PROTO_RSN \<and> ie_group_cipher d = wc_wpa_group conf \<and>
    ie_pairwise_cipher d = wc_rsn_pairwise conf AND pairwise_mask \<and>
    ie_key_mgmt d = wc_wpa_key_mgmt conf AND akm_mask cfg \<and> ie_capabilities d = rsn_write_capab cfg conf \<and> ie_num_pmkid d = 0"
proof -
  define ps ks where "ps = rsn_write_pairwise cfg (wc_rsn_pairwise conf)" and "ks = rsn_write_akms cfg (wc_wpa_key_mgmt conf)"
  define mg where "mg = (if wc_ieee80211w conf \<noteq> 0 then WPA_CIPHER_AES_128_CMAC else 0)"
  define rest where "rest = rsn_tail cfg None mg"
  define g where "g = wpa_cipher_to_suite cfg WPA_PROTO_RSN (wc_wpa_group conf)"
  define pre where "pre = [48, of_nat (12 + 4 * length ps + 4 * length ks + length rest)] @ WPA_PUT_LE16 1 @
      WPA_PUT_BE32 g @ suite_list ps @ suite_list ks @ WPA_PUT_LE16 (rsn_write_capab cfg conf)"
  define ie where "ie = pre @ rest"
  note sel = rsn_selector_roundtrip [OF assms(1), of cfg, folded g_def]
  have bits: "suite_bits (rsn_selector_to_bitfield cfg) ps = wc_rsn_pairwise conf AND pairwise_mask"
    "suite_bits (rsn_key_mgmt_to_bitfield cfg) ks = wc_wpa_key_mgmt conf AND akm_mask cfg"
    by (simp_all add: ps_def ks_def pairwise_bits akm_bits)
  have ne: "ps \<noteq> []" "ks \<noteq> []" using bits assms(2,3) by auto
  have len: "length ps \<le> 4" "length ks \<le> 8" "length rest \<le> 6"
    using put_suites_length(1) [of cfg "wc_rsn_pairwise conf"] rsn_write_akms_length [of cfg "wc_wpa_key_mgmt conf"]
    by (simp_all add: rsn_put_suites_eq ps_def ks_def rest_def rsn_tail_def)
  have gen: "wpa_write_rsn_ie cfg conf 128 None = Some (int (length ie), ie)"
    using write_rsn_ie_eq [of cfg conf, folded ps_def ks_def g_def mg_def rest_def] sel(2) ne by (simp add: ie_def pre_def)
  have ps32: "suite_bits (rsn_selector_to_bitfield cfg) ps AND 32 = 0" unfolding bits pairwise_mask_def by (simp add: and.assoc)
  define d0 where "d0 = \<lparr>ie_proto = WPA_PROTO_RSN, ie_pairwise_cipher = wc_rsn_pairwise conf AND pairwise_mask,
    ie_group_cipher = wc_wpa_group conf, ie_key_mgmt = wc_wpa_key_mgmt conf AND akm_mask cfg,
    ie_capabilities = rsn_write_capab cfg conf, ie_num_pmkid = 0, ie_pmkid = None,
    ie_mgmt_group_cipher = (if CONFIG_IEEE80211W cfg then WPA_CIPHER_AES_128_CMAC else 0)\<rparr>"
  have run: "wpa_parse_wpa_ie_rsn cfg ie =
      ie_finish (stage_then (ie_pmkids ie (d0, length pre, length rest)) (ie_mgmt_group cfg ie))"
    using parse_rsn_lists [of ie _ g ps ks "rsn_write_capab cfg conf" rest cfg] ps32 sel(1) assms(1) ne len
    by (simp add: d0_def ie_def pre_def bits del: ie_pmkids.simps ie_mgmt_group.simps)
  have parse: "wpa_parse_wpa_ie cfg ie = wpa_parse_wpa_ie_rsn cfg ie" by (simp add: wpa_parse_wpa_ie_def ie_def pre_def)
  have "length ie \<le> 76" using len by (simp add: ie_def pre_def)
  then show ?thesis
    using gen parse_rsn_tail [OF ie_def [unfolded rest_def], folded rest_def, of d0] unfolding parse [symmetric] run [folded parse, symmetric]
    by (intro exI [of _ ie]) (auto simp: d0_def simp del: ie_pmkids.simps ie_mgmt_group.simps)
qed

definition sample_conf :: wpa_auth_config where
  "sample_conf = \<lparr>wc_wpa = WPA_PROTO_RSN, wc_wpa_key_mgmt = WPA_KEY_MGMT_PSK, wc_wpa_pairwise = WPA_CIPHER_TKIP,
     wc_wpa_group = WPA_CIPHER_CCMP, wc_wpa_group_rekey = 0, wc_wpa_strict_rekey = False, wc_wpa_gmk_rekey = 0,
     wc_wpa_ptk_rekey = 0, wc_rsn_pairwise = WPA_CIPHER_CCMP, wc_rsn_preauth = False, wc_eapol_version = 2,
     wc_peerkey = False, wc_wmm_enabled = True, wc_disable_pmksa_caching = False, wc_okc = False,
     wc_tx_status = True, wc_ieee80211w = 0, wc_mobility_domain = [0, 0], wc_disable_gtk = False\<rparr>"

theorem wpa_write_rsn_ie_roundtrip_witness:
  "\<exists>ie d. wpa_write_rsn_ie pc2drc_config sample_conf 128 None = Some (int (length ie), ie) \<and> length ie \<le> 76 \<and>
    wpa_parse_wpa_ie pc2drc_config ie = Some (0, d) \<and> ie_proto d = 2 \<and> ie_group_cipher d = 16 \<and>
    ie_pairwise_cipher d = 16 \<and> ie_key_mgmt d = 2 \<and> ie_capabilities d = 12 \<and> ie_num_pmkid d = 0"
  using wpa_write_rsn_ie_roundtrip [of sample_conf pc2drc_config]
  by (simp add: sample_conf_def rsn_ciphers_def pairwise_mask_def akm_mask_def pc2drc_config_def rsn_write_capab_def)

end
