(* ===== verification/Wpa_Auth.thy ===== *)
theory Wpa_Auth
  imports Wpa_Sm Wpa_Auth_Ie
begin

text \<open>
  The authenticator (\<open>src/drc-hostap/src/ap/wpa_auth.c\<close>, \<open>wpa_auth_i.h\<close>) of an access point with one station, as the
  gamepad's: the pairwise key, group key and station group state machines, transmission and reception of
  EAPOL-Key frames, and the events that start them. Builds without \<open>CONFIG_IEEE80211R\<close> and \<open>CONFIG_WNM\<close>; PeerKey
  is disabled in the configuration, so SMK messages are dropped. Every operation maps the state to \<open>Some\<close> state,
  or to \<open>None\<close> when it would access memory outside of an object. The station is not removed by a callback
  while the machines run (\<open>pending_deinit\<close> stays clear).
\<close>

section \<open>State\<close>

datatype wpa_ptk_state = WPA_PTK_INITIALIZE | WPA_PTK_DISCONNECT | WPA_PTK_DISCONNECTED | WPA_PTK_AUTHENTICATION
  | WPA_PTK_AUTHENTICATION2 | WPA_PTK_INITPMK | WPA_PTK_INITPSK | WPA_PTK_PTKSTART | WPA_PTK_PTKCALCNEGOTIATING
  | WPA_PTK_PTKCALCNEGOTIATING2 | WPA_PTK_PTKINITNEGOTIATING | WPA_PTK_PTKINITDONE

datatype wpa_ptk_group_state = WPA_PTK_GROUP_IDLE | WPA_PTK_GROUP_REKEYNEGOTIATING
  | WPA_PTK_GROUP_REKEYESTABLISHED | WPA_PTK_GROUP_KEYERROR

datatype wpa_group_state = WPA_GROUP_GTK_INIT | WPA_GROUP_SETKEYS | WPA_GROUP_SETKEYSDONE

datatype wpa_version = WPA_VERSION_NO_WPA | WPA_VERSION_WPA | WPA_VERSION_WPA2

datatype wpa_eapol_variable = WPA_EAPOL_portEnabled | WPA_EAPOL_portValid | WPA_EAPOL_authorized
  | WPA_EAPOL_portControl_Auto | WPA_EAPOL_keyRun | WPA_EAPOL_keyAvailable | WPA_EAPOL_keyDone
  | WPA_EAPOL_inc_EapolFramesTx

text \<open>Calls into the driver: a frame for the station (encrypted or not), a key with algorithm, address, index
  and key, and the disconnection of the station.\<close>

datatype auth_event =
    Auth_Send_Eapol bytes bool
  | Auth_Set_Key wpa_alg bytes nat bytes
  | Auth_Disconnect
  | Auth_Mic_Failure

text \<open>Timers hold the delay they were registered with, in milliseconds; \<open>as_send_timeouts\<close> are the pending
  registrations of \<open>wpa_send_eapol_timeout\<close>. \<open>as_pmksa\<close> is PMK and PMKID of the cache entry in use.\<close>

record wpa_state_machine =
  as_addr :: bytes
  as_ptk_state :: wpa_ptk_state
  as_ptk_group_state :: wpa_ptk_group_state
  as_Init :: bool
  as_DeauthenticationRequest :: bool
  as_AuthenticationRequest :: bool
  as_ReAuthenticationRequest :: bool
  as_Disconnect :: bool
  as_TimeoutCtr :: int
  as_GTimeoutCtr :: int
  as_TimeoutEvt :: bool
  as_EAPOLKeyReceived :: bool
  as_EAPOLKeyPairwise :: bool
  as_EAPOLKeyRequest :: bool
  as_MICVerified :: bool
  as_GUpdateStationKeys :: bool
  as_ANonce :: bytes
  as_SNonce :: bytes
  as_PMK :: bytes
  as_PTK :: bytes
  as_PTK_valid :: bool
  as_pairwise_set :: bool
  as_keycount :: int
  as_Pair :: bool
  as_key_replay :: "(bytes \<times> bool) list"
  as_prev_key_replay :: "(bytes \<times> bool) list"
  as_PInitAKeys :: bool
  as_PTKRequest :: bool
  as_has_GTK :: bool
  as_PtkGroupInit :: bool
  as_last_rx_eapol_key :: "bytes option"
  as_last_rx_eapol_key_len :: nat
  as_changed :: bool
  as_started :: bool
  as_mgmt_frame_prot :: bool
  as_rx_eapol_key_secure :: bool
  as_update_snonce :: bool
  as_is_wnmsleep :: bool
  as_req_replay_counter :: bytes
  as_req_replay_counter_used :: bool
  as_wpa_ie :: "bytes option"
  as_wpa :: wpa_version
  as_pairwise :: u32
  as_wpa_key_mgmt :: u32
  as_pmksa :: "(bytes \<times> bytes) option"
  as_TKIPRemoteMICFailures :: u32
  as_pending_1_of_4_timeout :: bool
  as_send_timeouts :: "int list"
  as_rekey_ptk_timer :: "int option"

record wpa_group =
  g_GInit :: bool
  g_GKeyDoneStations :: int
  g_GTKReKey :: bool
  g_GTK_len :: nat
  g_GN :: nat
  g_GM :: nat
  g_GTKAuthenticator :: bool
  g_Counter :: bytes
  g_state :: wpa_group_state
  g_GMK :: bytes
  g_GTK :: "bytes list"
  g_GNonce :: bytes
  g_changed :: bool
  g_first_sta_seen :: bool
  g_reject_4way_hs_for_entropy :: bool
  g_IGTK :: "bytes list"
  g_GN_igtk :: nat
  g_GM_igtk :: nat

text \<open>\<open>wa_eapol\<close> are the variables of the EAPOL state machine that the callbacks access, \<open>wa_rand\<close> counts the calls
  of \<open>random_get_bytes\<close>, \<open>wa_log\<close> collects the events, newest first.\<close>

record wpa_authenticator =
  wa_group :: wpa_group
  wa_sta :: wpa_state_machine
  wa_conf :: wpa_auth_config
  wa_wpa_ie :: bytes
  wa_addr :: bytes
  wa_4WayHandshakeFailures :: u32
  wa_TKIPRemoteMICFailures :: u32
  wa_eapol :: "wpa_eapol_variable \<Rightarrow> int"
  wa_rekey_gtk_timer :: "int option"
  wa_rekey_gmk_timer :: "int option"
  wa_rand :: nat
  wa_log :: "auth_event list"

text \<open>
  What callbacks and libraries return during one event: allocation, the PSKs for the station, the buffer that
  \<open>get_msk\<close> fills, the sequence number of a group key, whether the driver accepts a key, the n-th random bytes of
  a length, whether the pool is ready, the time, the bytes of the pointer to the group, whether a Michael MIC
  failure report removed the station, and what uninitialised memory on the stack holds.
\<close>

record auth_env =
  ae_alloc :: bool
  ae_psks :: "bytes list"
  ae_msk :: "bytes option"
  ae_seqnum :: "nat \<Rightarrow> bytes option"
  ae_set_key :: "auth_event \<Rightarrow> bool"
  ae_random :: "nat \<Rightarrow> nat \<Rightarrow> bytes option"
  ae_pool_ready :: bool
  ae_ntp :: bytes
  ae_group_ptr :: bytes
  ae_mic_failure_removes :: bool
  ae_stack :: bytes

definition sta :: "(wpa_state_machine \<Rightarrow> wpa_state_machine) \<Rightarrow> wpa_authenticator \<Rightarrow> wpa_authenticator" where
  "sta f wa = wa\<lparr>wa_sta := f (wa_sta wa)\<rparr>"

definition grp :: "(wpa_group \<Rightarrow> wpa_group) \<Rightarrow> wpa_authenticator \<Rightarrow> wpa_authenticator" where
  "grp f wa = wa\<lparr>wa_group := f (wa_group wa)\<rparr>"

definition alog :: "auth_event \<Rightarrow> wpa_authenticator \<Rightarrow> wpa_authenticator" where
  "alog e wa = wa\<lparr>wa_log := e # wa_log wa\<rparr>"

section \<open>Callbacks\<close>

definition wpa_auth_set_eapol :: "wpa_eapol_variable \<Rightarrow> int \<Rightarrow> wpa_authenticator \<Rightarrow> wpa_authenticator" where
  "wpa_auth_set_eapol var v wa = wa\<lparr>wa_eapol := (wa_eapol wa)(var := v)\<rparr>"

definition wpa_auth_get_eapol :: "wpa_authenticator \<Rightarrow> wpa_eapol_variable \<Rightarrow> int" where
  "wpa_auth_get_eapol wa var = wa_eapol wa var"

definition wpa_auth_set_key :: "auth_env \<Rightarrow> wpa_alg \<Rightarrow> bytes \<Rightarrow> nat \<Rightarrow> bytes \<Rightarrow> wpa_authenticator \<Rightarrow> wpa_authenticator \<times> bool" where
  "wpa_auth_set_key env alg addr idx key wa =
     (let e = Auth_Set_Key alg addr idx key in (alog e wa, ae_set_key env e))"

definition wpa_sta_disconnect :: "wpa_authenticator \<Rightarrow> wpa_authenticator" where
  "wpa_sta_disconnect wa = alog Auth_Disconnect wa"

definition auth_random :: "auth_env \<Rightarrow> nat \<Rightarrow> wpa_authenticator \<Rightarrow> bytes option \<times> wpa_authenticator" where
  "auth_random env n wa = (ae_random env (wa_rand wa) n, wa\<lparr>wa_rand := wa_rand wa + 1\<rparr>)"

definition wpa_use_aes_cmac :: "build_config \<Rightarrow> wpa_state_machine \<Rightarrow> bool" where
  "wpa_use_aes_cmac cfg sm \<longleftrightarrow> CONFIG_IEEE80211R cfg \<and> wpa_key_mgmt_ft (as_wpa_key_mgmt sm) \<or>
     CONFIG_IEEE80211W cfg \<and> wpa_key_mgmt_sha256 (as_wpa_key_mgmt sm)"

section \<open>Replay counters\<close>

text \<open>The array of the last four counters; it is filled from the front.\<close>

fun wpa_replay_counter_valid :: "(bytes \<times> bool) list \<Rightarrow> bytes \<Rightarrow> bool" where
  "wpa_replay_counter_valid [] c = False"
| "wpa_replay_counter_valid ((d, v) # ctr) c = (v \<and> (c = d \<or> wpa_replay_counter_valid ctr c))"

definition wpa_replay_counter_mark_invalid :: "(bytes \<times> bool) list \<Rightarrow> bytes option \<Rightarrow> (bytes \<times> bool) list" where
  "wpa_replay_counter_mark_invalid ctr c =
     map (\<lambda>(d, v). (d, if v \<and> (c = None \<or> c = Some d) then False else v)) ctr"

section \<open>Sending\<close>

text \<open>The key data behind the header: plain, wrapped with the KEK, or encrypted with RC4. \<open>Inl\<close> is the early
  return when the key wrap fails.\<close>

definition send_key_data :: "auth_env \<Rightarrow> wpa_authenticator \<Rightarrow> u16 \<Rightarrow> bytes option \<Rightarrow> bool \<Rightarrow> nat \<Rightarrow> nat \<Rightarrow>
    (wpa_authenticator + wpa_authenticator \<times> bytes \<times> u16 \<times> bytes) option" where
  "send_key_data env wa version kde encr pad_len key_data_len =
     (case kde of
        None \<Rightarrow> Some (Inr (wa, replicate 16 0, 0, replicate key_data_len 0))
      | Some d \<Rightarrow>
          if \<not> encr then Some (Inr (wa, replicate 16 0, of_nat (length d), d))
          else
            (let buf = d @ (if pad_len \<noteq> 0 then [0xdd] else []);
                 buf = buf @ replicate (key_data_len - length buf) 0
             in if version = 2 \<or> version = 3 then do {
                  (r, c) \<leftarrow> aes_wrap (ae_alloc env) (ptk_kek (as_PTK (wa_sta wa))) ((key_data_len - 8) div 8) buf;
                  if r \<noteq> 0 then Some (Inl wa)
                  else Some (Inr (wa, replicate 16 0, of_nat key_data_len, c)) }
                else do {
                  iv \<leftarrow> c_slice (g_Counter (wa_group wa)) 16 16;
                  ctr \<leftarrow> inc_byte_array (g_Counter (wa_group wa)) 32;
                  let wa = grp (g_Counter_update (\<lambda>_. ctr)) wa;
                  (r, c) \<leftarrow> rc4_skip (iv @ ptk_kek (as_PTK (wa_sta wa))) 256 buf;
                  Some (Inr (wa, iv, of_nat key_data_len, c)) }))"

text \<open>The descriptor version and the key information field.\<close>

definition eapol_version :: "build_config \<Rightarrow> wpa_state_machine \<Rightarrow> u16 \<Rightarrow> u16" where
  "eapol_version cfg sm force_version =
     (if force_version \<noteq> 0 then force_version
      else if wpa_use_aes_cmac cfg sm then 3
      else if as_pairwise sm \<noteq> WPA_CIPHER_TKIP then 2
      else 1)"

text \<open>The end of \<open>__wpa_send_eapol\<close>: the MIC and the transmission.\<close>

definition send_eapol_frame :: "build_config \<Rightarrow> wpa_authenticator \<Rightarrow> u16 \<Rightarrow> bytes \<Rightarrow> wpa_eapol_key \<Rightarrow> wpa_authenticator option" where
  "send_eapol_frame cfg wa version hdr key =
     (if has (k_info key) WPA_KEY_INFO_MIC \<and> \<not> as_PTK_valid (wa_sta wa) then Some wa
      else do {
        mic \<leftarrow> (if has (k_info key) WPA_KEY_INFO_MIC then do {
            (r, m) \<leftarrow> wpa_eapol_key_mic cfg (ptk_kck (as_PTK (wa_sta wa))) (uint version) (hdr @ eapol_key_bytes key);
            Some (if r \<noteq> 0 then replicate 16 0 else m) }
          else Some (replicate 16 0));
        let wa = wpa_auth_set_eapol WPA_EAPOL_inc_EapolFramesTx 1 wa;
        Some (alog (Auth_Send_Eapol (hdr @ eapol_key_bytes (key\<lparr>k_mic := mic\<rparr>)) (as_pairwise_set (wa_sta wa))) wa) })"

definition wpa_send_eapol_now :: "build_config \<Rightarrow> auth_env \<Rightarrow> wpa_authenticator \<Rightarrow> u16 \<Rightarrow> bytes option \<Rightarrow> bytes option \<Rightarrow>
    bytes option \<Rightarrow> nat \<Rightarrow> bool \<Rightarrow> u16 \<Rightarrow> wpa_authenticator option" where
  "wpa_send_eapol_now cfg env wa key_info key_rsc nonce kde keyidx encr force_version =
     (let sm = wa_sta wa;
          version = eapol_version cfg sm force_version;
          kde_len = (case kde of None \<Rightarrow> 0 | Some d \<Rightarrow> length d);
          wrap = (version = 2 \<or> version = 3) \<and> encr;
          pad_len = (if wrap then (8 - kde_len mod 8) mod 8 else 0);
          key_data_len = (if wrap then kde_len + pad_len + 8 else kde_len)
      in if \<not> ae_alloc env then Some wa
         else do {
           let hdr = [wc_eapol_version (wa_conf wa), IEEE802_1X_TYPE_EAPOL_KEY] @ WPA_PUT_BE16 (of_nat (95 + key_data_len));
           let is_wpa2 = (as_wpa sm = WPA_VERSION_WPA2);
           let info = key_info OR version OR (if encr \<and> is_wpa2 then WPA_KEY_INFO_ENCR_KEY_DATA else 0) OR
             (if is_wpa2 then 0 else push_bit 4 (of_nat keyidx));
           let alg = (if has key_info WPA_KEY_INFO_KEY_TYPE then as_pairwise sm else wc_wpa_group (wa_conf wa));
           (c0, v0) \<leftarrow> c_read (as_key_replay sm) 0;
           c \<leftarrow> inc_byte_array c0 8;
           let wa = sta (as_key_replay_update (\<lambda>rs. (c, True) # take 3 rs)) wa;
           d \<leftarrow> send_key_data env wa version kde encr pad_len key_data_len;
           case d of
             Inl wa \<Rightarrow> Some wa
           | Inr (wa, iv, l, body) \<Rightarrow>
               send_eapol_frame cfg wa version hdr
                 \<lparr>k_type = (if is_wpa2 then EAPOL_KEY_TYPE_RSN else EAPOL_KEY_TYPE_WPA), k_info = info,
                   k_length = (if has info WPA_KEY_INFO_SMK_MESSAGE then 0 else of_nat (wpa_cipher_key_len alg)),
                   k_replay_counter = c, k_nonce = (case nonce of None \<Rightarrow> replicate 32 0 | Some n \<Rightarrow> n), k_iv = iv,
                   k_rsc = (case key_rsc of None \<Rightarrow> replicate 8 0 | Some r \<Rightarrow> r), k_id = replicate 8 0,
                   k_mic = replicate 16 0, k_data_length = l, k_data = body\<rparr> })"

definition wpa_send_eapol :: "build_config \<Rightarrow> auth_env \<Rightarrow> wpa_authenticator \<Rightarrow> u16 \<Rightarrow> bytes option \<Rightarrow> bytes option \<Rightarrow>
    bytes option \<Rightarrow> nat \<Rightarrow> bool \<Rightarrow> wpa_authenticator option" where
  "wpa_send_eapol cfg env wa key_info key_rsc nonce kde keyidx encr = do {
     let is_pairwise = has key_info WPA_KEY_INFO_KEY_TYPE;
     wa \<leftarrow> wpa_send_eapol_now cfg env wa key_info key_rsc nonce kde keyidx encr 0;
     let ctr = (if is_pairwise then as_TimeoutCtr (wa_sta wa) else as_GTimeoutCtr (wa_sta wa));
     let timeout_ms = (if ctr = 1 \<and> wc_tx_status (wa_conf wa) then (if is_pairwise then 100 else 500) else 1000);
     let pending = (is_pairwise \<and> ctr = 1 \<and> \<not> has key_info WPA_KEY_INFO_MIC);
     Some (sta (\<lambda>sm. sm\<lparr>as_pending_1_of_4_timeout := pending \<or> as_pending_1_of_4_timeout sm,
       as_send_timeouts := timeout_ms # as_send_timeouts sm\<rparr>) wa) }"

text \<open>The MIC of a received frame; true when it verifies.\<close>

definition wpa_verify_key_mic :: "build_config \<Rightarrow> bytes \<Rightarrow> bytes \<Rightarrow> bool option" where
  "wpa_verify_key_mic cfg ptk data =
     (if length data < 99 then Some False
      else do {
        let key = eapol_key_of (drop 4 data);
        (r, m) \<leftarrow> wpa_eapol_key_mic cfg (ptk_kck ptk) (uint (k_info key AND WPA_KEY_INFO_TYPE_MASK))
          (take 81 data @ replicate 16 0 @ drop 97 data);
        Some (r = 0 \<and> k_mic key = m) })"

definition wpa_remove_ptk :: "auth_env \<Rightarrow> wpa_authenticator \<Rightarrow> wpa_authenticator" where
  "wpa_remove_ptk env wa =
     (let wa = sta (\<lambda>sm. sm\<lparr>as_PTK_valid := False, as_PTK := replicate 64 0\<rparr>) wa;
          (wa, ok) = wpa_auth_set_key env WPA_ALG_NONE (as_addr (wa_sta wa)) 0 [] wa
      in sta (\<lambda>sm. sm\<lparr>as_pairwise_set := False, as_rekey_ptk_timer := None\<rparr>) wa)"

definition wpa_request_new_ptk :: "wpa_authenticator \<Rightarrow> wpa_authenticator" where
  "wpa_request_new_ptk wa = sta (\<lambda>sm. sm\<lparr>as_PTKRequest := True, as_PTK_valid := False\<rparr>) wa"

section \<open>Group keys\<close>

text \<open>An array of two keys, the index of which starts at \<open>base\<close>.\<close>

definition key_at :: "bytes list \<Rightarrow> nat \<Rightarrow> nat \<Rightarrow> bytes option" where
  "key_at keys base n = (if n < base then None else c_read keys (n - base))"

definition wpa_gmk_to_gtk :: "build_config \<Rightarrow> auth_env \<Rightarrow> wpa_authenticator \<Rightarrow> bytes \<Rightarrow> nat \<Rightarrow> (bytes \<times> wpa_authenticator) option" where
  "wpa_gmk_to_gtk cfg env wa label gtk_len =
     (let (r, wa) = auth_random env 16 wa;
          data = wa_addr wa @ g_GNonce (wa_group wa) @ ae_ntp env @ (case r of None \<Rightarrow> take 16 (ae_stack env) | Some x \<Rightarrow> x)
      in map_option (\<lambda>k. (k, wa))
        (if CONFIG_IEEE80211W cfg then sha256_prf (g_GMK (wa_group wa)) label data gtk_len
         else map_option snd (sha1_prf (g_GMK (wa_group wa)) label data gtk_len)))"

text \<open>A new nonce from the counter.\<close>

definition next_gnonce :: "wpa_authenticator \<Rightarrow> wpa_authenticator option" where
  "next_gnonce wa = do {
     ctr \<leftarrow> inc_byte_array (g_Counter (wa_group wa)) 32;
     Some (grp (\<lambda>g. g\<lparr>g_GNonce := g_Counter g, g_Counter := ctr\<rparr>) wa) }"

definition wpa_gtk_update :: "build_config \<Rightarrow> auth_env \<Rightarrow> wpa_authenticator \<Rightarrow> wpa_authenticator option" where
  "wpa_gtk_update cfg env wa = do {
     wa \<leftarrow> next_gnonce wa;
     old \<leftarrow> key_at (g_GTK (wa_group wa)) 1 (g_GN (wa_group wa));
     (k, wa) \<leftarrow> wpa_gmk_to_gtk cfg env wa (c_lit ''Group key expansion'') (g_GTK_len (wa_group wa));
     if length old < length k then None
     else do {
       let wa = grp (\<lambda>g. g\<lparr>g_GTK := (g_GTK g)[g_GN g - 1 := k @ drop (length k) old]\<rparr>) wa;
       if CONFIG_IEEE80211W cfg \<and> wc_ieee80211w (wa_conf wa) \<noteq> 0 then do {
         wa \<leftarrow> next_gnonce wa;
         old \<leftarrow> key_at (g_IGTK (wa_group wa)) 4 (g_GN_igtk (wa_group wa));
         (k, wa) \<leftarrow> wpa_gmk_to_gtk cfg env wa (c_lit ''IGTK key expansion'') 16;
         if length old < length k then None
         else Some (grp (\<lambda>g. g\<lparr>g_IGTK := (g_IGTK g)[g_GN_igtk g - 4 := k @ drop (length k) old]\<rparr>) wa) }
       else Some wa } }"

definition wpa_group_init_gmk_and_counter :: "auth_env \<Rightarrow> wpa_authenticator \<Rightarrow> (bool \<times> wpa_authenticator) option" where
  "wpa_group_init_gmk_and_counter env wa =
     (let (gmk, wa) = auth_random env 32 wa
      in case gmk of
           None \<Rightarrow> Some (False, wa)
         | Some gmk \<Rightarrow>
             (let wa = grp (g_GMK_update (\<lambda>_. gmk)) wa;
                  buf = wa_addr wa @ ae_ntp env @ ae_group_ptr env;
                  (rkey, wa) = auth_random env 32 wa
              in case rkey of
                   None \<Rightarrow> Some (False, wa)
                 | Some rkey \<Rightarrow> do {
                     (r, ctr) \<leftarrow> sha1_prf rkey (c_lit ''Init Counter'') buf 32;
                     Some (r \<ge> 0, grp (g_Counter_update (\<lambda>_. ctr)) wa) }))"

definition wpa_group_config_group_keys :: "build_config \<Rightarrow> auth_env \<Rightarrow> wpa_authenticator \<Rightarrow> (bool \<times> wpa_authenticator) option" where
  "wpa_group_config_group_keys cfg env wa = do {
     let g = wa_group wa;
     gtk \<leftarrow> key_at (g_GTK g) 1 (g_GN g);
     let (wa, ok) = wpa_auth_set_key env (wpa_cipher_to_alg (wc_wpa_group (wa_conf wa))) (replicate 6 0xff) (g_GN g)
       (take (g_GTK_len g) gtk) wa;
     if CONFIG_IEEE80211W cfg \<and> wc_ieee80211w (wa_conf wa) \<noteq> 0 then do {
       igtk \<leftarrow> key_at (g_IGTK g) 4 (g_GN_igtk g);
       let (wa, ok') = wpa_auth_set_key env WPA_ALG_IGTK (replicate 6 0xff) (g_GN_igtk g) igtk wa;
       Some (ok \<and> ok', wa) }
     else Some (ok, wa) }"

definition wpa_group_ensure_init :: "build_config \<Rightarrow> auth_env \<Rightarrow> wpa_authenticator \<Rightarrow> wpa_authenticator option" where
  "wpa_group_ensure_init cfg env wa =
     (if g_first_sta_seen (wa_group wa) then Some wa
      else do {
        let wa = (if \<not> ae_pool_ready env then grp (g_reject_4way_hs_for_entropy_update (\<lambda>_. True)) wa
          else grp (\<lambda>g. g\<lparr>g_first_sta_seen := True, g_reject_4way_hs_for_entropy := False\<rparr>) wa);
        (r, wa) \<leftarrow> wpa_group_init_gmk_and_counter env wa;
        wa \<leftarrow> wpa_gtk_update cfg env wa;
        map_option snd (wpa_group_config_group_keys cfg env wa) })"

section \<open>The pairwise key state machine\<close>

definition ptk_enter :: "wpa_ptk_state \<Rightarrow> wpa_authenticator \<Rightarrow> wpa_authenticator" where
  "ptk_enter s wa = sta (\<lambda>sm. sm\<lparr>as_changed := True, as_ptk_state := s\<rparr>) wa"

text \<open>A station that was counted for the group key update is no longer.\<close>

definition clear_update_keys :: "wpa_authenticator \<Rightarrow> wpa_authenticator" where
  "clear_update_keys wa = sta (as_GUpdateStationKeys_update (\<lambda>_. False))
     (if as_GUpdateStationKeys (wa_sta wa) then grp (g_GKeyDoneStations_update (\<lambda>n. n - 1)) wa else wa)"

definition sm_PTK_INITIALIZE :: "auth_env \<Rightarrow> wpa_authenticator \<Rightarrow> wpa_authenticator" where
  "sm_PTK_INITIALIZE env wa =
     (let wa = ptk_enter WPA_PTK_INITIALIZE wa;
          wa = (if as_Init (wa_sta wa) then sta (as_changed_update (\<lambda>_. False)) wa else wa);
          wa = clear_update_keys (sta (as_keycount_update (\<lambda>_. 0)) wa);
          wa = (if as_wpa (wa_sta wa) = WPA_VERSION_WPA then sta (as_PInitAKeys_update (\<lambda>_. False)) wa else wa);
          wa = sta (as_Pair_update (\<lambda>_. True)) wa;
          wa = wpa_remove_ptk env (wpa_auth_set_eapol WPA_EAPOL_portEnabled 0 wa);
          wa = sta (as_TimeoutCtr_update (\<lambda>_. 0)) (wpa_auth_set_eapol WPA_EAPOL_portValid 0 wa)
      in if wpa_key_mgmt_wpa_psk (as_wpa_key_mgmt (wa_sta wa)) then wpa_auth_set_eapol WPA_EAPOL_authorized 0 wa else wa)"

definition sm_PTK_DISCONNECT :: "wpa_authenticator \<Rightarrow> wpa_authenticator" where
  "sm_PTK_DISCONNECT wa = wpa_sta_disconnect (sta (as_Disconnect_update (\<lambda>_. False)) (ptk_enter WPA_PTK_DISCONNECT wa))"

definition sm_PTK_DISCONNECTED :: "wpa_authenticator \<Rightarrow> wpa_authenticator" where
  "sm_PTK_DISCONNECTED wa = sta (as_DeauthenticationRequest_update (\<lambda>_. False)) (ptk_enter WPA_PTK_DISCONNECTED wa)"

definition sm_PTK_AUTHENTICATION :: "wpa_authenticator \<Rightarrow> wpa_authenticator" where
  "sm_PTK_AUTHENTICATION wa =
     (let wa = sta (\<lambda>sm. sm\<lparr>as_PTK := replicate 64 0, as_PTK_valid := False\<rparr>) (ptk_enter WPA_PTK_AUTHENTICATION wa);
          wa = wpa_auth_set_eapol WPA_EAPOL_portEnabled 1 (wpa_auth_set_eapol WPA_EAPOL_portControl_Auto 1 wa)
      in sta (as_AuthenticationRequest_update (\<lambda>_. False)) wa)"

definition sm_PTK_AUTHENTICATION2 :: "build_config \<Rightarrow> auth_env \<Rightarrow> wpa_authenticator \<Rightarrow> wpa_authenticator option" where
  "sm_PTK_AUTHENTICATION2 cfg env wa = do {
     wa \<leftarrow> wpa_group_ensure_init cfg env (ptk_enter WPA_PTK_AUTHENTICATION2 wa);
     let wa = sta (as_ReAuthenticationRequest_update (\<lambda>_. False)) wa;
     let (r, wa) = auth_random env 32 wa;
     Some (case r of
         None \<Rightarrow> sta (as_Disconnect_update (\<lambda>_. True)) wa
       | Some n \<Rightarrow> sta (\<lambda>sm. sm\<lparr>as_ANonce := n, as_TimeoutCtr := 0\<rparr>) wa) }"

definition sm_PTK_INITPMK :: "auth_env \<Rightarrow> wpa_authenticator \<Rightarrow> wpa_authenticator option" where
  "sm_PTK_INITPMK env wa = do {
     let wa = ptk_enter WPA_PTK_INITPMK wa;
     wa \<leftarrow> (case as_pmksa (wa_sta wa) of
         Some (pmk, pmkid) \<Rightarrow> map_option (\<lambda>k. sta (as_PMK_update (\<lambda>_. k)) wa) (c_slice pmk 0 32)
       | None \<Rightarrow> (case ae_msk env of
             Some msk \<Rightarrow> map_option (\<lambda>k. sta (as_PMK_update (\<lambda>_. k)) wa) (c_slice msk 0 32)
           | None \<Rightarrow> Some wa));
     Some (wpa_auth_set_eapol WPA_EAPOL_keyRun 0 (sta (as_req_replay_counter_used_update (\<lambda>_. False)) wa)) }"

definition sm_PTK_INITPSK :: "auth_env \<Rightarrow> wpa_authenticator \<Rightarrow> wpa_authenticator" where
  "sm_PTK_INITPSK env wa =
     (let wa = ptk_enter WPA_PTK_INITPSK wa;
          wa = (case ae_psks env of [] \<Rightarrow> wa | psk # _ \<Rightarrow> sta (as_PMK_update (\<lambda>_. psk)) wa)
      in sta (as_req_replay_counter_used_update (\<lambda>_. False)) wa)"

text \<open>The PMKID in message 1.\<close>

definition ptkstart_kde :: "build_config \<Rightarrow> wpa_authenticator \<Rightarrow> bytes option option" where
  "ptkstart_kde cfg wa =
     (let sm = wa_sta wa
      in if as_wpa sm = WPA_VERSION_WPA2 \<and> wpa_key_mgmt_wpa_ieee8021x (as_wpa_key_mgmt sm) then do {
           pmkid \<leftarrow> (case as_pmksa sm of
               Some (pmk, pmkid) \<Rightarrow> c_slice pmkid 0 16
             | None \<Rightarrow> rsn_pmkid cfg (as_PMK sm) (wa_addr wa) (as_addr sm) (wpa_key_mgmt_sha256 (as_wpa_key_mgmt sm)));
           Some (Some ([221, 20] @ WPA_PUT_BE32 RSN_KEY_DATA_PMKID @ pmkid)) }
         else Some None)"

definition sm_PTK_PTKSTART :: "build_config \<Rightarrow> auth_env \<Rightarrow> wpa_authenticator \<Rightarrow> wpa_authenticator option" where
  "sm_PTK_PTKSTART cfg env wa =
     (let wa = sta (\<lambda>sm. sm\<lparr>as_PTKRequest := False, as_TimeoutEvt := False, as_TimeoutCtr := as_TimeoutCtr sm + 1\<rparr>)
            (ptk_enter WPA_PTK_PTKSTART wa)
      in if as_TimeoutCtr (wa_sta wa) > 4 then Some wa
         else do {
           kde \<leftarrow> ptkstart_kde cfg wa;
           wpa_send_eapol cfg env wa (WPA_KEY_INFO_ACK OR WPA_KEY_INFO_KEY_TYPE) None (Some (as_ANonce (wa_sta wa))) kde 0 False })"

text \<open>The key hierarchy goes to the stack first, so what \<open>wpa_pmk_to_ptk\<close> does not write is left as it was.\<close>

definition auth_derive_ptk :: "build_config \<Rightarrow> auth_env \<Rightarrow> wpa_authenticator \<Rightarrow> bytes \<Rightarrow> bytes option" where
  "auth_derive_ptk cfg env wa pmk =
     (let sm = wa_sta wa; ptk_len = (if as_pairwise sm \<noteq> WPA_CIPHER_TKIP then 48 else 64)
      in do {
        pmk \<leftarrow> c_slice pmk 0 32;
        p \<leftarrow> wpa_pmk_to_ptk cfg pmk (c_lit ''Pairwise key expansion'') (wa_addr wa) (as_addr sm) (as_ANonce sm) (as_SNonce sm)
          ptk_len (wpa_key_mgmt_sha256 (as_wpa_key_mgmt sm));
        Some (p @ take (64 - ptk_len) (ae_stack env)) })"

text \<open>The loop over the possible keys: the first one under which the MIC of the frame verifies. The frame is read
  through \<open>last_rx_eapol_key\<close>, which may be NULL.\<close>

fun find_ptk :: "build_config \<Rightarrow> auth_env \<Rightarrow> wpa_authenticator \<Rightarrow> bytes list \<Rightarrow> (bytes \<times> bytes) option option" where
  "find_ptk cfg env wa [] = Some None"
| "find_ptk cfg env wa (pmk # pmks) = do {
     ptk \<leftarrow> auth_derive_ptk cfg env wa pmk;
     data \<leftarrow> (case as_last_rx_eapol_key (wa_sta wa) of
         None \<Rightarrow> if as_last_rx_eapol_key_len (wa_sta wa) < 99 then Some [] else None
       | Some data \<Rightarrow> Some data);
     ok \<leftarrow> wpa_verify_key_mic cfg ptk data;
     if ok then Some (Some (pmk, ptk)) else find_ptk cfg env wa pmks }"

definition sm_PTK_PTKCALCNEGOTIATING :: "build_config \<Rightarrow> auth_env \<Rightarrow> wpa_authenticator \<Rightarrow> wpa_authenticator option" where
  "sm_PTK_PTKCALCNEGOTIATING cfg env wa = do {
     let wa = sta (\<lambda>sm. sm\<lparr>as_EAPOLKeyReceived := False, as_update_snonce := False\<rparr>) (ptk_enter WPA_PTK_PTKCALCNEGOTIATING wa);
     let psk = wpa_key_mgmt_wpa_psk (as_wpa_key_mgmt (wa_sta wa));
     found \<leftarrow> find_ptk cfg env wa (if psk then ae_psks env else [as_PMK (wa_sta wa)]);
     Some (case found of
         None \<Rightarrow> wa
       | Some (pmk, ptk) \<Rightarrow>
           sta (\<lambda>sm. sm\<lparr>as_pending_1_of_4_timeout := False, as_send_timeouts := [],
             as_PMK := (if psk then take 32 pmk else as_PMK sm), as_MICVerified := True, as_PTK := ptk, as_PTK_valid := True\<rparr>) wa) }"

definition sm_PTK_PTKCALCNEGOTIATING2 :: "wpa_authenticator \<Rightarrow> wpa_authenticator" where
  "sm_PTK_PTKCALCNEGOTIATING2 wa = sta (as_TimeoutCtr_update (\<lambda>_. 0)) (ptk_enter WPA_PTK_PTKCALCNEGOTIATING2 wa)"

definition ieee80211w_kde_add :: "build_config \<Rightarrow> auth_env \<Rightarrow> wpa_authenticator \<Rightarrow> (bytes \<times> wpa_authenticator) option" where
  "ieee80211w_kde_add cfg env wa =
     (if \<not> CONFIG_IEEE80211W cfg \<or> \<not> as_mgmt_frame_prot (wa_sta wa) then Some ([], wa)
      else do {
        let g = wa_group wa;
        igtk \<leftarrow> key_at (g_IGTK g) 4 (g_GN_igtk g);
        let pn = (if g_state g \<noteq> WPA_GROUP_SETKEYSDONE then replicate 6 0
          else case ae_seqnum env (g_GN_igtk g) of None \<Rightarrow> replicate 6 0 | Some rsc \<Rightarrow> take 6 rsc);
        let kde = (\<lambda>k. wpa_add_kde RSN_KEY_DATA_IGTK ([of_nat (g_GN_igtk g), 0] @ pn @ k) None);
        if wc_disable_gtk (wa_conf wa) then
          (let (r, wa) = auth_random env 16 wa
           in Some (case r of None \<Rightarrow> [] | Some k \<Rightarrow> kde k, wa))
        else Some (kde igtk, wa) })"

text \<open>The group key that a station is given: a random one when \<open>disable_gtk\<close> is set. \<open>None\<close> inside is the early return.\<close>

definition gtk_for_sta :: "auth_env \<Rightarrow> wpa_authenticator \<Rightarrow> (bytes option \<times> wpa_authenticator) option" where
  "gtk_for_sta env wa = do {
     let g = wa_group wa;
     gtk \<leftarrow> key_at (g_GTK g) 1 (g_GN g);
     Some (if wc_disable_gtk (wa_conf wa) then auth_random env (g_GTK_len g) wa else (Some (take (g_GTK_len g) gtk), wa)) }"

text \<open>The element for the station: without the RSN element when the station uses WPA only.\<close>

definition ie_for_sta :: "wpa_authenticator \<Rightarrow> bytes option" where
  "ie_for_sta wa =
     (let ie = wa_wpa_ie wa
      in if as_wpa (wa_sta wa) = WPA_VERSION_WPA \<and> wc_wpa (wa_conf wa) AND WPA_PROTO_RSN \<noteq> 0 then do {
           l \<leftarrow> map_option unat (c_read ie 1);
           eid \<leftarrow> c_read ie 0;
           if length ie > l + 2 \<and> eid = 48 then do {
             l' \<leftarrow> map_option unat (c_read ie (l + 3));
             c_slice ie (l + 2) (l' + 2) }
           else Some ie }
         else Some ie)"

definition sm_PTK_PTKINITNEGOTIATING :: "build_config \<Rightarrow> auth_env \<Rightarrow> wpa_authenticator \<Rightarrow> wpa_authenticator option" where
  "sm_PTK_PTKINITNEGOTIATING cfg env wa =
     (let wa = sta (\<lambda>sm. sm\<lparr>as_TimeoutEvt := False, as_TimeoutCtr := as_TimeoutCtr sm + 1\<rparr>) (ptk_enter WPA_PTK_PTKINITNEGOTIATING wa)
      in if as_TimeoutCtr (wa_sta wa) > 4 then Some wa
         else do {
           let rsc = (case ae_seqnum env (g_GN (wa_group wa)) of None \<Rightarrow> replicate 8 0 | Some r \<Rightarrow> r);
           ie \<leftarrow> ie_for_sta wa;
           let info = WPA_KEY_INFO_MIC OR WPA_KEY_INFO_ACK OR WPA_KEY_INFO_INSTALL OR WPA_KEY_INFO_KEY_TYPE;
           if as_wpa (wa_sta wa) = WPA_VERSION_WPA2 then do {
             (gtk, wa) \<leftarrow> gtk_for_sta env wa;
             case gtk of
               None \<Rightarrow> Some wa
             | Some gtk \<Rightarrow>
                 if \<not> ae_alloc env then Some wa
                 else do {
                   let keyidx = g_GN (wa_group wa);
                   (igtk, wa) \<leftarrow> ieee80211w_kde_add cfg env wa;
                   let kde = ie @ wpa_add_kde RSN_KEY_DATA_GROUPKEY [of_nat keyidx AND 3, 0] (Some gtk) @ igtk;
                   wpa_send_eapol cfg env wa (info OR WPA_KEY_INFO_SECURE) (Some rsc) (Some (as_ANonce (wa_sta wa))) (Some kde) keyidx True } }
           else if \<not> ae_alloc env then Some wa
           else do {
             (igtk, wa) \<leftarrow> ieee80211w_kde_add cfg env wa;
             wpa_send_eapol cfg env wa (info OR (if as_rx_eapol_key_secure (wa_sta wa) then WPA_KEY_INFO_SECURE else 0)) None
               (Some (as_ANonce (wa_sta wa))) (Some (ie @ igtk)) 0 False } })"

definition sm_PTK_PTKINITDONE :: "auth_env \<Rightarrow> wpa_authenticator \<Rightarrow> wpa_authenticator" where
  "sm_PTK_PTKINITDONE env wa =
     (let wa = sta (as_EAPOLKeyReceived_update (\<lambda>_. False)) (ptk_enter WPA_PTK_PTKINITDONE wa);
          sm = wa_sta wa;
          done = (\<lambda>wa. let wa = wpa_auth_set_eapol WPA_EAPOL_keyDone 1 (wpa_auth_set_eapol WPA_EAPOL_keyAvailable 0
              (wpa_auth_set_eapol WPA_EAPOL_portValid 1 wa))
            in if as_wpa (wa_sta wa) = WPA_VERSION_WPA then sta (as_PInitAKeys_update (\<lambda>_. True)) wa
               else sta (as_has_GTK_update (\<lambda>_. True)) wa)
      in if as_Pair sm then
           (let (wa, ok) = wpa_auth_set_key env (wpa_cipher_to_alg (as_pairwise sm)) (as_addr sm) 0
                  (take (wpa_cipher_key_len (as_pairwise sm)) (drop 32 (as_PTK sm))) wa
            in if \<not> ok then wpa_sta_disconnect wa
               else
                 (let wa = sta (as_pairwise_set_update (\<lambda>_. True)) wa;
                      wa = (if wc_wpa_ptk_rekey (wa_conf wa) \<noteq> 0
                        then sta (as_rekey_ptk_timer_update (\<lambda>_. Some (1000 * wc_wpa_ptk_rekey (wa_conf wa)))) wa else wa);
                      wa = (if wpa_key_mgmt_wpa_psk (as_wpa_key_mgmt (wa_sta wa)) then wpa_auth_set_eapol WPA_EAPOL_authorized 1 wa else wa)
                  in done wa))
         else done wa)"

definition handshake_failed :: "wpa_authenticator \<Rightarrow> wpa_authenticator" where
  "handshake_failed wa = wa\<lparr>wa_4WayHandshakeFailures := wa_4WayHandshakeFailures wa + 1\<rparr>"

text \<open>A pairwise EAPOL-Key frame that is not a request has been received.\<close>

abbreviation "key_received sm \<equiv> as_EAPOLKeyReceived sm \<and> \<not> as_EAPOLKeyRequest sm \<and> as_EAPOLKeyPairwise sm"

definition sm_PTK_switch :: "build_config \<Rightarrow> auth_env \<Rightarrow> wpa_authenticator \<Rightarrow> wpa_authenticator option" where
  "sm_PTK_switch cfg env wa =
     (let sm = wa_sta wa
      in case as_ptk_state sm of
           WPA_PTK_INITIALIZE \<Rightarrow> Some wa
         | WPA_PTK_DISCONNECT \<Rightarrow> Some (sm_PTK_DISCONNECTED wa)
         | WPA_PTK_DISCONNECTED \<Rightarrow> Some (sm_PTK_INITIALIZE env wa)
         | WPA_PTK_AUTHENTICATION \<Rightarrow> sm_PTK_AUTHENTICATION2 cfg env wa
         | WPA_PTK_AUTHENTICATION2 \<Rightarrow>
             (if wpa_key_mgmt_wpa_ieee8021x (as_wpa_key_mgmt sm) \<and> wpa_auth_get_eapol wa WPA_EAPOL_keyRun > 0
              then sm_PTK_INITPMK env wa
              else if wpa_key_mgmt_wpa_psk (as_wpa_key_mgmt sm) then Some (sm_PTK_INITPSK env wa)
              else Some wa)
         | WPA_PTK_INITPMK \<Rightarrow>
             (if wpa_auth_get_eapol wa WPA_EAPOL_keyAvailable > 0 then sm_PTK_PTKSTART cfg env wa
              else Some (sm_PTK_DISCONNECT (handshake_failed wa)))
         | WPA_PTK_INITPSK \<Rightarrow>
             (if ae_psks env \<noteq> [] then sm_PTK_PTKSTART cfg env wa
              else Some (sm_PTK_DISCONNECT (handshake_failed wa)))
         | WPA_PTK_PTKSTART \<Rightarrow>
             (if key_received sm then sm_PTK_PTKCALCNEGOTIATING cfg env wa
              else if as_TimeoutCtr sm > 4 then Some (sm_PTK_DISCONNECT (handshake_failed wa))
              else if as_TimeoutEvt sm then sm_PTK_PTKSTART cfg env wa
              else Some wa)
         | WPA_PTK_PTKCALCNEGOTIATING \<Rightarrow>
             (if as_MICVerified sm then Some (sm_PTK_PTKCALCNEGOTIATING2 wa)
              else if key_received sm then sm_PTK_PTKCALCNEGOTIATING cfg env wa
              else if as_TimeoutEvt sm then sm_PTK_PTKSTART cfg env wa
              else Some wa)
         | WPA_PTK_PTKCALCNEGOTIATING2 \<Rightarrow> sm_PTK_PTKINITNEGOTIATING cfg env wa
         | WPA_PTK_PTKINITNEGOTIATING \<Rightarrow>
             (if as_update_snonce sm then sm_PTK_PTKCALCNEGOTIATING cfg env wa
              else if key_received sm \<and> as_MICVerified sm then Some (sm_PTK_PTKINITDONE env wa)
              else if as_TimeoutCtr sm > 4 then Some (sm_PTK_DISCONNECT (handshake_failed wa))
              else if as_TimeoutEvt sm then sm_PTK_PTKINITNEGOTIATING cfg env wa
              else Some wa)
         | WPA_PTK_PTKINITDONE \<Rightarrow> Some wa)"

definition sm_PTK_step :: "build_config \<Rightarrow> auth_env \<Rightarrow> wpa_authenticator \<Rightarrow> wpa_authenticator option" where
  "sm_PTK_step cfg env wa =
     (let sm = wa_sta wa
      in if as_Init sm then Some (sm_PTK_INITIALIZE env wa)
         else if as_Disconnect sm then Some (sm_PTK_DISCONNECT wa)
         else if as_DeauthenticationRequest sm then Some (sm_PTK_DISCONNECTED wa)
         else if as_AuthenticationRequest sm then Some (sm_PTK_AUTHENTICATION wa)
         else if as_ReAuthenticationRequest sm then sm_PTK_AUTHENTICATION2 cfg env wa
         else if as_PTKRequest sm then sm_PTK_PTKSTART cfg env wa
         else sm_PTK_switch cfg env wa)"

section \<open>The group key state machine of a station\<close>

definition ptk_group_enter :: "wpa_ptk_group_state \<Rightarrow> wpa_authenticator \<Rightarrow> wpa_authenticator" where
  "ptk_group_enter s wa = sta (\<lambda>sm. sm\<lparr>as_changed := True, as_ptk_group_state := s\<rparr>) wa"

definition sm_GROUP_IDLE :: "wpa_authenticator \<Rightarrow> wpa_authenticator" where
  "sm_GROUP_IDLE wa =
     (let wa = ptk_group_enter WPA_PTK_GROUP_IDLE wa;
          wa = (if as_Init (wa_sta wa) then sta (as_changed_update (\<lambda>_. False)) wa else wa)
      in sta (as_GTimeoutCtr_update (\<lambda>_. 0)) wa)"

definition sm_GROUP_REKEYNEGOTIATING :: "build_config \<Rightarrow> auth_env \<Rightarrow> wpa_authenticator \<Rightarrow> wpa_authenticator option" where
  "sm_GROUP_REKEYNEGOTIATING cfg env wa =
     (let wa = sta (as_GTimeoutCtr_update (\<lambda>n. n + 1)) (ptk_group_enter WPA_PTK_GROUP_REKEYNEGOTIATING wa)
      in if as_GTimeoutCtr (wa_sta wa) > 4 then Some wa
         else do {
           let wa = (if as_wpa (wa_sta wa) = WPA_VERSION_WPA then sta (as_PInitAKeys_update (\<lambda>_. False)) wa else wa);
           let wa = sta (as_TimeoutEvt_update (\<lambda>_. False)) wa;
           let g = wa_group wa;
           let rsc = (if g_state g = WPA_GROUP_SETKEYSDONE
             then (case ae_seqnum env (g_GN g) of None \<Rightarrow> replicate 8 0 | Some r \<Rightarrow> r) else replicate 8 0);
           let info = WPA_KEY_INFO_SECURE OR WPA_KEY_INFO_MIC OR WPA_KEY_INFO_ACK OR
             (if as_Pair (wa_sta wa) then 0 else WPA_KEY_INFO_INSTALL);
           (gtk, wa) \<leftarrow> gtk_for_sta env wa;
           case gtk of
             None \<Rightarrow> Some wa
           | Some gtk \<Rightarrow>
               if as_wpa (wa_sta wa) = WPA_VERSION_WPA2 then
                 (if \<not> ae_alloc env then Some wa
                  else do {
                    (igtk, wa) \<leftarrow> ieee80211w_kde_add cfg env wa;
                    let kde = wpa_add_kde RSN_KEY_DATA_GROUPKEY [of_nat (g_GN g) AND 3, 0] (Some gtk) @ igtk;
                    wpa_send_eapol cfg env wa info (Some rsc) (Some (g_GNonce g)) (Some kde) (g_GN g) True })
               else wpa_send_eapol cfg env wa info (Some rsc) (Some (g_GNonce g)) (Some gtk) (g_GN g) True })"

definition sm_GROUP_REKEYESTABLISHED :: "wpa_authenticator \<Rightarrow> wpa_authenticator" where
  "sm_GROUP_REKEYESTABLISHED wa =
     (let wa = sta (as_EAPOLKeyReceived_update (\<lambda>_. False)) (ptk_group_enter WPA_PTK_GROUP_REKEYESTABLISHED wa)
      in sta (\<lambda>sm. sm\<lparr>as_GTimeoutCtr := 0, as_has_GTK := True\<rparr>) (clear_update_keys wa))"

definition sm_GROUP_KEYERROR :: "wpa_authenticator \<Rightarrow> wpa_authenticator" where
  "sm_GROUP_KEYERROR wa =
     sta (as_Disconnect_update (\<lambda>_. True)) (clear_update_keys (ptk_group_enter WPA_PTK_GROUP_KEYERROR wa))"

definition sm_GROUP_step :: "build_config \<Rightarrow> auth_env \<Rightarrow> wpa_authenticator \<Rightarrow> wpa_authenticator option" where
  "sm_GROUP_step cfg env wa =
     (let sm = wa_sta wa
      in if as_Init sm \<or> as_PtkGroupInit sm then Some (sta (as_PtkGroupInit_update (\<lambda>_. False)) (sm_GROUP_IDLE wa))
         else case as_ptk_group_state sm of
           WPA_PTK_GROUP_IDLE \<Rightarrow>
             (if as_GUpdateStationKeys sm \<or> as_wpa sm = WPA_VERSION_WPA \<and> as_PInitAKeys sm
              then sm_GROUP_REKEYNEGOTIATING cfg env wa else Some wa)
         | WPA_PTK_GROUP_REKEYNEGOTIATING \<Rightarrow>
             (if as_EAPOLKeyReceived sm \<and> \<not> as_EAPOLKeyRequest sm \<and> \<not> as_EAPOLKeyPairwise sm \<and> as_MICVerified sm
              then Some (sm_GROUP_REKEYESTABLISHED wa)
              else if as_GTimeoutCtr sm > 4 then Some (sm_GROUP_KEYERROR wa)
              else if as_TimeoutEvt sm then sm_GROUP_REKEYNEGOTIATING cfg env wa
              else Some wa)
         | WPA_PTK_GROUP_KEYERROR \<Rightarrow> Some (sm_GROUP_IDLE wa)
         | WPA_PTK_GROUP_REKEYESTABLISHED \<Rightarrow> Some (sm_GROUP_IDLE wa))"

section \<open>The group state machine\<close>

text \<open>\<open>nested\<close> is the call of \<open>wpa_sm_step\<close> for the station: nothing happens when its step loop is running already.\<close>

definition wpa_group_update_sta :: "(wpa_authenticator \<Rightarrow> wpa_authenticator option) \<Rightarrow> wpa_authenticator \<Rightarrow> wpa_authenticator option" where
  "wpa_group_update_sta nested wa =
     (if as_ptk_state (wa_sta wa) \<noteq> WPA_PTK_PTKINITDONE then Some (sta (as_GUpdateStationKeys_update (\<lambda>_. False)) wa)
      else if as_is_wnmsleep (wa_sta wa) then Some wa
      else nested (sta (as_GUpdateStationKeys_update (\<lambda>_. True)) (grp (g_GKeyDoneStations_update (\<lambda>n. n + 1)) wa)))"

definition wpa_group_gtk_init :: "build_config \<Rightarrow> auth_env \<Rightarrow> wpa_authenticator \<Rightarrow> wpa_authenticator option" where
  "wpa_group_gtk_init cfg env wa =
     wpa_gtk_update cfg env (grp (\<lambda>g. g\<lparr>g_changed := False, g_state := WPA_GROUP_GTK_INIT,
       g_GTK := replicate 2 (replicate 32 0), g_GN := 1, g_GM := 2, g_GN_igtk := 4, g_GM_igtk := 5\<rparr>) wa)"

definition wpa_group_setkeys :: "build_config \<Rightarrow> auth_env \<Rightarrow> (wpa_authenticator \<Rightarrow> wpa_authenticator option) \<Rightarrow>
    wpa_authenticator \<Rightarrow> wpa_authenticator option" where
  "wpa_group_setkeys cfg env nested wa = do {
     wa \<leftarrow> wpa_gtk_update cfg env (grp (\<lambda>g. g\<lparr>g_changed := True, g_state := WPA_GROUP_SETKEYS, g_GTKReKey := False,
       g_GM := g_GN g, g_GN := g_GM g, g_GM_igtk := g_GN_igtk g, g_GN_igtk := g_GM_igtk g\<rparr>) wa);
     wpa_group_update_sta nested (grp (g_GKeyDoneStations_update (\<lambda>_. 0)) wa) }"

definition wpa_group_setkeysdone :: "build_config \<Rightarrow> auth_env \<Rightarrow> wpa_authenticator \<Rightarrow> wpa_authenticator option" where
  "wpa_group_setkeysdone cfg env wa =
     map_option snd (wpa_group_config_group_keys cfg env (grp (\<lambda>g. g\<lparr>g_changed := True, g_state := WPA_GROUP_SETKEYSDONE\<rparr>) wa))"

definition wpa_group_sm_step :: "build_config \<Rightarrow> auth_env \<Rightarrow> (wpa_authenticator \<Rightarrow> wpa_authenticator option) \<Rightarrow>
    wpa_authenticator \<Rightarrow> wpa_authenticator option" where
  "wpa_group_sm_step cfg env nested wa =
     (let g = wa_group wa
      in if g_GInit g then wpa_group_gtk_init cfg env wa
         else if g_state g = WPA_GROUP_GTK_INIT \<and> g_GTKAuthenticator g then wpa_group_setkeysdone cfg env wa
         else if g_state g = WPA_GROUP_SETKEYSDONE \<and> g_GTKReKey g then wpa_group_setkeys cfg env nested wa
         else if g_state g = WPA_GROUP_SETKEYS then
           (if g_GKeyDoneStations g = 0 then wpa_group_setkeysdone cfg env wa
            else if g_GTKReKey g then wpa_group_setkeys cfg env nested wa
            else Some wa)
         else Some wa)"

section \<open>The step loop\<close>

definition wpa_sm_round :: "build_config \<Rightarrow> auth_env \<Rightarrow> wpa_authenticator \<Rightarrow> wpa_authenticator option" where
  "wpa_sm_round cfg env wa = do {
     let wa = grp (g_changed_update (\<lambda>_. False)) (sta (as_changed_update (\<lambda>_. False)) wa);
     wa \<leftarrow> sm_PTK_step cfg env wa;
     wa \<leftarrow> sm_GROUP_step cfg env wa;
     wpa_group_sm_step cfg env Some wa }"

text \<open>The loop has no bound of its own: not ending would be \<open>None\<close>.\<close>

partial_function (option) auth_sm_step :: "build_config \<Rightarrow> auth_env \<Rightarrow> wpa_authenticator \<Rightarrow> wpa_authenticator option" where
  "auth_sm_step cfg env wa = do {
     wa \<leftarrow> wpa_sm_round cfg env wa;
     if as_changed (wa_sta wa) \<or> g_changed (wa_group wa) then auth_sm_step cfg env wa else Some wa }"

partial_function (option) rekey_gtk_loop :: "build_config \<Rightarrow> auth_env \<Rightarrow> wpa_authenticator \<Rightarrow> wpa_authenticator option" where
  "rekey_gtk_loop cfg env wa = do {
     wa \<leftarrow> wpa_group_sm_step cfg env (auth_sm_step cfg env) (grp (g_changed_update (\<lambda>_. False)) wa);
     if g_changed (wa_group wa) then rekey_gtk_loop cfg env wa else Some wa }"

definition wpa_rekey_gtk :: "build_config \<Rightarrow> auth_env \<Rightarrow> wpa_authenticator \<Rightarrow> wpa_authenticator option" where
  "wpa_rekey_gtk cfg env wa = do {
     wa \<leftarrow> rekey_gtk_loop cfg env (grp (g_GTKReKey_update (\<lambda>_. True)) wa);
     Some (if wc_wpa_group_rekey (wa_conf wa) \<noteq> 0
       then wa\<lparr>wa_rekey_gtk_timer := Some (1000 * wc_wpa_group_rekey (wa_conf wa))\<rparr> else wa) }"

definition wpa_rekey_ptk :: "build_config \<Rightarrow> auth_env \<Rightarrow> wpa_authenticator \<Rightarrow> wpa_authenticator option" where
  "wpa_rekey_ptk cfg env wa = auth_sm_step cfg env (wpa_request_new_ptk wa)"

definition wpa_rekey_gmk :: "auth_env \<Rightarrow> wpa_authenticator \<Rightarrow> wpa_authenticator" where
  "wpa_rekey_gmk env wa =
     (let (r, wa) = auth_random env 32 wa;
          wa = (case r of None \<Rightarrow> wa | Some gmk \<Rightarrow> grp (g_GMK_update (\<lambda>_. gmk)) wa)
      in if wc_wpa_gmk_rekey (wa_conf wa) \<noteq> 0
         then wa\<lparr>wa_rekey_gmk_timer := Some (1000 * wc_wpa_gmk_rekey (wa_conf wa))\<rparr> else wa)"

definition wpa_send_eapol_timeout :: "build_config \<Rightarrow> auth_env \<Rightarrow> wpa_authenticator \<Rightarrow> wpa_authenticator option" where
  "wpa_send_eapol_timeout cfg env wa =
     auth_sm_step cfg env (sta (\<lambda>sm. sm\<lparr>as_pending_1_of_4_timeout := False, as_TimeoutEvt := True\<rparr>) wa)"

section \<open>Reception\<close>

datatype eapol_msg = PAIRWISE_2 | PAIRWISE_4 | GROUP_2 | REQUEST | SMK_M1 | SMK_M3 | SMK_ERROR

definition receive_msg :: "u16 \<Rightarrow> u16 \<Rightarrow> eapol_msg" where
  "receive_msg key_info key_data_length =
     (if has key_info WPA_KEY_INFO_SMK_MESSAGE \<and> has key_info WPA_KEY_INFO_REQUEST
      then (if has key_info WPA_KEY_INFO_ERROR then SMK_ERROR else SMK_M1)
      else if has key_info WPA_KEY_INFO_SMK_MESSAGE then SMK_M3
      else if has key_info WPA_KEY_INFO_REQUEST then REQUEST
      else if \<not> has key_info WPA_KEY_INFO_KEY_TYPE then GROUP_2
      else if key_data_length = 0 then PAIRWISE_4
      else PAIRWISE_2)"

text \<open>The checks on type and descriptor version.\<close>

definition receive_type_ok :: "build_config \<Rightarrow> wpa_state_machine \<Rightarrow> wpa_eapol_key \<Rightarrow> eapol_msg \<Rightarrow> bool" where
  "receive_type_ok cfg sm key msg \<longleftrightarrow>
     (if as_wpa sm = WPA_VERSION_WPA2 then k_type key = EAPOL_KEY_TYPE_WPA \<or> k_type key = EAPOL_KEY_TYPE_RSN
      else k_type key = EAPOL_KEY_TYPE_WPA) \<and>
     (msg \<in> {REQUEST, PAIRWISE_2, PAIRWISE_4, GROUP_2} \<and> (as_pairwise sm = WPA_CIPHER_CCMP \<or> as_pairwise sm = WPA_CIPHER_GCMP) \<longrightarrow>
       k_info key AND WPA_KEY_INFO_TYPE_MASK = (if wpa_use_aes_cmac cfg sm then 3 else 2))"

text \<open>The check of the replay counter; \<open>None\<close> inside drops the frame. A second message 2 with another SNonce is
  allowed while message 3 is pending.\<close>

definition receive_counter :: "wpa_state_machine \<Rightarrow> wpa_eapol_key \<Rightarrow> eapol_msg \<Rightarrow> wpa_state_machine option option" where
  "receive_counter sm key msg =
     (if has (k_info key) WPA_KEY_INFO_REQUEST then do {
        c \<leftarrow> os_memcmp (k_replay_counter key) (as_req_replay_counter sm) 8;
        Some (if as_req_replay_counter_used sm \<and> c \<le> 0 then None else Some sm) }
      else if wpa_replay_counter_valid (as_key_replay sm) (k_replay_counter key) then Some (Some sm)
      else if msg = PAIRWISE_2 \<and> wpa_replay_counter_valid (as_prev_key_replay sm) (k_replay_counter key) \<and>
        as_ptk_state sm = WPA_PTK_PTKINITNEGOTIATING \<and> as_SNonce sm \<noteq> k_nonce key
      then Some (Some (sm\<lparr>as_update_snonce := True,
        as_prev_key_replay := wpa_replay_counter_mark_invalid (as_prev_key_replay sm) (Some (k_replay_counter key))\<rparr>))
      else Some None)"

text \<open>The checks that depend on the message; the flag says whether to go on.\<close>

definition receive_pairwise_2 :: "build_config \<Rightarrow> wpa_authenticator \<Rightarrow> bytes \<Rightarrow> (bool \<times> wpa_authenticator) option" where
  "receive_pairwise_2 cfg wa data =
     (let sm = wa_sta wa
      in if as_ptk_state sm \<noteq> WPA_PTK_PTKSTART \<and> as_ptk_state sm \<noteq> WPA_PTK_PTKCALCNEGOTIATING \<and>
           (\<not> as_update_snonce sm \<or> as_ptk_state sm \<noteq> WPA_PTK_PTKINITNEGOTIATING) then Some (False, wa)
         else if g_reject_4way_hs_for_entropy (wa_group wa) then Some (False, wpa_sta_disconnect wa)
         else do {
           (r, kde) \<leftarrow> wpa_parse_kde_ies cfg data;
           if r < 0 then Some (False, wa)
           else do {
             rsn \<leftarrow> kd_bytes data (kd_rsn_ie kde);
             wpa \<leftarrow> kd_bytes data (kd_wpa_ie kde);
             let ie = (if rsn \<noteq> None then rsn else wpa);
             let ft = (as_wpa sm = WPA_VERSION_WPA2 \<and> wpa_key_mgmt_ft (as_wpa_key_mgmt sm));
             differs \<leftarrow> (if as_wpa_ie sm = None then Some True
               else map_option (\<lambda>c. c \<noteq> 0) (wpa_compare_rsn_ie cfg ft (as_wpa_ie sm) ie));
             Some (if differs then (False, wpa_sta_disconnect wa) else (True, wa)) } })"

definition receive_switch :: "build_config \<Rightarrow> wpa_authenticator \<Rightarrow> eapol_msg \<Rightarrow> bytes \<Rightarrow> (bool \<times> wpa_authenticator) option" where
  "receive_switch cfg wa msg data =
     (case msg of
        PAIRWISE_2 \<Rightarrow> receive_pairwise_2 cfg wa data
      | PAIRWISE_4 \<Rightarrow> Some (as_ptk_state (wa_sta wa) = WPA_PTK_PTKINITNEGOTIATING \<and> as_PTK_valid (wa_sta wa), wa)
      | GROUP_2 \<Rightarrow> Some (as_ptk_group_state (wa_sta wa) = WPA_PTK_GROUP_REKEYNEGOTIATING \<and> as_PTK_valid (wa_sta wa), wa)
      | REQUEST \<Rightarrow> Some (True, wa)
      | _ \<Rightarrow> Some (False, wa))"

text \<open>True when the report removed the station.\<close>

definition wpa_receive_error_report :: "auth_env \<Rightarrow> wpa_authenticator \<Rightarrow> bool \<Rightarrow> bool \<times> wpa_authenticator" where
  "wpa_receive_error_report env wa is_group =
     (if is_group \<and> wc_wpa_group (wa_conf wa) \<noteq> WPA_CIPHER_TKIP \<or> \<not> is_group \<and> as_pairwise (wa_sta wa) \<noteq> WPA_CIPHER_TKIP
      then (False, wpa_request_new_ptk wa)
      else
        (let wa = alog Auth_Mic_Failure wa
         in if ae_mic_failure_removes env then (True, wa)
            else (False, wpa_request_new_ptk (sta (as_TKIPRemoteMICFailures_update (\<lambda>n. n + 1))
              (wa\<lparr>wa_TKIPRemoteMICFailures := wa_TKIPRemoteMICFailures wa + 1\<rparr>)))))"

text \<open>A request of the station; the flag says whether to go on.\<close>

definition receive_request :: "build_config \<Rightarrow> auth_env \<Rightarrow> wpa_authenticator \<Rightarrow> wpa_eapol_key \<Rightarrow> bytes \<Rightarrow>
    (bool \<times> wpa_authenticator) option" where
  "receive_request cfg env wa key data =
     (if \<not> as_MICVerified (wa_sta wa) then Some (False, wa)
      else
        (let wa = sta (\<lambda>sm. sm\<lparr>as_req_replay_counter_used := True, as_req_replay_counter := k_replay_counter key\<rparr>) wa
         in if has (k_info key) WPA_KEY_INFO_ERROR
            then (let (removed, wa) = wpa_receive_error_report env wa (\<not> has (k_info key) WPA_KEY_INFO_KEY_TYPE)
                  in Some (\<not> removed, wa))
            else if has (k_info key) WPA_KEY_INFO_KEY_TYPE then Some (True, wpa_request_new_ptk wa)
            else do {
              mac \<leftarrow> (if k_data_length key > 0
                then map_option (\<lambda>(r, kde). r = 0 \<and> kd_mac_addr kde \<noteq> None) (wpa_parse_kde_ies cfg data) else Some False);
              if mac then Some (True, wa)
              else map_option (Pair True) (wpa_rekey_gtk cfg env (wa\<lparr>wa_rekey_gtk_timer := None\<rparr>)) }))"

text \<open>The replay counters after a frame that is no request.\<close>

definition receive_mark :: "wpa_eapol_key \<Rightarrow> eapol_msg \<Rightarrow> wpa_state_machine \<Rightarrow> wpa_state_machine" where
  "receive_mark key msg sm =
     (let rs = wpa_replay_counter_mark_invalid (as_key_replay sm) (Some (k_replay_counter key))
      in sm\<lparr>as_prev_key_replay := (if msg = PAIRWISE_2 then rs else replicate 4 (replicate 8 0, False)),
         as_key_replay := wpa_replay_counter_mark_invalid rs None\<rparr>)"

text \<open>The frame is stored and the machines run. A failed allocation leaves a NULL pointer with the old length.\<close>

definition receive_store :: "build_config \<Rightarrow> auth_env \<Rightarrow> wpa_authenticator \<Rightarrow> wpa_eapol_key \<Rightarrow> bytes \<Rightarrow> wpa_authenticator option" where
  "receive_store cfg env wa key data =
     (if \<not> ae_alloc env then Some (sta (as_last_rx_eapol_key_update (\<lambda>_. None)) wa)
      else auth_sm_step cfg env (sta (\<lambda>sm. sm\<lparr>as_last_rx_eapol_key := Some data, as_last_rx_eapol_key_len := length data,
        as_rx_eapol_key_secure := has (k_info key) WPA_KEY_INFO_SECURE, as_EAPOLKeyReceived := True,
        as_EAPOLKeyPairwise := has (k_info key) WPA_KEY_INFO_KEY_TYPE, as_EAPOLKeyRequest := has (k_info key) WPA_KEY_INFO_REQUEST,
        as_SNonce := k_nonce key\<rparr>) wa))"

definition receive_checked :: "build_config \<Rightarrow> auth_env \<Rightarrow> wpa_authenticator \<Rightarrow> wpa_eapol_key \<Rightarrow> eapol_msg \<Rightarrow> bytes \<Rightarrow> bytes \<Rightarrow>
    wpa_authenticator option" where
  "receive_checked cfg env wa key msg data frame =
     (if has (k_info key) WPA_KEY_INFO_ACK then Some wa
      else if \<not> has (k_info key) WPA_KEY_INFO_MIC then Some wa
      else do {
        let wa = sta (as_MICVerified_update (\<lambda>_. False)) wa;
        let check = (as_PTK_valid (wa_sta wa) \<and> \<not> as_update_snonce (wa_sta wa));
        ok \<leftarrow> (if check then wpa_verify_key_mic cfg (as_PTK (wa_sta wa)) frame else Some True);
        if \<not> ok then Some wa
        else do {
          let wa = (if check then sta (\<lambda>sm. sm\<lparr>as_MICVerified := True, as_send_timeouts := [], as_pending_1_of_4_timeout := False\<rparr>) wa
            else wa);
          (go, wa) \<leftarrow> (if has (k_info key) WPA_KEY_INFO_REQUEST then receive_request cfg env wa key data
            else Some (True, sta (receive_mark key msg) wa));
          if go then receive_store cfg env wa key frame else Some wa } })"

definition wpa_receive :: "build_config \<Rightarrow> auth_env \<Rightarrow> wpa_authenticator \<Rightarrow> bytes \<Rightarrow> wpa_authenticator option" where
  "wpa_receive cfg env wa frame =
     (if wc_wpa (wa_conf wa) = 0 \<or> length frame < 99 then Some wa
      else
        (let key = eapol_key_of (drop 4 frame); data = take (unat (k_data_length key)) (k_data key);
             msg = receive_msg (k_info key) (k_data_length key)
         in if unat (k_data_length key) > length frame - 99 then Some wa
            else if \<not> receive_type_ok cfg (wa_sta wa) key msg then Some wa
            else do {
              c \<leftarrow> receive_counter (wa_sta wa) key msg;
              case c of
                None \<Rightarrow> Some wa
              | Some sm \<Rightarrow> do {
                  (go, wa) \<leftarrow> receive_switch cfg (wa\<lparr>wa_sta := sm\<rparr>) msg data;
                  if go then receive_checked cfg env wa key msg data frame else Some wa } }))"

section \<open>Start and events\<close>

text \<open>A group structure as it is allocated.\<close>

definition group_alloc :: "nat \<Rightarrow> wpa_group" where
  "group_alloc gtk_len = \<lparr>g_GInit = False, g_GKeyDoneStations = 0, g_GTKReKey = False,
     g_GTK_len = gtk_len, g_GN = 0, g_GM = 0, g_GTKAuthenticator = True,
     g_Counter = replicate 32 0, g_state = WPA_GROUP_GTK_INIT, g_GMK = replicate 32 0,
     g_GTK = replicate 2 (replicate 32 0), g_GNonce = replicate 32 0, g_changed = False, g_first_sta_seen = False,
     g_reject_4way_hs_for_entropy = False, g_IGTK = replicate 2 (replicate 16 0), g_GN_igtk = 0, g_GM_igtk = 0\<rparr>"

definition wpa_group_init :: "build_config \<Rightarrow> auth_env \<Rightarrow> wpa_authenticator \<Rightarrow> (bool \<times> wpa_authenticator) option" where
  "wpa_group_init cfg env wa = do {
     let wa = wa\<lparr>wa_group := group_alloc (wpa_cipher_key_len (wc_wpa_group (wa_conf wa)))\<rparr>;
     (ok, wa) \<leftarrow> wpa_group_init_gmk_and_counter env wa;
     Some (ok, if ok then grp (g_GInit_update (\<lambda>_. True)) wa else wa) }"

definition wpa_init_keys :: "build_config \<Rightarrow> auth_env \<Rightarrow> wpa_authenticator \<Rightarrow> wpa_authenticator option" where
  "wpa_init_keys cfg env wa = do {
     wa \<leftarrow> wpa_group_sm_step cfg env (auth_sm_step cfg env) wa;
     wpa_group_sm_step cfg env (auth_sm_step cfg env) (grp (g_GInit_update (\<lambda>_. False)) wa) }"

text \<open>A station structure as it is allocated.\<close>

definition sta_alloc :: "bytes \<Rightarrow> wpa_state_machine" where
  "sta_alloc addr = \<lparr>as_addr = take 6 addr, as_ptk_state = WPA_PTK_INITIALIZE,
     as_ptk_group_state = WPA_PTK_GROUP_IDLE, as_Init = False, as_DeauthenticationRequest = False,
     as_AuthenticationRequest = False, as_ReAuthenticationRequest = False, as_Disconnect = False, as_TimeoutCtr = 0,
     as_GTimeoutCtr = 0, as_TimeoutEvt = False, as_EAPOLKeyReceived = False, as_EAPOLKeyPairwise = False,
     as_EAPOLKeyRequest = False, as_MICVerified = False, as_GUpdateStationKeys = False, as_ANonce = replicate 32 0,
     as_SNonce = replicate 32 0, as_PMK = replicate 32 0, as_PTK = replicate 64 0, as_PTK_valid = False,
     as_pairwise_set = False, as_keycount = 0, as_Pair = False, as_key_replay = replicate 4 (replicate 8 0, False),
     as_prev_key_replay = replicate 4 (replicate 8 0, False), as_PInitAKeys = False, as_PTKRequest = False,
     as_has_GTK = False, as_PtkGroupInit = False, as_last_rx_eapol_key = None, as_last_rx_eapol_key_len = 0,
     as_changed = False, as_started = False, as_mgmt_frame_prot = False, as_rx_eapol_key_secure = False,
     as_update_snonce = False, as_is_wnmsleep = False, as_req_replay_counter = replicate 8 0,
     as_req_replay_counter_used = False, as_wpa_ie = None, as_wpa = WPA_VERSION_NO_WPA, as_pairwise = 0,
     as_wpa_key_mgmt = 0, as_pmksa = None, as_TKIPRemoteMICFailures = 0, as_pending_1_of_4_timeout = False,
     as_send_timeouts = [], as_rekey_ptk_timer = None\<rparr>"

definition wpa_auth_sta_init :: "bytes \<Rightarrow> wpa_authenticator \<Rightarrow> wpa_authenticator" where
  "wpa_auth_sta_init addr wa = wa\<lparr>wa_sta := sta_alloc addr\<rparr>"

text \<open>The start of the machines for a station that has none running.\<close>

definition sta_start :: "build_config \<Rightarrow> auth_env \<Rightarrow> wpa_authenticator \<Rightarrow> wpa_authenticator option" where
  "sta_start cfg env wa = do {
     wa \<leftarrow> auth_sm_step cfg env (sta (\<lambda>sm. sm\<lparr>as_started := True, as_Init := True\<rparr>) wa);
     Some (sta (\<lambda>sm. sm\<lparr>as_Init := False, as_AuthenticationRequest := True\<rparr>) wa) }"

definition wpa_auth_sta_associated :: "build_config \<Rightarrow> auth_env \<Rightarrow> wpa_authenticator \<Rightarrow> (int \<times> wpa_authenticator) option" where
  "wpa_auth_sta_associated cfg env wa =
     (if wc_wpa (wa_conf wa) = 0 then Some (-1, wa)
      else map_option (Pair 0)
        (if as_started (wa_sta wa)
         then auth_sm_step cfg env (sta (\<lambda>sm. sm\<lparr>as_key_replay := replicate 4 (replicate 8 0, False),
           as_ReAuthenticationRequest := True\<rparr>) wa)
         else do { wa \<leftarrow> sta_start cfg env wa; auth_sm_step cfg env wa }))"

datatype wpa_event = WPA_AUTH | WPA_ASSOC | WPA_DISASSOC | WPA_DEAUTH | WPA_REAUTH | WPA_REAUTH_EAPOL | WPA_ASSOC_FT

definition wpa_auth_sm_event :: "build_config \<Rightarrow> auth_env \<Rightarrow> wpa_authenticator \<Rightarrow> wpa_event \<Rightarrow> wpa_authenticator option" where
  "wpa_auth_sm_event cfg env wa event = do {
     wa \<leftarrow> (if event = WPA_DEAUTH \<or> event = WPA_DISASSOC then Some (sta (as_DeauthenticationRequest_update (\<lambda>_. True)) wa)
       else if event = WPA_REAUTH \<or> event = WPA_REAUTH_EAPOL then
         (if \<not> as_started (wa_sta wa) then sta_start cfg env wa
          else Some (sta (as_ReAuthenticationRequest_update (\<lambda>_. True))
            (if as_GUpdateStationKeys (wa_sta wa) then sta (as_PtkGroupInit_update (\<lambda>_. True)) (clear_update_keys wa) else wa)))
       else Some wa);
     let remove_ptk = \<not> (CONFIG_IEEE80211W cfg \<and> as_mgmt_frame_prot (wa_sta wa) \<and> event = WPA_AUTH);
     let wa = (if remove_ptk then
         (let wa = sta (\<lambda>sm. sm\<lparr>as_PTK_valid := False, as_PTK := replicate 64 0\<rparr>) wa
          in if event \<noteq> WPA_REAUTH_EAPOL then wpa_remove_ptk env wa else wa)
       else wa);
     auth_sm_step cfg env wa }"

definition wpa_auth_sta_no_wpa :: "wpa_authenticator \<Rightarrow> wpa_authenticator" where
  "wpa_auth_sta_no_wpa wa = sta (as_wpa_key_mgmt_update (\<lambda>_. 0)) wa"

definition wpa_gtk_rekey :: "build_config \<Rightarrow> auth_env \<Rightarrow> wpa_authenticator \<Rightarrow> wpa_authenticator option" where
  "wpa_gtk_rekey cfg env wa =
     (let round = (\<lambda>wa. do {
        wa \<leftarrow> wpa_gtk_update cfg env (grp (\<lambda>g. g\<lparr>g_GM := g_GN g, g_GN := g_GM g, g_GM_igtk := g_GN_igtk g, g_GN_igtk := g_GM_igtk g\<rparr>) wa);
        map_option snd (wpa_group_config_group_keys cfg env wa) })
      in do { wa \<leftarrow> round wa; round wa })"

text \<open>The station acknowledged message 1, so it gets more time for its answer.\<close>

definition wpa_auth_eapol_key_tx_status :: "wpa_authenticator \<Rightarrow> bool \<Rightarrow> wpa_authenticator" where
  "wpa_auth_eapol_key_tx_status wa ack =
     (if as_pending_1_of_4_timeout (wa_sta wa) \<and> ack then sta (as_send_timeouts_update (\<lambda>_. [1000])) wa else wa)"

section \<open>Updates of the station, the log and the EAPOL variables\<close>

lemma sta_simps [simp]:
  "wa_sta (sta f wa) = f (wa_sta wa)" "wa_group (sta f wa) = wa_group wa" "wa_conf (sta f wa) = wa_conf wa"
  "wa_addr (sta f wa) = wa_addr wa" "wa_log (sta f wa) = wa_log wa" "wa_wpa_ie (sta f wa) = wa_wpa_ie wa"
  "wa_rand (sta f wa) = wa_rand wa" "wa_eapol (sta f wa) = wa_eapol wa"
  by (simp_all add: sta_def)

lemma alog_simps [simp]:
  "wa_sta (alog e wa) = wa_sta wa" "wa_group (alog e wa) = wa_group wa" "wa_conf (alog e wa) = wa_conf wa"
  "wa_addr (alog e wa) = wa_addr wa" "wa_log (alog e wa) = e # wa_log wa" "wa_wpa_ie (alog e wa) = wa_wpa_ie wa"
  "wa_rand (alog e wa) = wa_rand wa" "wa_eapol (alog e wa) = wa_eapol wa"
  by (simp_all add: alog_def)

lemma set_eapol_simps [simp]:
  "wa_sta (wpa_auth_set_eapol x v wa) = wa_sta wa" "wa_group (wpa_auth_set_eapol x v wa) = wa_group wa"
  "wa_conf (wpa_auth_set_eapol x v wa) = wa_conf wa" "wa_addr (wpa_auth_set_eapol x v wa) = wa_addr wa"
  "wa_log (wpa_auth_set_eapol x v wa) = wa_log wa" "wa_wpa_ie (wpa_auth_set_eapol x v wa) = wa_wpa_ie wa"
  "wa_rand (wpa_auth_set_eapol x v wa) = wa_rand wa" "wa_eapol (wpa_auth_set_eapol x v wa) = (wa_eapol wa)(x := v)"
  by (simp_all add: wpa_auth_set_eapol_def)

end
