(* ===== verification/Handshake_Supplicant.thy ===== *)
theory Handshake_Supplicant
  imports Wpa_Frames Wpa_Auth
begin

text \<open>
  The supplicant's half of the four-way handshake: what \<open>wpa_sm_rx_eapol\<close> does with message 1 and message 3 of an honest
  authenticator for WPA2-PSK with CCMP, the frames it answers and the keys it installs, as equations on the state.
\<close>

section \<open>The supplicant's side\<close>

lemma frame_header: "length (k_data k) = n \<Longrightarrow> ([v, 3] @ WPA_PUT_BE16 (of_nat (95 + n))) @ eapol_key_bytes k = eapol_frame v k"
  by (simp add: eapol_frame_def)

text \<open>The reply with its MIC is the frame that an honest sender signs.\<close>

lemma send_signed:
  assumes "key_wf k" "k_mic k = replicate 16 0" "length (k_data k) = n" "n \<le> 65440" "length kck = 16"
    and "\<not> is_zero_ether_addr dest" "hdr = [v, 3] @ WPA_PUT_BE16 (of_nat (95 + n))"
  shows "wpa_eapol_key_send cfg env sm kck 2 dest hdr k True =
    Some (emit Notify_Tx_Eapol_Key (emit (Ether_Send dest ETH_P_EAPOL (eapol_frame v (with_mic kck v k))) sm))"
proof -
  have e: "k\<lparr>k_mic := replicate 16 0\<rparr> = k" using assms(2) by (cases k) simp
  have "length (eapol_frame v k) < 2 ^ 30" using assms(3,4) by (simp add: length_eapol_frame [OF assms(1)])
  then show ?thesis
    using assms frame_header [of "k\<lparr>k_mic := _\<rparr>" n v] frame_header [of k n v]
    by (simp add: wpa_eapol_key_send_def wpa_eapol_key_mic_eq with_mic_def e del: append_Cons append_assoc)
qed

lemma eapol_reply_Some:
  assumes "env_alloc env" "n \<le> 65440"
  shows "eapol_reply env n = Some (Some ([env_eapol_version env, 3] @ WPA_PUT_BE16 (of_nat (95 + n)),
    \<lparr>k_type = 0, k_info = 0, k_length = 0, k_replay_counter = replicate 8 0, k_nonce = replicate 32 0, k_iv = replicate 16 0,
      k_rsc = replicate 8 0, k_id = replicate 8 0, k_mic = replicate 16 0, k_data_length = 0, k_data = replicate n 0\<rparr>))"
proof -
  have "unat (of_nat (95 + n) :: u16) = 95 + n" unfolding unat_of_nat using assms(2) by simp
  moreover have "eapol_key_of (replicate (95 + n) 0) =
    \<lparr>k_type = 0, k_info = 0, k_length = 0, k_replay_counter = replicate 8 0, k_nonce = replicate 32 0, k_iv = replicate 16 0,
      k_rsc = replicate 8 0, k_id = replicate 8 0, k_mic = replicate 16 0, k_data_length = 0, k_data = replicate n 0\<rparr>"
    by (simp add: eapol_key_of_def WPA_GET_BE16_def)
  ultimately show ?thesis using assms(1) by (simp add: eapol_reply_def wpa_alloc_eapol_def)
qed

text \<open>Message 2 as the supplicant answers message 1, and message 4 as it answers message 3.\<close>

definition message_2 :: "bytes \<Rightarrow> bytes \<Rightarrow> bytes \<Rightarrow> wpa_eapol_key" where
  "message_2 counter snonce ie = \<lparr>k_type = EAPOL_KEY_TYPE_RSN, k_info = 0x10a, k_length = 0, k_replay_counter = counter,
     k_nonce = snonce, k_iv = replicate 16 0, k_rsc = replicate 8 0, k_id = replicate 8 0, k_mic = replicate 16 0,
     k_data_length = of_nat (length ie), k_data = ie\<rparr>"

definition message_4 :: "bytes \<Rightarrow> wpa_eapol_key" where
  "message_4 counter = \<lparr>k_type = EAPOL_KEY_TYPE_RSN, k_info = 0x30a, k_length = 0, k_replay_counter = counter,
     k_nonce = replicate 32 0, k_iv = replicate 16 0, k_rsc = replicate 8 0, k_id = replicate 8 0, k_mic = replicate 16 0,
     k_data_length = 0, k_data = []\<rparr>"

text \<open>A supplicant for WPA2-PSK with CCMP that has its keys, addresses and element.\<close>

definition supp_ready :: "wpa_sm \<Rightarrow> bytes \<Rightarrow> bytes \<Rightarrow> bytes \<Rightarrow> bytes \<Rightarrow> bool" where
  "supp_ready sm pmk own bssid ie \<longleftrightarrow> sm_wf sm \<and> sm_proto sm = WPA_PROTO_RSN \<and> sm_pairwise_cipher sm = WPA_CIPHER_CCMP \<and>
     sm_group_cipher sm = WPA_CIPHER_CCMP \<and> sm_key_mgmt sm = WPA_KEY_MGMT_PSK \<and> sm_assoc_wpa_ie sm = Some ie \<and>
     take (pc_pmk_len (sm_pm sm)) (pc_pmk (sm_pm sm)) = pmk \<and> sm_own_addr sm = own \<and> sm_bssid sm = bssid \<and>
     \<not> is_zero_ether_addr bssid"

lemma has_bits [simp]:
  "has 0x8a 0x80" "has 0x8a 8" "\<not> has 0x8a 0x100" "\<not> has 0x8a 0x1000" "\<not> has 0x8a 0x30" "\<not> has 0x8a 0x2000" "\<not> has 0x8a 0x800"
  "has 0x8a 0x2080" "\<not> has 0x8a 0x40" "\<not> has 0x8a 0x200"
  by (simp_all add: has_def)

lemma supp_message_1:
  assumes "supp_ready sm pmk own bssid ie" "env_wf env sm" "env_alloc env" "env_network_ctx env \<noteq> 0"
    and "sm_renew_snonce sm" "env_random env = Some snonce"
    and "key_wf k" "k_type k = EAPOL_KEY_TYPE_RSN" "k_info k = 0x8a" "k_data k = []" "k_data_length k = 0"
    and "sm_rx_replay_counter_set sm \<longrightarrow> be_val (sm_rx_replay_counter sm) < be_val (k_replay_counter k)"
    and ptk: "wpa_pmk_to_ptk cfg pmk (c_lit ''Pairwise key expansion'') own bssid snonce (k_nonce k) 48 False = Some p"
  shows "wpa_sm_rx_eapol cfg env sm src (eapol_frame v k) = Some (1,
    (emit Notify_Tx_Eapol_Key (emit (Ether_Send bssid ETH_P_EAPOL
      (eapol_frame (env_eapol_version env) (with_mic (take 16 p) (env_eapol_version env) (message_2 (k_replay_counter k) snonce ie))))
      (emit Lower_Layer_Success sm)))
    \<lparr>sm_state := WPA_4WAY_HANDSHAKE, sm_snonce := snonce, sm_renew_snonce := False,
     sm_tptk := swap_mic_keys (p @ drop 48 (sm_tptk sm)), sm_tptk_set := True, sm_anonce := k_nonce k\<rparr>)"
proof -
  have wf: "sm_wf sm" and ie: "length ie \<le> 65440" and r: "sm_proto sm = 2" "sm_pairwise_cipher sm = 16" "sm_key_mgmt sm = 2"
      "sm_assoc_wpa_ie sm = Some ie" "take (pc_pmk_len (sm_pm sm)) (pc_pmk (sm_pm sm)) = pmk" "sm_own_addr sm = own"
      "sm_bssid sm = bssid" "\<not> is_zero_ether_addr bssid"
    using assms(1) by (auto simp: supp_ready_def sm_wf_def)
  have sn: "length snonce = 32" using assms(2,6) by (auto simp: env_wf_def env_sizes_def)
  have p: "length p = 48"
    using ptk_wp [of own bssid snonce "k_nonce k" pmk 48 cfg False] wf r sn assms(7) ptk
    by (auto simp: sm_wf_def pm_wf_def key_wf_def)
  define k2 where "k2 = message_2 (k_replay_counter k) snonce ie"
  have k2: "key_wf k2" "k_mic k2 = replicate 16 0" "length (k_data k2) = length ie"
    using assms(7) sn by (simp_all add: k2_def message_2_def key_wf_def)
  have rx: "wpa_sm_rx_eapol cfg env sm src (eapol_frame v k) = rx_eapol_key cfg env (emit Lower_Layer_Success sm) src (eapol_frame v k) k"
    using assms r by (intro rx_eapol_frame [OF wf]) (simp_all add: rx_accepts_def eapol_version_ok_def wpa_key_mgmt_sha256_def)
  have sent: "wpa_eapol_key_send cfg env s (take 16 p) 2 bssid ([env_eapol_version env, 3] @ WPA_PUT_BE16 (of_nat (95 + length ie))) k2 True =
      Some (emit Notify_Tx_Eapol_Key (emit (Ether_Send bssid ETH_P_EAPOL
        (eapol_frame (env_eapol_version env) (with_mic (take 16 p) (env_eapol_version env) k2))) s))" for s
    using k2 ie p r by (intro send_signed) simp_all
  have pre: "take 16 (swap_mic_keys (p @ drop 48 (sm_tptk sm))) = take 16 p" using p by (simp add: swap_mic_keys_def)
  have parse: "wpa_supplicant_parse_ies cfg [] = Some (0, kd_empty)"
    by (simp add: wpa_supplicant_parse_ies_def supp.loop_end)
  have kd: "kd_bytes [] (map_option (\<lambda>p. (p, 16)) (kd_pmkid kd_empty)) = Some None" by (simp add: kd_bytes_def kd_empty_def)
  show ?thesis
    unfolding rx rx_eapol_key_def
    using assms(3-7,9-11) r ptk
    by (simp add: Let_def rx_eapol_dispatch_def wpa_supplicant_process_1_of_4_def parse kd wpa_supplicant_get_pmk_def
        get_pmk_lookup_def pmkid_matches_def wpa_key_mgmt_wpa_ieee8021x_def process_1_of_4_reply_def wpa_derive_ptk_def
        wpa_key_mgmt_sha256_def wpa_supplicant_send_2_of_4_def eapol_reply_Some ie reply_type_def pre
        sent [unfolded k2_def message_2_def, simplified] message_2_def length_eapol_frame emit_def)
qed

text \<open>Message 3 with its key data decrypted, as the handlers see it.\<close>

definition gtk_kde :: "u8 \<Rightarrow> bytes \<Rightarrow> bytes" where
  "gtk_kde idx gtk = wpa_add_kde RSN_KEY_DATA_GROUPKEY [idx, 0] (Some gtk)"

lemma install_ptk_ccmp:
  assumes "sm_proto sm = WPA_PROTO_RSN" "sm_pairwise_cipher sm = WPA_CIPHER_CCMP" "\<forall>e. env_set_key env e"
  shows "wpa_supplicant_install_ptk env sm key = (0,
    (emit (Set_Key WPA_ALG_CCMP (Some (sm_bssid sm)) 0 True (replicate 6 0) (take 16 (drop 32 (sm_ptk sm)))) sm)
    \<lparr>sm_rekey_timer := (if sm_wpa_ptk_rekey sm \<noteq> 0 then Some (sm_wpa_ptk_rekey sm) else sm_rekey_timer sm)\<rparr>)"
  using assms by (simp add: wpa_supplicant_install_ptk_def wpa_cipher_valid_pairwise_def wpa_cipher_to_alg_def
      wpa_cipher_key_len_def wpa_cipher_rsc_len_def wpa_sm_set_key_def Let_def emit_def)

lemma neg_complete_psk:
  assumes "sm_key_mgmt sm = WPA_KEY_MGMT_PSK" "sm_cur_pmksa sm = None"
  shows "wpa_supplicant_key_neg_complete sm addr True = Some
    ((emit (Eap_Success True) (emit (Port_Valid True) (emit (Set_Protection addr 3 1) (emit Cancel_Auth_Timeout sm))))
     \<lparr>sm_state := WPA_COMPLETED, sm_preauth_timer := Some 1\<rparr>)"
  using assms by (simp add: wpa_supplicant_key_neg_complete_def Let_def wpa_key_mgmt_wpa_psk_def emit_def)

lemma pairwise_gtk_ccmp:
  assumes "sm_pairwise_cipher sm = WPA_CIPHER_CCMP" "sm_group_cipher sm = WPA_CIPHER_CCMP" "\<forall>e. env_set_key env e"
    and "sm_key_mgmt sm = WPA_KEY_MGMT_PSK" "sm_cur_pmksa sm = None" "length gtk = 16" "idx = 1 \<or> idx = 2" "has info WPA_KEY_INFO_SECURE"
  shows "wpa_supplicant_pairwise_gtk env sm key ([idx, 0] @ gtk) info = Some (0,
    (emit (Eap_Success True) (emit (Port_Valid True) (emit (Set_Protection (sm_bssid sm) 3 1) (emit Cancel_Auth_Timeout
      (emit (Set_Key WPA_ALG_CCMP (Some (replicate 6 0xff)) (unat idx) False (take 6 (k_rsc key)) gtk) sm)))))
     \<lparr>sm_state := WPA_COMPLETED, sm_preauth_timer := Some 1\<rparr>)"
proof -
  have "idx AND 4 = 0" "idx AND 3 = idx" using assms(7) by auto
  then show ?thesis
    using assms neg_complete_psk [of "emit (Set_Key WPA_ALG_CCMP (Some (replicate 6 0xff)) (unat idx) False (take 6 (k_rsc key)) gtk) sm" "sm_bssid sm"]
    by (simp add: wpa_supplicant_pairwise_gtk_def wpa_supplicant_check_group_cipher_def wpa_cipher_to_alg_def
      wpa_cipher_key_len_def wpa_cipher_rsc_len_def wpa_sm_set_key_def Let_def wpa_supplicant_gtk_tx_bit_workaround_def
      wpa_supplicant_install_gtk_def)
qed

lemma has_bits_3 [simp]:
  "has 0x13ca 0x80" "has 0x13ca 8" "has 0x13ca 0x100" "has 0x13ca 0x1000" "\<not> has 0x13ca 0x30" "\<not> has 0x13ca 0x2000" "\<not> has 0x13ca 0x800"
  "has 0x13ca 0x2080" "has 0x13ca 0x40" "has 0x13ca 0x200"
  by (simp_all add: has_def)

lemma process_3_install_ccmp:
  assumes "sm_proto sm = WPA_PROTO_RSN" "sm_pairwise_cipher sm = WPA_CIPHER_CCMP" "sm_group_cipher sm = WPA_CIPHER_CCMP"
    and "\<forall>e. env_set_key env e" "sm_key_mgmt sm = WPA_KEY_MGMT_PSK" "sm_cur_pmksa sm = None" "length gtk = 16" "idx = 1 \<or> idx = 2"
    and "k_info key = 0x13ca"
  shows "process_3_of_4_install cfg env sm key (Some ([idx, 0] @ gtk)) None =
    Some (sm\<lparr>sm_renew_snonce := True, sm_state := WPA_COMPLETED, sm_preauth_timer := Some 1,
      sm_rekey_timer := (if sm_wpa_ptk_rekey sm \<noteq> 0 then Some (sm_wpa_ptk_rekey sm) else sm_rekey_timer sm),
      sm_log := [Rekey_Offload (ptk_kek (sm_ptk sm)) (ptk_kck (sm_ptk sm)) (sm_rx_replay_counter sm),
        Eap_Success True, Port_Valid True, Set_Protection (sm_bssid sm) 3 1, Cancel_Auth_Timeout,
        Set_Key WPA_ALG_CCMP (Some (replicate 6 0xff)) (unat idx) False (take 6 (k_rsc key)) gtk,
        Port_Valid True, Set_Protection (sm_bssid sm) 1 1,
        Set_Key WPA_ALG_CCMP (Some (sm_bssid sm)) 0 True (replicate 6 0) (take 16 (drop 32 (sm_ptk sm)))] @ sm_log sm\<rparr>)"
proof -
  define s1 where "s1 = (emit (Set_Key WPA_ALG_CCMP (Some (sm_bssid sm)) 0 True (replicate 6 0) (take 16 (drop 32 (sm_ptk sm))))
      (sm\<lparr>sm_renew_snonce := True\<rparr>))\<lparr>sm_rekey_timer := (if sm_wpa_ptk_rekey sm \<noteq> 0 then Some (sm_wpa_ptk_rekey sm) else sm_rekey_timer sm)\<rparr>"
  define s2 where "s2 = (emit (Port_Valid True) (emit (Set_Protection (sm_bssid sm) 1 1) s1))\<lparr>sm_state := WPA_GROUP_HANDSHAKE\<rparr>"
  have i: "wpa_supplicant_install_ptk env (sm\<lparr>sm_renew_snonce := True\<rparr>) key = (0, s1)"
    using install_ptk_ccmp [of "sm\<lparr>sm_renew_snonce := True\<rparr>" env key] assms by (simp add: s1_def)
  have g: "wpa_supplicant_pairwise_gtk env s2 key ([idx, 0] @ gtk) 0x13ca = Some (0,
    (emit (Eap_Success True) (emit (Port_Valid True) (emit (Set_Protection (sm_bssid sm) 3 1) (emit Cancel_Auth_Timeout
      (emit (Set_Key WPA_ALG_CCMP (Some (replicate 6 0xff)) (unat idx) False (take 6 (k_rsc key)) gtk) s2)))))
     \<lparr>sm_state := WPA_COMPLETED, sm_preauth_timer := Some 1\<rparr>)"
    using pairwise_gtk_ccmp [of s2 env gtk idx "0x13ca" key] assms by (simp add: s2_def s1_def emit_def)
  have s2: "(emit (Port_Valid True) (emit (Set_Protection (sm_bssid s1) 1 1) s1))\<lparr>sm_state := WPA_GROUP_HANDSHAKE\<rparr> = s2"
    by (simp add: s2_def s1_def emit_def)
  have w: "ieee80211w_set_keys cfg env x None = (0, x)" for x by (simp add: ieee80211w_set_keys_def)
  show ?thesis
    unfolding process_3_of_4_install_def assms(9) Let_def
    by (simp add: i s2 g [simplified] w del: One_nat_def) (simp add: s2_def s1_def wpa_sm_set_rekey_offload_def emit_def)
qed

lemma compare_rsn_same: "wpa_compare_rsn_ie cfg ft (Some ie) (Some ie) = Some 0"
  using os_memcmp_0_iff [of "length ie" ie ie] by (auto simp: wpa_compare_rsn_ie_def)

text \<open>The handler for message 3, with the key data decrypted to \<open>plain\<close> and 8 bytes left behind it.\<close>

lemma process_3_ccmp:
  assumes "supp_ready sm pmk own bssid ie" "sm_cur_pmksa sm = None" "sm_ap_rsn_ie sm = Some ap_ie" "sm_ap_wpa_ie sm = None"
    and "env_alloc env" "\<forall>e. env_set_key env e" "key_wf key" "sm_anonce sm = k_nonce key" "k_info key = 0x13ca" "k_length key = 16"
    and ap: "ap_ie = 48 # l # body" "length body = unat l" and gtk: "length gtk = 16" "idx = 1 \<or> idx = 2"
    and pad: "pad = [] \<or> pad = 0xdd # replicate m 0"
    and key: "k_data key = (ap_ie @ gtk_kde idx gtk @ pad) @ rest" "unat (k_data_length key) = length (ap_ie @ gtk_kde idx gtk @ pad)"
  shows "wpa_supplicant_process_3_of_4 cfg env sm key 2 =
    Some (sm\<lparr>sm_renew_snonce := True, sm_state := WPA_COMPLETED, sm_preauth_timer := Some 1,
      sm_rekey_timer := (if sm_wpa_ptk_rekey sm \<noteq> 0 then Some (sm_wpa_ptk_rekey sm) else sm_rekey_timer sm),
      sm_log := [Rekey_Offload (ptk_kek (sm_ptk sm)) (ptk_kck (sm_ptk sm)) (sm_rx_replay_counter sm),
        Eap_Success True, Port_Valid True, Set_Protection bssid 3 1, Cancel_Auth_Timeout,
        Set_Key WPA_ALG_CCMP (Some (replicate 6 0xff)) (unat idx) False (take 6 (k_rsc key)) gtk,
        Port_Valid True, Set_Protection bssid 1 1,
        Set_Key WPA_ALG_CCMP (Some bssid) 0 True (replicate 6 0) (take 16 (drop 32 (sm_ptk sm))), Notify_Tx_Eapol_Key,
        Ether_Send bssid ETH_P_EAPOL (eapol_frame (env_eapol_version env)
          (with_mic (ptk_kck (sm_ptk sm)) (env_eapol_version env) (message_4 (k_replay_counter key))))] @ sm_log sm\<rparr>)"
proof -
  have r: "sm_wf sm" "sm_proto sm = 2" "sm_pairwise_cipher sm = 16" "sm_group_cipher sm = 16" "sm_key_mgmt sm = 2"
      "sm_bssid sm = bssid" "\<not> is_zero_ether_addr bssid"
    using assms(1) by (simp_all add: supp_ready_def)
  define plain where "plain = ap_ie @ gtk_kde idx gtk @ pad"
  let ?ie = "kd_empty\<lparr>kd_rsn_ie := Some (0, length ap_ie), kd_gtk := Some (length ap_ie + 6, 2 + length gtk)\<rparr>"
  have data: "c_slice (k_data key) 0 (unat (k_data_length key)) = Some plain"
    using key by (simp add: plain_def c_slice_def)
  have parse: "wpa_supplicant_parse_ies cfg plain = Some (0, ?ie)"
    unfolding plain_def gtk_kde_def using gtk by (intro parse_ies_message_3 [OF ap _ _ _ pad]) auto
  have kd: "kd_bytes plain (kd_gtk ?ie) = Some (Some ([idx, 0] @ gtk))" "kd_bytes plain (kd_igtk ?ie) = Some None"
    "kd_bytes plain (kd_wpa_ie ?ie) = Some None" "kd_bytes plain (kd_rsn_ie ?ie) = Some (Some ap_ie)"
    using gtk(1) by (simp_all add: kd_bytes_def kd_empty_def plain_def gtk_kde_def wpa_add_kde_def c_slice_def)
  define k4 where "k4 = message_4 (k_replay_counter key)"
  define v where "v = env_eapol_version env"
  have k4: "key_wf k4" "k_mic k4 = replicate 16 0" "k_data k4 = []" using assms(7) by (simp_all add: k4_def message_4_def key_wf_def)
  have sent: "wpa_eapol_key_send cfg env s (ptk_kck (sm_ptk sm)) 2 bssid ([v, 3] @ WPA_PUT_BE16 (of_nat (95 + (0::nat)))) k4 True =
      Some (emit Notify_Tx_Eapol_Key (emit (Ether_Send bssid ETH_P_EAPOL (eapol_frame v (with_mic (ptk_kck (sm_ptk sm)) v k4))) s))" for s
    using k4 r by (intro send_signed [where n = 0]) (simp_all add: sm_wf_def)
  define s1 where "s1 = (emit Notify_Tx_Eapol_Key (emit (Ether_Send bssid ETH_P_EAPOL (eapol_frame v (with_mic (ptk_kck (sm_ptk sm)) v k4)))
      (sm\<lparr>sm_state := WPA_4WAY_HANDSHAKE\<rparr>)))"
  have send4: "wpa_supplicant_send_4_of_4 cfg env (sm\<lparr>sm_state := WPA_4WAY_HANDSHAKE\<rparr>) bssid key 2 0x13ca [] (sm_ptk sm) = Some (0, s1)"
    using assms(5) r sent [of "sm\<lparr>sm_state := WPA_4WAY_HANDSHAKE\<rparr>", unfolded k4_def message_4_def, simplified]
    by (simp add: wpa_supplicant_send_4_of_4_def eapol_reply_Some Let_def reply_type_def s1_def k4_def message_4_def v_def)
  have val: "wpa_supplicant_validate_ie cfg env (sm\<lparr>sm_state := WPA_4WAY_HANDSHAKE\<rparr>) None (Some ap_ie) =
      Some (0, sm\<lparr>sm_state := WPA_4WAY_HANDSHAKE\<rparr>)"
    using assms(3,4) r by (simp add: wpa_supplicant_validate_ie_def compare_rsn_same Let_def)
  have inst: "process_3_of_4_install cfg env s1 key (Some ([idx, 0] @ gtk)) None =
    Some (s1\<lparr>sm_renew_snonce := True, sm_state := WPA_COMPLETED, sm_preauth_timer := Some 1,
      sm_rekey_timer := (if sm_wpa_ptk_rekey s1 \<noteq> 0 then Some (sm_wpa_ptk_rekey s1) else sm_rekey_timer s1),
      sm_log := [Rekey_Offload (ptk_kek (sm_ptk s1)) (ptk_kck (sm_ptk s1)) (sm_rx_replay_counter s1),
        Eap_Success True, Port_Valid True, Set_Protection (sm_bssid s1) 3 1, Cancel_Auth_Timeout,
        Set_Key WPA_ALG_CCMP (Some (replicate 6 0xff)) (unat idx) False (take 6 (k_rsc key)) gtk,
        Port_Valid True, Set_Protection (sm_bssid s1) 1 1,
        Set_Key WPA_ALG_CCMP (Some (sm_bssid s1)) 0 True (replicate 6 0) (take 16 (drop 32 (sm_ptk s1)))] @ sm_log s1\<rparr>)"
    using assms r by (intro process_3_install_ccmp) (simp_all add: s1_def)
  have kl: "wpa_cipher_key_len 16 = 16" by (simp add: wpa_cipher_key_len_def)
  show ?thesis
    unfolding wpa_supplicant_process_3_of_4_def
    by (simp add: Let_def data parse kd [simplified] assms(8-10) val r kl send4 inst [simplified] del: One_nat_def)
      (simp add: s1_def emit_def r v_def k4_def)
qed

text \<open>Message 3 as the authenticator sends it, and the calls that the supplicant makes on it, newest first.\<close>

definition message_3 :: "bytes \<Rightarrow> bytes \<Rightarrow> bytes \<Rightarrow> bytes \<Rightarrow> wpa_eapol_key" where
  "message_3 counter anonce rsc cipher = \<lparr>k_type = EAPOL_KEY_TYPE_RSN, k_info = 0x13ca, k_length = 16, k_replay_counter = counter,
     k_nonce = anonce, k_iv = replicate 16 0, k_rsc = rsc, k_id = replicate 8 0, k_mic = replicate 16 0,
     k_data_length = of_nat (length cipher), k_data = cipher\<rparr>"

definition message_3_calls :: "bytes \<Rightarrow> bytes \<Rightarrow> u8 \<Rightarrow> bytes \<Rightarrow> bytes \<Rightarrow> u8 \<Rightarrow> bytes \<Rightarrow> sm_event list" where
  "message_3_calls bssid ptk idx gtk rsc v counter =
     [Rekey_Offload (ptk_kek ptk) (ptk_kck ptk) counter, Eap_Success True, Port_Valid True, Set_Protection bssid 3 1, Cancel_Auth_Timeout,
      Set_Key WPA_ALG_CCMP (Some (replicate 6 0xff)) (unat idx) False (take 6 rsc) gtk, Port_Valid True, Set_Protection bssid 1 1,
      Set_Key WPA_ALG_CCMP (Some bssid) 0 True (replicate 6 0) (take 16 (drop 32 ptk)), Notify_Tx_Eapol_Key,
      Ether_Send bssid ETH_P_EAPOL (eapol_frame v (with_mic (ptk_kck ptk) v (message_4 counter))), Lower_Layer_Success]"

text \<open>Key data wrapped with the KEK, after padding with 0xdd and zeros.\<close>

definition sealed :: "bytes \<Rightarrow> bytes \<Rightarrow> bytes \<Rightarrow> bool" where
  "sealed ptk kde cipher \<longleftrightarrow> (\<exists>n pad m. (pad = [] \<or> pad = 0xdd # replicate m 0) \<and> length (kde @ pad) = 8 * n \<and>
     length cipher = 8 * n + 8 \<and> n \<le> 200 \<and> aes_unwrap True (ptk_kek ptk) n cipher = Some (0, kde @ pad))"

lemma supp_message_3:
  assumes ready: "supp_ready sm pmk own bssid ie" "sm_cur_pmksa sm = None" "sm_ap_rsn_ie sm = Some ap_ie" "sm_ap_wpa_ie sm = None"
    and env: "env_alloc env" "\<forall>e. env_set_key env e"
    and anonce: "sm_anonce sm = anonce" "length anonce = 32" "length rsc = 8" "length counter = 8"
    and ap: "ap_ie = 48 # l # body" "length body = unat l" and gtk: "length gtk = 16" "idx = 1 \<or> idx = 2"
    and sealed: "sealed ptk (ap_ie @ gtk_kde idx gtk) cipher"
    and ptk: "if tmp then sm_tptk_set sm \<and> sm_tptk sm = ptk else \<not> sm_tptk_set sm \<and> sm_ptk_set sm \<and> sm_ptk sm = ptk"
    and ctr: "sm_rx_replay_counter_set sm \<longrightarrow> be_val (sm_rx_replay_counter sm) < be_val counter"
  shows "wpa_sm_rx_eapol cfg env sm src (eapol_frame v (with_mic (ptk_kck ptk) v (message_3 counter anonce rsc cipher))) =
    Some (1, sm\<lparr>sm_tptk_set := False, sm_ptk_set := True, sm_ptk := ptk, sm_rx_replay_counter := counter,
      sm_rx_replay_counter_set := True, sm_renew_snonce := True, sm_state := WPA_COMPLETED, sm_preauth_timer := Some 1,
      sm_rekey_timer := (if sm_wpa_ptk_rekey sm \<noteq> 0 then Some (sm_wpa_ptk_rekey sm) else sm_rekey_timer sm),
      sm_log := message_3_calls bssid ptk idx gtk rsc (env_eapol_version env) counter @ sm_log sm\<rparr>)"
proof -
  obtain n pad m plain where pad: "pad = [] \<or> pad = 0xdd # replicate m 0" and plain: "plain = ap_ie @ gtk_kde idx gtk @ pad" "length plain = 8 * n"
    and cipher: "length cipher = 8 * n + 8" "aes_unwrap True (ptk_kek ptk) n cipher = Some (0, plain)" "n \<le> 200"
    using sealed by (auto simp: sealed_def)
  have r: "sm_wf sm" "sm_proto sm = 2" "sm_pairwise_cipher sm = 16" "sm_group_cipher sm = 16" "sm_key_mgmt sm = 2"
    using ready(1) by (simp_all add: supp_ready_def)
  define k where "k = with_mic (ptk_kck ptk) v (message_3 counter anonce rsc cipher)"
  have wf: "key_wf k" using anonce unfolding k_def by (intro with_mic_wf) (simp add: message_3_def key_wf_def)
  have k: "k_info k = 0x13ca" "k_data k = cipher" "k_data_length k = of_nat (8 * n + 8)" "k_replay_counter k = counter"
    "k_nonce k = anonce" "k_rsc k = rsc" "k_length k = 16" "k_type k = 2" using cipher(1) by (simp_all add: k_def message_3_def with_mic_def)
  have len: "unat (of_nat (8 * n + 8) :: u16) = 8 * n + 8" "of_nat (8 * n + 8) - 8 = (of_nat (8 * n) :: u16)"
    "unat (of_nat (8 * n) :: u16) = 8 * n"
    unfolding unat_of_nat using cipher(3) by simp_all
  have small: "length (k_data k) \<le> 65440" using cipher(1,3) k(2) by simp
  have rx: "wpa_sm_rx_eapol cfg env sm src (eapol_frame v k) = rx_eapol_key cfg env (emit Lower_Layer_Success sm) src (eapol_frame v k) k"
    using env ctr k r by (intro rx_eapol_frame [OF r(1) wf small])
      (simp_all add: rx_accepts_def eapol_version_ok_def wpa_key_mgmt_sha256_def)
  define s where "s = (emit Lower_Layer_Success sm)\<lparr>sm_tptk_set := False, sm_ptk_set := True, sm_ptk := ptk,
      sm_rx_replay_counter := counter, sm_rx_replay_counter_set := True\<rparr>"
  have "signed (ptk_kck ptk) v k" by (simp add: k_def signed_with_mic)
  then have ver: "wpa_supplicant_verify_eapol_key_mic cfg (emit Lower_Layer_Success sm) k 2 (eapol_frame v k) = Some (0, s)"
    using verify_signed [of k "emit Lower_Layer_Success sm" tmp v cfg] wf r small ptk k unfolding s_def
    by (cases tmp) simp_all
  define k' where "k' = k\<lparr>k_data := plain @ drop (8 * n) cipher, k_data_length := of_nat (8 * n)\<rparr>"
  have dec: "wpa_supplicant_decrypt_key_data env s k 2 = Some (0, k')"
    using env cipher len by (simp add: wpa_supplicant_decrypt_key_data_def s_def k'_def k Let_def del: of_nat_add of_nat_mult)
  have ready': "supp_ready s pmk own bssid ie" using ready(1) ptk anonce(4) by (cases tmp) (auto simp: supp_ready_def s_def sm_wf_def emit_def)
  have p3: "wpa_supplicant_process_3_of_4 cfg env s k' 2 =
    Some (s\<lparr>sm_renew_snonce := True, sm_state := WPA_COMPLETED, sm_preauth_timer := Some 1,
      sm_rekey_timer := (if sm_wpa_ptk_rekey s \<noteq> 0 then Some (sm_wpa_ptk_rekey s) else sm_rekey_timer s),
      sm_log := butlast (message_3_calls bssid (sm_ptk s) idx gtk (k_rsc k') (env_eapol_version env) (k_replay_counter k')) @ sm_log s\<rparr>)"
    (is ?P)
  proof -
    have w': "key_wf k'" using wf by (simp add: k'_def key_wf_def)
    have d: "k_data k' = (ap_ie @ gtk_kde idx gtk @ pad) @ drop (8 * n) cipher"
      "unat (k_data_length k') = length (ap_ie @ gtk_kde idx gtk @ pad)"
      using plain len by (simp_all add: k'_def del: of_nat_mult)
    have "sm_cur_pmksa s = None" "sm_ap_rsn_ie s = Some ap_ie" "sm_ap_wpa_ie s = None" "sm_anonce s = k_nonce k'" "k_info k' = 0x13ca" "k_length k' = 16"
      using ready k anonce by (simp_all add: s_def k'_def emit_def)
    note q = process_3_ccmp [OF ready' this(1-3) env w' this(4-6) ap gtk pad d, of cfg]
    show ?P unfolding q by (simp add: message_3_calls_def k'_def s_def k)
  qed
  have k': "k_info k' = 0x13ca" "k_rsc k' = rsc" "k_replay_counter k' = counter" by (simp_all add: k'_def k)
  have disp: "rx_eapol_dispatch cfg env s src k' 2 x = wpa_supplicant_process_3_of_4 cfg env s k' 2" for x
    by (simp add: rx_eapol_dispatch_def k')
  have "rx_eapol_key cfg env (emit Lower_Layer_Success sm) src (eapol_frame v k) k =
      map_option (Pair 1) (wpa_supplicant_process_3_of_4 cfg env s k' 2)"
    using length_eapol_frame [OF wf, of v] r
    by (simp add: rx_eapol_key_def k ver dec Let_def len cipher(1) disp s_def [THEN arg_cong, of sm_proto] del: of_nat_add of_nat_mult)
  then show ?thesis
    unfolding k_def [symmetric] rx p3 k' by (simp add: s_def emit_def message_3_calls_def)
qed

end
