(* ===== verification/Handshake.thy ===== *)
theory Handshake
  imports Handshake_Supplicant
begin

text \<open>
  The four-way handshake between the supplicant (\<open>rsn_supp/wpa.c\<close>) and the authenticator (\<open>ap/wpa_auth.c\<close>): the authenticator's
  half as equations on its state, and both together. The properties: with the same PMK on both sides the exchange
  completes and both install the same keys, and message 3 sent again installs the pairwise key a second time.
\<close>

section \<open>The authenticator's side\<close>

text \<open>The group machines have nothing to do, so a round is a step of the pairwise machine.\<close>

definition calm :: "wpa_authenticator \<Rightarrow> bool" where
  "calm wa \<longleftrightarrow> \<not> as_Init (wa_sta wa) \<and> \<not> as_PtkGroupInit (wa_sta wa) \<and> as_ptk_group_state (wa_sta wa) = WPA_PTK_GROUP_IDLE \<and>
     \<not> as_GUpdateStationKeys (wa_sta wa) \<and> as_wpa (wa_sta wa) = WPA_VERSION_WPA2 \<and>
     \<not> g_GInit (wa_group wa) \<and> \<not> g_GTKReKey (wa_group wa) \<and> g_state (wa_group wa) = WPA_GROUP_SETKEYSDONE \<and> \<not> g_changed (wa_group wa)"

definition unchanged :: "wpa_authenticator \<Rightarrow> wpa_authenticator" where
  "unchanged wa = sta (as_changed_update (\<lambda>_. False)) wa"

lemma calm_unchanged [simp]: "calm (unchanged wa) = calm wa"
  by (simp add: calm_def unchanged_def)

lemma calm_round:
  assumes "calm wa" "sm_PTK_step cfg env (unchanged wa) = Some wa'" "calm wa'"
  shows "auth_sm_step cfg env wa = (if as_changed (wa_sta wa') then auth_sm_step cfg env wa' else Some wa')"
proof -
  have "grp (g_changed_update (\<lambda>_. False)) (unchanged wa) = unchanged wa"
    using assms(1) by (cases wa; cases "wa_group wa") (simp add: calm_def unchanged_def grp_def sta_def)
  moreover have "sm_GROUP_step cfg env wa' = Some wa'" "wpa_group_sm_step cfg env Some wa' = Some wa'"
    using assms(3) by (simp_all add: calm_def sm_GROUP_step_def wpa_group_sm_step_def Let_def)
  ultimately have r: "wpa_sm_round cfg env wa = Some wa'"
    using assms(2) by (simp add: wpa_sm_round_def unchanged_def [symmetric] Let_def)
  show ?thesis
    by (subst auth_sm_step.simps) (use assms(3) in \<open>simp add: r calm_def\<close>)
qed

lemma calm_stop:
  assumes "calm wa" "sm_PTK_step cfg env (unchanged wa) = Some (unchanged wa)"
  shows "auth_sm_step cfg env wa = Some (unchanged wa)"
proof -
  have "\<not> as_changed (wa_sta (unchanged wa))" by (simp add: unchanged_def)
  then show ?thesis using calm_round [OF assms] assms(1) by simp
qed

text \<open>Frames of the authenticator.\<close>

definition message_1 :: "bytes \<Rightarrow> bytes \<Rightarrow> wpa_eapol_key" where
  "message_1 counter anonce = \<lparr>k_type = EAPOL_KEY_TYPE_RSN, k_info = 0x8a, k_length = 16, k_replay_counter = counter,
     k_nonce = anonce, k_iv = replicate 16 0, k_rsc = replicate 8 0, k_id = replicate 8 0, k_mic = replicate 16 0,
     k_data_length = 0, k_data = []\<rparr>"

text \<open>An access point for WPA2-PSK with CCMP and its station.\<close>

definition ap_ready :: "wpa_authenticator \<Rightarrow> bytes \<Rightarrow> bytes \<Rightarrow> bytes \<Rightarrow> bytes \<Rightarrow> bytes \<Rightarrow> bool" where
  "ap_ready wa ap own ap_ie ie gtk \<longleftrightarrow> calm wa \<and> as_addr (wa_sta wa) = own \<and> length own = 6 \<and> wa_addr wa = ap \<and> length ap = 6 \<and>
     wa_wpa_ie wa = ap_ie \<and> as_wpa_ie (wa_sta wa) = Some ie \<and>
     as_pairwise (wa_sta wa) = WPA_CIPHER_CCMP \<and> as_wpa_key_mgmt (wa_sta wa) = WPA_KEY_MGMT_PSK \<and> \<not> as_mgmt_frame_prot (wa_sta wa) \<and>
     wc_wpa (wa_conf wa) \<noteq> 0 \<and> wc_wpa_group (wa_conf wa) = WPA_CIPHER_CCMP \<and> \<not> wc_disable_gtk (wa_conf wa) \<and>
     g_first_sta_seen (wa_group wa) \<and> \<not> g_reject_4way_hs_for_entropy (wa_group wa) \<and>
     g_GN (wa_group wa) \<in> {1, 2} \<and> g_GTK_len (wa_group wa) = 16 \<and> length (g_GTK (wa_group wa)) = 2 \<and>
     take 16 (g_GTK (wa_group wa) ! (g_GN (wa_group wa) - 1)) = gtk"

abbreviation "no_requests sm \<equiv> \<not> as_Disconnect sm \<and> \<not> as_DeauthenticationRequest sm \<and> \<not> as_AuthenticationRequest sm \<and>
  \<not> as_ReAuthenticationRequest sm \<and> \<not> as_PTKRequest sm"

lemma ap_send_1:
  assumes "ap_ready wa ap own ap_ie ie gtk" "ae_alloc env" "as_key_replay (wa_sta wa) = (c0, v0) # rs" "inc_byte_array c0 8 = Some c"
  shows "wpa_send_eapol cfg env wa 0x88 None (Some anonce) None 0 False =
    Some (alog (Auth_Send_Eapol (eapol_frame (wc_eapol_version (wa_conf wa)) (message_1 c anonce)) (as_pairwise_set (wa_sta wa)))
      (sta (\<lambda>sm. sm\<lparr>as_key_replay := (c, True) # take 3 ((c0, v0) # rs), as_pending_1_of_4_timeout := as_TimeoutCtr sm = 1 \<or> as_pending_1_of_4_timeout sm,
        as_send_timeouts := (if as_TimeoutCtr sm = 1 \<and> wc_tx_status (wa_conf wa) then 100 else 1000) # as_send_timeouts sm\<rparr>)
       (wpa_auth_set_eapol WPA_EAPOL_inc_EapolFramesTx 1 wa)))"
  using assms
  by (simp add: ap_ready_def calm_def wpa_send_eapol_def wpa_send_eapol_now_def eapol_version_def wpa_use_aes_cmac_def wpa_key_mgmt_ft_def
     wpa_key_mgmt_sha256_def send_key_data_def send_eapol_frame_def has_def message_1_def eapol_frame_def Let_def wpa_cipher_key_len_def
     sta_def alog_def wpa_auth_set_eapol_def)

lemma grp_calm: "\<not> g_changed (wa_group wa) \<Longrightarrow> grp (g_changed_update (\<lambda>_. False)) wa = wa"
  by (cases wa; cases "wa_group wa") (simp add: grp_def)

definition ap_wait_2 :: "wpa_authenticator \<Rightarrow> bytes \<Rightarrow> bytes \<Rightarrow> bool" where
  "ap_wait_2 wa c anonce \<longleftrightarrow> no_requests (wa_sta wa) \<and> as_ptk_state (wa_sta wa) = WPA_PTK_PTKSTART \<and> as_ANonce (wa_sta wa) = anonce \<and>
     (\<exists>rs. as_key_replay (wa_sta wa) = (c, True) # rs) \<and> \<not> as_PTK_valid (wa_sta wa) \<and> \<not> as_update_snonce (wa_sta wa) \<and>
     \<not> as_TimeoutEvt (wa_sta wa) \<and> as_Pair (wa_sta wa) \<and> \<not> as_pairwise_set (wa_sta wa)"

text \<open>Initialisation of the machines.\<close>

lemma ap_start:
  assumes "ap_ready wa ap own ap_ie ie gtk"
  shows "\<exists>wa1. sta_start cfg env wa = Some wa1 \<and> ap_ready wa1 ap own ap_ie ie gtk \<and> as_AuthenticationRequest (wa_sta wa1) \<and>
    as_key_replay (wa_sta wa1) = as_key_replay (wa_sta wa) \<and> as_Pair (wa_sta wa1) \<and> as_TimeoutCtr (wa_sta wa1) = 0 \<and>
    \<not> as_pairwise_set (wa_sta wa1) \<and> wa_rand wa1 = wa_rand wa \<and> wa_conf wa1 = wa_conf wa \<and> wa_group wa1 = wa_group wa \<and>
    as_update_snonce (wa_sta wa1) = as_update_snonce (wa_sta wa) \<and> as_EAPOLKeyReceived (wa_sta wa1) = as_EAPOLKeyReceived (wa_sta wa) \<and>
    as_Disconnect (wa_sta wa1) = as_Disconnect (wa_sta wa) \<and> as_DeauthenticationRequest (wa_sta wa1) = as_DeauthenticationRequest (wa_sta wa) \<and>
    as_ReAuthenticationRequest (wa_sta wa1) = as_ReAuthenticationRequest (wa_sta wa) \<and>
    as_PTKRequest (wa_sta wa1) = as_PTKRequest (wa_sta wa) \<and> wa_log wa1 = Auth_Set_Key WPA_ALG_NONE own 0 [] # wa_log wa"
  using assms
  by (subst sta_start_def, subst auth_sm_step.simps)
    (simp add: ap_ready_def calm_def wpa_sm_round_def Let_def sm_PTK_step_def sm_PTK_INITIALIZE_def ptk_enter_def
     clear_update_keys_def wpa_remove_ptk_def wpa_auth_set_key_def sm_GROUP_step_def sm_GROUP_IDLE_def ptk_group_enter_def
     wpa_group_sm_step_def wpa_key_mgmt_wpa_psk_def grp_calm)

text \<open>The ANonce is drawn and the PSK chosen, message 1 is next.\<close>

definition ap_has_psk :: "wpa_authenticator \<Rightarrow> bytes \<Rightarrow> bool" where
  "ap_has_psk wa anonce \<longleftrightarrow> no_requests (wa_sta wa) \<and> as_ptk_state (wa_sta wa) = WPA_PTK_INITPSK \<and> as_TimeoutCtr (wa_sta wa) = 0 \<and>
     as_ANonce (wa_sta wa) = anonce \<and> \<not> as_PTK_valid (wa_sta wa) \<and> \<not> as_update_snonce (wa_sta wa) \<and> \<not> as_EAPOLKeyReceived (wa_sta wa) \<and>
     as_Pair (wa_sta wa) \<and> \<not> as_pairwise_set (wa_sta wa)"

lemma ap_authenticates:
  assumes w0: "ap_ready wa ap own ap_ie ie gtk" "as_AuthenticationRequest (wa_sta wa)" "as_Pair (wa_sta wa)" "\<not> as_pairwise_set (wa_sta wa)"
      "\<not> as_update_snonce (wa_sta wa)" "\<not> as_EAPOLKeyReceived (wa_sta wa)" "\<not> as_Disconnect (wa_sta wa)"
      "\<not> as_DeauthenticationRequest (wa_sta wa)" "\<not> as_ReAuthenticationRequest (wa_sta wa)" "\<not> as_PTKRequest (wa_sta wa)"
    and env: "ae_psks env = [pmk]" "ae_random env (wa_rand wa) 32 = Some anonce"
  shows "\<exists>s. auth_sm_step cfg env wa = auth_sm_step cfg env s \<and> ap_ready s ap own ap_ie ie gtk \<and> ap_has_psk s anonce \<and>
    as_key_replay (wa_sta s) = as_key_replay (wa_sta wa) \<and> wa_group s = wa_group wa \<and> wa_conf s = wa_conf wa \<and> wa_log s = wa_log wa"
proof -
  define s1 where "s1 = sm_PTK_AUTHENTICATION (unchanged wa)"
  define s2 where "s2 = sta (\<lambda>sm. sm\<lparr>as_ptk_state := WPA_PTK_AUTHENTICATION2, as_changed := True, as_ReAuthenticationRequest := False,
    as_ANonce := anonce, as_TimeoutCtr := 0\<rparr>) (s1\<lparr>wa_rand := wa_rand s1 + 1\<rparr>)"
  define s3 where "s3 = sm_PTK_INITPSK env (unchanged s2)"
  note defs = s1_def sm_PTK_AUTHENTICATION_def ptk_enter_def unchanged_def s2_def s3_def sm_PTK_INITPSK_def env(1)
  have w1: "ap_ready s1 ap own ap_ie ie gtk" using w0(1) by (simp add: defs ap_ready_def calm_def Let_def)
  have w2: "ap_ready s2 ap own ap_ie ie gtk" using w1 by (simp add: s2_def ap_ready_def calm_def Let_def sta_def)
  have w3: "ap_ready s3 ap own ap_ie ie gtk" using w2
    by (simp add: s3_def sm_PTK_INITPSK_def ptk_enter_def unchanged_def env(1) ap_ready_def calm_def Let_def)
  have r1: "sm_PTK_step cfg env (unchanged wa) = Some s1"
    using w0 by (simp add: sm_PTK_step_def Let_def s1_def unchanged_def ap_ready_def calm_def)
  have f1: "as_ptk_state (wa_sta s1) = WPA_PTK_AUTHENTICATION" "as_changed (wa_sta s1)" "no_requests (wa_sta s1)" "wa_rand s1 = wa_rand wa"
    using w0 by (simp_all add: defs Let_def)
  have r2: "sm_PTK_step cfg env (unchanged s1) = Some s2"
    using f1 w1 env(2) by (simp add: sm_PTK_step_def Let_def unchanged_def ap_ready_def calm_def sm_PTK_switch_def sm_PTK_AUTHENTICATION2_def
      wpa_group_ensure_init_def ptk_enter_def auth_random_def s2_def sta_def)
  have f2: "as_ptk_state (wa_sta s2) = WPA_PTK_AUTHENTICATION2" "as_changed (wa_sta s2)" "no_requests (wa_sta s2)"
    using f1 by (simp_all add: s2_def sta_def)
  have r3: "sm_PTK_step cfg env (unchanged s2) = Some s3"
    using f2 w2 by (simp add: sm_PTK_step_def Let_def unchanged_def ap_ready_def calm_def sm_PTK_switch_def s3_def
      wpa_key_mgmt_wpa_ieee8021x_def wpa_key_mgmt_wpa_psk_def)
  have f3: "as_changed (wa_sta s3)" "ap_has_psk s3 anonce" "as_key_replay (wa_sta s3) = as_key_replay (wa_sta wa)"
      "wa_group s3 = wa_group wa" "wa_conf s3 = wa_conf wa" "wa_log s3 = wa_log wa"
    using w0 by (simp_all add: ap_has_psk_def defs Let_def)
  have "calm wa" "calm s1" "calm s2" "calm s3" using w0(1) w1 w2 w3 by (simp_all add: ap_ready_def)
  then have "auth_sm_step cfg env wa = auth_sm_step cfg env s3"
    using calm_round [OF _ r1] calm_round [OF _ r2] calm_round [OF _ r3] f1(2) f2(2) f3(1) by simp
  then show ?thesis using w3 f3(2-6) by blast
qed

lemma ap_starts_handshake:
  assumes w0: "ap_ready wa ap own ap_ie ie gtk" "ap_has_psk wa anonce" and env: "ae_alloc env" "ae_psks env = [pmk]"
    and ctr: "as_key_replay (wa_sta wa) = (c0, v0) # rs" "inc_byte_array c0 8 = Some c"
  shows "\<exists>wa1. auth_sm_step cfg env wa = Some wa1 \<and> ap_ready wa1 ap own ap_ie ie gtk \<and> ap_wait_2 wa1 c anonce \<and>
    wa_conf wa1 = wa_conf wa \<and> wa_group wa1 = wa_group wa \<and>
    wa_log wa1 = Auth_Send_Eapol (eapol_frame (wc_eapol_version (wa_conf wa)) (message_1 c anonce)) False # wa_log wa"
proof -
  define t where "t = sta (\<lambda>sm. sm\<lparr>as_PTKRequest := False, as_TimeoutEvt := False, as_TimeoutCtr := 1\<rparr>) (ptk_enter WPA_PTK_PTKSTART (unchanged wa))"
  have t_eq: "sta (\<lambda>sm. sm\<lparr>as_PTKRequest := False, as_TimeoutEvt := False, as_TimeoutCtr := as_TimeoutCtr sm + 1\<rparr>)
      (ptk_enter WPA_PTK_PTKSTART (unchanged wa)) = t"
    using w0(2) by (simp add: t_def ptk_enter_def unchanged_def sta_def ap_has_psk_def)
  have w4: "ap_ready t ap own ap_ie ie gtk" using w0(1) by (simp add: t_def ptk_enter_def unchanged_def ap_ready_def calm_def Let_def)
  have k: "as_key_replay (wa_sta t) = (c0, v0) # rs" "as_ANonce (wa_sta t) = anonce" "as_pairwise_set (wa_sta t) = False" "wa_conf t = wa_conf wa"
    using w0(2) ctr(1) by (simp_all add: t_def ptk_enter_def unchanged_def ap_has_psk_def)
  obtain s4 where s4: "wpa_send_eapol cfg env t 0x88 None (Some anonce) None 0 False = Some s4" and s4_def:
    "s4 = alog (Auth_Send_Eapol (eapol_frame (wc_eapol_version (wa_conf wa)) (message_1 c anonce)) False)
      (sta (\<lambda>sm. sm\<lparr>as_key_replay := (c, True) # take 3 ((c0, v0) # rs), as_pending_1_of_4_timeout := as_TimeoutCtr sm = 1 \<or> as_pending_1_of_4_timeout sm,
        as_send_timeouts := (if as_TimeoutCtr sm = 1 \<and> wc_tx_status (wa_conf t) then 100 else 1000) # as_send_timeouts sm\<rparr>)
       (wpa_auth_set_eapol WPA_EAPOL_inc_EapolFramesTx 1 t))"
    using ap_send_1 [OF w4 env(1) k(1) ctr(2), of cfg anonce] k by simp
  have "sm_PTK_step cfg env (unchanged wa) = sm_PTK_PTKSTART cfg env (unchanged wa)"
    using w0 env(2) by (simp add: sm_PTK_step_def Let_def unchanged_def ap_ready_def calm_def sm_PTK_switch_def ap_has_psk_def)
  also have "\<dots> = wpa_send_eapol cfg env t 0x88 None (Some anonce) None 0 False"
    using k(2) w4 unfolding sm_PTK_PTKSTART_def Let_def t_eq
    by (simp add: ptkstart_kde_def ap_ready_def wpa_key_mgmt_wpa_ieee8021x_def t_def)
  finally have r4: "sm_PTK_step cfg env (unchanged wa) = Some s4" by (simp add: s4)
  have w5: "ap_ready s4 ap own ap_ie ie gtk" using w4 by (simp add: s4_def ap_ready_def calm_def)
  have f4: "as_changed (wa_sta s4)" "ap_wait_2 s4 c anonce" "\<not> as_EAPOLKeyReceived (wa_sta s4)" "\<not> as_TimeoutCtr (wa_sta s4) > 4"
    using w0(2) by (simp_all add: s4_def t_def ptk_enter_def unchanged_def ap_wait_2_def ap_has_psk_def)
  have r5: "sm_PTK_step cfg env (unchanged s4) = Some (unchanged s4)"
    using f4 w5 by (simp add: sm_PTK_step_def Let_def unchanged_def ap_ready_def calm_def sm_PTK_switch_def ap_wait_2_def)
  have calm: "calm wa" "calm s4" using w0(1) w5 by (simp_all add: ap_ready_def)
  have "auth_sm_step cfg env wa = Some (unchanged s4)"
    using calm_round [OF calm(1) r4 calm(2)] calm_stop [OF calm(2) r5] f4(1) by simp
  moreover have "ap_ready (unchanged s4) ap own ap_ie ie gtk" "ap_wait_2 (unchanged s4) c anonce"
    using w5 f4(2) by (simp_all add: unchanged_def ap_ready_def calm_def ap_wait_2_def)
  ultimately show ?thesis by (simp add: s4_def t_def unchanged_def ptk_enter_def)
qed

lemma ap_associated:
  assumes ready: "ap_ready wa ap own ap_ie ie gtk" "\<not> as_started (wa_sta wa)"
    and idle: "no_requests (wa_sta wa)" "\<not> as_EAPOLKeyReceived (wa_sta wa)" "\<not> as_update_snonce (wa_sta wa)"
    and env: "ae_alloc env" "ae_psks env = [pmk]" "ae_random env (wa_rand wa) 32 = Some anonce"
    and ctr: "as_key_replay (wa_sta wa) = (c0, v0) # rs" "inc_byte_array c0 8 = Some c"
  shows "\<exists>wa1. wpa_auth_sta_associated cfg env wa = Some (0, wa1) \<and> ap_ready wa1 ap own ap_ie ie gtk \<and> ap_wait_2 wa1 c anonce \<and>
    wa_conf wa1 = wa_conf wa \<and> wa_group wa1 = wa_group wa \<and>
    wa_log wa1 = [Auth_Send_Eapol (eapol_frame (wc_eapol_version (wa_conf wa)) (message_1 c anonce)) False,
      Auth_Set_Key WPA_ALG_NONE own 0 []] @ wa_log wa"
proof -
  obtain s0 where s0: "sta_start cfg env wa = Some s0" "ap_ready s0 ap own ap_ie ie gtk" "as_AuthenticationRequest (wa_sta s0)"
    "as_Pair (wa_sta s0)" "\<not> as_pairwise_set (wa_sta s0)" "\<not> as_update_snonce (wa_sta s0)" "\<not> as_EAPOLKeyReceived (wa_sta s0)"
    "\<not> as_Disconnect (wa_sta s0)" "\<not> as_DeauthenticationRequest (wa_sta s0)" "\<not> as_ReAuthenticationRequest (wa_sta s0)"
    "\<not> as_PTKRequest (wa_sta s0)" "wa_rand s0 = wa_rand wa" "as_key_replay (wa_sta s0) = (c0, v0) # rs"
    "wa_conf s0 = wa_conf wa" "wa_group s0 = wa_group wa" "wa_log s0 = Auth_Set_Key WPA_ALG_NONE own 0 [] # wa_log wa"
    using ap_start [OF ready(1), of cfg env] idle ctr(1) by auto
  obtain s where s: "auth_sm_step cfg env s0 = auth_sm_step cfg env s" "ap_ready s ap own ap_ie ie gtk" "ap_has_psk s anonce"
    "as_key_replay (wa_sta s) = (c0, v0) # rs" "wa_group s = wa_group wa" "wa_conf s = wa_conf wa"
    "wa_log s = Auth_Set_Key WPA_ALG_NONE own 0 [] # wa_log wa"
    using ap_authenticates [OF s0(2-11) env(2), of anonce cfg] env(3) s0(12-16) by auto
  then show ?thesis
    using ap_starts_handshake [OF s(2,3) env(1,2) s(4) ctr(2), of cfg] ready s0(1)
    by (auto simp: wpa_auth_sta_associated_def ap_ready_def)
qed

lemma wrap_padded:
  fixes kde :: bytes
  defines "p \<equiv> (8 - length kde mod 8) mod 8"
  defines "plain \<equiv> kde @ (if p \<noteq> 0 then 0xdd # replicate (p - 1) 0 else [])"
  assumes "length kek = 16"
  obtains n cipher where "length plain = 8 * n" "length cipher = 8 * n + 8" "8 * n < length kde + 8" "length kde + p = 8 * n"
    "aes_wrap True kek n (plain @ r) = Some (0, cipher)" "aes_unwrap True kek n cipher = Some (0, plain)"
proof -
  define n where "n = (length kde + p) div 8"
  have p: "(length kde + p) mod 8 = 0" "p < 8" 
  proof -
    have m: "length kde mod 8 < 8" by simp
    show "p < 8" by (simp add: p_def)
    show "(length kde + p) mod 8 = 0"
      using m by (subst mod_add_left_eq [symmetric], cases "length kde mod 8 = 0") (simp_all add: p_def)
  qed
  then have l: "length plain = length kde + p" "length kde + p = 8 * n"
    by (auto simp: plain_def n_def)
  obtain cipher where c: "aes_wrap True kek n plain = Some (0, cipher)" "length cipher = 8 * n + 8" "aes_unwrap True kek n cipher = Some (0, plain)"
    using aes_wrap_roundtrip [of kek plain n] assms(3) l by auto
  have "aes_wrap True kek n (plain @ r) = aes_wrap True kek n plain"
    using l by (simp add: aes_wrap_def c_slice_def)
  then show thesis using that [of n cipher] c l p by simp
qed

lemma has_bits_send [simp]: "has 0x3c8 8" "has 0x3c8 0x100" "\<not> has 0x3c8 0x800"
  by (simp_all add: has_def)

lemma ap_send_3:
  assumes "ap_ready wa ap own ap_ie ie gtk" "ae_alloc env" "as_key_replay (wa_sta wa) = (c0, v0) # rs" "inc_byte_array c0 8 = Some c"
    and "length c = 8" "length anonce = 32" "length rsc = 8"
    and ptk: "as_PTK_valid (wa_sta wa)" "as_PTK (wa_sta wa) = ptk" "length ptk = 64" and kde: "length kde \<le> 1000"
  shows "\<exists>cipher. sealed ptk kde cipher \<and>
    wpa_send_eapol cfg env wa 0x3c8 (Some rsc) (Some anonce) (Some kde) idx True =
    Some (alog (Auth_Send_Eapol (eapol_frame (wc_eapol_version (wa_conf wa)) (with_mic (ptk_kck ptk) (wc_eapol_version (wa_conf wa))
        (message_3 c anonce rsc cipher))) (as_pairwise_set (wa_sta wa)))
      (sta (\<lambda>sm. sm\<lparr>as_key_replay := (c, True) # take 3 ((c0, v0) # rs),
        as_send_timeouts := (if as_TimeoutCtr sm = 1 \<and> wc_tx_status (wa_conf wa) then 100 else 1000) # as_send_timeouts sm\<rparr>)
       (wpa_auth_set_eapol WPA_EAPOL_inc_EapolFramesTx 1 wa)))"
proof -
  let ?v = "wc_eapol_version (wa_conf wa)"
  define p where "p = (8 - length kde mod 8) mod 8"
  define plain where "plain = kde @ (if p \<noteq> 0 then 0xdd # replicate (p - 1) 0 else [])"
  note p = p_def plain_def
  obtain n cipher where c: "length plain = 8 * n" "length cipher = 8 * n + 8" "8 * n < length kde + 8" "length kde + p = 8 * n"
    "aes_wrap True (ptk_kek ptk) n (plain @ replicate 8 0) = Some (0, cipher)" "aes_unwrap True (ptk_kek ptk) n cipher = Some (0, plain)"
    using wrap_padded [of "ptk_kek ptk" kde "replicate 8 0"] ptk p by (auto simp: Let_def)
  define k where "k = message_3 c anonce rsc cipher"
  have wf: "key_wf k" using assms by (simp add: k_def message_3_def key_wf_def)
  have m: "wpa_eapol_key_mic cfg (ptk_kck ptk) 2 (eapol_frame ?v k) = Some (0, take 16 (hmac sha1 (ptk_kck ptk) (eapol_frame ?v k)))"
    using length_eapol_frame [OF wf, of ?v] c kde ptk by (simp add: wpa_eapol_key_mic_eq k_def message_3_def)
  have k0: "k\<lparr>k_mic := replicate 16 0\<rparr> = k" by (simp add: k_def message_3_def)
  have buf: "(kde @ (if p \<noteq> 0 then [0xdd] else [])) @ replicate (length kde + p + 8 - length (kde @ (if p \<noteq> 0 then [0xdd] else []))) 0 =
      plain @ replicate 8 0"
    using p by (cases "p = 0") (simp_all add: replicate_add [symmetric])
  have data: "send_key_data env (sta f wa) 2 (Some kde) True p (8 * n + 8) = Some (Inr (sta f wa, replicate 16 0, of_nat (8 * n + 8), cipher))"
    if "as_PTK (f (wa_sta wa)) = ptk" for f
    using buf c(4,5) assms(2) that by (simp add: send_key_data_def Let_def)
  have len: "wpa_cipher_key_len 16 = 16" by (simp add: wpa_cipher_key_len_def)
  have frame: "send_eapol_frame cfg w 2 ([?v, 3] @ WPA_PUT_BE16 (of_nat (95 + (8 * n + 8)))) k =
      Some (alog (Auth_Send_Eapol (eapol_frame ?v (with_mic (ptk_kck ptk) ?v k)) (as_pairwise_set (wa_sta w)))
        (wpa_auth_set_eapol WPA_EAPOL_inc_EapolFramesTx 1 w))" if "as_PTK_valid (wa_sta w)" "as_PTK (wa_sta w) = ptk" for w
  proof -
    have e: "([?v, 3] @ WPA_PUT_BE16 (of_nat (95 + (8 * n + 8)))) @ eapol_key_bytes (k\<lparr>k_mic := x\<rparr>) = eapol_frame ?v (k\<lparr>k_mic := x\<rparr>)" for x
      using c(2) by (intro frame_header) (simp add: k_def message_3_def)
    have i: "k_info k = 0x13ca" by (simp add: k_def message_3_def)
    show ?thesis
      using that m e [of "replicate 16 0", unfolded k0] unfolding send_eapol_frame_def i
      by (simp add: Let_def e [simplified] with_mic_def k0)
  qed
  define w where "w = sta (as_key_replay_update (\<lambda>_. (c, True) # take 3 ((c0, v0) # rs))) wa"
  have w: "sta (as_key_replay_update (\<lambda>rs. (c, True) # take 3 rs)) wa = w"
    using assms(3) by (simp add: sta_def w_def)
  have "wpa_send_eapol_now cfg env wa 0x3c8 (Some rsc) (Some anonce) (Some kde) idx True 0 =
      send_eapol_frame cfg w 2
        ([?v, 3] @ WPA_PUT_BE16 (of_nat (95 + (8 * n + 8)))) k"
    using assms(1-4) c(2,4) ptk data [of "as_key_replay_update (\<lambda>rs. (c, True) # take 3 rs)", unfolded w] p(1)
    by (simp add: w wpa_send_eapol_now_def eapol_version_def wpa_use_aes_cmac_def wpa_key_mgmt_ft_def
       wpa_key_mgmt_sha256_def Let_def ap_ready_def calm_def len k_def message_3_def)
  moreover have seal: "sealed ptk kde cipher"
    unfolding sealed_def using c kde
    by (intro exI [of _ n] exI [of _ "if p \<noteq> 0 then 0xdd # replicate (p - 1) 0 else []"] exI [of _ "p - 1"]) (simp add: plain_def)
  ultimately show ?thesis
    using c kde frame ptk
    by (intro exI [of _ cipher]) (simp add: seal wpa_send_eapol_def k_def Let_def w_def sta_def alog_def wpa_auth_set_eapol_def)
qed

definition ap_wait_4 :: "wpa_authenticator \<Rightarrow> bytes \<Rightarrow> bytes \<Rightarrow> bool" where
  "ap_wait_4 wa c ptk \<longleftrightarrow> no_requests (wa_sta wa) \<and> as_ptk_state (wa_sta wa) = WPA_PTK_PTKINITNEGOTIATING \<and>
     (\<exists>rs. as_key_replay (wa_sta wa) = (c, True) # rs) \<and> as_PTK_valid (wa_sta wa) \<and> as_PTK (wa_sta wa) = ptk \<and> \<not> as_update_snonce (wa_sta wa) \<and>
     as_Pair (wa_sta wa)"

lemma verify_mic_signed:
  assumes "key_wf k" "length ptk = 64" "length (k_data k) \<le> 65440" "k_info k AND WPA_KEY_INFO_TYPE_MASK = 2"
  shows "wpa_verify_key_mic cfg ptk (eapol_frame v k) = Some (signed (ptk_kck ptk) v k)"
proof -
  have f: "eapol_key_of (drop 4 (eapol_frame v k)) = k"
    using eapol_key_of_bytes [OF assms(1)] by (simp add: eapol_frame_def)
  have "length (eapol_frame v (k\<lparr>k_mic := replicate 16 0\<rparr>)) < 2 ^ 30"
    using assms by (simp add: length_eapol_frame key_wf_def)
  then show ?thesis
    using assms length_eapol_frame [OF assms(1), of v] unfolding wpa_verify_key_mic_def Let_def f eapol_frame_mic0 [OF assms(1)]
    by (simp add: wpa_eapol_key_mic_eq signed_def)
qed

lemma ptk_symmetric: "wpa_pmk_to_ptk cfg pmk l a1 a2 n1 n2 len u = wpa_pmk_to_ptk cfg pmk l a2 a1 n2 n1 len u"
  unfolding wpa_pmk_to_ptk_def ordered_pair_commute [of a1] ordered_pair_commute [of n1] by simp

text \<open>The frame passes the checks in front of the state machine.\<close>

lemma receive_frame:
  assumes "ap_ready wa ap own ap_ie ie gtk" "key_wf k" "length (k_data k) \<le> 65440" "k_type k = EAPOL_KEY_TYPE_RSN"
    and "k_info k AND WPA_KEY_INFO_TYPE_MASK = 2" "\<not> has (k_info k) WPA_KEY_INFO_REQUEST" "unat (k_data_length k) = length (k_data k)"
    and "as_key_replay (wa_sta wa) = (k_replay_counter k, True) # rs"
  shows "wpa_receive cfg env wa (eapol_frame v k) = do {
     (go, wa) \<leftarrow> receive_switch cfg wa (receive_msg (k_info k) (k_data_length k)) (k_data k);
     if go then receive_checked cfg env wa k (receive_msg (k_info k) (k_data_length k)) (k_data k) (eapol_frame v k) else Some wa }"
proof -
  have f: "eapol_key_of (drop 4 (eapol_frame v k)) = k"
    using eapol_key_of_bytes [OF assms(2)] by (simp add: eapol_frame_def)
  have d: "take (unat (k_data_length k)) (k_data k) = k_data k" using assms(7) by simp
  have "\<not> wpa_use_aes_cmac cfg (wa_sta wa)" "as_wpa (wa_sta wa) = WPA_VERSION_WPA2" "wc_wpa (wa_conf wa) \<noteq> 0"
    using assms(1) by (simp_all add: wpa_use_aes_cmac_def ap_ready_def calm_def wpa_key_mgmt_ft_def wpa_key_mgmt_sha256_def)
  then show ?thesis
    using assms(4-8) length_eapol_frame [OF assms(2), of v]
    unfolding wpa_receive_def Let_def f d by (simp add: receive_type_ok_def receive_counter_def)
qed

lemma signed_mic_0: "signed kck v k \<Longrightarrow> k = with_mic kck v (k\<lparr>k_mic := replicate 16 0\<rparr>)"
  by (simp add: signed_def with_mic_def)

definition with_frame :: "wpa_eapol_key \<Rightarrow> bytes \<Rightarrow> wpa_state_machine \<Rightarrow> wpa_state_machine" where
  "with_frame k frame sm = sm\<lparr>as_last_rx_eapol_key := Some frame, as_last_rx_eapol_key_len := length frame,
        as_rx_eapol_key_secure := has (k_info k) WPA_KEY_INFO_SECURE, as_EAPOLKeyReceived := True,
        as_EAPOLKeyPairwise := has (k_info k) WPA_KEY_INFO_KEY_TYPE, as_EAPOLKeyRequest := has (k_info k) WPA_KEY_INFO_REQUEST,
        as_SNonce := k_nonce k\<rparr>"

lemma has_bits_2 [simp]:
  "has 0x10a 8" "has 0x10a 0x100" "\<not> has 0x10a 0x80" "\<not> has 0x10a 0x800" "\<not> has 0x10a 0x2000" "\<not> has 0x10a 0x200"
  "has 0x30a 8" "has 0x30a 0x100" "\<not> has 0x30a 0x80" "\<not> has 0x30a 0x800" "\<not> has 0x30a 0x2000" "has 0x30a 0x200"
  by (simp_all add: has_def)

lemma ap_receives_2:
  assumes ready: "ap_ready wa ap own ap_ie ie gtk" "ap_wait_2 wa c anonce" "ae_alloc env" "length c = 8" "length snonce = 32"
    and ie: "ie = 48 # l # body" "length body = unat l"
    and k: "k = with_mic kck v (message_2 c snonce ie)"
  shows "wpa_receive cfg env wa (eapol_frame v k) =
    auth_sm_step cfg env (sta (\<lambda>sm. with_frame k (eapol_frame v k) (receive_mark k PAIRWISE_2 (sm\<lparr>as_MICVerified := False\<rparr>))) wa)"
proof -
  have wf: "key_wf k" using ready(4,5) unfolding k by (intro with_mic_wf) (simp add: message_2_def key_wf_def)
  have l: "unat l < 256" using unsigned_less [of l] by simp
  moreover have "length ie = 2 + unat l" using ie by simp
  ultimately have n0: "length ie \<le> 258" by linarith
  then have n: "length ie \<le> 258" "unat (of_nat (length ie) :: u16) = length ie"
    unfolding unat_of_nat by simp_all
  then have nz: "of_nat (length ie) \<noteq> (0 :: u16)" using ie by (metis length_0_conv list.distinct(1) unsigned_0)
  have f: "k_info k = 0x10a" "k_data k = ie" "k_data_length k = of_nat (length ie)" "k_replay_counter k = c" "k_type k = 2"
    by (simp_all add: k message_2_def with_mic_def)
  obtain rs where rs: "as_key_replay (wa_sta wa) = (c, True) # rs" using ready(2) by (auto simp: ap_wait_2_def)
  have msg: "receive_msg (k_info k) (k_data_length k) = PAIRWISE_2" using nz by (simp add: receive_msg_def f)
  have s: "receive_switch cfg wa PAIRWISE_2 ie = Some (True, wa)"
    using ready parse_kde_rsn [OF ie(2), of cfg] ie compare_rsn_same [of cfg False ie]
    by (simp add: receive_switch_def receive_pairwise_2_def ap_wait_2_def ap_ready_def kd_bytes_def c_slice_def Let_def kd_empty_def wpa_key_mgmt_ft_def)
  show ?thesis
    using receive_frame [OF ready(1) wf, of rs cfg env v] f n l rs msg ready(2,3)
    by (simp add: s receive_checked_def ap_wait_2_def receive_store_def sta_def with_frame_def Let_def)
qed

text \<open>The steps after message 2: the MIC selects the PMK, and message 3 is sent.\<close>

lemma ap_derives_ptk:
  assumes "ap_ready wa ap own ap_ie ie gtk" "as_ANonce (wa_sta wa) = anonce" "as_SNonce (wa_sta wa) = snonce"
    and "length pmk = 32" "16 \<le> length (ae_stack env)" "length p = 48"
    and "wpa_pmk_to_ptk cfg pmk (c_lit ''Pairwise key expansion'') own ap snonce anonce 48 False = Some p"
    and "as_last_rx_eapol_key (wa_sta wa) = Some (eapol_frame v k)" "signed (take 16 p) v k"
    and "key_wf k" "length (k_data k) \<le> 65440" "k_info k AND WPA_KEY_INFO_TYPE_MASK = 2"
  shows "find_ptk cfg env wa (pmk # pmks) = Some (Some (pmk, p @ take 16 (ae_stack env)))"
  using assms verify_mic_signed [OF assms(10), of "p @ take 16 (ae_stack env)" cfg v] ptk_symmetric [of cfg pmk _ ap own anonce snonce]
  by (simp add: auth_derive_ptk_def ap_ready_def Let_def c_slice_def wpa_key_mgmt_sha256_def)

lemma ap_sends_3:
  assumes ready: "ap_ready wa ap own ap_ie ie gtk" "ae_alloc env" "as_key_replay (wa_sta wa) = (c0, v0) # rs" "inc_byte_array c0 8 = Some c"
    and "length c = 8" "as_ANonce (wa_sta wa) = anonce" "length anonce = 32"
    and rsc: "rsc = (case ae_seqnum env (g_GN (wa_group wa)) of None \<Rightarrow> replicate 8 0 | Some r \<Rightarrow> r)" "length rsc = 8"
    and ptk: "as_PTK_valid (wa_sta wa)" "as_PTK (wa_sta wa) = ptk" "length ptk = 64" and "length ap_ie \<le> 900" "length gtk = 16"
    and "as_TimeoutCtr (wa_sta wa) = 0" "idx = of_nat (g_GN (wa_group wa))"
  shows "\<exists>cipher wa'. sm_PTK_PTKINITNEGOTIATING cfg env wa = Some wa' \<and> sealed ptk (ap_ie @ gtk_kde idx gtk) cipher \<and>
    wa' = alog (Auth_Send_Eapol (eapol_frame (wc_eapol_version (wa_conf wa)) (with_mic (ptk_kck ptk) (wc_eapol_version (wa_conf wa))
        (message_3 c anonce rsc cipher))) (as_pairwise_set (wa_sta wa)))
      (sta (\<lambda>sm. sm\<lparr>as_changed := True, as_ptk_state := WPA_PTK_PTKINITNEGOTIATING, as_TimeoutEvt := False, as_TimeoutCtr := 1,
        as_key_replay := (c, True) # take 3 ((c0, v0) # rs),
        as_send_timeouts := (if wc_tx_status (wa_conf wa) then 100 else 1000) # as_send_timeouts sm\<rparr>)
       (wpa_auth_set_eapol WPA_EAPOL_inc_EapolFramesTx 1 wa))"
proof -
  define t where "t = sta (\<lambda>sm. sm\<lparr>as_TimeoutEvt := False, as_TimeoutCtr := 1\<rparr>) (ptk_enter WPA_PTK_PTKINITNEGOTIATING wa)"
  have t: "sta (\<lambda>sm. sm\<lparr>as_TimeoutEvt := False, as_TimeoutCtr := as_TimeoutCtr sm + 1\<rparr>) (ptk_enter WPA_PTK_PTKINITNEGOTIATING wa) = t"
    using assms(15) by (simp add: t_def ptk_enter_def sta_def)
  have rt: "ap_ready t ap own ap_ie ie gtk" "as_key_replay (wa_sta t) = (c0, v0) # rs" "as_PTK_valid (wa_sta t)" "as_PTK (wa_sta t) = ptk"
      "as_ANonce (wa_sta t) = anonce" "wa_group t = wa_group wa" "as_TimeoutCtr (wa_sta t) = 1" "wa_conf t = wa_conf wa" "as_wpa (wa_sta t) = WPA_VERSION_WPA2"
      "wa_wpa_ie t = ap_ie" "\<not> as_mgmt_frame_prot (wa_sta t)" "\<not> wc_disable_gtk (wa_conf wa)"
    using assms by (simp_all add: t_def ptk_enter_def ap_ready_def calm_def)
  let ?kde = "ap_ie @ gtk_kde idx gtk"
  have gn: "g_GN (wa_group wa) = 1 \<or> g_GN (wa_group wa) = 2" "length (g_GTK (wa_group wa)) = 2" "g_GTK_len (wa_group wa) = 16"
    "take 16 (g_GTK (wa_group wa) ! (g_GN (wa_group wa) - 1)) = gtk"
    using ready(1) by (auto simp: ap_ready_def)
  have idx: "of_nat (g_GN (wa_group wa)) AND 3 = idx" using gn(1) assms(16) by auto
  have gtk: "gtk_for_sta env t = Some (Some gtk, t)"
    using gn rt by (auto simp: gtk_for_sta_def key_at_def Let_def)
  have "length ?kde \<le> 1000" using assms(13,14) by (simp add: gtk_kde_def wpa_add_kde_def)
  from ap_send_3 [OF rt(1) ready(2) rt(2) ready(4) assms(5,7) rsc(2) rt(3,4) ptk(3) this, of cfg "g_GN (wa_group wa)"]
  obtain cipher where s: "sealed ptk ?kde cipher"
    "wpa_send_eapol cfg env t 0x3c8 (Some rsc) (Some anonce) (Some ?kde) (g_GN (wa_group wa)) True =
    Some (alog (Auth_Send_Eapol (eapol_frame (wc_eapol_version (wa_conf t)) (with_mic (ptk_kck ptk) (wc_eapol_version (wa_conf t))
        (message_3 c anonce rsc cipher))) (as_pairwise_set (wa_sta t)))
      (sta (\<lambda>sm. sm\<lparr>as_key_replay := (c, True) # take 3 ((c0, v0) # rs),
        as_send_timeouts := (if as_TimeoutCtr sm = 1 \<and> wc_tx_status (wa_conf t) then 100 else 1000) # as_send_timeouts sm\<rparr>)
       (wpa_auth_set_eapol WPA_EAPOL_inc_EapolFramesTx 1 t)))" by blast
  have "sm_PTK_PTKINITNEGOTIATING cfg env wa = wpa_send_eapol cfg env t 0x3c8 (Some rsc) (Some anonce) (Some ?kde) (g_GN (wa_group wa)) True"
    unfolding sm_PTK_PTKINITNEGOTIATING_def Let_def t
    using rt gtk ready(2) idx rsc(1) by (simp add: ie_for_sta_def Let_def ieee80211w_kde_add_def gtk_kde_def)
  with s show ?thesis
    by (intro exI [of _ cipher]) (simp add: rt t_def ptk_enter_def sta_def alog_def wpa_auth_set_eapol_def)
qed

lemma mark_replay: "as_key_replay sm = (k_replay_counter k, True) # rs \<Longrightarrow> \<exists>rs'. as_key_replay (receive_mark k msg sm) = (k_replay_counter k, False) # rs'"
  by (simp add: receive_mark_def wpa_replay_counter_mark_invalid_def Let_def)

lemma receive_mark_fields [simp]:
  "as_ANonce (receive_mark k msg sm) = as_ANonce sm" "as_SNonce (receive_mark k msg sm) = as_SNonce sm"
  "as_ptk_state (receive_mark k msg sm) = as_ptk_state sm" "as_Pair (receive_mark k msg sm) = as_Pair sm"
  "as_pairwise_set (receive_mark k msg sm) = as_pairwise_set sm" "as_TimeoutEvt (receive_mark k msg sm) = as_TimeoutEvt sm"
  "as_MICVerified (receive_mark k msg sm) = as_MICVerified sm" "as_PTK (receive_mark k msg sm) = as_PTK sm"
  "as_PTK_valid (receive_mark k msg sm) = as_PTK_valid sm" "as_update_snonce (receive_mark k msg sm) = as_update_snonce sm"
  "no_requests (receive_mark k msg sm) = no_requests sm"
  by (simp_all add: receive_mark_def Let_def)

lemma ready_with_frame [simp]:
  "ap_ready (sta (\<lambda>sm. with_frame k f (receive_mark k msg (as_MICVerified_update g sm))) wa) ap own ap_ie ie gtk = ap_ready wa ap own ap_ie ie gtk"
  by (simp add: ap_ready_def calm_def with_frame_def receive_mark_def Let_def)

text \<open>The PTK is known, message 3 is next.\<close>

definition ap_has_ptk :: "wpa_authenticator \<Rightarrow> bytes \<Rightarrow> bytes \<Rightarrow> bytes \<Rightarrow> bool" where
  "ap_has_ptk wa c anonce ptk \<longleftrightarrow> no_requests (wa_sta wa) \<and> as_ptk_state (wa_sta wa) = WPA_PTK_PTKCALCNEGOTIATING2 \<and>
     as_TimeoutCtr (wa_sta wa) = 0 \<and> (\<exists>rs. as_key_replay (wa_sta wa) = (c, False) # rs) \<and> as_ANonce (wa_sta wa) = anonce \<and>
     as_PTK_valid (wa_sta wa) \<and> as_PTK (wa_sta wa) = ptk \<and> \<not> as_EAPOLKeyReceived (wa_sta wa) \<and> \<not> as_update_snonce (wa_sta wa) \<and>
     as_Pair (wa_sta wa) \<and> \<not> as_pairwise_set (wa_sta wa)"

lemma ap_calculates:
  assumes w0: "ap_ready wa ap own ap_ie ie gtk" and rs: "as_key_replay (wa_sta wa) = (c, False) # rs" "no_requests (wa_sta wa)"
      "as_ptk_state (wa_sta wa) = WPA_PTK_PTKSTART" "as_ANonce (wa_sta wa) = anonce" "as_SNonce (wa_sta wa) = snonce"
      "as_last_rx_eapol_key (wa_sta wa) = Some (eapol_frame v k)" "key_received (wa_sta wa)" "as_Pair (wa_sta wa)" "\<not> as_pairwise_set (wa_sta wa)"
    and ptk: "ae_psks env = [pmk]" "length pmk = 32" "16 \<le> length (ae_stack env)" "length p = 48"
      "wpa_pmk_to_ptk cfg pmk (c_lit ''Pairwise key expansion'') own ap snonce anonce 48 False = Some p"
    and k: "key_wf k" "length (k_data k) \<le> 65440" "k_info k AND WPA_KEY_INFO_TYPE_MASK = 2" "signed (take 16 p) v k"
  shows "\<exists>s. auth_sm_step cfg env wa = auth_sm_step cfg env s \<and> ap_ready s ap own ap_ie ie gtk \<and>
    ap_has_ptk s c anonce (p @ take 16 (ae_stack env)) \<and> wa_group s = wa_group wa \<and> wa_conf s = wa_conf wa \<and> wa_log s = wa_log wa"
proof -
  let ?ptk = "p @ take 16 (ae_stack env)"
  define s0 where "s0 = sta (\<lambda>sm. sm\<lparr>as_changed := True, as_ptk_state := WPA_PTK_PTKCALCNEGOTIATING, as_EAPOLKeyReceived := False, as_update_snonce := False\<rparr>) wa"
  define s1 where "s1 = sta (\<lambda>sm. sm\<lparr>as_pending_1_of_4_timeout := False, as_send_timeouts := [], as_PMK := pmk,
    as_MICVerified := True, as_PTK := ?ptk, as_PTK_valid := True\<rparr>) s0"
  define s2 where "s2 = sm_PTK_PTKCALCNEGOTIATING2 (unchanged s1)"
  have w: "ap_ready s0 ap own ap_ie ie gtk" "ap_ready s1 ap own ap_ie ie gtk" "ap_ready s2 ap own ap_ie ie gtk" using w0
    by (simp_all add: s0_def s1_def s2_def unchanged_def sm_PTK_PTKCALCNEGOTIATING2_def ptk_enter_def ap_ready_def calm_def)
  have find: "find_ptk cfg env s0 [pmk] = Some (Some (pmk, ?ptk))"
    using rs ptk k by (intro ap_derives_ptk [OF w(1)]) (simp_all add: s0_def)
  have e: "sta (\<lambda>sm. sm\<lparr>as_EAPOLKeyReceived := False, as_update_snonce := False\<rparr>) (ptk_enter WPA_PTK_PTKCALCNEGOTIATING (unchanged wa)) = s0"
    by (simp add: s0_def sta_def ptk_enter_def unchanged_def)
  have "sm_PTK_step cfg env (unchanged wa) = sm_PTK_PTKCALCNEGOTIATING cfg env (unchanged wa)"
    using rs w0 by (simp add: sm_PTK_step_def Let_def unchanged_def ap_ready_def calm_def sm_PTK_switch_def)
  also have "\<dots> = Some s1"
    unfolding sm_PTK_PTKCALCNEGOTIATING_def Let_def e
    using w(1) ptk find by (simp add: ap_ready_def wpa_key_mgmt_wpa_psk_def s1_def sta_def)
  finally have r1: "sm_PTK_step cfg env (unchanged wa) = Some s1" .
  have f1: "as_ptk_state (wa_sta s1) = WPA_PTK_PTKCALCNEGOTIATING" "as_changed (wa_sta s1)" "no_requests (wa_sta s1)" "as_MICVerified (wa_sta s1)"
    using rs by (simp_all add: s1_def s0_def)
  have r2: "sm_PTK_step cfg env (unchanged s1) = Some s2"
    using f1 w by (simp add: sm_PTK_step_def Let_def unchanged_def ap_ready_def calm_def sm_PTK_switch_def s2_def)
  have f2: "as_changed (wa_sta s2)" "ap_has_ptk s2 c anonce ?ptk" "wa_group s2 = wa_group wa" "wa_conf s2 = wa_conf wa" "wa_log s2 = wa_log wa"
    using f1 rs by (simp_all add: s2_def sm_PTK_PTKCALCNEGOTIATING2_def ptk_enter_def unchanged_def s1_def s0_def ap_has_ptk_def)
  have "auth_sm_step cfg env wa = auth_sm_step cfg env s2"
    using calm_round [of wa cfg env s1, OF _ r1] calm_round [of s1 cfg env s2, OF _ r2] f1(2) f2(1) w w0 by (simp add: ap_ready_def)
  then show ?thesis using w(3) f2 by blast
qed

lemma ap_negotiates:
  assumes w2: "ap_ready wa ap own ap_ie ie gtk" "ap_has_ptk wa c anonce ptk" "ae_alloc env" "length c = 8" "length anonce = 32"
    and ie: "length ap_ie \<le> 900" "length gtk = 16" "length ptk = 64"
    and rsc: "rsc = (case ae_seqnum env (g_GN (wa_group wa)) of None \<Rightarrow> replicate 8 0 | Some r \<Rightarrow> r)" "length rsc = 8"
    and c: "inc_byte_array c 8 = Some c2" "length c2 = 8" and idx: "idx = of_nat (g_GN (wa_group wa))"
  shows "\<exists>wa2 cipher. auth_sm_step cfg env wa = Some wa2 \<and> ap_ready wa2 ap own ap_ie ie gtk \<and> ap_wait_4 wa2 c2 ptk \<and>
    sealed ptk (ap_ie @ gtk_kde idx gtk) cipher \<and> wa_conf wa2 = wa_conf wa \<and>
    wa_log wa2 = Auth_Send_Eapol (eapol_frame (wc_eapol_version (wa_conf wa)) (with_mic (take 16 ptk) (wc_eapol_version (wa_conf wa))
        (message_3 c2 anonce rsc cipher))) False # wa_log wa"
proof -
  let ?u = "unchanged wa"
  obtain rs where rs: "as_key_replay (wa_sta wa) = (c, False) # rs" using w2(2) by (auto simp: ap_has_ptk_def)
  have u: "ap_ready ?u ap own ap_ie ie gtk" "wa_conf ?u = wa_conf wa" "as_pairwise_set (wa_sta ?u) = False" "ap_has_ptk ?u c anonce ptk" "wa_log ?u = wa_log wa"
    using w2 by (simp_all add: unchanged_def ap_ready_def calm_def ap_has_ptk_def)
  have "\<exists>cipher wa'. sm_PTK_PTKINITNEGOTIATING cfg env ?u = Some wa' \<and> sealed ptk (ap_ie @ gtk_kde idx gtk) cipher \<and>
    wa' = alog (Auth_Send_Eapol (eapol_frame (wc_eapol_version (wa_conf ?u)) (with_mic (ptk_kck ptk) (wc_eapol_version (wa_conf ?u))
        (message_3 c2 anonce rsc cipher))) (as_pairwise_set (wa_sta ?u)))
      (sta (\<lambda>sm. sm\<lparr>as_changed := True, as_ptk_state := WPA_PTK_PTKINITNEGOTIATING, as_TimeoutEvt := False, as_TimeoutCtr := 1,
        as_key_replay := (c2, True) # take 3 ((c, False) # rs),
        as_send_timeouts := (if wc_tx_status (wa_conf ?u) then 100 else 1000) # as_send_timeouts sm\<rparr>)
       (wpa_auth_set_eapol WPA_EAPOL_inc_EapolFramesTx 1 ?u))"
    using rs rsc c w2 ie idx by (intro ap_sends_3 [OF u(1)]) (simp_all add: unchanged_def ap_has_ptk_def)
  then obtain cipher s3 where s3: "sm_PTK_PTKINITNEGOTIATING cfg env ?u = Some s3" "sealed ptk (ap_ie @ gtk_kde idx gtk) cipher"
    and s3_def: "s3 = alog (Auth_Send_Eapol (eapol_frame (wc_eapol_version (wa_conf wa)) (with_mic (take 16 ptk) (wc_eapol_version (wa_conf wa))
        (message_3 c2 anonce rsc cipher))) False)
      (sta (\<lambda>sm. sm\<lparr>as_changed := True, as_ptk_state := WPA_PTK_PTKINITNEGOTIATING, as_TimeoutEvt := False, as_TimeoutCtr := 1,
        as_key_replay := (c2, True) # take 3 ((c, False) # rs),
        as_send_timeouts := (if wc_tx_status (wa_conf wa) then 100 else 1000) # as_send_timeouts sm\<rparr>)
       (wpa_auth_set_eapol WPA_EAPOL_inc_EapolFramesTx 1 ?u))"
    unfolding u(2,3) by blast
  have r3: "sm_PTK_step cfg env ?u = Some s3"
    using u s3(1) by (simp add: sm_PTK_step_def Let_def ap_has_ptk_def ap_ready_def calm_def sm_PTK_switch_def)
  have w3: "ap_ready s3 ap own ap_ie ie gtk" using u(1) by (simp add: s3_def ap_ready_def calm_def)
  have f3: "as_changed (wa_sta s3)" "ap_wait_4 s3 c2 ptk" "\<not> as_EAPOLKeyReceived (wa_sta s3)" "\<not> as_TimeoutEvt (wa_sta s3)" "\<not> as_TimeoutCtr (wa_sta s3) > 4"
    using u(4) by (simp_all add: s3_def ap_wait_4_def ap_has_ptk_def)
  have r4: "sm_PTK_step cfg env (unchanged s3) = Some (unchanged s3)"
    using f3 w3 by (simp add: sm_PTK_step_def Let_def unchanged_def ap_ready_def calm_def sm_PTK_switch_def ap_wait_4_def)
  have calm: "calm wa" "calm s3" using w2(1) w3 by (simp_all add: ap_ready_def)
  have "auth_sm_step cfg env wa = Some (unchanged s3)"
    using calm_round [OF calm(1) r3 calm(2)] calm_stop [OF calm(2) r4] f3(1) by simp
  moreover have "ap_ready (unchanged s3) ap own ap_ie ie gtk" "ap_wait_4 (unchanged s3) c2 ptk" "wa_conf (unchanged s3) = wa_conf wa"
    using w3 f3 u(2) by (simp_all add: unchanged_def ap_ready_def calm_def ap_wait_4_def s3_def)
  ultimately show ?thesis
    using s3(2) u(5) by (intro exI [of _ "unchanged s3"] exI [of _ cipher]) (simp add: unchanged_def s3_def)
qed

lemma ap_message_2:
  assumes ready: "ap_ready wa ap own ap_ie ie gtk" "ap_wait_2 wa c anonce" "ae_alloc env" "length c = 8" "length snonce = 32" "length anonce = 32"
    and ie: "ie = 48 # l # body" "length body = unat l" "length ap_ie \<le> 900" "length gtk = 16"
    and ptk: "ae_psks env = [pmk]" "length pmk = 32" "16 \<le> length (ae_stack env)" "length p = 48"
      "wpa_pmk_to_ptk cfg pmk (c_lit ''Pairwise key expansion'') own ap snonce anonce 48 False = Some p"
    and rsc: "rsc = (case ae_seqnum env (g_GN (wa_group wa)) of None \<Rightarrow> replicate 8 0 | Some r \<Rightarrow> r)" "length rsc = 8"
    and c: "inc_byte_array c 8 = Some c2" "length c2 = 8"
    and k: "k = with_mic (take 16 p) v (message_2 c snonce ie)" and idx: "idx = of_nat (g_GN (wa_group wa))"
  shows "\<exists>wa2 cipher. wpa_receive cfg env wa (eapol_frame v k) = Some wa2 \<and> ap_ready wa2 ap own ap_ie ie gtk \<and>
    ap_wait_4 wa2 c2 (p @ take 16 (ae_stack env)) \<and> sealed p (ap_ie @ gtk_kde idx gtk) cipher \<and> wa_conf wa2 = wa_conf wa \<and>
    wa_log wa2 = Auth_Send_Eapol (eapol_frame (wc_eapol_version (wa_conf wa)) (with_mic (take 16 p) (wc_eapol_version (wa_conf wa))
        (message_3 c2 anonce rsc cipher))) False # wa_log wa"
proof -
  let ?ptk = "p @ take 16 (ae_stack env)"
  define s0 where "s0 = sta (\<lambda>sm. with_frame k (eapol_frame v k) (receive_mark k PAIRWISE_2 (sm\<lparr>as_MICVerified := False\<rparr>))) wa"
  have w0: "ap_ready s0 ap own ap_ie ie gtk" "wa_group s0 = wa_group wa" "wa_conf s0 = wa_conf wa" "wa_log s0 = wa_log wa"
    using ready(1) by (simp_all add: s0_def)
  have kf: "key_wf k" "k_info k = 0x10a" "k_nonce k = snonce" "k_replay_counter k = c" "k_data k = ie" "signed (take 16 p) v k"
    using ready(4,5) by (simp_all add: k signed_with_mic) (simp_all add: message_2_def key_wf_def with_mic_def length_hmac)
  have "length ie = 2 + unat l" "unat l < 256" using ie(1,2) unsigned_less [of l] by simp_all
  then have small: "length (k_data k) \<le> 65440" unfolding kf(5) by linarith
  obtain rs where rs: "as_key_replay (wa_sta s0) = (c, False) # rs" "no_requests (wa_sta s0)" "as_ptk_state (wa_sta s0) = WPA_PTK_PTKSTART"
    "as_ANonce (wa_sta s0) = anonce" "as_SNonce (wa_sta s0) = snonce" "as_last_rx_eapol_key (wa_sta s0) = Some (eapol_frame v k)"
    "key_received (wa_sta s0)" "as_Pair (wa_sta s0)" "\<not> as_pairwise_set (wa_sta s0)"
    using ready(2) kf by (auto simp: ap_wait_2_def s0_def with_frame_def receive_mark_def Let_def wpa_replay_counter_mark_invalid_def)
  have "k_info k AND WPA_KEY_INFO_TYPE_MASK = 2" by (simp add: kf(2))
  from ap_calculates [OF w0(1) rs ptk kf(1) small this kf(6)]
  obtain s where s: "auth_sm_step cfg env s0 = auth_sm_step cfg env s" "ap_ready s ap own ap_ie ie gtk" "ap_has_ptk s c anonce ?ptk"
    "wa_group s = wa_group wa" "wa_conf s = wa_conf wa" "wa_log s = wa_log wa" unfolding w0 by auto
  have "length ?ptk = 64" using ptk by simp
  from ap_negotiates [OF s(2,3) ready(3,4,6) ie(3,4) this _ rsc(2) c, of idx cfg, unfolded s(4-6)] rsc(1) idx
  have "\<exists>wa2 cipher. auth_sm_step cfg env s = Some wa2 \<and> ap_ready wa2 ap own ap_ie ie gtk \<and> ap_wait_4 wa2 c2 ?ptk \<and>
    sealed ?ptk (ap_ie @ gtk_kde idx gtk) cipher \<and> wa_conf wa2 = wa_conf wa \<and>
    wa_log wa2 = Auth_Send_Eapol (eapol_frame (wc_eapol_version (wa_conf wa)) (with_mic (take 16 ?ptk) (wc_eapol_version (wa_conf wa))
        (message_3 c2 anonce rsc cipher))) False # wa_log wa" by blast
  moreover have "wpa_receive cfg env wa (eapol_frame v k) = auth_sm_step cfg env s"
    unfolding s(1) [symmetric] s0_def using ready ie k by (intro ap_receives_2)
  ultimately show ?thesis using ptk(4) by (simp add: sealed_def)
qed

lemma ap_message_4:
  assumes ready: "ap_ready wa ap own ap_ie ie gtk" "ap_wait_4 wa c ptk" "ae_alloc env" "length c = 8" "length ptk = 64" "\<forall>e. ae_set_key env e"
    and k: "k = with_mic (take 16 ptk) v (message_4 c)"
  shows "\<exists>wa2. wpa_receive cfg env wa (eapol_frame v k) = Some wa2 \<and> ap_ready wa2 ap own ap_ie ie gtk \<and>
    as_ptk_state (wa_sta wa2) = WPA_PTK_PTKINITDONE \<and> as_pairwise_set (wa_sta wa2) \<and>
    wa_eapol wa2 WPA_EAPOL_portValid = 1 \<and> wa_eapol wa2 WPA_EAPOL_authorized = 1 \<and> wa_eapol wa2 WPA_EAPOL_keyDone = 1 \<and>
    wa_log wa2 = Auth_Set_Key WPA_ALG_CCMP own 0 (take 16 (drop 32 ptk)) # wa_log wa"
proof -
  obtain rs where rs: "as_key_replay (wa_sta wa) = (c, True) # rs" using ready(2) by (auto simp: ap_wait_4_def)
  have kf: "key_wf k" "k_info k = 0x30a" "k_data_length k = 0" "k_replay_counter k = c" "k_data k = []" "k_type k = 2" "signed (take 16 ptk) v k"
    using ready(4) by (simp_all add: k signed_with_mic) (simp_all add: message_4_def key_wf_def with_mic_def length_hmac)
  have msg: "receive_msg (k_info k) (k_data_length k) = PAIRWISE_4" by (simp add: receive_msg_def kf)
  have mic: "wpa_verify_key_mic cfg ptk (eapol_frame v k) = Some True"
    using verify_mic_signed [OF kf(1) ready(5), of cfg v] kf by simp
  define s0 where "s0 = sta (\<lambda>sm. with_frame k (eapol_frame v k) (receive_mark k PAIRWISE_4 (sm\<lparr>as_MICVerified := True, as_send_timeouts := [],
    as_pending_1_of_4_timeout := False\<rparr>))) wa"
  have rx: "wpa_receive cfg env wa (eapol_frame v k) = auth_sm_step cfg env s0"
    using receive_frame [OF ready(1) kf(1), of rs cfg env v] kf rs msg ready(2,3) mic
    by (simp add: receive_switch_def ap_wait_4_def receive_checked_def receive_store_def sta_def with_frame_def Let_def s0_def)
  have w0: "ap_ready s0 ap own ap_ie ie gtk" using ready(1) by (simp add: s0_def ap_ready_def calm_def with_frame_def receive_mark_def Let_def)
  define s1 where "s1 = sm_PTK_PTKINITDONE env (unchanged s0)"
  have r1: "sm_PTK_step cfg env (unchanged s0) = Some s1"
    using ready(2) w0 kf by (simp add: sm_PTK_step_def Let_def unchanged_def ap_ready_def calm_def sm_PTK_switch_def ap_wait_4_def s0_def with_frame_def s1_def receive_mark_def)
  have s1: "ap_ready s1 ap own ap_ie ie gtk" "as_ptk_state (wa_sta s1) = WPA_PTK_PTKINITDONE" "as_pairwise_set (wa_sta s1)" "as_changed (wa_sta s1)" "no_requests (wa_sta s1)"
    "wa_eapol s1 WPA_EAPOL_portValid = 1" "wa_eapol s1 WPA_EAPOL_authorized = 1" "wa_eapol s1 WPA_EAPOL_keyDone = 1"
    "wa_log s1 = Auth_Set_Key WPA_ALG_CCMP own 0 (take 16 (drop 32 ptk)) # wa_log wa"
    using ready(1,2,6)
    by (simp_all add: s1_def sm_PTK_PTKINITDONE_def s0_def Let_def ptk_enter_def unchanged_def with_frame_def wpa_auth_set_key_def ap_ready_def calm_def ap_wait_4_def
       wpa_key_mgmt_wpa_psk_def wpa_cipher_to_alg_def wpa_cipher_key_len_def receive_mark_def)
  have r2: "sm_PTK_step cfg env (unchanged s1) = Some (unchanged s1)"
    using s1 by (simp add: sm_PTK_step_def Let_def unchanged_def ap_ready_def calm_def sm_PTK_switch_def)
  have calm: "calm s0" "calm s1" using w0 s1(1) by (simp_all add: ap_ready_def)
  have "auth_sm_step cfg env s0 = Some (unchanged s1)"
    using calm_round [OF calm(1) r1 calm(2)] calm_stop [OF calm(2) r2] s1(4) by simp
  moreover have "ap_ready (unchanged s1) ap own ap_ie ie gtk" using s1(1) by (simp add: unchanged_def ap_ready_def calm_def)
  ultimately show ?thesis using s1 by (simp add: rx unchanged_def)
qed

lemma next_counter: "length c = 8 \<Longrightarrow> be_val c < 2 ^ 64 - 1 \<Longrightarrow> \<exists>c'. inc_byte_array c 8 = Some c' \<and> length c' = 8 \<and> be_val c' = be_val c + 1"
  using inc_byte_array_val [of c] by auto

lemma ptk_of:
  assumes "length own = 6" "length ap = 6" "length snonce = 32" "length anonce = 32" "length pmk = 32"
  obtains p where "wpa_pmk_to_ptk cfg pmk (c_lit ''Pairwise key expansion'') own ap snonce anonce 48 False = Some p" "length p = 48"
  using ptk_wp [of own ap snonce anonce pmk 48 cfg False] assms by (auto simp: wp_def)

lemma next_counters:
  assumes "length c = 8" "be_val c < 2 ^ 64 - 2"
  obtains c1 c2 where "inc_byte_array c 8 = Some c1" "length c1 = 8" "be_val c1 = be_val c + 1"
    "inc_byte_array c1 8 = Some c2" "length c2 = 8" "be_val c2 = be_val c + 2"
proof -
  obtain c1 where c1: "inc_byte_array c 8 = Some c1" "length c1 = 8" "be_val c1 = be_val c + 1"
    using next_counter [of c] assms by auto
  then obtain c2 where "inc_byte_array c1 8 = Some c2" "length c2 = 8" "be_val c2 = be_val c1 + 1"
    using next_counter [of c1] assms by auto
  with c1 show thesis using that by simp
qed


section \<open>Samples\<close>

text \<open>An access point for WPA2-PSK with CCMP that has its group key, a station that has associated with it, and that
  station's state machine.\<close>

abbreviation "sample_own \<equiv> [2, 0, 0, 0, 0, 1] :: bytes"
abbreviation "sample_bss \<equiv> [2, 0, 0, 0, 0, 2] :: bytes"
abbreviation "sample_pmk \<equiv> replicate 32 7 :: bytes"

definition sample_rsn_ie :: bytes where
  "sample_rsn_ie = [48, 20, 1, 0, 0, 0x0f, 0xac, 4, 1, 0, 0, 0x0f, 0xac, 4, 1, 0, 0, 0x0f, 0xac, 2, 0, 0]"

definition sample_ap :: wpa_authenticator where
  "sample_ap = \<lparr>wa_group = (group_alloc 16)\<lparr>g_GN := 1, g_GM := 2, g_GTK := [replicate 32 5, replicate 32 6],
       g_state := WPA_GROUP_SETKEYSDONE, g_first_sta_seen := True\<rparr>,
     wa_sta = (sta_alloc sample_own)\<lparr>as_wpa := WPA_VERSION_WPA2, as_pairwise := WPA_CIPHER_CCMP,
       as_wpa_key_mgmt := WPA_KEY_MGMT_PSK, as_wpa_ie := Some sample_rsn_ie\<rparr>,
     wa_conf = sample_conf, wa_wpa_ie = sample_rsn_ie, wa_addr = sample_bss, wa_4WayHandshakeFailures = 0,
     wa_TKIPRemoteMICFailures = 0, wa_eapol = (\<lambda>_. 0), wa_rekey_gtk_timer = None, wa_rekey_gmk_timer = None, wa_rand = 0, wa_log = []\<rparr>"

definition sample_auth_env :: auth_env where
  "sample_auth_env = \<lparr>ae_alloc = True, ae_psks = [sample_pmk], ae_msk = None, ae_seqnum = (\<lambda>_. Some (replicate 8 1)),
     ae_set_key = (\<lambda>_. True), ae_random = (\<lambda>i n. Some (replicate n (of_nat i + 3))), ae_pool_ready = True,
     ae_ntp = replicate 8 0, ae_group_ptr = replicate 8 0, ae_mic_failure_removes = False, ae_stack = replicate 16 0\<rparr>"

definition sample_supp :: wpa_sm where
  "sample_supp = wpa_sm_init\<lparr>sm_pm := (pmksa_cache_init sample_bss sample_own)\<lparr>pc_pmk := sample_pmk, pc_pmk_len := 32\<rparr>,
     sm_proto := WPA_PROTO_RSN, sm_pairwise_cipher := WPA_CIPHER_CCMP, sm_group_cipher := WPA_CIPHER_CCMP,
     sm_key_mgmt := WPA_KEY_MGMT_PSK, sm_assoc_wpa_ie := Some sample_rsn_ie, sm_ap_rsn_ie := Some sample_rsn_ie\<rparr>"

lemma sample_ap_ready: "ap_ready sample_ap sample_bss sample_own sample_rsn_ie sample_rsn_ie (replicate 16 5)"
  by (simp add: ap_ready_def calm_def sample_ap_def group_alloc_def sta_alloc_def sample_conf_def)

lemma sample_bss_nonzero: "\<not> is_zero_ether_addr sample_bss"
  by (simp add: is_zero_ether_addr_def eval_nat_numeral)

lemma sample_supp_ready: "supp_ready sample_supp sample_pmk sample_own sample_bss sample_rsn_ie" "env_wf sample_env sample_supp"
  "sm_cur_pmksa sample_supp = None" "sm_ap_rsn_ie sample_supp = Some sample_rsn_ie" "sm_ap_wpa_ie sample_supp = None" "sm_renew_snonce sample_supp"
  "\<not> sm_rx_replay_counter_set sample_supp"
  using init_wf(1) sample_env_wf [of sample_supp]
  by (simp_all add: sample_bss_nonzero supp_ready_def sample_supp_def sm_wf_def wpa_sm_init_def pm_wf_def pmksa_cache_init_def pmksa_ok_def
     sample_rsn_ie_def)



text \<open>
  C1. The four-way handshake completes: a station and an access point with the same PMK and each other's elements exchange
  the four messages, each one produced by one side's code and taken by the other side's, without an error on
  either side. Both install the same temporal key, the station installs the group key that the access point uses,
  with the sequence counter of the access point, and both open the controlled port.
\<close>

theorem four_way_handshake:
  assumes ap: "ap_ready wa ap own ap_ie ie gtk" "\<not> as_started (wa_sta wa)" "no_requests (wa_sta wa)"
      "\<not> as_EAPOLKeyReceived (wa_sta wa)" "\<not> as_update_snonce (wa_sta wa)" "as_key_replay (wa_sta wa) = (c0, v0) # rs" "length c0 = 8" "be_val c0 < 2 ^ 64 - 2"
    and aenv: "ae_alloc env" "ae_psks env = [pmk]" "length pmk = 32" "16 \<le> length (ae_stack env)" "\<forall>e. ae_set_key env e"
      "ae_random env (wa_rand wa) 32 = Some anonce" "length anonce = 32" "\<forall>i r. ae_seqnum env i = Some r \<longrightarrow> length r = 8"
    and sm: "supp_ready sm pmk own ap ie" "sm_cur_pmksa sm = None" "sm_ap_rsn_ie sm = Some ap_ie" "sm_ap_wpa_ie sm = None"
      "sm_renew_snonce sm" "\<not> sm_rx_replay_counter_set sm"
    and senv: "env_wf senv sm" "env_alloc senv" "\<forall>e. env_set_key senv e" "env_network_ctx senv \<noteq> 0" "env_random senv = Some snonce"
    and ies: "ie = 48 # l # body" "length body = unat l" "ap_ie = 48 # l' # body'" "length body' = unat l'" "length gtk = 16"
  shows "\<exists>f1 f2 f3 f4 wa1 wa2 wa3 sm1 sm2 tk.
    wpa_auth_sta_associated cfg env wa = Some (0, wa1) \<and> wa_log wa1 = [Auth_Send_Eapol f1 False, Auth_Set_Key WPA_ALG_NONE own 0 []] @ wa_log wa \<and>
    wpa_sm_rx_eapol cfg senv sm ap f1 = Some (1, sm1) \<and> sm_log sm1 = [Notify_Tx_Eapol_Key, Ether_Send ap ETH_P_EAPOL f2, Lower_Layer_Success] @ sm_log sm \<and>
    wpa_receive cfg env wa1 f2 = Some wa2 \<and> wa_log wa2 = Auth_Send_Eapol f3 False # wa_log wa1 \<and>
    wpa_sm_rx_eapol cfg senv sm1 ap f3 = Some (1, sm2) \<and>
    {Ether_Send ap ETH_P_EAPOL f4, Set_Key WPA_ALG_CCMP (Some ap) 0 True (replicate 6 0) tk, Port_Valid True,
      Set_Key WPA_ALG_CCMP (Some (replicate 6 0xff)) (g_GN (wa_group wa)) False
        (take 6 (case ae_seqnum env (g_GN (wa_group wa)) of None \<Rightarrow> replicate 8 0 | Some r \<Rightarrow> r)) gtk} \<subseteq> set (take 12 (sm_log sm2)) \<and>
    wpa_receive cfg env wa2 f4 = Some wa3 \<and> wa_log wa3 = Auth_Set_Key WPA_ALG_CCMP own 0 tk # wa_log wa2 \<and>
    length tk = 16 \<and> sm_state sm2 = WPA_COMPLETED \<and> as_ptk_state (wa_sta wa3) = WPA_PTK_PTKINITDONE \<and>
    wa_eapol wa3 WPA_EAPOL_portValid = 1 \<and> wa_eapol wa3 WPA_EAPOL_authorized = 1"
proof -
  let ?v = "wc_eapol_version (wa_conf wa)" and ?w = "env_eapol_version senv"
  define rsc where "rsc = (case ae_seqnum env (g_GN (wa_group wa)) of None \<Rightarrow> replicate 8 0 | Some r \<Rightarrow> r)"
  define idx :: u8 where "idx = of_nat (g_GN (wa_group wa))"
  have rsc: "length rsc = 8" using aenv(8) by (auto simp: rsc_def split: option.split)
  have addrs: "length own = 6" "length ap = 6" "\<not> is_zero_ether_addr ap" using ap(1) sm(1) by (simp_all add: ap_ready_def supp_ready_def)
  have sn: "length snonce = 32" using senv(1,5) by (auto simp: env_wf_def env_sizes_def)
  obtain p where p: "wpa_pmk_to_ptk cfg pmk (c_lit ''Pairwise key expansion'') own ap snonce anonce 48 False = Some p" "length p = 48"
    using ptk_of [OF addrs(1,2) sn aenv(7,3)] .
  obtain c1 c2 where c1: "inc_byte_array c0 8 = Some c1" "length c1 = 8" "be_val c1 = be_val c0 + 1"
    and c2: "inc_byte_array c1 8 = Some c2" "length c2 = 8" "be_val c2 = be_val c0 + 2"
    using next_counters [OF ap(7,8)] .
  obtain wa1 where wa1: "wpa_auth_sta_associated cfg env wa = Some (0, wa1)" "ap_ready wa1 ap own ap_ie ie gtk" "ap_wait_2 wa1 c1 anonce"
    "wa_conf wa1 = wa_conf wa" "wa_group wa1 = wa_group wa"
    "wa_log wa1 = [Auth_Send_Eapol (eapol_frame ?v (message_1 c1 anonce)) False, Auth_Set_Key WPA_ALG_NONE own 0 []] @ wa_log wa"
    using ap_associated [OF ap(1-5) aenv(1,2,6) ap(6) c1(1), of cfg] by blast
  define ptk where "ptk = swap_mic_keys (p @ drop 48 (sm_tptk sm))"
  have ptk: "ptk_kck ptk = take 16 p" "ptk_kek ptk = ptk_kek p" "take 16 (drop 32 ptk) = take 16 (drop 32 p)" "length ptk = 64"
    using p(2) sm(1) by (simp_all add: ptk_def swap_mic_keys_def supp_ready_def sm_wf_def)
  define f2 where "f2 = eapol_frame ?w (with_mic (take 16 p) ?w (message_2 c1 snonce ie))"
  obtain sm1 where sm1: "wpa_sm_rx_eapol cfg senv sm ap (eapol_frame ?v (message_1 c1 anonce)) = Some (1, sm1)" and sm1_def: "sm1 =
    (emit Notify_Tx_Eapol_Key (emit (Ether_Send ap ETH_P_EAPOL f2) (emit Lower_Layer_Success sm)))
    \<lparr>sm_state := WPA_4WAY_HANDSHAKE, sm_snonce := snonce, sm_renew_snonce := False, sm_tptk := ptk, sm_tptk_set := True, sm_anonce := anonce\<rparr>"
    using supp_message_1 [OF sm(1) senv(1,2,4) sm(5) senv(5), of "message_1 c1 anonce" cfg p ap ?v] c1(2) aenv(7) sm(6) p(1)
    by (simp add: message_1_def key_wf_def f2_def ptk_def)
  have r1: "supp_ready sm1 pmk own ap ie" "sm_cur_pmksa sm1 = None" "sm_ap_rsn_ie sm1 = Some ap_ie" "sm_ap_wpa_ie sm1 = None" "sm_anonce sm1 = anonce"
    "sm_tptk_set sm1 \<and> sm_tptk sm1 = ptk" "\<not> sm_rx_replay_counter_set sm1"
    using sm ptk(4) sn aenv(7) by (simp_all add: sm1_def emit_def supp_ready_def sm_wf_def)
  have "length ap_ie = 2 + unat l'" "unat l' < 256" using ies(3,4) unsigned_less [of l'] by simp_all
  then have small: "length ap_ie \<le> 900" by linarith
  obtain wa2 cipher where wa2: "wpa_receive cfg env wa1 f2 = Some wa2" "ap_ready wa2 ap own ap_ie ie gtk"
    "ap_wait_4 wa2 c2 (p @ take 16 (ae_stack env))" "sealed p (ap_ie @ gtk_kde idx gtk) cipher"
    "wa_log wa2 = Auth_Send_Eapol (eapol_frame ?v (with_mic (take 16 p) ?v (message_3 c2 anonce rsc cipher))) False # wa_log wa1"
    using ap_message_2 [OF wa1(2,3) aenv(1) c1(2) sn aenv(7) ies(1,2) small ies(5) aenv(2,3,4) p(2,1) _ rsc c2(1,2) refl, of idx ?w, unfolded wa1(4,5)]
    unfolding f2_def rsc_def idx_def by blast
  have gn: "idx = 1 \<or> idx = 2" "unat idx = g_GN (wa_group wa)" using ap(1) by (auto simp: idx_def ap_ready_def)
  have "sealed ptk (ap_ie @ gtk_kde idx gtk) cipher" using wa2(4) ptk(2) by (simp add: sealed_def)
  from supp_message_3 [OF r1(1-4) senv(2,3) r1(5) aenv(7) rsc c2(2) ies(3,4,5) gn(1) this, of True cfg ap ?v] r1(6,7)
  obtain sm2 where sm2: "wpa_sm_rx_eapol cfg senv sm1 ap (eapol_frame ?v (with_mic (take 16 p) ?v (message_3 c2 anonce rsc cipher))) = Some (1, sm2)"
    "sm_state sm2 = WPA_COMPLETED" "sm_log sm2 = message_3_calls ap ptk idx gtk rsc ?w c2 @ sm_log sm1"
    unfolding ptk(1) by auto
  obtain wa3 where wa3: "wpa_receive cfg env wa2 (eapol_frame ?w (with_mic (take 16 p) ?w (message_4 c2))) = Some wa3"
    "as_ptk_state (wa_sta wa3) = WPA_PTK_PTKINITDONE" "wa_eapol wa3 WPA_EAPOL_portValid = 1" "wa_eapol wa3 WPA_EAPOL_authorized = 1"
    "wa_log wa3 = Auth_Set_Key WPA_ALG_CCMP own 0 (take 16 (drop 32 p)) # wa_log wa2"
    using ap_message_4 [OF wa2(2,3) aenv(1) c2(2) _ aenv(5) refl, of cfg ?w] p(2) aenv(4) by auto
  have log1: "sm_log sm1 = [Notify_Tx_Eapol_Key, Ether_Send ap ETH_P_EAPOL f2, Lower_Layer_Success] @ sm_log sm"
    by (simp add: sm1_def emit_def)
  have calls: "take 12 (sm_log sm2) = message_3_calls ap ptk idx gtk rsc ?w c2" unfolding sm2(3) by (simp add: message_3_calls_def)
  have "{Ether_Send ap ETH_P_EAPOL (eapol_frame ?w (with_mic (take 16 p) ?w (message_4 c2))),
      Set_Key WPA_ALG_CCMP (Some ap) 0 True (replicate 6 0) (take 16 (drop 32 p)), Port_Valid True,
      Set_Key WPA_ALG_CCMP (Some (replicate 6 0xff)) (g_GN (wa_group wa)) False (take 6 rsc) gtk} \<subseteq> set (take 12 (sm_log sm2))"
    unfolding calls by (simp add: message_3_calls_def ptk gn)
  note installed = this [unfolded rsc_def]
  have tk: "length (take 16 (drop 32 p)) = 16" using p(2) by simp
  show ?thesis
    by (intro exI conjI) (rule wa1(1) wa1(6) sm1 log1 wa2(1) wa2(5) sm2(1) installed wa3(1) wa3(5) tk sm2(2) wa3(2-4))+
qed

theorem four_way_handshake_witness:
  "\<exists>f1 f2 f3 f4 wa1 wa2 wa3 sm1 sm2 tk.
    wpa_auth_sta_associated pc2drc_config sample_auth_env sample_ap = Some (0, wa1) \<and>
    wpa_sm_rx_eapol pc2drc_config sample_env sample_supp sample_bss f1 = Some (1, sm1) \<and>
    wpa_receive pc2drc_config sample_auth_env wa1 f2 = Some wa2 \<and> wa_log wa2 = Auth_Send_Eapol f3 False # wa_log wa1 \<and>
    wpa_sm_rx_eapol pc2drc_config sample_env sm1 sample_bss f3 = Some (1, sm2) \<and>
    wpa_receive pc2drc_config sample_auth_env wa2 f4 = Some wa3 \<and> wa_log wa3 = Auth_Set_Key WPA_ALG_CCMP sample_own 0 tk # wa_log wa2 \<and>
    sm_state sm2 = WPA_COMPLETED \<and> as_ptk_state (wa_sta wa3) = WPA_PTK_PTKINITDONE"
proof -
  have ie: "sample_rsn_ie = 48 # 20 # drop 2 sample_rsn_ie" "length (drop 2 sample_rsn_ie) = unat (20 :: u8)" by (simp_all add: sample_rsn_ie_def)
  have ap: "\<not> as_started (wa_sta sample_ap)" "no_requests (wa_sta sample_ap)" "\<not> as_EAPOLKeyReceived (wa_sta sample_ap)"
    "\<not> as_update_snonce (wa_sta sample_ap)" "as_key_replay (wa_sta sample_ap) = (replicate 8 0, False) # replicate 3 (replicate 8 0, False)"
    by (simp_all add: sample_ap_def sta_alloc_def eval_nat_numeral)
  have env: "ae_alloc sample_auth_env" "ae_psks sample_auth_env = [sample_pmk]" "length sample_pmk = 32" "16 \<le> length (ae_stack sample_auth_env)"
    "\<forall>e. ae_set_key sample_auth_env e" "ae_random sample_auth_env (wa_rand sample_ap) 32 = Some (replicate 32 3)" "length (replicate 32 (3 :: u8)) = 32"
    "\<forall>i r. ae_seqnum sample_auth_env i = Some r \<longrightarrow> length r = 8"
    by (auto simp: sample_auth_env_def sample_ap_def)
  have senv: "env_alloc sample_env" "\<forall>e. env_set_key sample_env e" "env_network_ctx sample_env \<noteq> 0" "env_random sample_env = Some (replicate 32 5)"
    by (simp_all add: sample_env_def)
  have "be_val (replicate 8 0) = 0" by (simp add: be_val_def eval_nat_numeral)
  then have c: "length (replicate 8 (0 :: u8)) = 8" "be_val (replicate 8 0) < 2 ^ 64 - 2" "length (replicate 16 (5 :: u8)) = 16"
    by simp_all
  note h = four_way_handshake [OF sample_ap_ready ap c(1,2) env sample_supp_ready(1,3-7,2) senv ie ie c(3), of pc2drc_config]
  from h show ?thesis by (elim exE conjE) (intro exI conjI; assumption)
qed

text \<open>
  C8. Key reinstallation: when message 3 is sent again with a larger replay counter, as the authenticator does when message
  4 is lost, the supplicant takes it a second time, and configures the same temporal key into the driver again
  with a sequence counter of zero, although the key has been in use since the first time.
\<close>

theorem ptk_reinstallation:
  assumes sm: "supp_ready sm pmk own bssid ie" "sm_cur_pmksa sm = None" "sm_ap_rsn_ie sm = Some ap_ie" "sm_ap_wpa_ie sm = None"
      "sm_anonce sm = anonce" "sm_tptk_set sm" "sm_tptk sm = ptk" "\<not> sm_rx_replay_counter_set sm"
    and env: "env_alloc env" "\<forall>e. env_set_key env e" and len: "length anonce = 32" "length rsc = 8" "length c = 8" "length c' = 8"
    and ap: "ap_ie = 48 # l # body" "length body = unat l" "length gtk = 16" "idx = 1 \<or> idx = 2"
    and sealed: "sealed ptk (ap_ie @ gtk_kde idx gtk) cipher" and counter: "be_val c < be_val c'"
    and tk: "installed = Set_Key WPA_ALG_CCMP (Some bssid) 0 True (replicate 6 0) (take 16 (drop 32 ptk))"
  shows "\<exists>sm1 sm2 l1 l2.
    wpa_sm_rx_eapol cfg env sm src (eapol_frame v (with_mic (ptk_kck ptk) v (message_3 c anonce rsc cipher))) = Some (1, sm1) \<and>
    sm_log sm1 = l1 @ sm_log sm \<and> installed \<in> set l1 \<and>
    wpa_sm_rx_eapol cfg env sm1 src (eapol_frame v (with_mic (ptk_kck ptk) v (message_3 c' anonce rsc cipher))) = Some (1, sm2) \<and>
    sm_log sm2 = l2 @ sm_log sm1 \<and> installed \<in> set l2"
proof -
  let ?calls = "message_3_calls bssid ptk idx gtk rsc (env_eapol_version env)"
  obtain sm1 where rx1: "wpa_sm_rx_eapol cfg env sm src (eapol_frame v (with_mic (ptk_kck ptk) v (message_3 c anonce rsc cipher))) = Some (1, sm1)"
    and sm1: "sm1 = sm\<lparr>sm_tptk_set := False, sm_ptk_set := True, sm_ptk := ptk, sm_rx_replay_counter := c,
      sm_rx_replay_counter_set := True, sm_renew_snonce := True, sm_state := WPA_COMPLETED, sm_preauth_timer := Some 1,
      sm_rekey_timer := (if sm_wpa_ptk_rekey sm \<noteq> 0 then Some (sm_wpa_ptk_rekey sm) else sm_rekey_timer sm),
      sm_log := ?calls c @ sm_log sm\<rparr>"
    using supp_message_3 [OF sm(1-4) env sm(5) len(1,2,3) ap sealed, of True cfg src v] sm(6-8) by simp
  have r: "supp_ready sm1 pmk own bssid ie" "sm_cur_pmksa sm1 = None" "sm_ap_rsn_ie sm1 = Some ap_ie" "sm_ap_wpa_ie sm1 = None" "sm_anonce sm1 = anonce"
    using sm len(3) by (auto simp: sm1 supp_ready_def sm_wf_def)
  obtain sm2 where "wpa_sm_rx_eapol cfg env sm1 src (eapol_frame v (with_mic (ptk_kck ptk) v (message_3 c' anonce rsc cipher))) = Some (1, sm2)"
    "sm_log sm2 = ?calls c' @ sm_log sm1"
    using supp_message_3 [OF r(1-4) env r(5) len(1,2,4) ap sealed, of False cfg src v] counter by (simp add: sm1)
  then show ?thesis using rx1 tk
    by (intro exI [of _ sm1] exI [of _ sm2] exI [of _ "?calls c"] exI [of _ "?calls c'"]) (simp add: sm1 message_3_calls_def)
qed

lemma sealed_exists:
  assumes "length ptk = 64" "length kde \<le> 1000"
  shows "\<exists>cipher. sealed ptk kde cipher"
proof -
  define p where "p = (8 - length kde mod 8) mod 8"
  define pad :: bytes where "pad = (if p \<noteq> 0 then 0xdd # replicate (p - 1) 0 else [])"
  have "length (ptk_kek ptk) = 16" using assms(1) by simp
  from wrap_padded [OF this, of kde "[]", folded p_def, folded pad_def]
  obtain n cipher where c: "length (kde @ pad) = 8 * n" "length cipher = 8 * n + 8" "8 * n < length kde + 8"
    "aes_unwrap True (ptk_kek ptk) n cipher = Some (0, kde @ pad)" by blast
  moreover have "n \<le> 200" using c(3) assms(2) by linarith
  moreover have "pad = [] \<or> pad = 0xdd # replicate (p - 1) 0" by (simp add: pad_def)
  ultimately have "sealed ptk kde cipher" unfolding sealed_def by blast
  then show ?thesis by (rule exI)
qed

definition sample_supp_2 :: wpa_sm where
  "sample_supp_2 = sample_supp\<lparr>sm_tptk := replicate 64 9, sm_tptk_set := True, sm_anonce := replicate 32 3\<rparr>"

theorem ptk_reinstallation_witness:
  "\<exists>cipher sm1 sm2 l1 l2.
    wpa_sm_rx_eapol pc2drc_config sample_env sample_supp_2 sample_bss (eapol_frame 2 (with_mic (replicate 16 9) 2
      (message_3 (replicate 7 0 @ [1]) (replicate 32 3) (replicate 8 0) cipher))) = Some (1, sm1) \<and>
    sm_log sm1 = l1 @ sm_log sample_supp_2 \<and> Set_Key WPA_ALG_CCMP (Some sample_bss) 0 True (replicate 6 0) (replicate 16 9) \<in> set l1 \<and>
    wpa_sm_rx_eapol pc2drc_config sample_env sm1 sample_bss (eapol_frame 2 (with_mic (replicate 16 9) 2
      (message_3 (replicate 7 0 @ [2]) (replicate 32 3) (replicate 8 0) cipher))) = Some (1, sm2) \<and>
    sm_log sm2 = l2 @ sm_log sm1 \<and> Set_Key WPA_ALG_CCMP (Some sample_bss) 0 True (replicate 6 0) (replicate 16 9) \<in> set l2"
proof -
  let ?ptk = "replicate 64 9 :: bytes" and ?gtk = "replicate 16 5 :: bytes"
  have ie: "sample_rsn_ie = 48 # 20 # drop 2 sample_rsn_ie" "length (drop 2 sample_rsn_ie) = unat (20 :: u8)" "length ?gtk = 16" "(1 :: u8) = 1 \<or> (1 :: u8) = 2"
    by (simp_all add: sample_rsn_ie_def)
  have "length (sample_rsn_ie @ gtk_kde 1 ?gtk) \<le> 1000" by (simp add: sample_rsn_ie_def gtk_kde_def wpa_add_kde_def)
  then obtain cipher where c: "sealed ?ptk (sample_rsn_ie @ gtk_kde 1 ?gtk) cipher"
    using sealed_exists [of ?ptk "sample_rsn_ie @ gtk_kde 1 ?gtk"] by (metis length_replicate)
  have sm: "supp_ready sample_supp_2 sample_pmk sample_own sample_bss sample_rsn_ie"
    "sm_cur_pmksa sample_supp_2 = None" "sm_ap_rsn_ie sample_supp_2 = Some sample_rsn_ie" "sm_ap_wpa_ie sample_supp_2 = None"
    "sm_anonce sample_supp_2 = replicate 32 3" "sm_tptk_set sample_supp_2" "sm_tptk sample_supp_2 = ?ptk" "\<not> sm_rx_replay_counter_set sample_supp_2"
    using sample_supp_ready by (simp_all add: sample_supp_2_def supp_ready_def sm_wf_def)
  have env: "env_alloc sample_env" "\<forall>e. env_set_key sample_env e" by (simp_all add: sample_env_def)
  have len: "length (replicate 32 (3 :: u8)) = 32" "length (replicate 8 (0 :: u8)) = 8" "length (replicate 7 0 @ [1 :: u8]) = 8" "length (replicate 7 0 @ [2 :: u8]) = 8" by simp_all
  have ctr: "be_val (replicate 7 0 @ [1]) < be_val (replicate 7 0 @ [2])" by (simp add: be_val_snoc)
  have tk: "take 16 ?ptk = replicate 16 9" "take 16 (drop 32 ?ptk) = replicate 16 9" by simp_all
  show ?thesis
    using ptk_reinstallation [OF sm env len ie c ctr refl, of pc2drc_config sample_bss 2] unfolding tk by (rule exI [of _ cipher])
qed

end
