(* ===== verification/Wpa_Auth_Safe.thy ===== *)
theory Wpa_Auth_Safe
  imports Wpa_Auth Wpa_Sm_Safe
begin

text \<open>
  Memory safety of the authenticator (\<open>src/drc-hostap/src/ap/wpa_auth.c\<close>), from the bottom up: transmission, group keys,
  and one lemma per state of the pairwise machine and of the station's group machine. Every lemma says that the function
  returns, that the state stays well formed (\<open>auth_wf\<close>), and what happens to a rank that bounds the transitions still
  to come (\<open>runs\<close>).
\<close>

section \<open>Well-formed states\<close>

definition sta_wf :: "wpa_state_machine \<Rightarrow> bool" where
  "sta_wf sm \<longleftrightarrow> length (as_addr sm) = 6 \<and> length (as_ANonce sm) = 32 \<and> length (as_SNonce sm) = 32 \<and> length (as_PMK sm) = 32 \<and>
     length (as_PTK sm) = 64 \<and> length (as_key_replay sm) = 4 \<and> (\<forall>x \<in> set (as_key_replay sm). length (fst x) = 8) \<and>
     length (as_req_replay_counter sm) = 8 \<and> (\<forall>pmk pmkid. as_pmksa sm = Some (pmk, pmkid) \<longrightarrow> 32 \<le> length pmk \<and> 16 \<le> length pmkid) \<and>
     (as_last_rx_eapol_key sm = None \<longrightarrow> as_last_rx_eapol_key_len sm < 99) \<and> (\<forall>d. as_last_rx_eapol_key sm = Some d \<longrightarrow> length d < 2 ^ 30) \<and>
     (as_ptk_group_state sm = WPA_PTK_GROUP_IDLE \<longrightarrow> as_GTimeoutCtr sm = 0)"

definition group_wf :: "wpa_group \<Rightarrow> bool" where
  "group_wf g \<longleftrightarrow> length (g_Counter g) = 32 \<and> length (g_GMK g) = 32 \<and> length (g_GNonce g) = 32 \<and>
     length (g_GTK g) = 2 \<and> (\<forall>k \<in> set (g_GTK g). length k = 32) \<and> g_GTK_len g \<le> 32 \<and>
     length (g_IGTK g) = 2 \<and> (\<forall>k \<in> set (g_IGTK g). length k = 16) \<and>
     g_GN g \<in> {1, 2} \<and> g_GM g \<in> {1, 2} \<and> g_GN_igtk g \<in> {4, 5} \<and> g_GM_igtk g \<in> {4, 5}"

text \<open>The announced element is one RSN element, one WPA element, or the first followed by the second.\<close>

definition own_ie_ok :: "bytes \<Rightarrow> bool" where
  "own_ie_ok ie \<longleftrightarrow> 2 \<le> length ie \<and> length ie \<le> 512 \<and>
     (ie ! 0 = 48 \<and> unat (ie ! 1) + 2 < length ie \<longrightarrow>
       unat (ie ! 1) + 4 \<le> length ie \<and> unat (ie ! 1) + 4 + unat (ie ! (unat (ie ! 1) + 3)) \<le> length ie)"

definition auth_wf :: "wpa_authenticator \<Rightarrow> bool" where
  "auth_wf wa \<longleftrightarrow> sta_wf (wa_sta wa) \<and> group_wf (wa_group wa) \<and> length (wa_addr wa) = 6 \<and> own_ie_ok (wa_wpa_ie wa)"

text \<open>What the environment promises: allocation succeeds, and buffers are filled to the size asked for.\<close>

definition auth_env_ok :: "auth_env \<Rightarrow> bool" where
  "auth_env_ok env \<longleftrightarrow> ae_alloc env \<and> (\<forall>p \<in> set (ae_psks env). length p = 32) \<and> (\<forall>m. ae_msk env = Some m \<longrightarrow> 32 \<le> length m) \<and>
     (\<forall>i r. ae_seqnum env i = Some r \<longrightarrow> length r = 8) \<and> (\<forall>i n r. ae_random env i n = Some r \<longrightarrow> length r = n) \<and>
     length (ae_ntp env) = 8 \<and> length (ae_group_ptr env) = 8 \<and> 16 \<le> length (ae_stack env)"

text \<open>The variables that decide which transitions the machines take.\<close>

definition ctl :: "wpa_authenticator \<Rightarrow> _" where
  "ctl wa = (as_ptk_state (wa_sta wa), as_ptk_group_state (wa_sta wa), as_Init (wa_sta wa), as_DeauthenticationRequest (wa_sta wa), as_AuthenticationRequest (wa_sta wa),
      as_ReAuthenticationRequest (wa_sta wa), as_Disconnect (wa_sta wa), as_GTimeoutCtr (wa_sta wa), as_TimeoutEvt (wa_sta wa), as_EAPOLKeyReceived (wa_sta wa), as_EAPOLKeyRequest (wa_sta wa), as_EAPOLKeyPairwise (wa_sta wa), as_GUpdateStationKeys (wa_sta wa),
      as_PInitAKeys (wa_sta wa), as_PTKRequest (wa_sta wa), as_PtkGroupInit (wa_sta wa), as_update_snonce (wa_sta wa), as_changed (wa_sta wa), as_MICVerified (wa_sta wa), as_wpa (wa_sta wa),
      g_GInit (wa_group wa), g_GTKReKey (wa_group wa), g_state (wa_group wa), g_changed (wa_group wa))"

definition still :: "wpa_authenticator \<Rightarrow> wpa_authenticator \<Rightarrow> bool" where
  "still wa wa' \<longleftrightarrow> auth_wf wa' \<and> ctl wa' = ctl wa"

lemma grp_simps [simp]:
  "wa_group (grp f wa) = f (wa_group wa)" "wa_sta (grp f wa) = wa_sta wa" "wa_conf (grp f wa) = wa_conf wa"
  "wa_addr (grp f wa) = wa_addr wa" "wa_log (grp f wa) = wa_log wa" "wa_wpa_ie (grp f wa) = wa_wpa_ie wa"
  "wa_rand (grp f wa) = wa_rand wa" "wa_eapol (grp f wa) = wa_eapol wa"
  by (simp_all add: grp_def)

lemma wf_simps [simp]:
  "auth_wf (alog e wa) = auth_wf wa" "auth_wf (wpa_auth_set_eapol x v wa) = auth_wf wa" "auth_wf (wa\<lparr>wa_rand := n\<rparr>) = auth_wf wa"
  "ctl (alog e wa) = ctl wa" "ctl (wpa_auth_set_eapol x v wa) = ctl wa" "ctl (wa\<lparr>wa_rand := n\<rparr>) = ctl wa"
  "auth_wf (wa\<lparr>wa_4WayHandshakeFailures := m\<rparr>) = auth_wf wa" "ctl (wa\<lparr>wa_4WayHandshakeFailures := m\<rparr>) = ctl wa"
  by (simp_all add: auth_wf_def ctl_def)

lemma still_refl: "auth_wf wa \<Longrightarrow> still wa wa"
  by (simp add: still_def)

lemma still_trans [trans]: "still wa wa' \<Longrightarrow> still wa' wa'' \<Longrightarrow> still wa wa''"
  by (simp add: still_def)

lemma still_wp: "wp m (still wa') \<Longrightarrow> still wa wa' \<Longrightarrow> wp m (still wa)"
  by (erule wp_mono) (rule still_trans)

lemma auth_wf_sta: "auth_wf wa \<Longrightarrow> sta_wf (f (wa_sta wa)) \<Longrightarrow> auth_wf (sta f wa)"
  by (simp add: auth_wf_def)

lemma auth_wf_grp: "auth_wf wa \<Longrightarrow> group_wf (f (wa_group wa)) \<Longrightarrow> auth_wf (grp f wa)"
  by (simp add: auth_wf_def)

lemma auth_wfD: "auth_wf wa \<Longrightarrow> sta_wf (wa_sta wa)" "auth_wf wa \<Longrightarrow> group_wf (wa_group wa)" "auth_wf wa \<Longrightarrow> length (wa_addr wa) = 6"
  by (simp_all add: auth_wf_def)

section \<open>Sending\<close>

lemma wrap_wp:
  assumes "length kek = 16" "8 * n \<le> length plain"
  shows "wp (aes_wrap True kek n plain) (\<lambda>(r, c). r = 0 \<and> length c = 8 * n + 8)"
proof -
  have "aes_wrap True kek n plain = aes_wrap True kek n (take (8 * n) plain)"
    using assms(2) by (simp add: aes_wrap_def c_slice_def)
  then show ?thesis using aes_wrap_roundtrip [OF assms(1), of "take (8 * n) plain" n] assms(2) by (auto simp: wp_def)
qed

lemma inc_wp: "length c = n \<Longrightarrow> wp (inc_byte_array c n) (\<lambda>c'. length c' = n)"
  using inc_byte_array_val [of c] by (auto simp: wp_def)

text \<open>The padded length of key data.\<close>

definition padded :: "u16 \<Rightarrow> bool \<Rightarrow> nat \<Rightarrow> nat \<Rightarrow> nat \<Rightarrow> bool" where
  "padded version encr n pad len \<longleftrightarrow>
     (if (version = 2 \<or> version = 3) \<and> encr then pad < 8 \<and> (n + pad) mod 8 = 0 \<and> len = n + pad + 8 else pad = 0 \<and> len = n)"

lemma pad_8: "(n + (8 - n mod 8) mod 8) mod 8 = (0 :: nat)"
proof -
  have "n mod 8 < 8" by simp
  then show ?thesis by (subst mod_add_left_eq [symmetric], cases "n mod 8 = 0") simp_all
qed

lemma send_key_data_wp:
  assumes "auth_wf wa" "auth_env_ok env" "padded version encr (case kde of None \<Rightarrow> 0 | Some d \<Rightarrow> length d) pad len"
  shows "wp (send_key_data env wa version kde encr pad len)
    (\<lambda>x. case x of Inl wa' \<Rightarrow> still wa wa' | Inr (wa', iv, l, body) \<Rightarrow> still wa wa' \<and> length iv = 16 \<and> length body = len \<and>
      wa_sta wa' = wa_sta wa)"
proof (cases kde)
  case None
  then show ?thesis using assms(1) by (simp add: send_key_data_def still_refl)
next
  case (Some d)
  define buf where "buf = d @ (if pad \<noteq> 0 then [0xdd] else [])"
  define buf' where "buf' = buf @ replicate (len - length buf) 0"
  have len: "length buf' = len" if encr using assms(3) that Some
    by (auto simp: buf'_def buf_def padded_def split: if_splits)
  have kek: "length (ptk_kek (as_PTK (wa_sta wa))) = 16" and ctr: "length (g_Counter (wa_group wa)) = 32"
    using assms(1) by (simp_all add: auth_wf_def sta_wf_def group_wf_def)
  consider "\<not> encr" | "encr" "version = 2 \<or> version = 3" | "encr" "\<not> (version = 2 \<or> version = 3)" by blast
  then show ?thesis
  proof cases
    case 1
    then show ?thesis using assms Some by (simp add: send_key_data_def still_refl padded_def)
  next
    case 2
    then obtain n where n: "len = 8 * n + 8" using assms(3) Some by (auto simp: padded_def dvd_def)
    show ?thesis
      using wrap_wp [OF kek, of n buf'] 2 n len assms(1,2)
      unfolding send_key_data_def Some option.case Let_def buf_def [symmetric] buf'_def [symmetric]
      by (auto simp: auth_env_ok_def still_refl elim!: wp_mono)
  next
    case 3
    have w: "auth_wf (grp (g_Counter_update (\<lambda>_. c)) wa)" "ctl (grp (g_Counter_update (\<lambda>_. c)) wa) = ctl wa" if "length c = 32" for c
      using assms(1) that by (simp_all add: auth_wf_def group_wf_def ctl_def)
    have rc4: "wp (rc4_skip (x @ ptk_kek (as_PTK (wa_sta wa))) 256 buf') (\<lambda>(r, d). length d = len)" for x
    proof -
      have "x @ ptk_kek (as_PTK (wa_sta wa)) \<noteq> []" using kek by (metis append_is_Nil_conv list.size(3) zero_neq_numeral)
      then show ?thesis using rc4_wp [of "x @ ptk_kek (as_PTK (wa_sta wa))" 256 buf'] len 3 by (auto elim!: wp_mono)
    qed
    show ?thesis
      using inc_wp [OF ctr] 3 ctr
      unfolding send_key_data_def Some option.case Let_def buf_def [symmetric] buf'_def [symmetric]
      by (auto simp: wp_slice still_def w intro!: wp_mono [OF rc4] elim!: wp_mono)
  qed
qed

lemma send_frame_wp:
  assumes "auth_wf wa" "key_wf key" "length (k_data key) \<le> 2000" "length hdr = 4"
  shows "wp (send_eapol_frame cfg wa version hdr key) (still wa)"
proof -
  have "wp (wpa_eapol_key_mic cfg (ptk_kck (as_PTK (wa_sta wa))) v (hdr @ eapol_key_bytes key)) (\<lambda>(r, m). r = 0 \<longrightarrow> length m = 16)" for v
    using assms by (intro mic_wp) (simp_all add: auth_wf_def sta_wf_def length_eapol_key_bytes)
  note mic = wp_mono [OF this]
  show ?thesis
    using assms(1) by (auto simp: send_eapol_frame_def Let_def still_def intro!: mic)
qed

lemma send_now_wp:
  assumes "auth_wf wa" "auth_env_ok env" "\<And>d. kde = Some d \<Longrightarrow> length d \<le> 1900" "\<And>n. nonce = Some n \<Longrightarrow> length n = 32"
    and "\<And>r. key_rsc = Some r \<Longrightarrow> length r = 8"
  shows "wp (wpa_send_eapol_now cfg env wa key_info key_rsc nonce kde keyidx encr force_version) (still wa)"
proof -
  define version where "version = eapol_version cfg (wa_sta wa) force_version"
  define n where "n = (case kde of None \<Rightarrow> 0 | Some d \<Rightarrow> length d)"
  define pad where "pad = (if (version = 2 \<or> version = 3) \<and> encr then (8 - n mod 8) mod 8 else 0)"
  define len where "len = (if (version = 2 \<or> version = 3) \<and> encr then n + pad + 8 else n)"
  have p: "padded version encr (case kde of None \<Rightarrow> 0 | Some d \<Rightarrow> length d) pad len"
    using pad_8 [of n] by (auto simp: padded_def pad_def len_def n_def [symmetric])
  have n: "n \<le> 1900" using assms(3) by (cases kde) (simp_all add: n_def)
  moreover have "pad < 8" by (simp add: pad_def)
  ultimately have small: "len \<le> 2000" by (auto simp: len_def)
  obtain c v rs where rep: "as_key_replay (wa_sta wa) = (c, v) # rs" "length c = 8"
    using assms(1) by (cases "as_key_replay (wa_sta wa)") (auto simp: auth_wf_def sta_wf_def)
  define w where "w = (\<lambda>c'. sta (as_key_replay_update (\<lambda>rs. (c', True) # take 3 rs)) wa)"
  have w: "auth_wf (w c')" "ctl (w c') = ctl wa" if "length c' = 8" for c'
    using assms(1) that by (auto simp: w_def auth_wf_def sta_wf_def ctl_def dest: in_set_takeD)
  have st: "still wa wa'" if "still (w c') wa'" "length c' = 8" for c' wa' using that w [of c'] by (simp add: still_def)
  have frame: "wp (send_eapol_frame cfg wa' version hdr key) (still wa)"
    if "still (w c') wa'" "length c' = 8" "key_wf key" "length (k_data key) = len" "length hdr = 4" for wa' c' hdr key
    using that small send_frame_wp [of wa' key hdr cfg version] st [OF that(1,2)] by (auto simp: still_def elim!: wp_mono)
  have key: "wp (send_key_data env (w c') version kde encr pad len) (\<lambda>x. wp (case x of
             Inl wa \<Rightarrow> Some wa
           | Inr (wa', iv, l, body) \<Rightarrow> send_eapol_frame cfg wa' version hdr (k iv l body)) (still wa))"
    if "length c' = 8" "\<And>iv l body. length iv = 16 \<Longrightarrow> key_wf (k iv l body) \<and> k_data (k iv l body) = body" "length hdr = 4" for c' k hdr
    using send_key_data_wp [OF w(1) assms(2) p, OF that(1)] that st
    by (auto elim!: wp_mono split: sum.splits intro!: frame)
  obtain c' where c': "inc_byte_array c 8 = Some c'" "length c' = 8" using inc_wp [OF rep(2)] by (auto simp: wp_def)
  have alloc: "ae_alloc env" using assms(2) by (simp add: auth_env_ok_def)
  have nonce: "length (case nonce of None \<Rightarrow> replicate 32 0 | Some n \<Rightarrow> n) = 32"
    "length (case key_rsc of None \<Rightarrow> replicate 8 0 | Some r \<Rightarrow> r) = 8"
    using assms(4,5) by (simp_all split: option.split)
  show ?thesis
    unfolding wpa_send_eapol_now_def Let_def version_def [symmetric] n_def [symmetric] pad_def [symmetric] len_def [symmetric]
      rep(1)
    using alloc c' nonce by (simp del: One_nat_def split del: if_split) (rule key [unfolded w_def], simp_all add: key_wf_def)
qed

lemma sta_wf_timeouts: "sta_wf (sm\<lparr>as_pending_1_of_4_timeout := p, as_send_timeouts := t\<rparr>) = sta_wf sm"
  by (simp add: sta_wf_def)

lemma auth_send_wp:
  assumes "auth_wf wa" "auth_env_ok env" "\<And>d. kde = Some d \<Longrightarrow> length d \<le> 1900" "\<And>n. nonce = Some n \<Longrightarrow> length n = 32"
    and "\<And>r. key_rsc = Some r \<Longrightarrow> length r = 8"
  shows "wp (wpa_send_eapol cfg env wa key_info key_rsc nonce kde keyidx encr) (still wa)"
proof -
  have "still wa (sta (\<lambda>sm. sm\<lparr>as_pending_1_of_4_timeout := f sm, as_send_timeouts := g sm\<rparr>) wa')" if "still wa wa'" for f g wa'
    using that by (simp add: still_def auth_wf_def ctl_def sta_wf_timeouts)
  note st = this
  have "wp (wpa_send_eapol_now cfg env wa key_info key_rsc nonce kde keyidx encr 0) (still wa)"
    by (rule send_now_wp) (use assms in auto)
  then obtain w where w: "wpa_send_eapol_now cfg env wa key_info key_rsc nonce kde keyidx encr 0 = Some w" "still wa w"
    by (auto simp: wp_def)
  show ?thesis
    unfolding wpa_send_eapol_def Let_def w(1) Option.bind.bind_lunit wp_Some by (rule st) (rule w(2))
qed

section \<open>Group keys\<close>

lemma random_still: "auth_wf wa \<Longrightarrow> still wa (snd (auth_random env n wa))"
  by (simp add: auth_random_def still_def)

lemma labels: "0 \<in> set (c_lit ''Group key expansion'')" "length (c_str (c_lit ''Group key expansion'')) \<le> 32"
  "0 \<in> set (c_lit ''IGTK key expansion'')" "length (c_str (c_lit ''IGTK key expansion'')) \<le> 32"
  "0 \<in> set (c_lit ''Init Counter'')" "length (c_str (c_lit ''Init Counter'')) \<le> 32"
  by (simp_all add: c_lit_def lit_def c_str_def)

lemma gmk_to_gtk_wp:
  assumes "auth_wf wa" "auth_env_ok env" "0 \<in> set label" "length (c_str label) \<le> 32"
  shows "wp (wpa_gmk_to_gtk cfg env wa label n) (\<lambda>(k, wa'). length k = n \<and> wa' = wa\<lparr>wa_rand := wa_rand wa + 1\<rparr>)"
proof -
  define x where "x = (case ae_random env (wa_rand wa) 16 of None \<Rightarrow> take 16 (ae_stack env) | Some x \<Rightarrow> x)"
  define data where "data = wa_addr wa @ g_GNonce (wa_group wa) @ ae_ntp env @ x"
  have "length x = 16" using assms(2) by (auto simp: x_def auth_env_ok_def split: option.split)
  then have "length data = 62" "length (g_GMK (wa_group wa)) = 32" using assms(1,2) by (simp_all add: data_def auth_wf_def group_wf_def auth_env_ok_def)
  then obtain o1 o2 where "sha1_prf (g_GMK (wa_group wa)) label data n = Some (0, o1)" "length o1 = n"
    "sha256_prf (g_GMK (wa_group wa)) label data n = Some o2" "length o2 = n"
    using sha1_prf_length [OF assms(3), of "g_GMK (wa_group wa)" data n] sha256_prf_length [OF assms(3), of "g_GMK (wa_group wa)" data n] assms(4)
    by auto
  then show ?thesis
    unfolding wpa_gmk_to_gtk_def auth_random_def Let_def by (simp add: x_def data_def)
qed

lemma next_gnonce_wp: "auth_wf wa \<Longrightarrow> wp (next_gnonce wa) (\<lambda>wa'. still wa wa' \<and> wa_conf wa' = wa_conf wa)"
proof -
  assume wf: "auth_wf wa"
  then have "length (g_Counter (wa_group wa)) = 32" by (simp add: auth_wf_def group_wf_def)
  from inc_wp [OF this] wf show ?thesis
    by (auto simp: next_gnonce_def still_def auth_wf_def group_wf_def ctl_def elim!: wp_mono)
qed

lemma group_wf_key: "group_wf g \<Longrightarrow> g_GN g - 1 < length (g_GTK g)" "group_wf g \<Longrightarrow> g_GN_igtk g - 4 < length (g_IGTK g)"
  "group_wf g \<Longrightarrow> 1 \<le> g_GN g" "group_wf g \<Longrightarrow> 4 \<le> g_GN_igtk g"
  by (auto simp: group_wf_def)

lemma key_at_wp: "base \<le> n \<Longrightarrow> n - base < length keys \<Longrightarrow> wp (key_at keys base n) P = P (keys ! (n - base))"
  by (simp add: key_at_def)

lemma set_key_lengths:
  fixes keys :: "bytes list"
  assumes "\<forall>k \<in> set keys. length k = n" "length k \<le> n"
  shows "\<forall>x \<in> set (keys[i := k @ drop (length k) (keys ! i)]). length x = n"
proof (cases "i < length keys")
  case True
  then have "keys ! i \<in> set keys" by simp
  then have "length (k @ drop (length k) (keys ! i)) = n" using assms by auto
  then show ?thesis using assms(1) set_update_subset_insert [of keys i "k @ drop (length k) (keys ! i)"] by blast
qed (use assms in \<open>simp add: list_update_beyond\<close>)

lemma group_wf_keys:
  "group_wf g \<Longrightarrow> length ks = 2 \<Longrightarrow> \<forall>k \<in> set ks. length k = 32 \<Longrightarrow> group_wf (g\<lparr>g_GTK := ks\<rparr>)"
  "group_wf g \<Longrightarrow> length ks = 2 \<Longrightarrow> \<forall>k \<in> set ks. length k = 16 \<Longrightarrow> group_wf (g\<lparr>g_IGTK := ks\<rparr>)"
  by (simp_all add: group_wf_def)

lemma group_wfD: "group_wf g \<Longrightarrow> length (g_GTK g) = 2" "group_wf g \<Longrightarrow> \<forall>k \<in> set (g_GTK g). length k = 32"
  "group_wf g \<Longrightarrow> length (g_IGTK g) = 2" "group_wf g \<Longrightarrow> \<forall>k \<in> set (g_IGTK g). length k = 16"
  by (simp_all add: group_wf_def)

lemma set_gtk_wf: "group_wf g \<Longrightarrow> length k \<le> 32 \<Longrightarrow> group_wf (g\<lparr>g_GTK := (g_GTK g)[i := k @ drop (length k) (g_GTK g ! i)]\<rparr>)"
  by (intro group_wf_keys set_key_lengths group_wfD) (simp_all add: group_wfD del: One_nat_def)

lemma set_igtk_wf: "group_wf g \<Longrightarrow> length k \<le> 16 \<Longrightarrow> group_wf (g\<lparr>g_IGTK := (g_IGTK g)[i := k @ drop (length k) (g_IGTK g ! i)]\<rparr>)"
  by (intro group_wf_keys set_key_lengths group_wfD) (simp_all add: group_wfD del: One_nat_def)

lemma new_gtk_wp:
  assumes "still wa w" "auth_env_ok env" "\<And>w'. still wa w' \<Longrightarrow> wa_conf w' = wa_conf w \<Longrightarrow> wp (f w') P"
  shows "wp (do {
     old \<leftarrow> key_at (g_GTK (wa_group w)) 1 (g_GN (wa_group w));
     (k, w) \<leftarrow> wpa_gmk_to_gtk cfg env w (c_lit ''Group key expansion'') (g_GTK_len (wa_group w));
     if length old < length k then None
     else f (grp (\<lambda>g. g\<lparr>g_GTK := (g_GTK g)[g_GN g - 1 := k @ drop (length k) old]\<rparr>) w) }) P"
proof -
  have w: "auth_wf w" "group_wf (wa_group w)" using assms(1) by (simp_all add: still_def auth_wf_def)
  define old where "old = g_GTK (wa_group w) ! (g_GN (wa_group w) - 1)"
  have len: "length old = 32" "g_GTK_len (wa_group w) \<le> 32"
    using w(2) group_wf_key [OF w(2)] by (auto simp: group_wf_def old_def)
  obtain k where k: "wpa_gmk_to_gtk cfg env w (c_lit ''Group key expansion'') (g_GTK_len (wa_group w)) = Some (k, w\<lparr>wa_rand := wa_rand w + 1\<rparr>)"
    "length k = g_GTK_len (wa_group w)"
    using gmk_to_gtk_wp [OF w(1) assms(2) labels(1,2), of cfg "g_GTK_len (wa_group w)"] by (auto simp: wp_def)
  define w2 where "w2 = grp (\<lambda>g. g\<lparr>g_GTK := (g_GTK g)[g_GN g - 1 := k @ drop (length k) old]\<rparr>) (w\<lparr>wa_rand := wa_rand w + 1\<rparr>)"
  have "still wa w2" "wa_conf w2 = wa_conf w"
    using set_gtk_wf [OF w(2), of k "g_GN (wa_group w) - 1"] k(2) len(2) assms(1) by (simp_all add: still_def auth_wf_def ctl_def old_def w2_def)
  from assms(3) [OF this] show ?thesis
    using group_wf_key [OF w(2)] k(1) len k(2) unfolding w2_def by (simp add: key_at_wp old_def del: One_nat_def)
qed

lemma new_igtk_wp:
  assumes "still wa w" "auth_env_ok env"
  shows "wp (do {
     old \<leftarrow> key_at (g_IGTK (wa_group w)) 4 (g_GN_igtk (wa_group w));
     (k, w) \<leftarrow> wpa_gmk_to_gtk cfg env w (c_lit ''IGTK key expansion'') 16;
     if length old < length k then None
     else Some (grp (\<lambda>g. g\<lparr>g_IGTK := (g_IGTK g)[g_GN_igtk g - 4 := k @ drop (length k) old]\<rparr>) w) }) (still wa)"
proof -
  have w: "auth_wf w" "group_wf (wa_group w)" using assms(1) by (simp_all add: still_def auth_wf_def)
  define old where "old = g_IGTK (wa_group w) ! (g_GN_igtk (wa_group w) - 4)"
  have len: "length old = 16" using w(2) group_wf_key [OF w(2)] by (auto simp: group_wf_def old_def)
  obtain k where k: "wpa_gmk_to_gtk cfg env w (c_lit ''IGTK key expansion'') 16 = Some (k, w\<lparr>wa_rand := wa_rand w + 1\<rparr>)" "length k = 16"
    using gmk_to_gtk_wp [OF w(1) assms(2) labels(3,4), of cfg 16] by (auto simp: wp_def)
  have "still wa (grp (\<lambda>g. g\<lparr>g_IGTK := (g_IGTK g)[g_GN_igtk g - 4 := k @ drop (length k) old]\<rparr>) (w\<lparr>wa_rand := wa_rand w + 1\<rparr>))"
    using set_igtk_wf [OF w(2), of k "g_GN_igtk (wa_group w) - 4"] k(2) assms(1) by (simp add: still_def auth_wf_def ctl_def old_def)
  then show ?thesis
    using group_wf_key [OF w(2)] k len by (simp add: key_at_wp old_def del: One_nat_def)
qed

lemma gtk_update_wp:
  assumes wf: "auth_wf wa" and env: "auth_env_ok env"
  shows "wp (wpa_gtk_update cfg env wa) (still wa)"
proof -
  have nonce: "wp (next_gnonce w \<bind> f) P" if "still wa w" "\<And>w'. still wa w' \<Longrightarrow> wp (f w') P" for w f P
    using next_gnonce_wp [of w] that by (auto simp: still_def elim!: wp_mono)
  have rest: "wp (if b then next_gnonce w \<bind> (\<lambda>w. do {
         old \<leftarrow> key_at (g_IGTK (wa_group w)) 4 (g_GN_igtk (wa_group w));
         (k, w) \<leftarrow> wpa_gmk_to_gtk cfg env w (c_lit ''IGTK key expansion'') 16;
         if length old < length k then None
         else Some (grp (\<lambda>g. g\<lparr>g_IGTK := (g_IGTK g)[g_GN_igtk g - 4 := k @ drop (length k) old]\<rparr>) w) }) else Some w) (still wa)"
    if "still wa w" for w b
    using that by (cases b) (simp_all only: if_True if_False wp_Some, intro nonce new_igtk_wp env)
  show ?thesis
    unfolding wpa_gtk_update_def Let_def
    by (intro nonce new_gtk_wp rest env still_refl wf)
qed

lemma init_gmk_wp:
  assumes "auth_wf wa" "auth_env_ok env"
  shows "wp (wpa_group_init_gmk_and_counter env wa) (\<lambda>(ok, wa'). still wa wa')"
proof -
  define buf where "buf = wa_addr wa @ ae_ntp env @ ae_group_ptr env"
  have "length buf = 22" using assms by (simp add: buf_def auth_wf_def auth_env_ok_def)
  then have expand: "\<exists>out. sha1_prf key (c_lit ''Init Counter'') buf 32 = Some (0, out) \<and> length out = 32" if "length key = 32" for key
    using that labels(6) by (intro sha1_prf_length [OF labels(5)]) simp_all
  have rnd: "length r = n" if "ae_random env i n = Some r" for i n r using assms(2) that by (auto simp: auth_env_ok_def)
  have st: "still wa (grp (g_GMK_update (\<lambda>_. k)) (wa\<lparr>wa_rand := n\<rparr>)\<lparr>wa_rand := m\<rparr>)"
      "length c = 32 \<Longrightarrow> still wa (grp (g_Counter_update (\<lambda>_. c)) (grp (g_GMK_update (\<lambda>_. k)) (wa\<lparr>wa_rand := n\<rparr>)\<lparr>wa_rand := m\<rparr>))"
    if "length k = 32" for k c n m
    using assms(1) that by (simp_all add: still_def auth_wf_def group_wf_def ctl_def)
  show ?thesis
  proof (cases "ae_random env (wa_rand wa) 32")
    case None
    then show ?thesis using assms(1) by (simp add: wpa_group_init_gmk_and_counter_def auth_random_def still_def)
  next
    case (Some k)
    note k = this rnd [OF this]
    show ?thesis
    proof (cases "ae_random env (wa_rand wa + 1) 32")
      case None
      then show ?thesis using k st(1) [OF k(2)] by (simp add: wpa_group_init_gmk_and_counter_def auth_random_def)
    next
      case (Some r)
      then obtain out where "sha1_prf r (c_lit ''Init Counter'') buf 32 = Some (0, out)" "length out = 32" using expand [OF rnd] by blast
      then show ?thesis
        using Some k st(2) [OF k(2)] by (simp add: wpa_group_init_gmk_and_counter_def auth_random_def buf_def)
    qed
  qed
qed

lemma config_keys_wp:
  assumes "auth_wf wa"
  shows "wp (wpa_group_config_group_keys cfg env wa) (\<lambda>(ok, wa'). still wa wa')"
proof -
  have g: "group_wf (wa_group wa)" using assms by (simp add: auth_wf_def)
  show ?thesis
    using assms group_wf_key [OF g]
    by (simp add: wpa_group_config_group_keys_def wpa_auth_set_key_def Let_def key_at_wp still_def del: One_nat_def)
qed

lemma ensure_init_wp:
  assumes "auth_wf wa" "auth_env_ok env"
  shows "wp (wpa_group_ensure_init cfg env wa) (still wa)"
proof -
  define w where "w = (if \<not> ae_pool_ready env then grp (g_reject_4way_hs_for_entropy_update (\<lambda>_. True)) wa
          else grp (\<lambda>g. g\<lparr>g_first_sta_seen := True, g_reject_4way_hs_for_entropy := False\<rparr>) wa)"
  have w: "still wa w" using assms(1) by (simp add: w_def still_def auth_wf_def group_wf_def ctl_def)
  then obtain ok w1 where 1: "wpa_group_init_gmk_and_counter env w = Some (ok, w1)" "still w w1"
    using init_gmk_wp [of w env] assms(2) by (auto simp: wp_def still_def)
  then obtain w2 where 2: "wpa_gtk_update cfg env w1 = Some w2" "still w1 w2"
    using gtk_update_wp [of w1 env cfg] assms(2) by (auto simp: wp_def still_def)
  then obtain ok' w3 where 3: "wpa_group_config_group_keys cfg env w2 = Some (ok', w3)" "still w2 w3"
    using config_keys_wp [of w2 cfg env] by (auto simp: wp_def still_def)
  have "still wa w3" using w 1(2) 2(2) 3(2) by (simp add: still_def)
  then show ?thesis
    using assms(1) 1(1) 2(1) 3(1) by (simp add: wpa_group_ensure_init_def w_def [symmetric] still_refl)
qed

section \<open>States of the pairwise machine\<close>

text \<open>Fields of the station that are neither control variables nor part of the invariant.\<close>

lemma sta_wf_skip [simp]:
  "sta_wf (as_Pair_update f1 sm) = sta_wf sm" "sta_wf (as_keycount_update f2 sm) = sta_wf sm" "sta_wf (as_TimeoutCtr_update f3 sm) = sta_wf sm"
  "sta_wf (as_PTK_valid_update f4 sm) = sta_wf sm" "sta_wf (as_has_GTK_update f5 sm) = sta_wf sm" "sta_wf (as_pairwise_set_update f6 sm) = sta_wf sm"
  "sta_wf (as_rekey_ptk_timer_update f7 sm) = sta_wf sm" "sta_wf (as_req_replay_counter_used_update f8 sm) = sta_wf sm"
  "sta_wf (as_ptk_state_update f9 sm) = sta_wf sm" "sta_wf (as_Disconnect_update f10 sm) = sta_wf sm" "sta_wf (as_changed_update f11 sm) = sta_wf sm"
  "sta_wf (as_DeauthenticationRequest_update f12 sm) = sta_wf sm" "sta_wf (as_AuthenticationRequest_update f13 sm) = sta_wf sm"
  "sta_wf (as_ReAuthenticationRequest_update f14 sm) = sta_wf sm" "sta_wf (as_PTKRequest_update f15 sm) = sta_wf sm"
  "sta_wf (as_TimeoutEvt_update f16 sm) = sta_wf sm" "sta_wf (as_EAPOLKeyReceived_update f17 sm) = sta_wf sm" "sta_wf (as_update_snonce_update f18 sm) = sta_wf sm"
  "sta_wf (as_PInitAKeys_update f19 sm) = sta_wf sm" "sta_wf (as_GUpdateStationKeys_update f20 sm) = sta_wf sm" "sta_wf (as_MICVerified_update f21 sm) = sta_wf sm"
  "sta_wf (as_PtkGroupInit_update f22 sm) = sta_wf sm" "sta_wf (as_Init_update f23 sm) = sta_wf sm" "sta_wf (as_started_update f24 sm) = sta_wf sm"
  "sta_wf (as_pending_1_of_4_timeout_update f25 sm) = sta_wf sm" "sta_wf (as_send_timeouts_update f26 sm) = sta_wf sm"
  "sta_wf (as_wpa_key_mgmt_update f27 sm) = sta_wf sm" "sta_wf (as_prev_key_replay_update f28 sm) = sta_wf sm"
  "sta_wf (as_TKIPRemoteMICFailures_update f29 sm) = sta_wf sm" "sta_wf (as_rx_eapol_key_secure_update f30 sm) = sta_wf sm"
  "sta_wf (as_EAPOLKeyPairwise_update f31 sm) = sta_wf sm" "sta_wf (as_EAPOLKeyRequest_update f32 sm) = sta_wf sm"
  by (simp_all add: sta_wf_def)

lemma sta_wf_fields [simp]:
  "sta_wf sm \<Longrightarrow> length k = 64 \<Longrightarrow> sta_wf (sm\<lparr>as_PTK := k\<rparr>)"
  "sta_wf sm \<Longrightarrow> length n = 32 \<Longrightarrow> sta_wf (sm\<lparr>as_ANonce := n\<rparr>)"
  "sta_wf sm \<Longrightarrow> length n = 32 \<Longrightarrow> sta_wf (sm\<lparr>as_PMK := n\<rparr>)"
  "sta_wf sm \<Longrightarrow> length n = 32 \<Longrightarrow> sta_wf (sm\<lparr>as_SNonce := n\<rparr>)"
  by (simp_all add: sta_wf_def)

lemma group_wf_count [simp]: "group_wf (g_GKeyDoneStations_update f33 g) = group_wf g" "group_wf (g_changed_update f34 g) = group_wf g"
  "group_wf (g_state_update f35 g) = group_wf g" "group_wf (g_GTKReKey_update f36 g) = group_wf g" "group_wf (g_GInit_update f37 g) = group_wf g"
  by (simp_all add: group_wf_def)

section \<open>Progress\<close>

text \<open>Every round that reports a change uses up a request, a received frame or a time-out, or moves a machine on
  towards a state it rests in.\<close>

fun ptk_rank :: "wpa_ptk_state \<Rightarrow> nat" where
  "ptk_rank WPA_PTK_AUTHENTICATION = 19" | "ptk_rank WPA_PTK_AUTHENTICATION2 = 8" | "ptk_rank WPA_PTK_INITPMK = 7"
| "ptk_rank WPA_PTK_INITPSK = 7" | "ptk_rank WPA_PTK_PTKSTART = 6" | "ptk_rank WPA_PTK_PTKCALCNEGOTIATING = 5"
| "ptk_rank WPA_PTK_PTKCALCNEGOTIATING2 = 4" | "ptk_rank WPA_PTK_PTKINITNEGOTIATING = 3" | "ptk_rank WPA_PTK_DISCONNECT = 2"
| "ptk_rank WPA_PTK_DISCONNECTED = 1" | "ptk_rank WPA_PTK_INITIALIZE = 0" | "ptk_rank WPA_PTK_PTKINITDONE = 0"

definition pairwise_rank :: "wpa_state_machine \<Rightarrow> nat" where
  "pairwise_rank sm = ptk_rank (as_ptk_state sm) + 10 * of_bool (as_Disconnect sm) + 10 * of_bool (as_DeauthenticationRequest sm) +
     30 * of_bool (as_AuthenticationRequest sm) + 30 * of_bool (as_ReAuthenticationRequest sm) + 10 * of_bool (as_PTKRequest sm) +
     10 * of_bool (as_TimeoutEvt sm) + 40 * of_bool (as_EAPOLKeyReceived sm) + 10 * of_bool (as_update_snonce sm)"

definition ptk_group_rank :: "wpa_state_machine \<Rightarrow> nat" where
  "ptk_group_rank sm = (case as_ptk_group_state sm of
       WPA_PTK_GROUP_IDLE \<Rightarrow> 0 | WPA_PTK_GROUP_REKEYNEGOTIATING \<Rightarrow> if as_GTimeoutCtr sm > 4 then 12 else 13 | _ \<Rightarrow> 1) +
     20 * of_bool (as_GUpdateStationKeys sm \<and> as_ptk_group_state sm \<noteq> WPA_PTK_GROUP_REKEYNEGOTIATING) +
     20 * of_bool (as_wpa sm = WPA_VERSION_WPA \<and> as_PInitAKeys sm) + 30 * of_bool (as_PtkGroupInit sm)"

definition group_rank :: "wpa_group \<Rightarrow> nat" where
  "group_rank g = (if g_GInit g then 0 else 100 * of_bool (g_GTKReKey g) +
     (case g_state g of WPA_GROUP_GTK_INIT \<Rightarrow> 2 | WPA_GROUP_SETKEYS \<Rightarrow> 1 | WPA_GROUP_SETKEYSDONE \<Rightarrow> 0))"

definition auth_rank :: "wpa_authenticator \<Rightarrow> nat" where
  "auth_rank wa = (if as_Init (wa_sta wa) then 0 else pairwise_rank (wa_sta wa) + ptk_group_rank (wa_sta wa)) + group_rank (wa_group wa)"

definition auth_changed :: "wpa_authenticator \<Rightarrow> bool" where
  "auth_changed wa \<longleftrightarrow> as_changed (wa_sta wa) \<or> g_changed (wa_group wa)"

abbreviation "ptk_done wa \<equiv> as_ptk_state (wa_sta wa) = WPA_PTK_PTKINITDONE"

definition ranked :: "wpa_authenticator \<Rightarrow> wpa_authenticator \<Rightarrow> bool" where
  "ranked wa wa' \<longleftrightarrow> auth_rank wa' \<le> auth_rank wa \<and> (auth_changed wa' \<longrightarrow> auth_rank wa' < auth_rank wa \<or> auth_changed wa) \<and>
     group_rank (wa_group wa') \<le> group_rank (wa_group wa) \<and> as_Init (wa_sta wa') = as_Init (wa_sta wa)"

text \<open>A pairwise key is installed only for a received frame the MIC of which verified, and no step makes up such a frame.\<close>

definition verified :: "wpa_authenticator \<Rightarrow> wpa_authenticator \<Rightarrow> bool" where
  "verified wa wa' \<longleftrightarrow> (ptk_done wa' \<longrightarrow> ptk_done wa \<or> key_received (wa_sta wa) \<and> as_MICVerified (wa_sta wa)) \<and>
     (as_EAPOLKeyReceived (wa_sta wa') \<longrightarrow> as_EAPOLKeyReceived (wa_sta wa) \<and> as_MICVerified (wa_sta wa') = as_MICVerified (wa_sta wa)) \<and>
     as_EAPOLKeyRequest (wa_sta wa') = as_EAPOLKeyRequest (wa_sta wa) \<and> as_EAPOLKeyPairwise (wa_sta wa') = as_EAPOLKeyPairwise (wa_sta wa)"

definition runs :: "wpa_authenticator \<Rightarrow> wpa_authenticator \<Rightarrow> bool" where
  "runs wa wa' \<longleftrightarrow> auth_wf wa' \<and> ranked wa wa' \<and> verified wa wa'"

lemma ranked_trans: "ranked wa wa' \<Longrightarrow> ranked wa' wa'' \<Longrightarrow> ranked wa wa''"
  unfolding ranked_def by auto

lemma verified_trans: "verified wa wa' \<Longrightarrow> verified wa' wa'' \<Longrightarrow> verified wa wa''"
  unfolding verified_def by auto

lemma runs_trans: "runs wa wa' \<Longrightarrow> runs wa' wa'' \<Longrightarrow> runs wa wa''"
  unfolding runs_def using ranked_trans verified_trans by blast

lemma runs_refl: "auth_wf wa \<Longrightarrow> runs wa wa"
  by (simp add: runs_def ranked_def verified_def)

lemma still_runs:
  assumes "still w w'" "runs wa w"
  shows "runs wa w'"
proof -
  have c: "ctl w' = ctl w" "auth_wf w'" using assms(1) by (simp_all add: still_def)
  have "runs w w'" using c
    by (simp add: runs_def ranked_def verified_def auth_rank_def auth_changed_def pairwise_rank_def ptk_group_rank_def group_rank_def ctl_def)
  then show ?thesis using assms(2) runs_trans by blast
qed

lemma runs_wp: "wp m (still w) \<Longrightarrow> runs wa w \<Longrightarrow> wp m (runs wa)"
  by (erule wp_mono) (rule still_runs)

lemmas rank_defs = ranked_def verified_def auth_rank_def auth_changed_def pairwise_rank_def ptk_group_rank_def group_rank_def

lemma sta_runs:
  assumes "auth_wf wa" "sta_wf (f (wa_sta wa))" "\<And>b. ranked wa (wa\<lparr>wa_sta := f (wa_sta wa)\<rparr>)" "verified wa (wa\<lparr>wa_sta := f (wa_sta wa)\<rparr>)"
  shows "runs wa (sta f wa)"
  using assms by (simp add: runs_def sta_def auth_wf_def)

lemma remove_ptk_wf: "auth_wf wa \<Longrightarrow> still wa (wpa_remove_ptk env wa)"
  by (simp add: wpa_remove_ptk_def wpa_auth_set_key_def Let_def still_def auth_wf_def ctl_def)

lemma clear_update_keys_runs: "auth_wf wa \<Longrightarrow> auth_wf (clear_update_keys wa)"
  by (simp add: clear_update_keys_def auth_wf_def)

lemma INITIALIZE_runs:
  assumes "auth_wf wa" "as_Init (wa_sta wa) \<or> as_ptk_state (wa_sta wa) = WPA_PTK_DISCONNECTED \<and> \<not> as_changed (wa_sta wa)"
  shows "runs wa (sm_PTK_INITIALIZE env wa)"
proof -
  define w where "w = sta (\<lambda>sm. sm\<lparr>as_changed := \<not> as_Init sm, as_ptk_state := WPA_PTK_INITIALIZE, as_GUpdateStationKeys := False,
    as_PInitAKeys := as_PInitAKeys sm \<and> as_wpa sm \<noteq> WPA_VERSION_WPA\<rparr>) wa"
  have "runs wa w" using assms by (auto simp: w_def runs_def auth_wf_def rank_defs)
  moreover have "still w (sm_PTK_INITIALIZE env wa)"
    using assms(1) by (simp add: w_def sm_PTK_INITIALIZE_def clear_update_keys_def wpa_remove_ptk_def wpa_auth_set_key_def ptk_enter_def Let_def still_def auth_wf_def ctl_def)
  ultimately show ?thesis using still_runs by blast
qed

lemma DISCONNECT_runs:
  assumes "auth_wf wa" "\<not> as_Init (wa_sta wa)" "as_Disconnect (wa_sta wa) \<or> ptk_rank (as_ptk_state (wa_sta wa)) > 2"
  shows "runs wa (sm_PTK_DISCONNECT wa)" "runs wa (sm_PTK_DISCONNECT (handshake_failed wa))"
  using assms by (auto simp: sm_PTK_DISCONNECT_def wpa_sta_disconnect_def handshake_failed_def ptk_enter_def runs_def auth_wf_def rank_defs)

lemma DISCONNECTED_runs:
  assumes "auth_wf wa" "\<not> as_Init (wa_sta wa)" "as_DeauthenticationRequest (wa_sta wa) \<or> as_ptk_state (wa_sta wa) = WPA_PTK_DISCONNECT"
  shows "runs wa (sm_PTK_DISCONNECTED wa)"
  using assms by (auto simp: sm_PTK_DISCONNECTED_def ptk_enter_def runs_def auth_wf_def rank_defs)

lemma AUTHENTICATION_runs:
  assumes "auth_wf wa" "\<not> as_Init (wa_sta wa)" "as_AuthenticationRequest (wa_sta wa)"
  shows "runs wa (sm_PTK_AUTHENTICATION wa)"
proof -
  define w where "w = sta (as_AuthenticationRequest_update (\<lambda>_. False)) (ptk_enter WPA_PTK_AUTHENTICATION wa)"
  have "runs wa w" using assms by (simp add: w_def ptk_enter_def runs_def auth_wf_def rank_defs)
  moreover have "still w (sm_PTK_AUTHENTICATION wa)"
    using assms(1) by (simp add: w_def sm_PTK_AUTHENTICATION_def ptk_enter_def Let_def still_def auth_wf_def ctl_def)
  ultimately show ?thesis using still_runs by blast
qed

lemma AUTHENTICATION2_wp:
  assumes "auth_wf wa" "auth_env_ok env" "\<not> as_Init (wa_sta wa)"
    "as_ReAuthenticationRequest (wa_sta wa) \<or> as_ptk_state (wa_sta wa) = WPA_PTK_AUTHENTICATION"
  shows "wp (sm_PTK_AUTHENTICATION2 cfg env wa) (runs wa)"
proof -
  have "auth_wf (ptk_enter WPA_PTK_AUTHENTICATION2 wa)" using assms(1) by (simp add: ptk_enter_def auth_wf_def)
  then obtain w where w: "wpa_group_ensure_init cfg env (ptk_enter WPA_PTK_AUTHENTICATION2 wa) = Some w" "still (ptk_enter WPA_PTK_AUTHENTICATION2 wa) w"
    using ensure_init_wp [OF _ assms(2), of "ptk_enter WPA_PTK_AUTHENTICATION2 wa" cfg] by (auto simp: wp_def)
  define x where "x = (\<lambda>b. sta (\<lambda>sm. sm\<lparr>as_ReAuthenticationRequest := False, as_Disconnect := b \<or> as_Disconnect sm\<rparr>) (ptk_enter WPA_PTK_AUTHENTICATION2 wa))"
  have x: "runs wa (x b)" for b
    using assms by (cases b) (auto simp: x_def ptk_enter_def runs_def auth_wf_def rank_defs)
  have rnd: "length n = 32" if "ae_random env i 32 = Some n" for i n using that assms(2) by (auto simp: auth_env_ok_def)
  have "still (x (ae_random env (wa_rand w) 32 = None)) (case ae_random env (wa_rand w) 32 of
         None \<Rightarrow> sta (as_Disconnect_update (\<lambda>_. True)) (sta (as_ReAuthenticationRequest_update (\<lambda>_. False)) w\<lparr>wa_rand := wa_rand w + 1\<rparr>)
       | Some n \<Rightarrow> sta (\<lambda>sm. sm\<lparr>as_ANonce := n, as_TimeoutCtr := 0\<rparr>) (sta (as_ReAuthenticationRequest_update (\<lambda>_. False)) w\<lparr>wa_rand := wa_rand w + 1\<rparr>))"
    using w(2) by (cases "ae_random env (wa_rand w) 32") (simp_all add: x_def still_def auth_wf_def ctl_def ptk_enter_def rnd)
  from still_runs [OF this x] show ?thesis
    by (simp add: sm_PTK_AUTHENTICATION2_def w(1) auth_random_def split: option.splits)
qed

lemma INITPMK_wp:
  assumes "auth_wf wa" "auth_env_ok env" "\<not> as_Init (wa_sta wa)" "as_ptk_state (wa_sta wa) = WPA_PTK_AUTHENTICATION2"
  shows "wp (sm_PTK_INITPMK env wa) (runs wa)"
proof -
  define w where "w = ptk_enter WPA_PTK_INITPMK wa"
  have w: "runs wa w" using assms by (simp add: w_def ptk_enter_def runs_def auth_wf_def rank_defs)
  have st: "still w (wpa_auth_set_eapol WPA_EAPOL_keyRun 0 (sta (as_req_replay_counter_used_update (\<lambda>_. False)) (sta (as_PMK_update (\<lambda>_. k)) w)))"
    if "length k = 32" for k
    using w that by (simp add: runs_def still_def auth_wf_def ctl_def)
  have st': "still w (wpa_auth_set_eapol WPA_EAPOL_keyRun 0 (sta (as_req_replay_counter_used_update (\<lambda>_. False)) w))"
    using w by (simp add: runs_def still_def auth_wf_def ctl_def)
  have "32 \<le> length pmk" if "as_pmksa (wa_sta w) = Some (pmk, i)" for pmk i
    using w that by (auto simp: runs_def auth_wf_def sta_wf_def)
  moreover have "32 \<le> length msk" if "ae_msk env = Some msk" for msk using assms(2) that by (simp add: auth_env_ok_def)
  ultimately have "wp (sm_PTK_INITPMK env wa) (still w)"
    unfolding sm_PTK_INITPMK_def Let_def w_def [symmetric] by (auto simp: wp_slice intro!: st st' split: option.splits)
  then show ?thesis using w runs_wp by blast
qed

lemma INITPSK_runs:
  assumes "auth_wf wa" "auth_env_ok env" "\<not> as_Init (wa_sta wa)" "as_ptk_state (wa_sta wa) = WPA_PTK_AUTHENTICATION2"
  shows "runs wa (sm_PTK_INITPSK env wa)"
proof -
  define w where "w = ptk_enter WPA_PTK_INITPSK wa"
  have w: "runs wa w" using assms by (simp add: w_def ptk_enter_def runs_def auth_wf_def rank_defs)
  have "still w (sm_PTK_INITPSK env wa)"
    using w assms(2) by (auto simp: sm_PTK_INITPSK_def Let_def w_def [symmetric] runs_def still_def auth_wf_def ctl_def auth_env_ok_def split: list.split)
  with w show ?thesis using still_runs by blast
qed

lemma ptkstart_kde_wp:
  assumes "auth_wf wa"
  shows "wp (ptkstart_kde cfg wa) (\<lambda>kde. \<forall>d. kde = Some d \<longrightarrow> length d \<le> 1900)"
proof -
  have pm: "wp (case as_pmksa (wa_sta wa) of
               Some (pmk, pmkid) \<Rightarrow> c_slice pmkid 0 16
             | None \<Rightarrow> rsn_pmkid cfg (as_PMK (wa_sta wa)) (wa_addr wa) (as_addr (wa_sta wa)) u) (\<lambda>i. length i \<le> 16)" for u
  proof (cases "as_pmksa (wa_sta wa)")
    case None
    have "length (as_PMK (wa_sta wa)) \<le> 32" "6 \<le> length (wa_addr wa)" "6 \<le> length (as_addr (wa_sta wa))"
      using assms by (simp_all add: auth_wf_def sta_wf_def)
    then obtain i where "rsn_pmkid cfg (as_PMK (wa_sta wa)) (wa_addr wa) (as_addr (wa_sta wa)) u = Some i" using rsn_pmkid_Some by blast
    then show ?thesis using None by (auto simp: rsn_pmkid_def Let_def split: bind_splits)
  next
    case (Some a)
    then obtain pmk i where "as_pmksa (wa_sta wa) = Some (pmk, i)" by (cases a) simp
    moreover from this have "16 \<le> length i" using assms by (auto simp: auth_wf_def sta_wf_def)
    ultimately show ?thesis by (simp add: wp_slice)
  qed
  show ?thesis
    unfolding ptkstart_kde_def Let_def by (auto intro!: wp_mono [OF pm])
qed

lemma PTKSTART_wp:
  assumes "auth_wf wa" "auth_env_ok env" "\<not> as_Init (wa_sta wa)"
    "as_PTKRequest (wa_sta wa) \<or> as_TimeoutEvt (wa_sta wa) \<or> as_ptk_state (wa_sta wa) \<in> {WPA_PTK_INITPMK, WPA_PTK_INITPSK}"
  shows "wp (sm_PTK_PTKSTART cfg env wa) (runs wa)"
proof -
  define w where "w = sta (\<lambda>sm. sm\<lparr>as_PTKRequest := False, as_TimeoutEvt := False, as_TimeoutCtr := as_TimeoutCtr sm + 1\<rparr>) (ptk_enter WPA_PTK_PTKSTART wa)"
  have "ptk_rank (as_ptk_state (wa_sta wa)) < 20" by (cases "as_ptk_state (wa_sta wa)") simp_all
  then have w: "runs wa w" using assms by (auto simp: w_def ptk_enter_def runs_def auth_wf_def rank_defs)
  then have wf: "auth_wf w" "length (as_ANonce (wa_sta w)) = 32" by (simp_all add: runs_def auth_wf_def sta_wf_def)
  obtain kde where kde: "ptkstart_kde cfg w = Some kde" "\<And>d. kde = Some d \<Longrightarrow> length d \<le> 1900"
    using ptkstart_kde_wp [OF wf(1), of cfg] by (auto simp: wp_def)
  have "wp (wpa_send_eapol cfg env w (WPA_KEY_INFO_ACK OR WPA_KEY_INFO_KEY_TYPE) None (Some (as_ANonce (wa_sta w))) kde 0 False) (still w)"
    by (rule auth_send_wp) (use wf kde(2) assms(2) in auto)
  then have "wp (sm_PTK_PTKSTART cfg env wa) (still w)"
    unfolding sm_PTK_PTKSTART_def Let_def w_def [symmetric] by (simp add: kde(1) still_refl wf)
  then show ?thesis using w runs_wp by blast
qed

lemma verify_key_mic_wp: "length ptk = 64 \<Longrightarrow> length data < 2 ^ 30 \<Longrightarrow> wp (wpa_verify_key_mic cfg ptk data) (\<lambda>_. True)"
  by (auto simp: wpa_verify_key_mic_def Let_def intro!: wp_mono [OF mic_wp])

lemma auth_derive_ptk_wp:
  assumes "auth_wf wa" "auth_env_ok env" "length pmk = 32"
  shows "wp (auth_derive_ptk cfg env wa pmk) (\<lambda>p. length p = 64)"
proof -
  have "length (wa_addr wa) = 6" "length (as_addr (wa_sta wa)) = 6" "length (as_ANonce (wa_sta wa)) = 32" "length (as_SNonce (wa_sta wa)) = 32"
    using assms(1) by (simp_all add: auth_wf_def sta_wf_def)
  note ptk = ptk_wp [OF this, of pmk]
  show ?thesis
    unfolding auth_derive_ptk_def Let_def using assms(2,3) ptk [of 48 cfg] ptk [of 64 cfg]
    by (auto simp: wp_slice auth_env_ok_def elim!: wp_mono)
qed

lemma find_ptk_wp:
  assumes "auth_wf wa" "auth_env_ok env" "\<forall>p \<in> set pmks. length p = 32"
  shows "wp (find_ptk cfg env wa pmks) (\<lambda>r. \<forall>pmk ptk. r = Some (pmk, ptk) \<longrightarrow> length pmk = 32 \<and> length ptk = 64)"
  using assms(3)
proof (induction pmks)
  case (Cons pmk pmks)
  define m where "m = (case as_last_rx_eapol_key (wa_sta wa) of
         None \<Rightarrow> if as_last_rx_eapol_key_len (wa_sta wa) < 99 then Some [] else None
       | Some data \<Rightarrow> Some data)"
  obtain d where d: "m = Some d" "length d < 2 ^ 30"
    using assms(1) by (cases "as_last_rx_eapol_key (wa_sta wa)") (simp_all add: m_def auth_wf_def sta_wf_def)
  obtain ptk where ptk: "auth_derive_ptk cfg env wa pmk = Some ptk" "length ptk = 64"
    using auth_derive_ptk_wp [OF assms(1,2), of pmk cfg] Cons.prems by (auto simp: wp_def)
  obtain ok where "wpa_verify_key_mic cfg ptk d = Some ok"
    using verify_key_mic_wp [OF ptk(2) d(2), of cfg] by (auto simp: wp_def)
  then show ?case
    using Cons ptk d by (simp add: m_def [symmetric])
qed simp

lemma CALCNEGOTIATING_wp:
  assumes "auth_wf wa" "auth_env_ok env" "\<not> as_Init (wa_sta wa)"
    "as_ptk_state (wa_sta wa) \<in> {WPA_PTK_PTKSTART, WPA_PTK_PTKCALCNEGOTIATING} \<and> as_EAPOLKeyReceived (wa_sta wa) \<or>
     as_ptk_state (wa_sta wa) = WPA_PTK_PTKINITNEGOTIATING \<and> as_update_snonce (wa_sta wa)"
  shows "wp (sm_PTK_PTKCALCNEGOTIATING cfg env wa) (runs wa)"
proof -
  define w where "w = sta (\<lambda>sm. sm\<lparr>as_EAPOLKeyReceived := False, as_update_snonce := False\<rparr>) (ptk_enter WPA_PTK_PTKCALCNEGOTIATING wa)"
  have w: "runs wa w" using assms by (auto simp: w_def ptk_enter_def runs_def auth_wf_def rank_defs)
  then have wf: "auth_wf w" "length (as_PMK (wa_sta w)) = 32" by (simp_all add: runs_def auth_wf_def sta_wf_def)
  define psk where "psk = wpa_key_mgmt_wpa_psk (as_wpa_key_mgmt (wa_sta w))"
  have "\<forall>p \<in> set (if psk then ae_psks env else [as_PMK (wa_sta w)]). length p = 32"
    using wf(2) assms(2) by (simp add: auth_env_ok_def)
  then obtain r where r: "find_ptk cfg env w (if psk then ae_psks env else [as_PMK (wa_sta w)]) = Some r"
    "\<And>pmk ptk. r = Some (pmk, ptk) \<Longrightarrow> length pmk = 32 \<and> length ptk = 64"
    using find_ptk_wp [OF wf(1) assms(2), of "if psk then ae_psks env else [as_PMK (wa_sta w)]" cfg] by (auto simp: wp_def)
  define f :: "bytes \<Rightarrow> bytes \<Rightarrow> wpa_state_machine \<Rightarrow> wpa_state_machine" where "f = (\<lambda>pmk ptk sm. sm\<lparr>as_pending_1_of_4_timeout := False, as_send_timeouts := [],
             as_PMK := (if psk then take 32 pmk else as_PMK sm), as_MICVerified := True, as_PTK := ptk, as_PTK_valid := True\<rparr>)"
  have f: "runs wa (sta (f pmk ptk) w)" if "length pmk = 32" "length ptk = 64" for pmk ptk
  proof -
    have "\<not> as_EAPOLKeyReceived (wa_sta w)" by (simp add: w_def)
    then have "runs w (sta (f pmk ptk) w)" using wf that by (simp add: f_def runs_def auth_wf_def rank_defs)
    with w show ?thesis by (rule runs_trans)
  qed
  show ?thesis
    unfolding sm_PTK_PTKCALCNEGOTIATING_def Let_def w_def [symmetric] psk_def [symmetric] r(1) Option.bind.bind_lunit
    using r(2) w by (auto split: option.split intro!: f [unfolded f_def])
qed

lemma CALCNEGOTIATING2_runs:
  assumes "auth_wf wa" "\<not> as_Init (wa_sta wa)" "as_ptk_state (wa_sta wa) = WPA_PTK_PTKCALCNEGOTIATING"
  shows "runs wa (sm_PTK_PTKCALCNEGOTIATING2 wa)"
  using assms by (simp add: sm_PTK_PTKCALCNEGOTIATING2_def ptk_enter_def runs_def auth_wf_def rank_defs)

lemma length_add_kde: "length (wpa_add_kde k d e) = 6 + length d + (case e of None \<Rightarrow> 0 | Some x \<Rightarrow> length x)"
  by (simp add: wpa_add_kde_def WPA_PUT_BE32_def Let_def split: option.split)

lemma kde_add_wp:
  assumes "auth_wf wa" "auth_env_ok env"
  shows "wp (ieee80211w_kde_add cfg env wa) (\<lambda>(k, wa'). still wa wa' \<and> length k \<le> 100 \<and> wa_sta wa' = wa_sta wa \<and> wa_conf wa' = wa_conf wa)"
proof -
  have g: "group_wf (wa_group wa)" using assms(1) by (simp add: auth_wf_def)
  then have l: "length (g_IGTK (wa_group wa) ! (g_GN_igtk (wa_group wa) - 4)) = 16"
    using group_wf_key(2) [OF g] group_wfD(4) [OF g] by simp
  have rnd: "length n = 16" if "ae_random env i 16 = Some n" for i n using that assms(2) by (auto simp: auth_env_ok_def)
  show ?thesis
    using group_wf_key [OF g] assms(1) l
    by (auto simp: ieee80211w_kde_add_def Let_def key_at_wp auth_random_def still_def length_add_kde rnd min_def split: option.split)
qed

lemma gtk_for_sta_wp:
  assumes "auth_wf wa" "auth_env_ok env"
  shows "wp (gtk_for_sta env wa) (\<lambda>(k, wa'). still wa wa' \<and> (\<forall>x. k = Some x \<longrightarrow> length x \<le> 32) \<and> wa_sta wa' = wa_sta wa \<and> wa_group wa' = wa_group wa)"
proof -
  have g: "group_wf (wa_group wa)" "g_GTK_len (wa_group wa) \<le> 32" using assms(1) by (simp_all add: auth_wf_def group_wf_def)
  have rnd: "length n = m" if "ae_random env i m = Some n" for i n m using that assms(2) by (auto simp: auth_env_ok_def)
  show ?thesis
    using group_wf_key [OF g(1)] assms(1) g(2) rnd
    by (auto simp: gtk_for_sta_def Let_def key_at_wp auth_random_def still_def min_def)
qed

lemma ie_for_sta_wp: "auth_wf wa \<Longrightarrow> wp (ie_for_sta wa) (\<lambda>ie. length ie \<le> 512)"
proof -
  assume "auth_wf wa"
  then have o: "own_ie_ok (wa_wpa_ie wa)" by (simp add: auth_wf_def)
  then have l: "wa_wpa_ie wa \<noteq> []" "1 < length (wa_wpa_ie wa)" by (auto simp: own_ie_ok_def)
  show ?thesis using o l
    by (auto simp: ie_for_sta_def own_ie_ok_def Let_def c_read_def wp_slice min_def)
qed

lemma seqnum_8: "auth_env_ok env \<Longrightarrow> length (case ae_seqnum env i of None \<Rightarrow> replicate 8 0 | Some r \<Rightarrow> r) = 8"
  by (simp add: auth_env_ok_def split: option.split)

lemma INITNEGOTIATING_wp:
  assumes "auth_wf wa" "auth_env_ok env" "\<not> as_Init (wa_sta wa)"
    "as_ptk_state (wa_sta wa) = WPA_PTK_PTKCALCNEGOTIATING2 \<or> as_ptk_state (wa_sta wa) = WPA_PTK_PTKINITNEGOTIATING \<and> as_TimeoutEvt (wa_sta wa)"
  shows "wp (sm_PTK_PTKINITNEGOTIATING cfg env wa) (runs wa)"
proof -
  define w where "w = sta (\<lambda>sm. sm\<lparr>as_TimeoutEvt := False, as_TimeoutCtr := as_TimeoutCtr sm + 1\<rparr>) (ptk_enter WPA_PTK_PTKINITNEGOTIATING wa)"
  have w: "runs wa w" using assms by (auto simp: w_def ptk_enter_def runs_def auth_wf_def rank_defs)
  then have wf: "auth_wf w" by (simp add: runs_def)
  then have nonce: "length (as_ANonce (wa_sta w)) = 32" by (simp add: auth_wf_def sta_wf_def)
  obtain ie where ie: "ie_for_sta w = Some ie" "length ie \<le> 512" using ie_for_sta_wp [OF wf] by (auto simp: wp_def)
  have send: "wp (wpa_send_eapol cfg env v info rsc (Some (as_ANonce (wa_sta w))) (Some kde) i e) (still w)"
    if "still w v" "wa_sta v = wa_sta w" "length kde \<le> 1900" "\<And>r. rsc = Some r \<Longrightarrow> length r = 8" for v info rsc kde i e
  proof (rule still_wp [OF auth_send_wp])
  qed (use that nonce assms(2) in \<open>auto simp: still_def\<close>)
  obtain gtk v where v: "gtk_for_sta env w = Some (gtk, v)" "still w v" "\<And>x. gtk = Some x \<Longrightarrow> length x \<le> 32" "wa_sta v = wa_sta w"
    using gtk_for_sta_wp [OF wf assms(2)] by (auto simp: wp_def)
  obtain k1 v1 where k1: "ieee80211w_kde_add cfg env v = Some (k1, v1)" "still v v1" "length k1 \<le> 100" "wa_sta v1 = wa_sta v"
    using kde_add_wp [of v env cfg] v(2) assms(2) by (auto simp: wp_def still_def)
  obtain k2 v2 where k2: "ieee80211w_kde_add cfg env w = Some (k2, v2)" "still w v2" "length k2 \<le> 100" "wa_sta v2 = wa_sta w"
    using kde_add_wp [OF wf assms(2), of cfg] by (auto simp: wp_def)
  define rsc where "rsc = (case ae_seqnum env (g_GN (wa_group w)) of None \<Rightarrow> replicate 8 0 | Some r \<Rightarrow> r)"
  have "length rsc = 8" using seqnum_8 [OF assms(2)] by (simp add: rsc_def)
  then have "wp (sm_PTK_PTKINITNEGOTIATING cfg env wa) (still w)"
    unfolding sm_PTK_PTKINITNEGOTIATING_def Let_def w_def [symmetric] rsc_def [symmetric]
    using still_refl [OF wf] v k1 ie still_trans [OF v(2) k1(2)] k2
    by (auto simp: length_add_kde split: option.split intro!: send)
  then show ?thesis using w runs_wp by blast
qed

lemma INITDONE_runs:
  assumes "auth_wf wa" "\<not> as_Init (wa_sta wa)" "as_ptk_state (wa_sta wa) = WPA_PTK_PTKINITNEGOTIATING" "key_received (wa_sta wa)" "as_MICVerified (wa_sta wa)"
  shows "runs wa (sm_PTK_PTKINITDONE env wa)"
proof -
  define x where "x = (\<lambda>b. sta (\<lambda>sm. sm\<lparr>as_EAPOLKeyReceived := False, as_PInitAKeys := b \<or> as_PInitAKeys sm\<rparr>) (ptk_enter WPA_PTK_PTKINITDONE wa))"
  have x: "runs wa (x b)" for b
    using assms by (cases b) (auto simp: x_def ptk_enter_def runs_def auth_wf_def rank_defs)
  have "still (x True) (sm_PTK_PTKINITDONE env wa) \<or> still (x False) (sm_PTK_PTKINITDONE env wa)"
    using assms(1) by (auto simp: x_def sm_PTK_PTKINITDONE_def wpa_sta_disconnect_def wpa_auth_set_key_def ptk_enter_def Let_def still_def auth_wf_def ctl_def)
  then show ?thesis using x still_runs by blast
qed

lemma PTK_switch_wp:
  assumes "auth_wf wa" "auth_env_ok env" "\<not> as_Init (wa_sta wa)" "\<not> auth_changed wa"
  shows "wp (sm_PTK_switch cfg env wa) (runs wa)"
  using assms unfolding sm_PTK_switch_def Let_def auth_changed_def
  by (auto simp: runs_refl split: wpa_ptk_state.split
      intro!: DISCONNECT_runs DISCONNECTED_runs INITIALIZE_runs AUTHENTICATION2_wp INITPMK_wp INITPSK_runs PTKSTART_wp CALCNEGOTIATING_wp
        CALCNEGOTIATING2_runs INITNEGOTIATING_wp INITDONE_runs)

lemma PTK_step_wp:
  assumes "auth_wf wa" "auth_env_ok env" "\<not> auth_changed wa"
  shows "wp (sm_PTK_step cfg env wa) (runs wa)"
  using assms unfolding sm_PTK_step_def Let_def
  by (auto intro!: INITIALIZE_runs DISCONNECT_runs DISCONNECTED_runs AUTHENTICATION_runs AUTHENTICATION2_wp PTKSTART_wp PTK_switch_wp)

section \<open>The group key machine of the station\<close>

lemma sta_wf_group:
  "sta_wf sm \<Longrightarrow> s = WPA_PTK_GROUP_IDLE \<longrightarrow> n = 0 \<Longrightarrow> sta_wf (sm\<lparr>as_ptk_group_state := s, as_GTimeoutCtr := n\<rparr>)"
  "sta_wf sm \<Longrightarrow> s \<noteq> WPA_PTK_GROUP_IDLE \<Longrightarrow> sta_wf (sm\<lparr>as_ptk_group_state := s\<rparr>)"
  by (simp_all add: sta_wf_def)

lemma GROUP_IDLE_runs:
  assumes "auth_wf wa" "as_Init (wa_sta wa) \<or> as_PtkGroupInit (wa_sta wa)"
  shows "runs wa (sta (as_PtkGroupInit_update (\<lambda>_. False)) (sm_GROUP_IDLE wa))"
proof -
  define w where "w = sta (\<lambda>sm. sm\<lparr>as_ptk_group_state := WPA_PTK_GROUP_IDLE, as_GTimeoutCtr := 0, as_changed := \<not> as_Init sm, as_PtkGroupInit := False\<rparr>) wa"
  have "runs wa w" using assms sta_wf_group(1) [of "wa_sta wa" WPA_PTK_GROUP_IDLE 0]
    by (auto simp: w_def runs_def auth_wf_def rank_defs split: wpa_ptk_group_state.split)
  moreover have "still w (sta (as_PtkGroupInit_update (\<lambda>_. False)) (sm_GROUP_IDLE wa))"
    using assms(1) by (simp add: w_def sm_GROUP_IDLE_def ptk_group_enter_def Let_def still_def auth_wf_def sta_wf_def ctl_def)
  ultimately show ?thesis using still_runs by blast
qed

lemma GROUP_IDLE_runs':
  assumes "auth_wf wa" "\<not> as_Init (wa_sta wa)" "as_ptk_group_state (wa_sta wa) \<in> {WPA_PTK_GROUP_KEYERROR, WPA_PTK_GROUP_REKEYESTABLISHED}"
  shows "runs wa (sm_GROUP_IDLE wa)"
proof -
  define w where "w = sta (\<lambda>sm. sm\<lparr>as_ptk_group_state := WPA_PTK_GROUP_IDLE, as_GTimeoutCtr := 0, as_changed := True\<rparr>) wa"
  have "runs wa w" using assms sta_wf_group(1) [of "wa_sta wa" WPA_PTK_GROUP_IDLE 0]
    by (auto simp: w_def runs_def auth_wf_def rank_defs)
  moreover have "still w (sm_GROUP_IDLE wa)"
    using assms(1,2) by (simp add: w_def sm_GROUP_IDLE_def ptk_group_enter_def Let_def still_def auth_wf_def sta_wf_def ctl_def)
  ultimately show ?thesis using still_runs by blast
qed

lemma GROUP_ESTABLISHED_runs:
  assumes "auth_wf wa" "\<not> as_Init (wa_sta wa)" "as_ptk_group_state (wa_sta wa) = WPA_PTK_GROUP_REKEYNEGOTIATING" "as_EAPOLKeyReceived (wa_sta wa)"
  shows "runs wa (sm_GROUP_REKEYESTABLISHED wa)"
proof -
  define w where "w = sta (\<lambda>sm. sm\<lparr>as_ptk_group_state := WPA_PTK_GROUP_REKEYESTABLISHED, as_GTimeoutCtr := 0, as_changed := True,
    as_EAPOLKeyReceived := False, as_GUpdateStationKeys := False\<rparr>) wa"
  have "runs wa w" using assms sta_wf_group(1) [of "wa_sta wa" WPA_PTK_GROUP_REKEYESTABLISHED 0]
    by (auto simp: w_def runs_def auth_wf_def rank_defs)
  moreover have "still w (sm_GROUP_REKEYESTABLISHED wa)"
    using assms(1) by (simp add: w_def sm_GROUP_REKEYESTABLISHED_def clear_update_keys_def ptk_group_enter_def Let_def still_def auth_wf_def sta_wf_def ctl_def)
  ultimately show ?thesis using still_runs by blast
qed

lemma GROUP_KEYERROR_runs:
  assumes "auth_wf wa" "\<not> as_Init (wa_sta wa)" "as_ptk_group_state (wa_sta wa) = WPA_PTK_GROUP_REKEYNEGOTIATING"
  shows "runs wa (sm_GROUP_KEYERROR wa)"
proof -
  define w where "w = sta (\<lambda>sm. sm\<lparr>as_ptk_group_state := WPA_PTK_GROUP_KEYERROR, as_changed := True,
    as_Disconnect := True, as_GUpdateStationKeys := False\<rparr>) wa"
  have "runs wa w" using assms sta_wf_group(2) [of "wa_sta wa" WPA_PTK_GROUP_KEYERROR]
    by (auto simp: w_def runs_def auth_wf_def rank_defs)
  moreover have "still w (sm_GROUP_KEYERROR wa)"
    using assms(1) by (simp add: w_def sm_GROUP_KEYERROR_def clear_update_keys_def ptk_group_enter_def Let_def still_def auth_wf_def sta_wf_def ctl_def)
  ultimately show ?thesis using still_runs by blast
qed

lemma GROUP_REKEY_wp:
  assumes "auth_wf wa" "auth_env_ok env" "\<not> as_Init (wa_sta wa)"
    and state: "as_ptk_group_state (wa_sta wa) = WPA_PTK_GROUP_IDLE \<and>
        (as_GUpdateStationKeys (wa_sta wa) \<or> as_wpa (wa_sta wa) = WPA_VERSION_WPA \<and> as_PInitAKeys (wa_sta wa)) \<or>
      as_ptk_group_state (wa_sta wa) = WPA_PTK_GROUP_REKEYNEGOTIATING \<and> as_TimeoutEvt (wa_sta wa) \<and> \<not> as_GTimeoutCtr (wa_sta wa) > 4"
  shows "wp (sm_GROUP_REKEYNEGOTIATING cfg env wa) (runs wa)"
proof -
  define w where "w = sta (as_GTimeoutCtr_update (\<lambda>n. n + 1)) (ptk_group_enter WPA_PTK_GROUP_REKEYNEGOTIATING wa)"
  have ctr: "as_ptk_group_state (wa_sta wa) = WPA_PTK_GROUP_IDLE \<Longrightarrow> as_GTimeoutCtr (wa_sta wa) = 0"
    using assms(1) by (simp add: auth_wf_def sta_wf_def)
  have wf: "auth_wf w" using assms(1) by (simp add: w_def ptk_group_enter_def auth_wf_def sta_wf_def)
  show ?thesis
  proof (cases "as_GTimeoutCtr (wa_sta w) > 4")
    case True
    then have "runs wa w" using state ctr assms(3) wf by (auto simp: w_def ptk_group_enter_def runs_def rank_defs)
    then show ?thesis using True unfolding sm_GROUP_REKEYNEGOTIATING_def Let_def w_def [symmetric] by simp
  next
    case False
    define u where "u = sta (as_TimeoutEvt_update (\<lambda>_. False))
      (if as_wpa (wa_sta w) = WPA_VERSION_WPA then sta (as_PInitAKeys_update (\<lambda>_. False)) w else w)"
    have wfu: "auth_wf u" using wf by (simp add: u_def auth_wf_def)
    have u: "runs wa u" using state ctr assms(3) wfu False by (auto simp: u_def w_def ptk_group_enter_def runs_def rank_defs)
    have gn: "length (g_GNonce (wa_group u)) = 32" using wfu by (simp add: auth_wf_def group_wf_def)
    have send: "wp (wpa_send_eapol cfg env v info (Some rsc) (Some (g_GNonce (wa_group u))) (Some kde) i e) (still u)"
      if "still u v" "length kde \<le> 1900" "length rsc = 8" for v info rsc kde i e
    proof (rule still_wp [OF auth_send_wp])
    qed (use that gn assms(2) in \<open>auto simp: still_def\<close>)
    obtain gtk v where v: "gtk_for_sta env u = Some (gtk, v)" "still u v" "\<And>x. gtk = Some x \<Longrightarrow> length x \<le> 32" "wa_group v = wa_group u"
      using gtk_for_sta_wp [OF wfu assms(2)] by (auto simp: wp_def)
    obtain k1 v1 where k1: "ieee80211w_kde_add cfg env v = Some (k1, v1)" "still v v1" "length k1 \<le> 100"
      using kde_add_wp [of v env cfg] v(2) assms(2) by (auto simp: wp_def still_def)
    define rsc where "rsc = (if g_state (wa_group u) = WPA_GROUP_SETKEYSDONE
             then (case ae_seqnum env (g_GN (wa_group u)) of None \<Rightarrow> replicate 8 0 | Some r \<Rightarrow> r) else replicate 8 0)"
    have rsc: "length rsc = 8" using seqnum_8 [OF assms(2)] by (simp add: rsc_def)
    have "wp (sm_GROUP_REKEYNEGOTIATING cfg env wa) (still u)"
      unfolding sm_GROUP_REKEYNEGOTIATING_def Let_def w_def [symmetric] u_def [symmetric] rsc_def [symmetric]
      using False v k1 rsc still_trans [OF v(2) k1(2)] by (auto simp: length_add_kde split: option.split intro!: send)
    then show ?thesis using u runs_wp by blast
  qed
qed

lemma GROUP_step_wp:
  assumes "auth_wf wa" "auth_env_ok env"
  shows "wp (sm_GROUP_step cfg env wa) (runs wa)"
  using assms unfolding sm_GROUP_step_def Let_def
  by (auto simp: runs_refl split: wpa_ptk_group_state.split
      intro!: GROUP_IDLE_runs GROUP_IDLE_runs' GROUP_ESTABLISHED_runs GROUP_KEYERROR_runs GROUP_REKEY_wp)

end
