(* ===== verification/Wpa_Auth_Run.thy ===== *)
theory Wpa_Auth_Run
  imports Wpa_Auth_Safe
begin

text \<open>
  The authenticator as a whole: the group machine, stated over the interface \<open>station_step\<close> because it runs the machines
  of a station from inside; the step loops, which end because the rank sinks; reception of a frame; the events and the start.
\<close>

section \<open>The group machine\<close>

text \<open>What the group machine relies on when it runs the machines of a station: the state stays well-formed and the ranks
  do not grow.\<close>

definition settles :: "wpa_authenticator \<Rightarrow> wpa_authenticator \<Rightarrow> bool" where
  "settles wa wa' \<longleftrightarrow> auth_wf wa' \<and> auth_rank wa' \<le> auth_rank wa \<and> group_rank (wa_group wa') \<le> group_rank (wa_group wa) \<and>
     as_Init (wa_sta wa') = as_Init (wa_sta wa) \<and> (as_changed (wa_sta wa') \<longrightarrow> as_changed (wa_sta wa)) \<and>
     (g_changed (wa_group wa') \<longrightarrow> g_changed (wa_group wa)) \<and> verified wa wa'"

text \<open>What a step of the group machine achieves.\<close>

definition regroups :: "wpa_authenticator \<Rightarrow> wpa_authenticator \<Rightarrow> bool" where
  "regroups wa wa' \<longleftrightarrow> auth_wf wa' \<and> auth_rank wa' \<le> auth_rank wa \<and> group_rank (wa_group wa') \<le> group_rank (wa_group wa) \<and>
     as_Init (wa_sta wa') = as_Init (wa_sta wa) \<and> (as_changed (wa_sta wa') \<longrightarrow> as_changed (wa_sta wa)) \<and>
     (g_changed (wa_group wa') \<longrightarrow> g_changed (wa_group wa) \<or> auth_rank wa' < auth_rank wa \<and> group_rank (wa_group wa') < group_rank (wa_group wa)) \<and>
     (ptk_done wa' \<longrightarrow> ptk_done wa) \<and> verified wa wa'"

lemma settles_refl: "auth_wf wa \<Longrightarrow> settles wa wa"
  by (simp add: settles_def verified_def)

lemma regroups_runs: "regroups wa wa' \<Longrightarrow> runs wa wa'"
  unfolding regroups_def runs_def ranked_def auth_changed_def by auto

lemma still_regroups:
  assumes "still w w'" "regroups wa w"
  shows "regroups wa w'"
proof -
  have c: "ctl w' = ctl w" "auth_wf w'" using assms(1) by (simp_all add: still_def)
  then have "auth_rank w' = auth_rank w" "group_rank (wa_group w') = group_rank (wa_group w)" "verified w w'"
    "as_Init (wa_sta w') = as_Init (wa_sta w)" "as_changed (wa_sta w') = as_changed (wa_sta w)"
    "g_changed (wa_group w') = g_changed (wa_group w)" "as_ptk_state (wa_sta w') = as_ptk_state (wa_sta w)"
    by (simp_all add: verified_def auth_rank_def pairwise_rank_def ptk_group_rank_def group_rank_def ctl_def)
  then show ?thesis using assms(2) c verified_trans unfolding regroups_def by metis
qed

lemma regroups_settles:
  assumes "settles w w'" "regroups wa w" "ptk_done wa"
  shows "regroups wa w'"
  using assms verified_trans [of wa w w'] unfolding regroups_def settles_def by auto

lemma setkeysdone_wp:
  assumes "auth_wf wa" "\<not> g_GInit (wa_group wa)" "g_state (wa_group wa) \<noteq> WPA_GROUP_SETKEYSDONE"
  shows "wp (wpa_group_setkeysdone cfg env wa) (regroups wa)"
proof -
  define w where "w = grp (\<lambda>g. g\<lparr>g_changed := True, g_state := WPA_GROUP_SETKEYSDONE\<rparr>) wa"
  have w: "regroups wa w" using assms
    by (cases "g_state (wa_group wa)") (simp_all add: w_def regroups_def verified_def auth_wf_def auth_rank_def group_rank_def)
  then have "auth_wf w" by (simp add: regroups_def)
  from config_keys_wp [OF this, of cfg env] show ?thesis
    using w unfolding wpa_group_setkeysdone_def w_def [symmetric] by (auto intro: still_regroups elim!: wp_mono)
qed

lemma group_wf_init: "length (g_Counter g) = 32 \<Longrightarrow> length (g_GMK g) = 32 \<Longrightarrow> length (g_GNonce g) = 32 \<Longrightarrow> g_GTK_len g \<le> 32 \<Longrightarrow>
   length (g_IGTK g) = 2 \<Longrightarrow> \<forall>k \<in> set (g_IGTK g). length k = 16 \<Longrightarrow>
   group_wf (g\<lparr>g_changed := b, g_state := s, g_GTK := replicate 2 (replicate 32 0), g_GN := 1, g_GM := 2, g_GN_igtk := 4, g_GM_igtk := 5\<rparr>)"
  by (simp add: group_wf_def)

lemma gtk_init_wp:
  assumes "auth_wf wa" "auth_env_ok env" "g_GInit (wa_group wa)"
  shows "wp (wpa_group_gtk_init cfg env wa) (regroups wa)"
proof -
  define w where "w = grp (\<lambda>g. g\<lparr>g_changed := False, g_state := WPA_GROUP_GTK_INIT,
       g_GTK := replicate 2 (replicate 32 0), g_GN := 1, g_GM := 2, g_GN_igtk := 4, g_GM_igtk := 5\<rparr>) wa"
  have "group_wf (wa_group w)" unfolding w_def grp_simps
    by (rule group_wf_init) (use assms(1) in \<open>simp_all add: auth_wf_def group_wf_def\<close>)
  then have "auth_wf w" using assms(1) by (simp add: w_def auth_wf_def)
  then have w: "regroups wa w" using assms(3)
    by (simp add: w_def regroups_def verified_def auth_rank_def group_rank_def)
  from gtk_update_wp [OF \<open>auth_wf w\<close> assms(2), of cfg] show ?thesis
    using w unfolding wpa_group_gtk_init_def w_def [symmetric] by (auto intro: still_regroups elim!: wp_mono)
qed

lemma group_wf_swap: "group_wf g \<Longrightarrow> group_wf (g\<lparr>g_GM := g_GN g, g_GN := g_GM g, g_GM_igtk := g_GN_igtk g, g_GN_igtk := g_GM_igtk g\<rparr>)"
  by (simp add: group_wf_def)

locale station_step =
  fixes step :: "auth_env \<Rightarrow> wpa_authenticator \<Rightarrow> wpa_authenticator option"
  assumes step_wp: "auth_env_ok env \<Longrightarrow> auth_wf wa \<Longrightarrow> wp (step env wa) (settles wa)"
begin

lemma setkeys_wp:
  assumes "auth_wf wa" "auth_env_ok env" "\<not> g_GInit (wa_group wa)" "g_GTKReKey (wa_group wa)"
  shows "wp (wpa_group_setkeys cfg env (step env) wa) (regroups wa)"
proof -
  define w where "w = grp (\<lambda>g. g\<lparr>g_changed := True, g_state := WPA_GROUP_SETKEYS, g_GTKReKey := False,
       g_GM := g_GN g, g_GN := g_GM g, g_GM_igtk := g_GN_igtk g, g_GN_igtk := g_GM_igtk g\<rparr>) wa"
  have wf: "auth_wf w" using assms(1) by (auto simp: w_def auth_wf_def intro: group_wf_swap [of "(wa_group wa)\<lparr>g_changed := True, g_state := WPA_GROUP_SETKEYS, g_GTKReKey := False\<rparr>", simplified])
  then obtain v where v: "wpa_gtk_update cfg env w = Some v" "still w v" using gtk_update_wp [OF _ assms(2)] by (auto simp: wp_def)
  define x where "x = (\<lambda>b. sta (as_GUpdateStationKeys_update (\<lambda>_. b)) w)"
  have x: "regroups wa (x b)" for b
    using wf assms(3,4) by (cases b) (auto simp: x_def w_def regroups_def verified_def auth_wf_def auth_rank_def pairwise_rank_def ptk_group_rank_def group_rank_def)
  have u: "regroups wa (sta (as_GUpdateStationKeys_update (\<lambda>_. b)) (grp (g_GKeyDoneStations_update (\<lambda>_. n)) v))" for b n
    by (rule still_regroups [OF _ x [of b]]) (use v(2) in \<open>simp add: still_def x_def ctl_def auth_wf_def\<close>)
  have u': "regroups wa (grp (g_GKeyDoneStations_update (\<lambda>_. n)) v)" for n
    by (rule still_regroups [OF _ x [of "as_GUpdateStationKeys (wa_sta w)"]]) (use v(2) in \<open>simp add: still_def x_def ctl_def auth_wf_def\<close>)
  have st: "as_ptk_state (wa_sta v) = as_ptk_state (wa_sta wa)" using v(2) by (simp add: still_def ctl_def w_def)
  have n: "wp (step env (sta (as_GUpdateStationKeys_update (\<lambda>_. True)) (grp (g_GKeyDoneStations_update (\<lambda>_. n)) v))) (regroups wa)"
    if "ptk_done wa" for n
    using step_wp [OF assms(2)] u [of True n] that by (auto simp: regroups_def intro!: wp_mono [OF step_wp [OF assms(2)]] dest: regroups_settles [unfolded regroups_def])
  show ?thesis
    unfolding wpa_group_setkeys_def w_def [symmetric] v(1) Option.bind.bind_lunit wpa_group_update_sta_def
    using u u' n st by (simp add: grp_def o_def)
qed

lemma group_sm_step_wp:
  assumes "auth_wf wa" "auth_env_ok env"
  shows "wp (wpa_group_sm_step cfg env (step env) wa) (regroups wa)"
proof -
  have "regroups wa wa" using assms(1) by (simp add: regroups_def verified_def)
  then show ?thesis
    using assms unfolding wpa_group_sm_step_def Let_def
    by (auto intro!: gtk_init_wp setkeysdone_wp setkeys_wp)
qed

end

interpretation idle: station_step "\<lambda>_. Some"
  by unfold_locales (simp add: settles_refl)

section \<open>The loops end\<close>

lemma auth_wf_reset: "auth_wf (sta (as_changed_update (\<lambda>_. c)) wa) = auth_wf wa"
  "auth_wf (grp (g_changed_update (\<lambda>_. b)) wa) = auth_wf wa"
  by (simp_all add: auth_wf_def)

lemma round_wp:
  assumes "auth_wf wa" "auth_env_ok env"
  shows "wp (wpa_sm_round cfg env wa) (runs (grp (g_changed_update (\<lambda>_. False)) (sta (as_changed_update (\<lambda>_. False)) wa)))"
proof -
  define w where "w = grp (g_changed_update (\<lambda>_. False)) (sta (as_changed_update (\<lambda>_. False)) wa)"
  have wf: "auth_wf w" "\<not> auth_changed w" using assms(1) by (simp_all add: w_def auth_wf_reset auth_changed_def)
  obtain w1 where w1: "sm_PTK_step cfg env w = Some w1" "runs w w1" using PTK_step_wp [OF wf(1) assms(2) wf(2), of cfg] by (auto simp: wp_def)
  then obtain w2 where w2: "sm_GROUP_step cfg env w1 = Some w2" "runs w1 w2"
    using GROUP_step_wp [of w1 env cfg] assms(2) by (auto simp: wp_def runs_def)
  then obtain w3 where w3: "wpa_group_sm_step cfg env Some w2 = Some w3" "regroups w2 w3"
    using idle.group_sm_step_wp [of w2 env cfg] assms(2) by (auto simp: wp_def runs_def)
  have "runs w w3" using w1(2) w2(2) regroups_runs [OF w3(2)] runs_trans by blast
  then show ?thesis unfolding wpa_sm_round_def Let_def w_def [symmetric] by (simp add: w1(1) w2(1) w3(1))
qed

lemma reset_rank:
  "auth_rank (sta (as_changed_update (\<lambda>_. c)) wa) = auth_rank wa" "verified (sta (as_changed_update (\<lambda>_. c)) wa) w = verified wa w"
  "auth_rank (grp (g_changed_update (\<lambda>_. b)) wa) = auth_rank wa" "verified (grp (g_changed_update (\<lambda>_. b)) wa) w = verified wa w"
  "group_rank (g\<lparr>g_changed := b\<rparr>) = group_rank g"
  by (simp_all add: auth_rank_def pairwise_rank_def ptk_group_rank_def group_rank_def verified_def)

lemma auth_sm_step_wp:
  assumes "auth_wf wa" "auth_env_ok env"
  shows "wp (auth_sm_step cfg env wa) (\<lambda>wa'. settles wa wa' \<and> \<not> auth_changed wa')"
  using assms(1)
proof (induction "auth_rank wa" arbitrary: wa rule: less_induct)
  case less
  obtain w where w: "wpa_sm_round cfg env wa = Some w" "runs (grp (g_changed_update (\<lambda>_. False)) (sta (as_changed_update (\<lambda>_. False)) wa)) w"
    using round_wp [OF less.prems assms(2), of cfg] by (auto simp: wp_def)
  note r = w(2) [unfolded runs_def ranked_def reset_rank auth_changed_def, simplified reset_rank grp_simps sta_simps, simplified]
  show ?case
  proof (cases "auth_changed w")
    case True
    then have "auth_rank w < auth_rank wa" "auth_wf w" using r by (auto simp: auth_changed_def)
    from less.hyps [OF this] have "wp (auth_sm_step cfg env w) (\<lambda>wa'. settles wa wa' \<and> \<not> auth_changed wa')"
      by (rule wp_mono) (use r verified_trans [of wa w] in \<open>auto simp: settles_def auth_changed_def\<close>)
    then show ?thesis using True w(1) by (subst auth_sm_step.simps) (simp add: auth_changed_def)
  next
    case False
    then show ?thesis using r w(1) by (subst auth_sm_step.simps) (simp add: auth_changed_def settles_def reset_rank)
  qed
qed

interpretation run: station_step "auth_sm_step cfg" for cfg
  by unfold_locales (auto intro: wp_mono [OF auth_sm_step_wp])

lemma rekey_gtk_loop_wp:
  assumes "auth_wf wa" "auth_env_ok env"
  shows "wp (rekey_gtk_loop cfg env wa) (\<lambda>wa'. auth_wf wa' \<and> (ptk_done wa' \<longrightarrow> ptk_done wa) \<and> verified wa wa')"
  using assms(1)
proof (induction "group_rank (wa_group wa)" arbitrary: wa rule: less_induct)
  case less
  define u where "u = grp (g_changed_update (\<lambda>_. False)) wa"
  have u: "auth_wf u" "\<not> g_changed (wa_group u)" "group_rank (wa_group u) = group_rank (wa_group wa)" "as_ptk_state (wa_sta u) = as_ptk_state (wa_sta wa)"
    "\<And>w. verified u w = verified wa w"
    using less.prems by (simp_all add: u_def auth_wf_reset reset_rank)
  obtain w where w: "wpa_group_sm_step cfg env (auth_sm_step cfg env) u = Some w" "regroups u w"
    using run.group_sm_step_wp [OF u(1) assms(2), of cfg cfg] by (auto simp: wp_def)
  then have r: "auth_wf w" "ptk_done w \<Longrightarrow> ptk_done wa" "verified wa w" "g_changed (wa_group w) \<Longrightarrow> group_rank (wa_group w) < group_rank (wa_group wa)"
    using u by (auto simp: regroups_def)
  show ?case
  proof (cases "g_changed (wa_group w)")
    case True
    from less.hyps [OF r(4) [OF True] r(1)] have "wp (rekey_gtk_loop cfg env w) (\<lambda>wa'. auth_wf wa' \<and> (ptk_done wa' \<longrightarrow> ptk_done wa) \<and> verified wa wa')"
      by (rule wp_mono) (use r verified_trans in blast)
    then show ?thesis using True w(1) by (subst rekey_gtk_loop.simps) (simp add: u_def)
  next
    case False
    then show ?thesis using r w(1) by (subst rekey_gtk_loop.simps) (simp add: u_def)
  qed
qed

section \<open>Reception\<close>

lemma frame_key: "99 \<le> length frame \<Longrightarrow> key_wf (eapol_key_of (drop 4 frame)) \<and> length (k_data (eapol_key_of (drop 4 frame))) = length frame - 99"
  by (simp add: eapol_key_of_def key_wf_def)

lemma mark_invalid_wf: "length (wpa_replay_counter_mark_invalid rs c) = length rs"
  "(\<forall>x \<in> set (wpa_replay_counter_mark_invalid rs c). length (fst x) = 8) = (\<forall>x \<in> set rs. length (fst x) = 8)"
  by (auto simp: wpa_replay_counter_mark_invalid_def split_beta)

lemma rekey_gtk_wp:
  assumes "auth_wf wa" "auth_env_ok env"
  shows "wp (wpa_rekey_gtk cfg env wa) (\<lambda>wa'. auth_wf wa' \<and> (ptk_done wa' \<longrightarrow> ptk_done wa) \<and> verified wa wa')"
proof -
  have u: "auth_wf (grp (g_GTKReKey_update (\<lambda>_. True)) wa)" using assms(1) by (simp add: auth_wf_def)
  have t: "auth_wf (w\<lparr>wa_rekey_gtk_timer := n\<rparr>) = auth_wf w" for w n by (simp add: auth_wf_def)
  show ?thesis
    unfolding wpa_rekey_gtk_def using rekey_gtk_loop_wp [OF u assms(2), of cfg] by (auto simp: t verified_def elim!: wp_mono)
qed

lemma pairwise_2_wp:
  assumes "auth_wf wa"
  shows "wp (receive_pairwise_2 cfg wa data) (\<lambda>(go, wa'). auth_wf wa' \<and> wa_sta wa' = wa_sta wa)"
proof -
  obtain r kde where p: "wpa_parse_kde_ies cfg data = Some (r, kde)" "kd_inside (length data) kde" using parse_kde_inside [of cfg data] by blast
  then obtain rsn wpa where "kd_bytes data (kd_rsn_ie kde) = Some rsn" "kd_bytes data (kd_wpa_ie kde) = Some wpa"
    using kd_bytes_wp [of "length data" "kd_rsn_ie kde" data] kd_bytes_wp [of "length data" "kd_wpa_ie kde" data]
    by (auto simp: kd_inside_def kd_spans_def wp_def)
  moreover have "wp (wpa_compare_rsn_ie cfg ft (Some a) b) (\<lambda>_. True)" for ft a b
    using compare_rsn_wp [of cfg ft a] by (cases b) (auto simp: wpa_compare_rsn_ie_def)
  note compare = wp_mono [OF this]
  ultimately show ?thesis
    using assms p(1) unfolding receive_pairwise_2_def Let_def
    by (cases "as_wpa_ie (wa_sta wa)") (auto simp: wpa_sta_disconnect_def intro!: compare)
qed

lemma switch_wp:
  assumes "auth_wf wa"
  shows "wp (receive_switch cfg wa msg data) (\<lambda>(go, wa'). auth_wf wa' \<and> wa_sta wa' = wa_sta wa)"
  using assms unfolding receive_switch_def by (cases msg) (auto intro!: wp_mono [OF pairwise_2_wp])

lemma counter_wp:
  assumes "sta_wf sm" "key_wf key"
  shows "wp (receive_counter sm key msg) (\<lambda>c. \<forall>sm'. c = Some sm' \<longrightarrow> sta_wf sm' \<and> as_ptk_state sm' = as_ptk_state sm \<and>
    (sm' = sm \<and> (has (k_info key) WPA_KEY_INFO_REQUEST \<or> wpa_replay_counter_valid (as_key_replay sm) (k_replay_counter key)) \<or> as_update_snonce sm'))"
proof -
  have "length (k_replay_counter key) = 8" "length (as_req_replay_counter sm) = 8" using assms by (simp_all add: key_wf_def sta_wf_def)
  then obtain c where "os_memcmp (k_replay_counter key) (as_req_replay_counter sm) 8 = Some c" using memcmp_le by blast
  then show ?thesis using assms(1) by (simp add: receive_counter_def)
qed

lemma request_ptk: "auth_wf wa \<Longrightarrow> auth_wf (wpa_request_new_ptk wa)" "as_ptk_state (wa_sta (wpa_request_new_ptk wa)) = as_ptk_state (wa_sta wa)"
  by (simp_all add: wpa_request_new_ptk_def auth_wf_def)

lemma request_wp:
  assumes "auth_wf wa" "auth_env_ok env" "key_wf key"
  shows "wp (receive_request cfg env wa key data) (\<lambda>(go, wa'). auth_wf wa' \<and> (ptk_done wa' \<longrightarrow> ptk_done wa))"
proof -
  define w where "w = sta (\<lambda>sm. sm\<lparr>as_req_replay_counter_used := True, as_req_replay_counter := k_replay_counter key\<rparr>) wa"
  have w: "auth_wf w" "as_ptk_state (wa_sta w) = as_ptk_state (wa_sta wa)"
    using assms(1,3) by (simp_all add: w_def auth_wf_def sta_wf_def key_wf_def)
  have t: "auth_wf (v\<lparr>wa_rekey_gtk_timer := n\<rparr>) = auth_wf v" "auth_wf (v\<lparr>wa_TKIPRemoteMICFailures := m\<rparr>) = auth_wf v"
    "auth_wf (sta (as_TKIPRemoteMICFailures_update f) v) = auth_wf v" for v n m f by (simp_all add: auth_wf_def)
  have rekey: "wp (wpa_rekey_gtk cfg env (w\<lparr>wa_rekey_gtk_timer := None\<rparr>)) (\<lambda>wa'. auth_wf wa' \<and> (ptk_done wa' \<longrightarrow> ptk_done wa))"
    using rekey_gtk_wp [of "w\<lparr>wa_rekey_gtk_timer := None\<rparr>" env cfg] w assms(2) by (auto simp: t elim!: wp_mono)
  have report: "auth_wf (snd (wpa_receive_error_report env w g)) \<and> as_ptk_state (wa_sta (snd (wpa_receive_error_report env w g))) = as_ptk_state (wa_sta wa)" for g
    using w by (auto simp: wpa_receive_error_report_def Let_def request_ptk t)
  have "wp (wpa_parse_kde_ies cfg data) (\<lambda>_. True)" using parse_kde_inside [of cfg data] by auto
  note parse = wp_mono [OF this]
  show ?thesis
    unfolding receive_request_def Let_def w_def [symmetric]
    using assms(1) w report [of "\<not> has (k_info key) WPA_KEY_INFO_KEY_TYPE"] rekey
    by (auto simp: request_ptk split_beta intro!: parse)
qed

lemma store_wp:
  assumes "auth_wf wa" "auth_env_ok env" "key_wf key" "length frame < 2 ^ 30"
  shows "wp (receive_store cfg env wa key frame) (\<lambda>wa'. auth_wf wa' \<and> (ptk_done wa' \<longrightarrow> ptk_done wa \<or>
    \<not> has (k_info key) WPA_KEY_INFO_REQUEST \<and> has (k_info key) WPA_KEY_INFO_KEY_TYPE \<and> as_MICVerified (wa_sta wa)))"
proof -
  define w where "w = sta (\<lambda>sm. sm\<lparr>as_last_rx_eapol_key := Some frame, as_last_rx_eapol_key_len := length frame,
        as_rx_eapol_key_secure := has (k_info key) WPA_KEY_INFO_SECURE, as_EAPOLKeyReceived := True,
        as_EAPOLKeyPairwise := has (k_info key) WPA_KEY_INFO_KEY_TYPE, as_EAPOLKeyRequest := has (k_info key) WPA_KEY_INFO_REQUEST,
        as_SNonce := k_nonce key\<rparr>) wa"
  have "auth_wf w" using assms(1,3,4) by (simp add: w_def auth_wf_def sta_wf_def key_wf_def)
  from auth_sm_step_wp [OF this assms(2), of cfg] show ?thesis
    using assms(2) unfolding receive_store_def w_def [symmetric]
    by (auto simp: auth_env_ok_def settles_def verified_def w_def elim!: wp_mono)
qed

lemma mark_wf: "auth_wf wa \<Longrightarrow> auth_wf (sta (receive_mark key msg) wa)"
  by (simp add: receive_mark_def auth_wf_def sta_wf_def mark_invalid_wf Let_def)

lemma checked_wp:
  assumes "auth_wf wa" "auth_env_ok env" "key_wf key" "length frame < 2 ^ 30"
  shows "wp (receive_checked cfg env wa key msg data frame) (\<lambda>wa'. auth_wf wa' \<and> (ptk_done wa' \<longrightarrow> ptk_done wa \<or>
    \<not> has (k_info key) WPA_KEY_INFO_ACK \<and> has (k_info key) WPA_KEY_INFO_MIC \<and>
    \<not> has (k_info key) WPA_KEY_INFO_REQUEST \<and> has (k_info key) WPA_KEY_INFO_KEY_TYPE \<and>
    as_PTK_valid (wa_sta wa) \<and> \<not> as_update_snonce (wa_sta wa) \<and> wpa_verify_key_mic cfg (as_PTK (wa_sta wa)) frame = Some True))"
proof -
  define w where "w = sta (as_MICVerified_update (\<lambda>_. False)) wa"
  define v where "v = sta (\<lambda>sm. sm\<lparr>as_MICVerified := True, as_send_timeouts := [], as_pending_1_of_4_timeout := False\<rparr>) w"
  have wf: "auth_wf w" "auth_wf v" "length (as_PTK (wa_sta wa)) = 64" using assms(1) by (simp_all add: w_def v_def auth_wf_def sta_wf_def)
  have eq: "as_ptk_state (wa_sta w) = as_ptk_state (wa_sta wa)" "as_ptk_state (wa_sta v) = as_ptk_state (wa_sta wa)"
    "as_PTK (wa_sta w) = as_PTK (wa_sta wa)" "as_PTK_valid (wa_sta w) = as_PTK_valid (wa_sta wa)" "as_update_snonce (wa_sta w) = as_update_snonce (wa_sta wa)"
    "\<not> as_MICVerified (wa_sta w)" by (simp_all add: w_def v_def)
  obtain ok where ok: "wpa_verify_key_mic cfg (as_PTK (wa_sta wa)) frame = Some ok"
    using verify_key_mic_wp [OF wf(3) assms(4), of cfg] by (auto simp: wp_def)
  have rest: "wp (do { (go, u) \<leftarrow> (if has (k_info key) WPA_KEY_INFO_REQUEST then receive_request cfg env u key data
            else Some (True, sta (receive_mark key msg) u));
          if go then receive_store cfg env u key frame else Some u }) (\<lambda>wa'. auth_wf wa' \<and> (ptk_done wa' \<longrightarrow> ptk_done u \<or>
            \<not> has (k_info key) WPA_KEY_INFO_REQUEST \<and> has (k_info key) WPA_KEY_INFO_KEY_TYPE \<and> as_MICVerified (wa_sta u)))"
    if u: "auth_wf u" for u
  proof (cases "has (k_info key) WPA_KEY_INFO_REQUEST")
    case True
    then show ?thesis
      by (auto intro!: wp_mono [OF request_wp [OF u assms(2,3)]] wp_mono [OF store_wp] assms)
  next
    case False
    have s: "as_ptk_state (receive_mark k m sm) = as_ptk_state sm" "as_MICVerified (receive_mark k m sm) = as_MICVerified sm" for k m sm
      by (simp_all add: receive_mark_def Let_def)
    from False show ?thesis using store_wp [OF mark_wf [OF u] assms(2-4)] by (simp add: s)
  qed
  show ?thesis
    unfolding receive_checked_def Let_def w_def [symmetric] v_def [symmetric] eq(3-5)
    using assms(1) wf rest [of w] rest [of v] eq ok by (auto elim!: wp_mono)
qed

lemma receive_wp:
  assumes "auth_wf wa" "auth_env_ok env" "length frame < 2 ^ 30"
  shows "wp (wpa_receive cfg env wa frame) (\<lambda>wa'. auth_wf wa' \<and> (ptk_done wa' \<longrightarrow> ptk_done wa \<or>
    (let key = eapol_key_of (drop 4 frame) in
      \<not> has (k_info key) WPA_KEY_INFO_ACK \<and> has (k_info key) WPA_KEY_INFO_MIC \<and>
      \<not> has (k_info key) WPA_KEY_INFO_REQUEST \<and> has (k_info key) WPA_KEY_INFO_KEY_TYPE \<and> as_PTK_valid (wa_sta wa) \<and>
      wpa_verify_key_mic cfg (as_PTK (wa_sta wa)) frame = Some True \<and>
      wpa_replay_counter_valid (as_key_replay (wa_sta wa)) (k_replay_counter key))))" (is "wp _ ?P")
proof (cases "length frame < 99")
  case True
  then show ?thesis using assms(1) by (simp add: wpa_receive_def)
next
  case False
  define key where "key = eapol_key_of (drop 4 frame)"
  have k: "key_wf key" using frame_key [of frame] False by (simp add: key_def)
  define msg where "msg = receive_msg (k_info key) (k_data_length key)"
  obtain c where c: "receive_counter (wa_sta wa) key msg = Some c" "\<And>sm'. c = Some sm' \<Longrightarrow> sta_wf sm' \<and> as_ptk_state sm' = as_ptk_state (wa_sta wa) \<and>
    (sm' = wa_sta wa \<and> (has (k_info key) WPA_KEY_INFO_REQUEST \<or> wpa_replay_counter_valid (as_key_replay (wa_sta wa)) (k_replay_counter key)) \<or> as_update_snonce sm')"
    using counter_wp [OF _ k, of "wa_sta wa" msg] assms(1) by (auto simp: wp_def auth_wf_def)
  have go: "wp (do { (go, wa) \<leftarrow> receive_switch cfg (wa\<lparr>wa_sta := sm\<rparr>) msg data;
      if go then receive_checked cfg env wa key msg data frame else Some wa }) ?P"
    if sm: "c = Some sm" for sm data
  proof -
    have w: "auth_wf (wa\<lparr>wa_sta := sm\<rparr>)" using c(2) [OF sm] assms(1) by (simp add: auth_wf_def)
    have "wp (receive_checked cfg env w key msg data frame) ?P" if "auth_wf w" "wa_sta w = sm" for w
      using c(2) [OF sm] that by (auto simp: key_def [symmetric] intro!: wp_mono [OF checked_wp [OF _ assms(2) k assms(3)]])
    then show ?thesis
      using c(2) [OF sm] by (auto intro!: wp_mono [OF switch_wp [OF w]])
  qed
  show ?thesis
    using assms(1) c(1) go unfolding wpa_receive_def Let_def key_def [symmetric] msg_def [symmetric] by (auto split: option.split)
qed

section \<open>Events\<close>

lemma step_wf: "auth_wf wa \<Longrightarrow> auth_env_ok env \<Longrightarrow> wp (auth_sm_step cfg env wa) auth_wf"
  by (auto simp: settles_def intro!: wp_mono [OF auth_sm_step_wp])

lemma timeout_wp: "auth_wf wa \<Longrightarrow> auth_env_ok env \<Longrightarrow> wp (wpa_send_eapol_timeout cfg env wa) auth_wf"
  unfolding wpa_send_eapol_timeout_def by (rule step_wf) (simp_all add: auth_wf_def)

lemma rekey_ptk_wp: "auth_wf wa \<Longrightarrow> auth_env_ok env \<Longrightarrow> wp (wpa_rekey_ptk cfg env wa) auth_wf"
  unfolding wpa_rekey_ptk_def by (rule step_wf) (simp_all add: request_ptk)

lemma rekey_gmk_wf: "auth_wf wa \<Longrightarrow> auth_env_ok env \<Longrightarrow> auth_wf (wpa_rekey_gmk env wa)"
  by (auto simp: wpa_rekey_gmk_def auth_random_def Let_def auth_wf_def group_wf_def auth_env_ok_def split: option.split)

lemma tx_status_wf: "auth_wf wa \<Longrightarrow> auth_wf (wpa_auth_eapol_key_tx_status wa ack)"
  by (simp add: wpa_auth_eapol_key_tx_status_def auth_wf_def)

lemma gtk_rekey_wp:
  assumes "auth_wf wa" "auth_env_ok env"
  shows "wp (wpa_gtk_rekey cfg env wa) auth_wf"
proof -
  have r: "wp (do { w \<leftarrow> wpa_gtk_update cfg env (grp (\<lambda>g. g\<lparr>g_GM := g_GN g, g_GN := g_GM g, g_GM_igtk := g_GN_igtk g, g_GN_igtk := g_GM_igtk g\<rparr>) w);
        map_option snd (wpa_group_config_group_keys cfg env w) }) auth_wf" if "auth_wf w" for w
  proof -
    have "auth_wf (grp (\<lambda>g. g\<lparr>g_GM := g_GN g, g_GN := g_GM g, g_GM_igtk := g_GN_igtk g, g_GN_igtk := g_GM_igtk g\<rparr>) w)"
      using that by (auto simp: auth_wf_def intro: group_wf_swap)
    from gtk_update_wp [OF this assms(2), of cfg] show ?thesis
      by (auto simp: still_def elim!: wp_mono intro!: wp_mono [OF config_keys_wp])
  qed
  show ?thesis
    unfolding wpa_gtk_rekey_def Let_def wp_bind [of "wpa_gtk_update cfg env w \<bind> f" for w f] by (rule wp_mono [OF r [OF assms(1)]]) (rule r)
qed

lemma sta_start_wp:
  assumes "auth_wf wa" "auth_env_ok env"
  shows "wp (sta_start cfg env wa) auth_wf"
proof -
  have "auth_wf (sta (\<lambda>sm. sm\<lparr>as_started := True, as_Init := True\<rparr>) wa)" using assms(1) by (simp add: auth_wf_def)
  from step_wf [OF this assms(2), of cfg] show ?thesis
    unfolding sta_start_def by (auto simp: auth_wf_def elim!: wp_mono)
qed

lemma associated_wp:
  assumes "auth_wf wa" "auth_env_ok env"
  shows "wp (wpa_auth_sta_associated cfg env wa) (\<lambda>(r, wa'). auth_wf wa')"
proof -
  have "auth_wf (sta (\<lambda>sm. sm\<lparr>as_key_replay := replicate 4 (replicate 8 0, False), as_ReAuthenticationRequest := True\<rparr>) wa)"
    using assms(1) by (simp add: auth_wf_def sta_wf_def)
  then show ?thesis
    unfolding wpa_auth_sta_associated_def using assms
    by (auto intro!: wp_mono [OF sta_start_wp] step_wf)
qed

lemma sm_event_wp:
  assumes "auth_wf wa" "auth_env_ok env"
  shows "wp (wpa_auth_sm_event cfg env wa event) auth_wf"
proof -
  define m where "m = (if event = WPA_DEAUTH \<or> event = WPA_DISASSOC then Some (sta (as_DeauthenticationRequest_update (\<lambda>_. True)) wa)
       else if event = WPA_REAUTH \<or> event = WPA_REAUTH_EAPOL then
         (if \<not> as_started (wa_sta wa) then sta_start cfg env wa
          else Some (sta (as_ReAuthenticationRequest_update (\<lambda>_. True))
            (if as_GUpdateStationKeys (wa_sta wa) then sta (as_PtkGroupInit_update (\<lambda>_. True)) (clear_update_keys wa) else wa)))
       else Some wa)"
  have "wp m auth_wf" using sta_start_wp [OF assms, of cfg] assms(1) by (simp add: m_def auth_wf_def clear_update_keys_def)
  then obtain w where w: "m = Some w" "auth_wf w" by (auto simp: wp_def)
  have "auth_wf (sta (\<lambda>sm. sm\<lparr>as_PTK_valid := False, as_PTK := replicate 64 0\<rparr>) w)" using w(2) by (simp add: auth_wf_def)
  moreover from remove_ptk_wf [OF this] have "auth_wf (wpa_remove_ptk env (sta (\<lambda>sm. sm\<lparr>as_PTK_valid := False, as_PTK := replicate 64 0\<rparr>) w))"
    by (simp add: still_def)
  ultimately show ?thesis
    using w(2) assms(2) unfolding wpa_auth_sm_event_def m_def [symmetric] w(1) Option.bind.bind_lunit Let_def
    by (auto intro!: step_wf)
qed

section \<open>Start\<close>

lemma gtk_update_init:
  assumes "sta_wf (wa_sta wa)" "length (wa_addr wa) = 6" "own_ie_ok (wa_wpa_ie wa)" "length (g_Counter (wa_group wa)) = 32"
    "length (g_GMK (wa_group wa)) = 32" "length (g_GNonce (wa_group wa)) = 32" "g_GTK_len (wa_group wa) \<le> 32"
    "length (g_IGTK (wa_group wa)) = 2" "\<forall>k \<in> set (g_IGTK (wa_group wa)). length k = 16" "auth_env_ok env"
  shows "wp (wpa_group_gtk_init cfg env wa) auth_wf"
proof -
  define w where "w = grp (\<lambda>g. g\<lparr>g_changed := False, g_state := WPA_GROUP_GTK_INIT,
       g_GTK := replicate 2 (replicate 32 0), g_GN := 1, g_GM := 2, g_GN_igtk := 4, g_GM_igtk := 5\<rparr>) wa"
  have "group_wf (wa_group w)" unfolding w_def grp_simps by (rule group_wf_init) (use assms in simp_all)
  then have "auth_wf w" using assms by (simp add: w_def auth_wf_def)
  from gtk_update_wp [OF this assms(10), of cfg] show ?thesis
    unfolding wpa_group_gtk_init_def w_def [symmetric] by (auto simp: still_def elim!: wp_mono)
qed

lemma sta_alloc_wf: "length addr = 6 \<Longrightarrow> sta_wf (sta_alloc addr)"
  by (simp add: sta_alloc_def sta_wf_def)

lemma cipher_len: "wpa_cipher_key_len c \<le> 32"
  by (simp add: wpa_cipher_key_len_def)

lemma group_init_wp:
  assumes "length (wa_addr wa) = 6" "auth_env_ok env"
  shows "wp (wpa_group_init cfg env wa) (\<lambda>(ok, wa'). ok \<longrightarrow> wa_sta wa' = wa_sta wa \<and> wa_addr wa' = wa_addr wa \<and> wa_wpa_ie wa' = wa_wpa_ie wa \<and>
    g_GInit (wa_group wa') \<and> length (g_Counter (wa_group wa')) = 32 \<and> length (g_GMK (wa_group wa')) = 32 \<and> length (g_GNonce (wa_group wa')) = 32 \<and>
    g_GTK_len (wa_group wa') \<le> 32 \<and> length (g_IGTK (wa_group wa')) = 2 \<and> (\<forall>k \<in> set (g_IGTK (wa_group wa')). length k = 16))"
proof -
  define buf where "buf = wa_addr wa @ ae_ntp env @ ae_group_ptr env"
  have "length buf = 22" using assms by (simp add: buf_def auth_env_ok_def)
  then have expand: "\<exists>out. sha1_prf key (c_lit ''Init Counter'') buf 32 = Some (0, out) \<and> length out = 32" if "length key = 32" for key
    using that labels(6) by (intro sha1_prf_length [OF labels(5)]) simp_all
  have rnd: "length r = n" if "ae_random env i n = Some r" for i n r using assms(2) that by (auto simp: auth_env_ok_def)
  show ?thesis
  proof (cases "ae_random env (wa_rand wa) 32 = None \<or> ae_random env (wa_rand wa + 1) 32 = None")
    case True
    then show ?thesis by (cases "ae_random env (wa_rand wa) 32") (auto simp: wpa_group_init_def wpa_group_init_gmk_and_counter_def auth_random_def Let_def)
  next
    case False
    then obtain k r where k: "ae_random env (wa_rand wa) 32 = Some k" "ae_random env (wa_rand wa + 1) 32 = Some r" by auto
    then obtain out where "sha1_prf r (c_lit ''Init Counter'') buf 32 = Some (0, out)" "length out = 32" using expand [OF rnd] by blast
    then show ?thesis
      using k rnd [OF k(1)] by (simp add: wpa_group_init_def wpa_group_init_gmk_and_counter_def auth_random_def buf_def Let_def group_alloc_def cipher_len)
  qed
qed

text \<open>\<open>wpa_init\<close> and \<open>wpa_init_keys\<close>: a new group with its first keys.\<close>

lemma init_wp:
  assumes "length (wa_addr wa) = 6" "own_ie_ok (wa_wpa_ie wa)" "sta_wf (wa_sta wa)" "auth_env_ok env"
    "wpa_group_init cfg env wa = Some (True, wa')"
  shows "wp (wpa_init_keys cfg env wa') auth_wf"
proof -
  note g = group_init_wp [OF assms(1,4), of cfg, unfolded assms(5), simplified]
  have "wp (wpa_group_gtk_init cfg env wa') auth_wf"
    by (rule gtk_update_init) (use assms g in simp_all)
  then obtain w where w: "wpa_group_gtk_init cfg env wa' = Some w" "auth_wf w" by (auto simp: wp_def)
  have "auth_wf (grp (g_GInit_update (\<lambda>_. False)) w)" using w(2) by (simp add: auth_wf_def)
  note second = run.group_sm_step_wp [OF this assms(4), of cfg cfg]
  have "wpa_group_sm_step cfg env (auth_sm_step cfg env) wa' = Some w"
    using w(1) g by (simp add: wpa_group_sm_step_def)
  with second show ?thesis by (auto simp: wpa_init_keys_def regroups_def elim!: wp_mono)
qed

end
