(* ===== verification/Authenticator.thy ===== *)
theory Authenticator
  imports Handshake Wpa_Auth_Run
begin

text \<open>
  Properties of the authenticator of \<open>src/drc-hostap/src/ap/wpa_auth.c\<close> over all sequences of events: from a started
  authenticator every event is handled to its end inside the bounds of all objects, and a pairwise key is taken into use only for
  a frame of the station that carries a fresh replay counter and a MIC under the PTK.
\<close>

section \<open>Events and reachable states\<close>

text \<open>What the event loop can call: reception of a frame, the timers, events of the station's association, and the control interface.\<close>

datatype auth_input =
    In_Receive bytes
  | In_Timeout
  | In_Associated
  | In_Event wpa_event
  | In_Rekey_Ptk
  | In_Rekey_Gtk
  | In_Rekey_Gmk
  | In_Gtk_Rekey
  | In_Tx_Status bool

fun auth_handle :: "build_config \<Rightarrow> auth_env \<Rightarrow> wpa_authenticator \<Rightarrow> auth_input \<Rightarrow> wpa_authenticator option" where
  "auth_handle cfg env wa (In_Receive frame) = wpa_receive cfg env wa frame"
| "auth_handle cfg env wa In_Timeout = wpa_send_eapol_timeout cfg env wa"
| "auth_handle cfg env wa In_Associated = map_option snd (wpa_auth_sta_associated cfg env wa)"
| "auth_handle cfg env wa (In_Event e) = wpa_auth_sm_event cfg env wa e"
| "auth_handle cfg env wa In_Rekey_Ptk = wpa_rekey_ptk cfg env wa"
| "auth_handle cfg env wa In_Rekey_Gtk = wpa_rekey_gtk cfg env wa"
| "auth_handle cfg env wa In_Rekey_Gmk = Some (wpa_rekey_gmk env wa)"
| "auth_handle cfg env wa In_Gtk_Rekey = wpa_gtk_rekey cfg env wa"
| "auth_handle cfg env wa (In_Tx_Status ack) = Some (wpa_auth_eapol_key_tx_status wa ack)"

fun auth_input_ok :: "auth_input \<Rightarrow> bool" where
  "auth_input_ok (In_Receive frame) \<longleftrightarrow> length frame < 2 ^ 30"
| "auth_input_ok input \<longleftrightarrow> True"

text \<open>A started authenticator; between events the association writes what it negotiated with the station.\<close>

inductive auth_reach :: "build_config \<Rightarrow> wpa_authenticator \<Rightarrow> bool" for cfg where
  auth_start: "length addr = 6 \<Longrightarrow> length (wa_addr wa) = 6 \<Longrightarrow> own_ie_ok (wa_wpa_ie wa) \<Longrightarrow> auth_env_ok env \<Longrightarrow>
    wpa_group_init cfg env (wpa_auth_sta_init addr wa) = Some (True, wa1) \<Longrightarrow> wpa_init_keys cfg env wa1 = Some wa2 \<Longrightarrow> auth_reach cfg wa2"
| auth_assoc: "auth_reach cfg wa \<Longrightarrow> (\<And>pmk pmkid. pmksa = Some (pmk, pmkid) \<Longrightarrow> 32 \<le> length pmk \<and> 16 \<le> length pmkid) \<Longrightarrow>
    auth_reach cfg (sta (\<lambda>sm. sm\<lparr>as_wpa_ie := ie, as_wpa := v, as_pairwise := p, as_wpa_key_mgmt := k, as_pmksa := pmksa,
      as_mgmt_frame_prot := m\<rparr>) wa)"
| auth_input: "auth_reach cfg wa \<Longrightarrow> auth_env_ok env \<Longrightarrow> auth_input_ok input \<Longrightarrow> auth_handle cfg env wa input = Some wa' \<Longrightarrow> auth_reach cfg wa'"

lemma handle_wp:
  assumes "auth_wf wa" "auth_env_ok env" "auth_input_ok input"
  shows "wp (auth_handle cfg env wa input) auth_wf"
  using assms
  by (cases input) (auto intro: timeout_wp sm_event_wp rekey_ptk_wp gtk_rekey_wp rekey_gmk_wf tx_status_wf
    wp_mono [OF receive_wp] wp_mono [OF associated_wp] wp_mono [OF rekey_gtk_wp])

lemma reach_wf: "auth_reach cfg wa \<Longrightarrow> auth_wf wa"
proof (induction rule: auth_reach.induct)
  case (auth_start addr wa env wa1 wa2)
  have "wp (wpa_init_keys cfg env wa1) auth_wf"
    by (rule init_wp [OF _ _ _ auth_start(4,5)]) (use auth_start in \<open>simp_all add: wpa_auth_sta_init_def sta_alloc_wf\<close>)
  then show ?case using auth_start(6) by (simp add: wp_def)
next
  case (auth_assoc wa pmksa ie v p k m)
  then show ?case by (simp add: auth_wf_def sta_wf_def)
next
  case (auth_input wa env input wa')
  then show ?case using handle_wp [OF auth_input.IH auth_input.hyps(2,3), of cfg] by (simp add: wp_def)
qed

section \<open>Samples\<close>

definition sample_ap_4 :: wpa_authenticator where
  "sample_ap_4 = sta (\<lambda>sm. sm\<lparr>as_ptk_state := WPA_PTK_PTKINITNEGOTIATING, as_PTK := replicate 64 9, as_PTK_valid := True, as_Pair := True,
     as_key_replay := (replicate 8 0, True) # replicate 3 (replicate 8 0, False)\<rparr>)
     (grp (\<lambda>g. g\<lparr>g_GN_igtk := 4, g_GM_igtk := 5\<rparr>) sample_ap)"

lemma sample_auth_env_ok: "auth_env_ok sample_auth_env"
  by (simp add: auth_env_ok_def sample_auth_env_def)

lemma sample_own_ie: "own_ie_ok sample_rsn_ie"
  by (simp add: own_ie_ok_def sample_rsn_ie_def)

lemma sample_started: "\<exists>wa. auth_reach cfg wa"
proof -
  define w where "w = wpa_auth_sta_init sample_own sample_ap"
  have w: "length (wa_addr w) = 6" "own_ie_ok (wa_wpa_ie w)" "sta_wf (wa_sta w)" "wa_rand w = 0"
    using sample_own_ie by (simp_all add: w_def wpa_auth_sta_init_def sample_ap_def sta_alloc_wf)
  obtain ok w1 where w1: "wpa_group_init cfg sample_auth_env w = Some (ok, w1)"
    using group_init_wp [OF w(1) sample_auth_env_ok, of cfg] by (auto simp: wp_def)
  have ok
  proof -
    let ?buf = "wa_addr w @ ae_ntp sample_auth_env @ ae_group_ptr sample_auth_env" and ?key = "replicate 32 (of_nat 1 + 3) :: bytes"
    have "length ?buf = 22" using w(1) by (simp add: sample_auth_env_def)
    then obtain out where "sha1_prf ?key (c_lit ''Init Counter'') ?buf 32 = Some (0, out)"
      using sha1_prf_length [OF labels(5), of ?key ?buf 32] labels(6) by auto
    then show ?thesis using w1 w(4)
      by (simp add: wpa_group_init_def wpa_group_init_gmk_and_counter_def auth_random_def sample_auth_env_def Let_def)
  qed
  then have w1: "wpa_group_init cfg sample_auth_env w = Some (True, w1)" using w1 by simp
  then obtain w2 where "wpa_init_keys cfg sample_auth_env w1 = Some w2"
    using init_wp [OF w(1-3) sample_auth_env_ok w1] by (auto simp: wp_def)
  then have "auth_reach cfg w2"
    using w1 w sample_auth_env_ok by (intro auth_start [of sample_own sample_ap sample_auth_env]) (simp_all add: w_def wpa_auth_sta_init_def)
  then show ?thesis by blast
qed

section \<open>Properties\<close>



text \<open>
  C3. The authenticator takes a pairwise key into use (state \<open>PTKINITDONE\<close>) on reception only for a pairwise frame that
  is no request, that carries a MIC which verifies under the PTK in use, and a replay counter that the authenticator has
  sent and not yet seen answered.
\<close>

theorem ptkinitdone_authenticated:
  assumes "auth_wf wa" "auth_env_ok env" "length frame < 2 ^ 30" "wpa_receive cfg env wa frame = Some wa'"
    and "as_ptk_state (wa_sta wa) \<noteq> WPA_PTK_PTKINITDONE" "as_ptk_state (wa_sta wa') = WPA_PTK_PTKINITDONE"
    and "key = eapol_key_of (drop 4 frame)"
  shows "has (k_info key) WPA_KEY_INFO_KEY_TYPE \<and> \<not> has (k_info key) WPA_KEY_INFO_REQUEST \<and> \<not> has (k_info key) WPA_KEY_INFO_ACK \<and>
    has (k_info key) WPA_KEY_INFO_MIC \<and> as_PTK_valid (wa_sta wa) \<and> wpa_verify_key_mic cfg (as_PTK (wa_sta wa)) frame = Some True \<and>
    wpa_replay_counter_valid (as_key_replay (wa_sta wa)) (k_replay_counter key)"
  using receive_wp [OF assms(1-3), of cfg] assms(4-7) by (simp add: Let_def)

theorem ptkinitdone_authenticated_witness:
  "\<exists>frame wa'. wpa_receive pc2drc_config sample_auth_env sample_ap_4 frame = Some wa' \<and> as_ptk_state (wa_sta wa') = WPA_PTK_PTKINITDONE \<and>
    wpa_verify_key_mic pc2drc_config (as_PTK (wa_sta sample_ap_4)) frame = Some True"
proof -
  define k where "k = with_mic (take 16 (replicate 64 9)) 2 (message_4 (replicate 8 0))"
  have r: "ap_ready sample_ap_4 sample_bss sample_own sample_rsn_ie sample_rsn_ie (replicate 16 5)"
    using sample_ap_ready by (simp add: sample_ap_4_def ap_ready_def calm_def)
  have w: "ap_wait_4 sample_ap_4 (replicate 8 0) (replicate 64 9)"
    by (simp add: sample_ap_4_def ap_wait_4_def sample_ap_def sta_alloc_def)
  have wf: "auth_wf sample_ap_4" using sample_own_ie
    by (simp add: sample_ap_4_def auth_wf_def sta_wf_def group_wf_def sample_ap_def sta_alloc_def group_alloc_def)
  obtain wa' where wa': "wpa_receive pc2drc_config sample_auth_env sample_ap_4 (eapol_frame 2 k) = Some wa'" "as_ptk_state (wa_sta wa') = WPA_PTK_PTKINITDONE"
    using ap_message_4 [OF r w, of sample_auth_env k 2 pc2drc_config] by (auto simp: k_def sample_auth_env_def)
  have "key_wf (message_4 (replicate 8 0))" "k_data (message_4 (replicate 8 0)) = []" by (simp_all add: message_4_def key_wf_def)
  then have "length (eapol_frame 2 k) < 2 ^ 30" by (simp add: k_def length_eapol_frame with_mic_def key_wf_def length_hmac)
  from ptkinitdone_authenticated [OF wf sample_auth_env_ok this wa'(1) _ wa'(2) refl] w
  show ?thesis using wa' by (auto simp: ap_wait_4_def)
qed

end
