(* ===== verification/Spec2Isabelle.thy ===== *)
theory Spec2Isabelle
  imports Os_Internal Base64 Wpabuf Bitfield Common_Util Aes_Tables Aes_Mac Aes_Ccm Aes_Gcm Wpa_Ie Key_Data Pmksa_Auth Authenticator
begin

text \<open>
  Verification of the C core of pc2drc.

  pc2drc streams a PC screen to a Wii U gamepad. The gamepad speaks a modified WPA2: the repository
  carries \<open>drc-hostap\<close>, a patched \<open>hostapd\<close> and \<open>wpa_supplicant\<close>, \<open>drc-x264\<close>, a patched video encoder, and
  C++ programs around \<open>libdrc\<close>. The logic of the project's own protocol is in \<open>drc-hostap\<close>: with
  \<open>CONFIG_TENDONIN\<close> the pairwise key is rotated by three bytes and the CCMP and PSK selectors carry
  another vendor prefix. This development models that code from its byte primitives up to the key
  hierarchy and the information elements of the handshake.

  \<^bold>\<open>Conventions.\<close> A C object is the list of its bytes; \<open>c_read\<close>, \<open>c_slice\<close> and \<open>c_write\<close> of \<open>Prelude\<close>
  are \<open>None\<close> outside of it, so that a function returns \<open>Some\<close> exactly when it stays inside its
  buffers. Unsigned integers are words of their width and wrap; a return code is an \<open>int\<close>; a result
  pairs the return value with the bytes stored through output pointers. Allocation is an argument
  (\<open>mem\<close>), true when it succeeds. Compile-time switches are the record \<open>build_config\<close>;
  \<open>pc2drc_config\<close> is the build of the repository and \<open>stock_config\<close> the same without the patches.
  Logging, clearing of buffers after use and freeing memory have no counterpart.

  \<^bold>\<open>Theories and sources\<close> (paths under \<open>src/drc-hostap/src\<close>).
  \<^item> \<open>Prelude\<close>: types, configuration, checked access, byte order accessors of \<open>utils/common.h\<close>.
  \<^item> \<open>Os_Internal\<close>: \<open>utils/os_internal.c\<close>, memory and string routines; \<open>os_memmove\<close> is correct for
    every overlap.
  \<^item> \<open>Base64\<close>, \<open>Bitfield\<close>, \<open>Wpabuf\<close>, \<open>Common_Util\<close>: \<open>utils/base64.c\<close>, \<open>bitfield.c\<close>, \<open>wpabuf.c\<close>,
    \<open>common.c\<close>; round trips of the encoders, the bit field as a finite set, the buffer invariant and
    what every append and resize keeps of it, two overruns.
  \<^item> \<open>Aes_Internal\<close>, \<open>Aes_Correct\<close>, \<open>Aes_Tables\<close>: \<open>crypto/aes-internal*.c\<close>; the key schedules, both
    ciphers, decryption inverts encryption, the two table configurations agree.
  \<^item> \<open>Aes_Modes\<close>, \<open>Aes_Mac\<close>, \<open>Aes_Ccm\<close>, \<open>Aes_Gcm\<close>: \<open>crypto/aes-wrap.c\<close>, \<open>aes-unwrap.c\<close>, \<open>aes-cbc.c\<close>,
    \<open>aes-ctr.c\<close>, \<open>aes-omac1.c\<close>, \<open>aes-eax.c\<close>, \<open>aes-ccm.c\<close>, \<open>aes-gcm.c\<close>; round trips with authentication,
    equality with RFC 3394 and RFC 4493, multiplication in the field of GCM.
  \<^item> \<open>Hash_Spec\<close>, \<open>Sha1\<close>, \<open>Sha256\<close>, \<open>Md5\<close>: \<open>crypto/sha1-internal.c\<close>, \<open>sha256-internal.c\<close>, \<open>md5-internal.c\<close>;
    the incremental functions are the standard hashes however the input is split. The locale
    \<open>incremental_hash\<close> holds the argument the three share.
  \<^item> \<open>Hmac\<close>, \<open>Prf\<close>: \<open>crypto/sha1.c\<close>, \<open>sha256.c\<close>, \<open>md5.c\<close> and the files of the key expansions; the locales
    \<open>vector_hash\<close> and \<open>vector_mac\<close> are the interfaces between hash, HMAC and expansion, interpreted
    on the three hashes.
  \<^item> \<open>Wpa_Common\<close>: first part of \<open>common/wpa_common.c\<close>; both sides derive the same pairwise key, which is the
    key of the standard, rotated in the gamepad build.
  \<^item> \<open>Wpa_Cipher\<close>, \<open>Wpa_Ie\<close>, \<open>Key_Data\<close>: the rest of \<open>common/wpa_common.c\<close> and \<open>rsn_supp/wpa_ie.c\<close>;
    parsers stay inside their input, generated elements read back.
  \<^item> \<open>Pmksa_Cache\<close>: \<open>rsn_supp/pmksa_cache.c\<close>; the cache as a list of entries with addresses, its timers and
    the callback that clears the current entry. Invariant of the reachable states, refinement of a map, expiry,
    a use after free.
  \<^item> \<open>Rc4\<close>: \<open>crypto/rc4.c\<close>.
  \<^item> \<open>Wpa_Sm\<close>: \<open>rsn_supp/wpa.c\<close>, the supplicant's side of the handshakes. The record \<open>wpa_sm\<close> is
    \<open>struct wpa_sm\<close>, \<open>sm_env\<close> the answers of its callbacks, and \<open>sm_log\<close> the calls it makes, so that what goes to
    the driver is part of the state. \<open>Wpa_Sm_Safe\<close> proves with a weakest precondition, handler by handler, that
    reception is memory safe and configures keys for authenticated frames only; \<open>Wpa_Frames\<close> follows the
    frames of an authenticator that holds the PTK: replay protection, and one authenticated frame that is read
    outside of its buffer.
  \<^item> \<open>Wpa_Auth_Ie\<close>: \<open>ap/wpa_auth_ie.c\<close>, the elements and key data of the access point; the announced element
    reads back. The locale \<open>element_loop\<close> of \<open>Key_Data\<close> holds what both sides' parsers of key data share.
  \<^item> \<open>Wpa_Auth\<close>: \<open>ap/wpa_auth.c\<close> for one station. The record \<open>wpa_authenticator\<close> holds \<open>struct wpa_authenticator\<close> with
    its group and its station, \<open>auth_env\<close> the answers of callbacks, allocation and the random pool, \<open>wa_log\<close> the
    calls into the driver. The states of the three machines are one definition each, their steps follow
    \<open>SM_STEP\<close>, and \<open>auth_sm_step\<close> is the loop \<open>wpa_sm_step\<close> around them.
  \<^item> \<open>Wpa_Auth_Safe\<close>, \<open>Wpa_Auth_Run\<close>: every state of the machines stays inside its objects, handler by handler with the weakest
    precondition of \<open>Wpa_Sm_Safe\<close>, and the loops around them stop: a rank over the control fields decreases in every round
    that changes a state. The locale \<open>station_step\<close> states what the group machine relies on when it steps its station, and
    is interpreted on an idle station and on the whole loop \<open>auth_sm_step\<close>.
  \<^item> \<open>Pmksa_Auth\<close>: \<open>ap/pmksa_cache_auth.c\<close>, the access point's cache. Entries live in a heap, linked by \<open>next\<close> in the order of
    their expiration and by \<open>hnext\<close> in a hash chain per PMKID; the loops follow the pointers and return \<open>None\<close> when they
    meet freed memory or do not end. The invariant ties both chains to lists, addition refines an operation on a
    list, the number of entries is bounded, and the loop of \<open>pmksa_cache_get_okc\<close> does not end for some caches.
  \<^item> \<open>Handshake_Supplicant\<close>, \<open>Handshake\<close>: both sides together. The four-way handshake completes with the same keys on
    both sides, and a repeated message 3 installs the pairwise key again.
  \<^item> \<open>Authenticator\<close>: the access point over all sequences of events. Every event is handled to its end, and a pairwise
    key is taken into use only for an authenticated frame with a fresh replay counter.

  \<^bold>\<open>Bounds and fuel.\<close> Loops are structural or carry a measure. The padding loop of \<open>SHA1Final\<close>, which
  ends by a test on the bit count, has fuel 65: one call per byte of a block is enough, and the
  theorem about \<open>sha1_vector\<close> shows that it is. The loops of the state machines and of the linked
  lists are \<open>partial_function (option)\<close>, where \<open>None\<close> also means that the loop does not end; the theorems about
  them state that they return \<open>Some\<close>. Hash inputs are below \<open>2 ^ 31\<close> bytes and keys below
  \<open>2 ^ 30\<close>, where the 32-bit lengths of the sources do not wrap.

  \<^bold>\<open>Not modelled.\<close> Sockets, netlink, control interfaces and process start-up (input and output
  around the kernel); in \<open>wpa.c\<close> and \<open>wpa_auth.c\<close> fast transition, TDLS and WNM, which the build leaves out,
  PeerKey sessions, and text dumps; in \<open>wpa_auth.c\<close> also VLAN groups and the removal of a station while its
  machines run, and of \<open>wpa_auth_ie.c\<close> the validation of a station's element, whose outcome is a step of
  \<open>auth_reach\<close> with arbitrary choices; \<open>drc-x264\<close> (third-party encoder); the C++ programs. Of \<open>wpa_common.c\<close> the parser
  of fast transition elements and \<open>wpa_insert_pmkid\<close>, which the build of the repository leaves out.
\<close>

end
